(* ===== verification/Py_Prelude.thy ===== *)
theory Py_Prelude
  imports
    Complex_Main
    "HOL-Library.AList"
    "HOL-Library.Char_ord"
    "HOL-Library.List_Lexorder"
    "HOL-Library.Product_Lexorder"
begin

text \<open>
  The part of Python the orchestrator is written in: JSON values (what \<open>Any\<close> holds in the
  request, task and metadata dictionaries), the operations the code applies to them, strings,
  the exceptions that leave a function, and the sequence operations with Python's
  tie-breaking.

  Strings are lists of code points below 256 (Latin-1); on them \<open>strip\<close>, \<open>lower\<close>, \<open>str\<close>,
  \<open>repr\<close> and \<open>json.dumps\<close> are the functions of the language. A finite float
  carries its exact value together with the text \<open>repr\<close> gives it; the infinities and NaN,
  which \<open>json.loads\<close> also returns (\<open>1e999\<close> is an infinity), have constructors of their own. A dictionary is an
  association list in insertion order, updated with \<open>AList.update\<close>, which replaces a key in
  place and appends a new one, as a Python dictionary does.
\<close>

section \<open>Exceptions and fallible computations\<close>

datatype exn =
    TaskProtocolError string
  | PolicyError string string
  | TokenBudgetExceeded string
  | TypeError
  | ValueError string
  | KeyError string
  | AttributeError
  | ZeroDivisionError
  | OverflowError
  | LookupError string
  | PermissionError string
  | RuntimeError string
  | JSONDecodeError string
  | HTTPError string
  | HTTPStatusError int
  | AllocationUnavailable
  | ClientDisconnectedError
  | TimeoutError
  | FileNotFoundError
  | CalledProcessError string string
  | TimeoutExpired
  | DatabaseError
  | CsvError string
  | GpuInventoryError string
  | URLError string
  | CliError string
  | CancelledError

text \<open>\<open>type(exc).__name__\<close>.\<close>

fun exn_name :: "exn \<Rightarrow> string" where
  "exn_name (TaskProtocolError _) = ''TaskProtocolError''"
| "exn_name (PolicyError _ _) = ''PolicyError''"
| "exn_name (TokenBudgetExceeded _) = ''TokenBudgetExceeded''"
| "exn_name TypeError = ''TypeError''"
| "exn_name (ValueError _) = ''ValueError''"
| "exn_name (KeyError _) = ''KeyError''"
| "exn_name AttributeError = ''AttributeError''"
| "exn_name ZeroDivisionError = ''ZeroDivisionError''"
| "exn_name OverflowError = ''OverflowError''"
| "exn_name (LookupError _) = ''LookupError''"
| "exn_name (PermissionError _) = ''PermissionError''"
| "exn_name (RuntimeError _) = ''RuntimeError''"
| "exn_name (JSONDecodeError _) = ''JSONDecodeError''"
| "exn_name (HTTPError kind) = kind"
| "exn_name (HTTPStatusError _) = ''HTTPStatusError''"
| "exn_name AllocationUnavailable = ''AllocationUnavailable''"
| "exn_name ClientDisconnectedError = ''ClientDisconnectedError''"
| "exn_name TimeoutError = ''TimeoutError''"
| "exn_name FileNotFoundError = ''FileNotFoundError''"
| "exn_name (CalledProcessError _ _) = ''CalledProcessError''"
| "exn_name TimeoutExpired = ''TimeoutExpired''"
| "exn_name DatabaseError = ''DataError''"
| "exn_name (CsvError _) = ''Error''"
| "exn_name (GpuInventoryError _) = ''GpuInventoryError''"
| "exn_name (URLError _) = ''URLError''"
| "exn_name (CliError _) = ''CliError''"
| "exn_name CancelledError = ''CancelledError''"

type_synonym 'a res = "exn + 'a"

fun bind_res :: "'a res \<Rightarrow> ('a \<Rightarrow> 'b res) \<Rightarrow> 'b res" where
  "bind_res (Inl e) f = Inl e"
| "bind_res (Inr x) f = f x"

text \<open>The collection \<open>res_iff\<close>: when a fallible computation returns, and when it raises.\<close>

named_theorems res_iff

lemma bind_res_Inr_iff [res_iff]: "bind_res m f = Inr y \<longleftrightarrow> (\<exists>x. m = Inr x \<and> f x = Inr y)"
  by (cases m) auto

lemma bind_res_Inl_iff [res_iff]:
  "bind_res m f = Inl e \<longleftrightarrow> m = Inl e \<or> (\<exists>x. m = Inr x \<and> f x = Inl e)"
  by (cases m) auto

lemma bind_res_cong [fundef_cong]:
  "m = m' \<Longrightarrow> (\<And>x. m' = Inr x \<Longrightarrow> f x = g x) \<Longrightarrow> bind_res m f = bind_res m' g"
  by (cases m') auto

text \<open>A list comprehension whose element expression may raise: left to right, the first
  exception wins.\<close>

fun map_res :: "('a \<Rightarrow> 'b res) \<Rightarrow> 'a list \<Rightarrow> 'b list res" where
  "map_res f [] = Inr []"
| "map_res f (x # xs) = bind_res (f x) (\<lambda>y. bind_res (map_res f xs) (\<lambda>ys. Inr (y # ys)))"

lemma map_res_Inr_iff [res_iff]:
  "map_res f xs = Inr ys \<longleftrightarrow> list_all2 (\<lambda>x y. f x = Inr y) xs ys"
proof (induction xs arbitrary: ys)
  case Nil
  then show ?case by auto
next
  case (Cons x xs)
  then show ?case by (cases ys) (auto simp: bind_res_Inr_iff)
qed

lemma map_res_length: "map_res f xs = Inr ys \<Longrightarrow> length ys = length xs"
  by (auto simp: map_res_Inr_iff dest: list_all2_lengthD)

lemma map_res_total: "(\<And>x. x \<in> set xs \<Longrightarrow> f x = Inr (g x)) \<Longrightarrow> map_res f xs = Inr (map g xs)"
  by (induction xs) auto

section \<open>JSON values\<close>

datatype json =
    JNull
  | JBool bool
  | JInt int
  | JFloat rat string
  | JInf bool
  | JNaN
  | JStr string
  | JList "json list"
  | JDict "(string \<times> json) list"

type_synonym dict = "(string \<times> json) list"

text \<open>\<open>d.get(k)\<close>, \<open>k in d\<close>, \<open>d[k] = v\<close>, \<open>d.pop(k, None)\<close> and \<open>{**a, **b}\<close>.\<close>

definition dget :: "dict \<Rightarrow> string \<Rightarrow> json" where
  "dget d k = (case map_of d k of None \<Rightarrow> JNull | Some v \<Rightarrow> v)"

definition dhas :: "dict \<Rightarrow> string \<Rightarrow> bool" where
  "dhas d k = (map_of d k \<noteq> None)"

definition dget_or :: "dict \<Rightarrow> string \<Rightarrow> json \<Rightarrow> json" where
  "dget_or d k v = (case map_of d k of None \<Rightarrow> v | Some w \<Rightarrow> w)"

abbreviation dset :: "string \<Rightarrow> json \<Rightarrow> dict \<Rightarrow> dict" where
  "dset k v d \<equiv> AList.update k v d"

definition dpop :: "string \<Rightarrow> dict \<Rightarrow> dict" where
  "dpop k d = AList.delete k d"

definition dmerge :: "dict \<Rightarrow> dict \<Rightarrow> dict" where
  "dmerge a b = fold (\<lambda>(k, v). dset k v) b a"

definition dict_wf :: "dict \<Rightarrow> bool" where
  "dict_wf d \<longleftrightarrow> distinct (map fst d)"

lemma dget_update [simp]: "dget (dset k v d) k' = (if k = k' then v else dget d k')"
  by (simp add: dget_def update_conv')

lemma dhas_update [simp]: "dhas (dset k v d) k' \<longleftrightarrow> k = k' \<or> dhas d k'"
  by (auto simp: dhas_def update_conv')

lemma dget_pop [simp]: "dget (dpop k d) k' = (if k = k' then JNull else dget d k')"
  by (simp add: dget_def dpop_def delete_conv')

lemma dhas_pop [simp]: "dhas (dpop k d) k' \<longleftrightarrow> k \<noteq> k' \<and> dhas d k'"
  by (simp add: dhas_def dpop_def delete_conv')

lemma dget_Nil [simp]: "dget [] k = JNull"
  by (simp add: dget_def)

lemma dhas_Nil [simp]: "\<not> dhas [] k"
  by (simp add: dhas_def)

lemma dget_Cons [simp]: "dget ((k, v) # d) k' = (if k' = k then v else dget d k')"
  by (simp add: dget_def)

lemma dhas_Cons [simp]: "dhas ((k, v) # d) k' \<longleftrightarrow> k' = k \<or> dhas d k'"
  by (simp add: dhas_def)

lemma dget_absent: "\<not> dhas d k \<Longrightarrow> dget d k = JNull"
  by (simp add: dget_def dhas_def split: option.splits)

lemma map_of_dmerge: "dict_wf b \<Longrightarrow> map_of (dmerge a b) = map_of a ++ map_of b"
proof (induction b arbitrary: a)
  case Nil
  then show ?case by (simp add: dmerge_def)
next
  case (Cons kv b)
  obtain k v where kv: "kv = (k, v)" by fastforce
  with Cons.prems have wf: "dict_wf b" and k: "k \<notin> dom (map_of b)"
    by (auto simp: dict_wf_def dom_map_of_conv_image_fst)
  have "dmerge a (kv # b) = dmerge (dset k v a) b"
    by (simp add: dmerge_def kv)
  also have "map_of \<dots> = map_of (dset k v a) ++ map_of b"
    by (rule Cons.IH [OF wf])
  also have "\<dots> = map_of a ++ map_of (kv # b)"
    using k by (auto simp: kv update_conv' map_add_def fun_eq_iff domIff split: option.splits)
  finally show ?case .
qed

lemma dget_dmerge:
  "dict_wf b \<Longrightarrow> dget (dmerge a b) k = (if dhas b k then dget b k else dget a k)"
  by (auto simp: dget_def dhas_def map_of_dmerge map_add_def split: option.splits)

text \<open>Truth value, \<open>x or y\<close>, and membership in \<open>(None, "")\<close>.\<close>

fun truthy :: "json \<Rightarrow> bool" where
  "truthy JNull = False"
| "truthy (JBool b) = b"
| "truthy (JInt n) = (n \<noteq> 0)"
| "truthy (JFloat q _) = (q \<noteq> 0)"
| "truthy (JInf _) = True"
| "truthy JNaN = True"
| "truthy (JStr s) = (s \<noteq> [])"
| "truthy (JList xs) = (xs \<noteq> [])"
| "truthy (JDict d) = (d \<noteq> [])"

definition py_or :: "json \<Rightarrow> json \<Rightarrow> json" where
  "py_or x y = (if truthy x then x else y)"

definition is_blank :: "json \<Rightarrow> bool" where
  "is_blank v \<longleftrightarrow> v = JNull \<or> v = JStr []"

lemma is_blank_simps [simp]:
  "is_blank JNull" "is_blank (JStr s) \<longleftrightarrow> s = []" "\<not> is_blank (JInt n)"
  "\<not> is_blank (JBool b)" "\<not> is_blank (JDict d)" "\<not> is_blank (JList l)"
  "\<not> is_blank (JFloat q r)" "\<not> is_blank (JInf b)" "\<not> is_blank JNaN"
  by (simp_all add: is_blank_def)

section \<open>Strings\<close>

definition py_space :: "char \<Rightarrow> bool" where
  "py_space c = (let n = (of_char c :: nat) in
     (9 \<le> n \<and> n \<le> 13) \<or> (28 \<le> n \<and> n \<le> 32) \<or> n = 133 \<or> n = 160)"

definition lstrip :: "string \<Rightarrow> string" where
  "lstrip s = dropWhile py_space s"

definition strip :: "string \<Rightarrow> string" where
  "strip s = rev (dropWhile py_space (rev (dropWhile py_space s)))"

lemma dropWhile_idem_rev:
  "dropWhile py_space t = t \<Longrightarrow>
   dropWhile py_space (rev (dropWhile py_space (rev t))) = rev (dropWhile py_space (rev t))"
proof (induction t rule: rev_induct)
  case Nil
  then show ?case by simp
next
  case (snoc c t)
  show ?case
  proof (cases "py_space c")
    case True
    from snoc.prems have "\<not> py_space (hd (t @ [c]))"
      by (simp only: dropWhile_eq_self_iff) simp
    then have "dropWhile py_space t = t" by (cases t) auto
    with True snoc.IH show ?thesis by simp
  next
    case False
    with snoc.prems show ?thesis by simp
  qed
qed

lemma strip_idem [simp]: "strip (strip s) = strip s"
  by (simp add: strip_def dropWhile_idem_rev)

lemma strip_no_space: "(\<And>c. c \<in> set s \<Longrightarrow> \<not> py_space c) \<Longrightarrow> strip s = s"
proof -
  assume ns: "\<And>c. c \<in> set s \<Longrightarrow> \<not> py_space c"
  have d: "dropWhile py_space t = t" if "set t \<subseteq> set s" for t
    using that ns by (cases t) auto
  show ?thesis by (simp add: strip_def d)
qed

definition char_lower :: "char \<Rightarrow> char" where
  "char_lower c = (let n = (of_char c :: nat) in
     if (65 \<le> n \<and> n \<le> 90) \<or> (192 \<le> n \<and> n \<le> 222 \<and> n \<noteq> 215) then char_of (n + 32) else c)"

definition py_lower :: "string \<Rightarrow> string" where
  "py_lower s = map char_lower s"

definition starts_with :: "string \<Rightarrow> string \<Rightarrow> bool" where
  "starts_with s p = (take (length p) s = p)"

definition ends_with :: "string \<Rightarrow> string \<Rightarrow> bool" where
  "ends_with s p = (length p \<le> length s \<and> drop (length s - length p) s = p)"

text \<open>\<open>sep.join(parts)\<close> and \<open>s.split(sep)\<close> for a one-character separator.\<close>

fun join :: "string \<Rightarrow> string list \<Rightarrow> string" where
  "join sep [] = []"
| "join sep [x] = x"
| "join sep (x # y # ys) = x @ sep @ join sep (y # ys)"

fun split_on :: "char \<Rightarrow> string \<Rightarrow> string list" where
  "split_on c [] = [[]]"
| "split_on c (x # xs) =
     (if x = c then [] # split_on c xs
      else (case split_on c xs of [] \<Rightarrow> [[x]] | w # ws \<Rightarrow> (x # w) # ws))"

lemma split_on_single: "c \<notin> set x \<Longrightarrow> split_on c x = [x]"
  by (induction x) auto

lemma split_on_append: "c \<notin> set x \<Longrightarrow> split_on c (x @ c # y) = x # split_on c y"
  by (induction x) auto

lemma split_on_join: "xs \<noteq> [] \<Longrightarrow> \<forall>x\<in>set xs. c \<notin> set x \<Longrightarrow> split_on c (join [c] xs) = xs"
proof (induction xs)
  case (Cons x xs)
  then show ?case by (cases xs) (simp_all add: split_on_single split_on_append)
qed simp

lemma join_set: "x \<in> set (join sep fs) \<Longrightarrow> x \<in> set sep \<or> (\<exists>f\<in>set fs. x \<in> set f)"
  by (induction sep fs rule: join.induct) auto

text \<open>\<open>s.replace(c, t)\<close> for one character.\<close>

definition replace_char :: "char \<Rightarrow> string \<Rightarrow> string \<Rightarrow> string" where
  "replace_char c t s = concat (map (\<lambda>x. if x = c then t else [x]) s)"

section \<open>Numbers and their text\<close>

definition digit_char :: "nat \<Rightarrow> char" where
  "digit_char n = char_of (48 + n)"

fun nat_digits :: "nat \<Rightarrow> string" where
  "nat_digits n = (if n < 10 then [digit_char n] else nat_digits (n div 10) @ [digit_char (n mod 10)])"

declare nat_digits.simps [simp del]

definition str_int :: "int \<Rightarrow> string" where
  "str_int n = (if n < 0 then CHR ''-'' # nat_digits (nat (- n)) else nat_digits (nat n))"

definition is_digit :: "char \<Rightarrow> bool" where
  "is_digit c = (let n = (of_char c :: nat) in 48 \<le> n \<and> n \<le> 57)"

definition digit_val :: "char \<Rightarrow> nat" where
  "digit_val c = of_char c - 48"

text \<open>The digits of an integer literal: single underscores are allowed between digits.\<close>

fun parse_digits :: "nat \<Rightarrow> bool \<Rightarrow> string \<Rightarrow> nat option" where
  "parse_digits acc prev [] = (if prev then Some acc else None)"
| "parse_digits acc prev (c # cs) =
     (if is_digit c then parse_digits (10 * acc + digit_val c) True cs
      else if c = CHR ''_'' \<and> prev then parse_digits acc False cs
      else None)"

definition parse_int :: "string \<Rightarrow> int option" where
  "parse_int s = (case strip s of
       [] \<Rightarrow> None
     | c # cs \<Rightarrow>
         if c = CHR ''-'' then map_option (\<lambda>n. - int n) (parse_digits 0 False cs)
         else if c = CHR ''+'' then map_option int (parse_digits 0 False cs)
         else map_option int (parse_digits 0 False (c # cs)))"

lemma is_digit_digit_char [simp]: "n < 10 \<Longrightarrow> is_digit (digit_char n)"
  by (simp add: is_digit_def digit_char_def Let_def)

lemma digit_val_digit_char [simp]: "n < 10 \<Longrightarrow> digit_val (digit_char n) = n"
  by (simp add: digit_val_def digit_char_def)

lemma parse_digits_append:
  "parse_digits acc p xs = Some n \<Longrightarrow> parse_digits acc p (xs @ ys) = parse_digits n True ys"
  by (induction acc p xs rule: parse_digits.induct) (auto split: if_splits)

lemma parse_digits_nat_digits [simp]: "parse_digits 0 False (nat_digits n) = Some n"
proof (induction n rule: nat_digits.induct)
  case (1 n)
  show ?case
  proof (cases "n < 10")
    case True
    then show ?thesis by (subst nat_digits.simps) simp
  next
    case False
    with "1.IH" have "parse_digits 0 False (nat_digits (n div 10)) = Some (n div 10)" by simp
    with False show ?thesis
      by (subst nat_digits.simps) (simp add: parse_digits_append)
  qed
qed

lemma nat_digits_all_digits: "c \<in> set (nat_digits n) \<Longrightarrow> is_digit c"
proof (induction n rule: nat_digits.induct)
  case (1 n)
  then show ?case by (subst (asm) (2) nat_digits.simps) (auto split: if_splits)
qed

lemma str_int_chars: "x \<in> set (str_int n) \<Longrightarrow> is_digit x \<or> x = CHR ''-''"
  by (auto simp: str_int_def dest: nat_digits_all_digits split: if_splits)

lemma nat_digits_not_Nil [simp]: "nat_digits n \<noteq> []"
  by (subst nat_digits.simps) simp

lemma digit_not_space: "is_digit c \<Longrightarrow> \<not> py_space c"
  by (auto simp: is_digit_def py_space_def Let_def)

theorem parse_int_str_int: "parse_int (str_int n) = Some n"
proof (cases "n < 0")
  case True
  have "strip (CHR ''-'' # nat_digits (nat (- n))) = CHR ''-'' # nat_digits (nat (- n))"
    by (rule strip_no_space) (auto dest!: nat_digits_all_digits digit_not_space simp: py_space_def Let_def)
  with True show ?thesis by (simp add: parse_int_def str_int_def)
next
  case False
  have s: "strip (nat_digits (nat n)) = nat_digits (nat n)"
    by (rule strip_no_space) (auto dest: nat_digits_all_digits digit_not_space)
  obtain c cs where c: "nat_digits (nat n) = c # cs" by (cases "nat_digits (nat n)") auto
  then have "is_digit c" by (metis list.set_intros(1) nat_digits_all_digits)
  then have "c \<noteq> CHR ''-''" "c \<noteq> CHR ''+''" by (auto simp: is_digit_def)
  with False s c parse_digits_nat_digits [of "nat n"] show ?thesis
    by (simp add: parse_int_def str_int_def)
qed

text \<open>\<open>int(x)\<close>: a string that is no integer raises ValueError, a value of another type
  TypeError; a finite float is truncated towards zero and an infinity raises OverflowError.\<close>

definition rat_trunc :: "rat \<Rightarrow> int" where
  "rat_trunc q = (if 0 \<le> q then \<lfloor>q\<rfloor> else \<lceil>q\<rceil>)"

fun py_int :: "json \<Rightarrow> int res" where
  "py_int JNull = Inl TypeError"
| "py_int (JBool b) = Inr (if b then 1 else 0)"
| "py_int (JInt n) = Inr n"
| "py_int (JFloat q _) = Inr (rat_trunc q)"
| "py_int (JInf _) = Inl OverflowError"
| "py_int JNaN = Inl (ValueError ''cannot convert float NaN to integer'')"
| "py_int (JStr s) = (case parse_int s of
     None \<Rightarrow> Inl (ValueError ''invalid literal for int() with base 10'') | Some n \<Rightarrow> Inr n)"
| "py_int (JList _) = Inl TypeError"
| "py_int (JDict _) = Inl TypeError"

text \<open>\<open>round(n / d)\<close> for integers, with ties to the even neighbour, and on an exact quotient.\<close>

definition round_half_even :: "rat \<Rightarrow> int" where
  "round_half_even q = (let f = \<lfloor>q\<rfloor>; r = q - of_int f in
     if r < 1 / 2 then f else if r > 1 / 2 then f + 1 else if even f then f else f + 1)"

definition round_div :: "int \<Rightarrow> int \<Rightarrow> int" where
  "round_div n d = (let q = n div d; r = n mod d in
     if 2 * r < d then q else if 2 * r > d then q + 1 else if even q then q else q + 1)"

lemma round_half_even_divide:
  assumes "0 < d"
  shows "round_half_even (of_int n / of_int d) = round_div n d"
proof -
  have f: "\<lfloor>of_int n / of_int d :: rat\<rfloor> = n div d"
    by (rule floor_divide_of_int_eq)
  have "of_int n = (of_int (d * (n div d) + n mod d) :: rat)" by simp
  then have r: "of_int n / of_int d - of_int (n div d) = (of_int (n mod d) / of_int d :: rat)"
    using assms by (simp add: field_simps flip: of_int_mult of_int_add)
  have cmp: "(of_int (n mod d) / of_int d < (1 / 2 :: rat)) = (2 * (n mod d) < d)"
    "(1 / 2 < (of_int (n mod d) / of_int d :: rat)) = (d < 2 * (n mod d))"
    using assms by (simp_all add: pos_divide_less_eq pos_less_divide_eq)
      (simp_all only: of_int_less_iff [where 'a = rat, symmetric] of_int_mult of_int_numeral, auto)
  show ?thesis unfolding round_half_even_def round_div_def Let_def f r cmp by (rule refl)
qed

lemma round_div_bounds:
  assumes "0 < d"
  shows "2 * n - d \<le> 2 * d * round_div n d" and "2 * d * round_div n d \<le> 2 * n + d"
proof -
  have n: "n = d * (n div d) + n mod d" by simp
  have m: "0 \<le> n mod d" "n mod d < d" using assms by simp_all
  have "d * (n div d) = n - n mod d" by (rule minus_mod_eq_mult_div [symmetric])
  then have n2: "2 * d * (n div d) = 2 * n - 2 * (n mod d)" by linarith
  have c: "round_div n d = n div d \<and> 2 * (n mod d) \<le> d \<or>
      round_div n d = n div d + 1 \<and> d \<le> 2 * (n mod d)"
    by (auto simp: round_div_def Let_def)
  show "2 * n - d \<le> 2 * d * round_div n d" "2 * d * round_div n d \<le> 2 * n + d"
    using c m n2 by (auto simp: distrib_left)
qed

section \<open>repr, str and json.dumps\<close>

definition hex_digit :: "nat \<Rightarrow> char" where
  "hex_digit n = (if n < 10 then char_of (48 + n) else char_of (87 + n))"

text \<open>\<open>repr\<close> of a string: double quotes only when the text has a single quote and no double
  one; backslash, the quote, tab, newline and carriage return are escaped, and what is not
  printable is written \<open>\x..\<close>.\<close>

definition repr_char :: "char \<Rightarrow> char \<Rightarrow> string" where
  "repr_char q c = (let n = (of_char c :: nat) in
     if c = q \<or> n = 92 then [char_of (92 :: nat), c]
     else if n = 9 then [char_of (92 :: nat), CHR ''t'']
     else if n = 10 then [char_of (92 :: nat), CHR ''n'']
     else if n = 13 then [char_of (92 :: nat), CHR ''r'']
     else if n < 32 \<or> (127 \<le> n \<and> n \<le> 160) \<or> n = 173
       then [char_of (92 :: nat), CHR ''x'', hex_digit (n div 16), hex_digit (n mod 16)]
     else [c])"

definition repr_str :: "string \<Rightarrow> string" where
  "repr_str s = (let q = (if char_of (39 :: nat) \<in> set s \<and> char_of (34 :: nat) \<notin> set s
       then char_of (34 :: nat) else char_of (39 :: nat))
     in [q] @ concat (map (repr_char q) s) @ [q])"

fun py_repr :: "json \<Rightarrow> string" where
  "py_repr JNull = ''None''"
| "py_repr (JBool b) = (if b then ''True'' else ''False'')"
| "py_repr (JInt n) = str_int n"
| "py_repr (JFloat _ r) = r"
| "py_repr (JInf neg) = (if neg then ''-inf'' else ''inf'')"
| "py_repr JNaN = ''nan''"
| "py_repr (JStr s) = repr_str s"
| "py_repr (JList xs) = ''['' @ join '', '' (map py_repr xs) @ '']''"
| "py_repr (JDict d) =
     ''{'' @ join '', '' (map (\<lambda>kv. repr_str (fst kv) @ '': '' @ py_repr (snd kv)) d) @ ''}''"

definition py_str :: "json \<Rightarrow> string" where
  "py_str v = (case v of JStr s \<Rightarrow> s | _ \<Rightarrow> py_repr v)"

lemma py_str_JStr [simp]: "py_str (JStr s) = s"
  by (simp add: py_str_def)

text \<open>\<open>json.dumps(v, ensure_ascii=False, sort_keys=True)\<close>.\<close>

definition json_char :: "char \<Rightarrow> string" where
  "json_char c = (let n = (of_char c :: nat) in
     if n = 34 \<or> n = 92 then [char_of (92 :: nat), c]
     else if n = 10 then [char_of (92 :: nat), CHR ''n'']
     else if n = 13 then [char_of (92 :: nat), CHR ''r'']
     else if n = 9 then [char_of (92 :: nat), CHR ''t'']
     else if n = 12 then [char_of (92 :: nat), CHR ''f'']
     else if n = 8 then [char_of (92 :: nat), CHR ''b'']
     else if n < 32
       then [char_of (92 :: nat), CHR ''u'', CHR ''0'', CHR ''0'', hex_digit (n div 16), hex_digit (n mod 16)]
     else [c])"

definition json_str :: "string \<Rightarrow> string" where
  "json_str s = [char_of (34 :: nat)] @ concat (map json_char s) @ [char_of (34 :: nat)]"

fun json_dumps :: "json \<Rightarrow> string" where
  "json_dumps JNull = ''null''"
| "json_dumps (JBool b) = (if b then ''true'' else ''false'')"
| "json_dumps (JInt n) = str_int n"
| "json_dumps (JFloat _ r) = r"
| "json_dumps (JInf neg) = (if neg then ''-Infinity'' else ''Infinity'')"
| "json_dumps JNaN = ''NaN''"
| "json_dumps (JStr s) = json_str s"
| "json_dumps (JList xs) = ''['' @ join '', '' (map json_dumps xs) @ '']''"
| "json_dumps (JDict d) = ''{'' @ join '', ''
     (map snd (sort_key fst (map (\<lambda>kv. (fst kv, json_str (fst kv) @ '': '' @ json_dumps (snd kv))) d))) @ ''}''"

section \<open>min, max and grouping\<close>

text \<open>\<open>min(xs, key=f)\<close> on a non-empty list is the library's \<open>arg_min_list\<close>: the first
  element whose key is least. \<open>max(xs, key=f)\<close> is the first whose key is greatest.\<close>

fun arg_max_list :: "('a \<Rightarrow> 'b :: linorder) \<Rightarrow> 'a list \<Rightarrow> 'a" where
  "arg_max_list f [x] = x"
| "arg_max_list f (x # y # zs) = (let m = arg_max_list f (y # zs) in if f m \<le> f x then x else m)"

lemma arg_max_list_in: "xs \<noteq> [] \<Longrightarrow> arg_max_list f xs \<in> set xs"
  by (induction f xs rule: arg_max_list.induct) (auto simp: Let_def)

lemma arg_max_list_ge: "x \<in> set xs \<Longrightarrow> f x \<le> f (arg_max_list f xs)"
proof (induction f xs rule: arg_max_list.induct)
  case (2 f y z zs)
  then show ?case by (auto simp: Let_def)
qed simp_all

lemma arg_min_list_le: "x \<in> set xs \<Longrightarrow> f (arg_min_list f xs) \<le> f x"
proof (induction f xs rule: arg_min_list.induct)
  case (2 f y z zs)
  then show ?case by (auto simp: Let_def)
qed simp_all

text \<open>\<open>groups.setdefault(key(x), []).append(x)\<close> for every \<open>x\<close>: the groups in the order
  their keys first occur.\<close>

definition group_add :: "'k \<Rightarrow> 'a \<Rightarrow> ('k \<times> 'a list) list \<Rightarrow> ('k \<times> 'a list) list" where
  "group_add k x gs = AList.update k ((case map_of gs k of None \<Rightarrow> [] | Some ys \<Rightarrow> ys) @ [x]) gs"

definition group_by :: "('a \<Rightarrow> 'k) \<Rightarrow> 'a list \<Rightarrow> ('k \<times> 'a list) list" where
  "group_by key xs = fold (\<lambda>x. group_add (key x) x) xs []"

lemma map_of_fold_group_add:
  "map_of (fold (\<lambda>x. group_add (key x) x) xs gs) k =
     (case map_of gs k of
        None \<Rightarrow> if (\<exists>x\<in>set xs. key x = k) then Some (filter (\<lambda>x. key x = k) xs) else None
      | Some ys \<Rightarrow> Some (ys @ filter (\<lambda>x. key x = k) xs))"
proof (induction xs arbitrary: gs)
  case Nil
  then show ?case by (simp split: option.splits)
next
  case (Cons x xs)
  show ?case
    by (simp add: Cons.IH) (auto simp: group_add_def update_conv' split: option.splits)
qed

lemma map_of_group_by:
  "map_of (group_by key xs) k =
     (if \<exists>x\<in>set xs. key x = k then Some (filter (\<lambda>x. key x = k) xs) else None)"
  by (simp add: group_by_def map_of_fold_group_add)

lemma distinct_group_by: "distinct (map fst (group_by key xs))"
proof -
  have "distinct (map fst gs) \<Longrightarrow> distinct (map fst (fold (\<lambda>x. group_add (key x) x) xs gs))" for gs
    by (induction xs arbitrary: gs) (simp_all add: group_add_def distinct_update)
  then show ?thesis by (simp add: group_by_def)
qed

lemma keys_group_by: "fst ` set (group_by key xs) = key ` set xs"
proof -
  have "fst ` set (group_by key xs) = dom (map_of (group_by key xs))"
    by (simp add: dom_map_of_conv_image_fst)
  also have "\<dots> = key ` set xs"
    by (auto simp: map_of_group_by dom_def image_iff)
  finally show ?thesis .
qed

text \<open>\<open>counts[k] = counts.get(k, 0) + n\<close>.\<close>

definition count_add :: "'k \<Rightarrow> int \<Rightarrow> ('k \<times> int) list \<Rightarrow> ('k \<times> int) list" where
  "count_add k n m = AList.update k ((case map_of m k of None \<Rightarrow> 0 | Some c \<Rightarrow> c) + n) m"

definition count_get :: "('k \<times> int) list \<Rightarrow> 'k \<Rightarrow> int" where
  "count_get m k = (case map_of m k of None \<Rightarrow> 0 | Some c \<Rightarrow> c)"

lemma count_get_add [simp]:
  "count_get (count_add k n m) k' = count_get m k' + (if k = k' then n else 0)"
  by (simp add: count_get_def count_add_def update_conv')

lemma count_get_Nil [simp]: "count_get [] k = 0"
  by (simp add: count_get_def)

lemma count_get_fold:
  "count_get (fold (\<lambda>x. count_add (key x) (wt x)) xs m) k =
     count_get m k + (\<Sum>x \<leftarrow> filter (\<lambda>x. key x = k) xs. wt x)"
  by (induction xs arbitrary: m) simp_all

end
