(* ===== verification/Py_Time.thy ===== *)
theory Py_Time
  imports Py_Prelude
begin

text \<open>
  The calendar functions of \<open>datetime\<close> the code calls: \<open>isoformat\<close> of a UTC instant and
  \<open>fromisoformat\<close> of the extended format it writes (date, one separator, time with an
  optional fraction of up to six digits, optional offset). An instant is the number of
  microseconds since 0001-01-01T00:00:00 UTC. A parsed text keeps its offset (\<open>None\<close> for a
  naive time), because the queue proxy reads a naive time as UTC while the lifecycle service
  cannot subtract it from an aware one.
\<close>

definition is_leap :: "int \<Rightarrow> bool" where
  "is_leap y \<longleftrightarrow> y mod 4 = 0 \<and> (y mod 100 \<noteq> 0 \<or> y mod 400 = 0)"

definition days_before_year :: "int \<Rightarrow> int" where
  "days_before_year y = (let z = y - 1 in z * 365 + z div 4 - z div 100 + z div 400)"

definition days_before_month_table :: "int list" where
  "days_before_month_table = [0, 0, 31, 59, 90, 120, 151, 181, 212, 243, 273, 304, 334, 365]"

definition days_before_month :: "int \<Rightarrow> int \<Rightarrow> int" where
  "days_before_month y m =
     days_before_month_table ! nat m + (if 2 < m \<and> is_leap y then 1 else 0)"

definition days_in_month :: "int \<Rightarrow> int \<Rightarrow> int" where
  "days_in_month y m =
     days_before_month_table ! nat (m + 1) - days_before_month_table ! nat m +
       (if m = 2 \<and> is_leap y then 1 else 0)"

definition ymd2ord :: "int \<Rightarrow> int \<Rightarrow> int \<Rightarrow> int" where
  "ymd2ord y m d = days_before_year y + days_before_month y m + d"

definition ord2ymd :: "int \<Rightarrow> int \<times> int \<times> int" where
  "ord2ymd ordinal = (let
     n = ordinal - 1;
     n400 = n div 146097; n = n mod 146097;
     n100 = n div 36524; n = n mod 36524;
     n4 = n div 1461; n = n mod 1461;
     n1 = n div 365; n = n mod 365;
     y = n400 * 400 + 1 + n100 * 100 + n4 * 4 + n1
     in if n1 = 4 \<or> n100 = 4 then (y - 1, 12, 31)
        else let
          m = (n + 50) div 32;
          m = (if days_before_month y m > n then m - 1 else m)
        in (y, m, n - days_before_month y m + 1))"

fun pad_digits :: "nat \<Rightarrow> nat \<Rightarrow> string" where
  "pad_digits 0 n = []"
| "pad_digits (Suc w) n = pad_digits w (n div 10) @ [digit_char (n mod 10)]"

definition us_per_day :: int where "us_per_day = 86400000000"

definition iso_format :: "int \<Rightarrow> string" where
  "iso_format t = (let
     (y, m, d) = ord2ymd (t div us_per_day + 1);
     r = t mod us_per_day; us = r mod 1000000; s = r div 1000000
     in pad_digits 4 (nat y) @ ''-'' @ pad_digits 2 (nat m) @ ''-'' @ pad_digits 2 (nat d) @ ''T'' @
        pad_digits 2 (nat (s div 3600)) @ '':'' @ pad_digits 2 (nat (s div 60 mod 60)) @ '':'' @
        pad_digits 2 (nat (s mod 60)) @
        (if us = 0 then [] else ''.'' @ pad_digits 6 (nat us)) @ ''+00:00'')"

fun take_digits :: "nat \<Rightarrow> nat \<Rightarrow> string \<Rightarrow> (nat \<times> string) option" where
  "take_digits 0 acc s = Some (acc, s)"
| "take_digits (Suc w) acc [] = None"
| "take_digits (Suc w) acc (c # s) =
     (if is_digit c then take_digits w (10 * acc + digit_val c) s else None)"

fun take_char :: "char \<Rightarrow> string \<Rightarrow> string option" where
  "take_char c [] = None"
| "take_char c (x # s) = (if x = c then Some s else None)"

text \<open>The fraction: between one and six digits, read as microseconds; the rest of the text.\<close>

definition take_fraction :: "string \<Rightarrow> (int \<times> string) option" where
  "take_fraction s = (case s of
     [] \<Rightarrow> Some (0, [])
   | c # r \<Rightarrow>
       if c \<noteq> CHR ''.'' then Some (0, s)
       else (let ds = takeWhile is_digit r; n = length ds in
         if n = 0 then None
         else Option.bind (take_digits (min n 6) 0 ds) (\<lambda>(v, _).
           Some (int v * 10 ^ (6 - min n 6), dropWhile is_digit r))))"

definition take_offset :: "string \<Rightarrow> int option option" where
  "take_offset s = (case s of
     [] \<Rightarrow> Some None
   | c # r \<Rightarrow>
       if c \<noteq> CHR ''+'' \<and> c \<noteq> CHR ''-'' then None
       else Option.bind (take_digits 2 0 r) (\<lambda>(h, r).
            Option.bind (take_char CHR '':'' r) (\<lambda>r.
            Option.bind (take_digits 2 0 r) (\<lambda>(m, r).
              if r \<noteq> [] \<or> 24 \<le> h \<or> 60 \<le> m then None
              else Some (Some ((if c = CHR ''-'' then - 1 else 1) * (int h * 60 + int m) * 60000000))))))"

definition date_ok :: "int \<Rightarrow> int \<Rightarrow> int \<Rightarrow> bool" where
  "date_ok y m d \<longleftrightarrow> 1 \<le> y \<and> 1 \<le> m \<and> m \<le> 12 \<and> 1 \<le> d \<and> d \<le> days_in_month y m"

text \<open>\<open>datetime.fromisoformat\<close>: the wall-clock time and its offset, or a ValueError.\<close>

definition from_isoformat :: "string \<Rightarrow> (int \<times> int option) option" where
  "from_isoformat s =
     Option.bind (take_digits 4 0 s) (\<lambda>(y, s).
     Option.bind (take_char CHR ''-'' s) (\<lambda>s.
     Option.bind (take_digits 2 0 s) (\<lambda>(mo, s).
     Option.bind (take_char CHR ''-'' s) (\<lambda>s.
     Option.bind (take_digits 2 0 s) (\<lambda>(d, s).
       if s = [] then None
       else
       Option.bind (take_digits 2 0 (tl s)) (\<lambda>(h, s).
       Option.bind (take_char CHR '':'' s) (\<lambda>s.
       Option.bind (take_digits 2 0 s) (\<lambda>(mi, s).
       Option.bind (take_char CHR '':'' s) (\<lambda>s.
       Option.bind (take_digits 2 0 s) (\<lambda>(se, s).
       Option.bind (take_fraction s) (\<lambda>(us, s).
       Option.bind (take_offset s) (\<lambda>off.
         if \<not> date_ok (int y) (int mo) (int d) \<or> 24 \<le> h \<or> 60 \<le> mi \<or> 60 \<le> se then None
         else Some ((ymd2ord (int y) (int mo) (int d) - 1) * us_per_day +
               (int h * 3600 + int mi * 60 + int se) * 1000000 + us, off)))))))))))))"

text \<open>\<open>value.replace("Z", "+00:00")\<close>.\<close>

definition replace_Z :: "string \<Rightarrow> string" where
  "replace_Z s = concat (map (\<lambda>c. if c = CHR ''Z'' then ''+00:00'' else [c]) s)"

definition to_utc :: "int \<times> int option \<Rightarrow> int" where
  "to_utc p = (case p of (t, None) \<Rightarrow> t | (t, Some off) \<Rightarrow> t - off)"

text \<open>The first instant after year 9999.\<close>

definition max_instant :: int where "max_instant = 3652059 * us_per_day"

lemma iso_format_not_Nil [simp]: "iso_format t \<noteq> []"
  by (simp add: iso_format_def Let_def split: prod.splits)

lemma iso_format_example: "iso_format 63871286400000000 = ''2025-01-01T00:00:00+00:00''"
  by code_simp

lemma from_isoformat_example:
  "from_isoformat ''2024-12-31T23:30:00.25-01:30'' = Some (63871284600250000, Some (- 5400000000))"
  by code_simp

end
