(* ===== verification/Task_Model.thy ===== *)
theory Task_Model
  imports Py_Time
begin

text \<open>
  The durable tasks of \<open>queue_proxy/task_queue.py\<close>: the dataclasses \<open>QueueTask\<close> and
  \<open>StoredTask\<close> (the second carries the fields of the first and is the record that extends
  it), the readers of untyped JSON fields, the three dictionaries a stored task is rendered
  to, and \<open>from_record\<close>, which reads one back. \<open>from_record\<close> takes the two values of
  \<open>now_iso()\<close> it may need as arguments.
\<close>

section \<open>Constants\<close>

definition SCHEMA_VERSION :: string where "SCHEMA_VERSION = ''llmo.task.v1''"

definition ACTIVE_STATES :: "string set" where
  "ACTIVE_STATES = {''submitted'', ''queued'', ''allocating'', ''starting'', ''warming'', ''running''}"

definition CLAIMABLE_STATES :: "string set" where "CLAIMABLE_STATES = {''queued''}"

definition PRIORITIES :: "string set" where
  "PRIORITIES = {''interactive'', ''foreground'', ''batch'', ''maintenance''}"

definition CONTEXT_BUCKETS :: "int list" where
  "CONTEXT_BUCKETS = [2048, 4096, 8192, 16384, 32768, 65536, 131072]"

definition DEFAULT_MAX_OUTPUT_TOKENS :: int where "DEFAULT_MAX_OUTPUT_TOKENS = 1024"

definition TOKEN_ESTIMATE_CHARS_PER_TOKEN :: int where "TOKEN_ESTIMATE_CHARS_PER_TOKEN = 4"

section \<open>The task records\<close>

record queue_task =
  t_tenant :: string
  t_project :: string
  t_service :: string
  t_task :: string
  t_job_id :: string
  t_idempotency_key :: string
  t_priority :: string
  t_model :: string
  t_endpoint :: string
  t_estimated_input_tokens :: int
  t_max_output_tokens :: int
  t_required_context_tokens :: int
  t_payload :: dict
  t_orchestration :: dict
  t_artifacts :: dict
  t_labels :: dict

record stored_task = queue_task +
  t_task_id :: string
  t_state :: string
  t_created_at :: string
  t_updated_at :: string
  t_attempt_count :: int
  t_started_at :: "string option"
  t_finished_at :: "string option"
  t_next_attempt_at :: "string option"
  t_result :: "dict option"
  t_error :: "dict option"

section \<open>Readers of JSON fields\<close>

definition require_mapping :: "json \<Rightarrow> string \<Rightarrow> dict res" where
  "require_mapping v field = (case v of JDict d \<Rightarrow> Inr d
     | _ \<Rightarrow> Inl (TaskProtocolError (field @ '' must be a JSON object.'')))"

definition optional_mapping :: "json \<Rightarrow> string \<Rightarrow> dict res" where
  "optional_mapping v field = (case v of JNull \<Rightarrow> Inr [] | JDict d \<Rightarrow> Inr d
     | _ \<Rightarrow> Inl (TaskProtocolError (field @ '' must be a JSON object.'')))"

definition optional_mapping_or_none :: "json \<Rightarrow> string \<Rightarrow> dict option res" where
  "optional_mapping_or_none v field = (case v of JNull \<Rightarrow> Inr None | JDict d \<Rightarrow> Inr (Some d)
     | _ \<Rightarrow> Inl (TaskProtocolError (field @ '' must be a JSON object.'')))"

definition string_value :: "json \<Rightarrow> string \<Rightarrow> string res" where
  "string_value v field = (case v of
       JStr s \<Rightarrow> if strip s = [] then Inl (TaskProtocolError (field @ '' must be a non-empty string.''))
                 else Inr (strip s)
     | _ \<Rightarrow> Inl (TaskProtocolError (field @ '' must be a non-empty string.'')))"

definition required_string :: "dict \<Rightarrow> string \<Rightarrow> string res" where
  "required_string d field = string_value (dget d field) field"

definition optional_string :: "json \<Rightarrow> string option" where
  "optional_string v = (if is_blank v then None else Some (py_str v))"

definition optional_positive_int :: "json \<Rightarrow> string \<Rightarrow> int option res" where
  "optional_positive_int v field =
     (if is_blank v then Inr None
      else (case py_int v of
          Inl OverflowError \<Rightarrow> Inl OverflowError
        | Inl _ \<Rightarrow> Inl (TaskProtocolError (field @ '' must be a positive integer.''))
        | Inr n \<Rightarrow> if n < 1 then Inl (TaskProtocolError (field @ '' must be a positive integer.''))
                  else Inr (Some n)))"

definition optional_non_negative_int :: "json \<Rightarrow> string \<Rightarrow> int option res" where
  "optional_non_negative_int v field =
     (if is_blank v then Inr None
      else (case py_int v of
          Inl OverflowError \<Rightarrow> Inl OverflowError
        | Inl _ \<Rightarrow> Inl (TaskProtocolError (field @ '' must be a non-negative integer.''))
        | Inr n \<Rightarrow> if n < 0 then Inl (TaskProtocolError (field @ '' must be a non-negative integer.''))
                  else Inr (Some n)))"

text \<open>\<open>x or default\<close> for an optional integer and an optional string.\<close>

definition int_or :: "int option \<Rightarrow> int \<Rightarrow> int" where
  "int_or x d = (case x of None \<Rightarrow> d | Some n \<Rightarrow> if n = 0 then d else n)"

definition str_or :: "string option \<Rightarrow> string \<Rightarrow> string" where
  "str_or x d = (case x of None \<Rightarrow> d | Some s \<Rightarrow> if s = [] then d else s)"

text \<open>A Python value that is \<open>None\<close> or a string (a dictionary), as JSON.\<close>

definition opt_str :: "string option \<Rightarrow> json" where
  "opt_str x = (case x of None \<Rightarrow> JNull | Some s \<Rightarrow> JStr s)"

definition opt_dict :: "dict option \<Rightarrow> json" where
  "opt_dict x = (case x of None \<Rightarrow> JNull | Some d \<Rightarrow> JDict d)"

section \<open>to_summary, to_detail, to_record, from_record\<close>

definition to_summary :: "bool \<Rightarrow> stored_task \<Rightarrow> dict" where
  "to_summary reused t =
     [(''task_id'', JStr (t_task_id t)),
      (''tenant'', JStr (t_tenant t)),
      (''project'', JStr (t_project t)),
      (''service'', JStr (t_service t)),
      (''task'', JStr (t_task t)),
      (''job_id'', JStr (t_job_id t)),
      (''idempotency_key'', JStr (t_idempotency_key t)),
      (''priority'', JStr (t_priority t)),
      (''model'', JStr (t_model t)),
      (''endpoint'', JStr (t_endpoint t)),
      (''estimated_input_tokens'', JInt (t_estimated_input_tokens t)),
      (''max_output_tokens'', JInt (t_max_output_tokens t)),
      (''required_context_tokens'', JInt (t_required_context_tokens t)),
      (''state'', JStr (t_state t)),
      (''attempt_count'', JInt (t_attempt_count t)),
      (''next_attempt_at'', opt_str (t_next_attempt_at t)),
      (''created_at'', JStr (t_created_at t)),
      (''updated_at'', JStr (t_updated_at t)),
      (''reused'', JBool reused)]"

definition to_detail :: "stored_task \<Rightarrow> dict" where
  "to_detail t = dmerge (to_summary False t)
     [(''payload'', JDict (t_payload t)),
      (''orchestration'', JDict (t_orchestration t)),
      (''artifacts'', JDict (t_artifacts t)),
      (''labels'', JDict (t_labels t)),
      (''attempt_count'', JInt (t_attempt_count t)),
      (''started_at'', opt_str (t_started_at t)),
      (''finished_at'', opt_str (t_finished_at t)),
      (''next_attempt_at'', opt_str (t_next_attempt_at t)),
      (''result'', opt_dict (t_result t)),
      (''error'', opt_dict (t_error t))]"

definition to_record :: "stored_task \<Rightarrow> dict" where
  "to_record t =
     [(''task_id'', JStr (t_task_id t)),
      (''tenant'', JStr (t_tenant t)),
      (''project'', JStr (t_project t)),
      (''service'', JStr (t_service t)),
      (''task'', JStr (t_task t)),
      (''job_id'', JStr (t_job_id t)),
      (''idempotency_key'', JStr (t_idempotency_key t)),
      (''priority'', JStr (t_priority t)),
      (''model'', JStr (t_model t)),
      (''endpoint'', JStr (t_endpoint t)),
      (''estimated_input_tokens'', JInt (t_estimated_input_tokens t)),
      (''max_output_tokens'', JInt (t_max_output_tokens t)),
      (''required_context_tokens'', JInt (t_required_context_tokens t)),
      (''state'', JStr (t_state t)),
      (''payload'', JDict (t_payload t)),
      (''orchestration'', JDict (t_orchestration t)),
      (''artifacts'', JDict (t_artifacts t)),
      (''labels'', JDict (t_labels t)),
      (''created_at'', JStr (t_created_at t)),
      (''updated_at'', JStr (t_updated_at t)),
      (''attempt_count'', JInt (t_attempt_count t)),
      (''started_at'', opt_str (t_started_at t)),
      (''finished_at'', opt_str (t_finished_at t)),
      (''next_attempt_at'', opt_str (t_next_attempt_at t)),
      (''result'', opt_dict (t_result t)),
      (''error'', opt_dict (t_error t))]"

definition from_record :: "string \<Rightarrow> string \<Rightarrow> dict \<Rightarrow> stored_task res" where
  "from_record now1 now2 r =
     bind_res (string_value (dget r ''task_id'') ''task_id'') (\<lambda>x_task_id.
     bind_res (string_value (dget r ''tenant'') ''tenant'') (\<lambda>x_tenant.
     bind_res (string_value (dget r ''project'') ''project'') (\<lambda>x_project.
     bind_res (string_value (dget r ''service'') ''service'') (\<lambda>x_service.
     bind_res (string_value (dget r ''task'') ''task'') (\<lambda>x_task.
     bind_res (string_value (dget r ''job_id'') ''job_id'') (\<lambda>x_job_id.
     bind_res (string_value (dget r ''idempotency_key'') ''idempotency_key'') (\<lambda>x_idempotency_key.
     bind_res (string_value (dget r ''priority'') ''priority'') (\<lambda>x_priority.
     bind_res (string_value (dget r ''model'') ''model'') (\<lambda>x_model.
     bind_res (string_value (dget r ''endpoint'') ''endpoint'') (\<lambda>x_endpoint.
     bind_res (optional_non_negative_int (dget r ''estimated_input_tokens'') ''estimated_input_tokens'') (\<lambda>x_estimated_input_tokens.
     bind_res (optional_positive_int (dget r ''max_output_tokens'') ''max_output_tokens'') (\<lambda>x_max_output_tokens.
     bind_res (optional_positive_int (dget r ''required_context_tokens'') ''required_context_tokens'') (\<lambda>x_required_context_tokens.
     bind_res (string_value (py_or (dget r ''state'') (JStr ''queued'')) ''state'') (\<lambda>x_state.
     bind_res (optional_mapping (dget r ''payload'') ''payload'') (\<lambda>x_payload.
     bind_res (optional_mapping (dget r ''orchestration'') ''orchestration'') (\<lambda>x_orchestration.
     bind_res (optional_mapping (dget r ''artifacts'') ''artifacts'') (\<lambda>x_artifacts.
     bind_res (optional_mapping (dget r ''labels'') ''labels'') (\<lambda>x_labels.
     bind_res (optional_non_negative_int (dget r ''attempt_count'') ''attempt_count'') (\<lambda>x_attempt_count.
     bind_res (optional_mapping_or_none (dget r ''result'') ''result'') (\<lambda>x_result.
     bind_res (optional_mapping_or_none (dget r ''error'') ''error'') (\<lambda>x_error.
     Inr \<lparr>t_tenant = x_tenant,
       t_project = x_project,
       t_service = x_service,
       t_task = x_task,
       t_job_id = x_job_id,
       t_idempotency_key = x_idempotency_key,
       t_priority = x_priority,
       t_model = x_model,
       t_endpoint = x_endpoint,
       t_estimated_input_tokens = int_or x_estimated_input_tokens 0,
       t_max_output_tokens = int_or x_max_output_tokens DEFAULT_MAX_OUTPUT_TOKENS,
       t_required_context_tokens = int_or x_required_context_tokens 1,
       t_payload = x_payload,
       t_orchestration = x_orchestration,
       t_artifacts = x_artifacts,
       t_labels = x_labels,
       t_task_id = x_task_id,
       t_state = x_state,
       t_created_at = str_or (optional_string (dget r ''created_at'')) now1,
       t_updated_at = str_or (optional_string (dget r ''updated_at'')) now2,
       t_attempt_count = int_or x_attempt_count 0,
       t_started_at = optional_string (dget r ''started_at''),
       t_finished_at = optional_string (dget r ''finished_at''),
       t_next_attempt_at = optional_string (dget r ''next_attempt_at''),
       t_result = x_result,
       t_error = x_error\<rparr>)))))))))))))))))))))"

section \<open>Well-formed tasks\<close>

text \<open>What the parser produces and every operation keeps: identifying strings are non-empty and
  stripped, token counts are in range, and no optional text is empty.\<close>

definition clean_string :: "string \<Rightarrow> bool" where
  "clean_string s \<longleftrightarrow> s \<noteq> [] \<and> strip s = s"

definition wf_task :: "stored_task \<Rightarrow> bool" where
  "wf_task t \<longleftrightarrow>
     clean_string (t_task_id t) \<and>
     clean_string (t_tenant t) \<and>
     clean_string (t_project t) \<and>
     clean_string (t_service t) \<and>
     clean_string (t_task t) \<and>
     clean_string (t_job_id t) \<and>
     clean_string (t_idempotency_key t) \<and>
     clean_string (t_priority t) \<and>
     clean_string (t_model t) \<and>
     clean_string (t_endpoint t) \<and>
     0 \<le> t_estimated_input_tokens t \<and>
     1 \<le> t_max_output_tokens t \<and>
     1 \<le> t_required_context_tokens t \<and>
     clean_string (t_state t) \<and>
     t_created_at t \<noteq> [] \<and>
     t_updated_at t \<noteq> [] \<and>
     0 \<le> t_attempt_count t \<and>
     t_started_at t \<noteq> Some [] \<and>
     t_finished_at t \<noteq> Some [] \<and>
     t_next_attempt_at t \<noteq> Some []"

lemma string_value_clean: "string_value v f = Inr s \<Longrightarrow> clean_string s"
  by (auto simp: string_value_def clean_string_def split: json.splits if_splits)

lemma string_value_of_clean: "clean_string s \<Longrightarrow> string_value (JStr s) f = Inr s"
  by (simp add: string_value_def clean_string_def)

lemma string_value_blank:
  "string_value v f = Inl e \<Longrightarrow> e = TaskProtocolError (f @ '' must be a non-empty string.'')"
  by (auto simp: string_value_def split: json.splits if_splits)

lemma optional_positive_int_pos: "optional_positive_int v f = Inr (Some n) \<Longrightarrow> 1 \<le> n"
  by (auto simp: optional_positive_int_def split: sum.splits exn.splits if_splits)

lemma optional_positive_int_Inl:
  "optional_positive_int v f = Inl e \<Longrightarrow>
   e = OverflowError \<or> e = TaskProtocolError (f @ '' must be a positive integer.'')"
  by (auto simp: optional_positive_int_def split: sum.splits exn.splits if_splits)

lemma optional_positive_int_JInt: "1 \<le> n \<Longrightarrow> optional_positive_int (JInt n) f = Inr (Some n)"
  by (simp add: optional_positive_int_def)

lemma optional_non_negative_int_nonneg: "optional_non_negative_int v f = Inr (Some n) \<Longrightarrow> 0 \<le> n"
  by (auto simp: optional_non_negative_int_def split: sum.splits exn.splits if_splits)

lemma optional_non_negative_int_JInt:
  "0 \<le> n \<Longrightarrow> optional_non_negative_int (JInt n) f = Inr (Some n)"
  by (simp add: optional_non_negative_int_def)

lemma optional_string_opt_str: "x \<noteq> Some [] \<Longrightarrow> optional_string (opt_str x) = x"
  by (cases x) (auto simp: optional_string_def opt_str_def)

lemma optional_string_JStr: "s \<noteq> [] \<Longrightarrow> optional_string (JStr s) = Some s"
  by (simp add: optional_string_def)

lemma optional_mapping_JDict: "optional_mapping (JDict d) f = Inr d"
  by (simp add: optional_mapping_def)

lemma optional_mapping_opt_dict: "optional_mapping_or_none (opt_dict x) f = Inr x"
  by (cases x) (simp_all add: optional_mapping_or_none_def opt_dict_def)

lemmas record_readers =
  string_value_of_clean optional_positive_int_JInt optional_non_negative_int_JInt
  optional_string_opt_str optional_string_JStr optional_mapping_JDict optional_mapping_opt_dict

lemma int_or_Some: "int_or (Some n) d = (if n = 0 then d else n)"
  by (simp add: int_or_def)

lemma str_or_Some: "s \<noteq> [] \<Longrightarrow> str_or (Some s) d = s"
  by (simp add: str_or_def)

lemma clean_string_not_Nil: "clean_string s \<Longrightarrow> s \<noteq> []"
  by (simp add: clean_string_def)

lemma from_to_record: "wf_task t \<Longrightarrow> from_record now1 now2 (to_record t) = Inr t"
  unfolding wf_task_def to_record_def from_record_def
  by (cases t) (simp add: record_readers int_or_Some str_or_Some py_or_def clean_string_not_Nil)

end
