(* ===== verification/Task_Parse.thy ===== *)
theory Task_Parse
  imports Task_Model
begin

text \<open>
  The admission side of \<open>queue_proxy/task_queue.py\<close>: template rendering, token estimation,
  validation of the common orchestration block and \<open>parse_task_queue_payload\<close>, which turns
  the JSON body of \<open>POST /tasks/queue\<close> into \<open>QueueTask\<close>s or raises.
\<close>

section \<open>Token estimation\<close>

definition input_text_keys :: "string list" where
  "input_text_keys = [''messages'', ''input'', ''prompt'', ''content'', ''text'']"

definition newline :: string where "newline = [char_of (10 :: nat)]"

lemma size_map_of: "map_of d k = Some v \<Longrightarrow> size v < Suc (size_list (size_prod (\<lambda>_. 0) size) d)"
proof (induction d)
  case (Cons kv d)
  then show ?case by (cases kv) (auto split: if_splits)
qed simp

function collect_input_text :: "json \<Rightarrow> string" where
  "collect_input_text JNull = []"
| "collect_input_text (JStr s) = s"
| "collect_input_text (JInt n) = py_str (JInt n)"
| "collect_input_text (JFloat q r) = py_str (JFloat q r)"
| "collect_input_text (JInf b) = py_str (JInf b)"
| "collect_input_text JNaN = py_str JNaN"
| "collect_input_text (JBool b) = py_str (JBool b)"
| "collect_input_text (JList xs) = join newline (map collect_input_text xs)"
| "collect_input_text (JDict d) = join newline (concat (map (\<lambda>k. case map_of d k of
       None \<Rightarrow> [] | Some v \<Rightarrow> [collect_input_text v]) input_text_keys))"
  by pat_completeness auto
termination
  by (relation "measure size")
    (auto simp: less_Suc_eq_le intro: size_list_estimation' dest: size_map_of)

declare collect_input_text.simps [simp del]

definition estimate_input_tokens :: "dict \<Rightarrow> int" where
  "estimate_input_tokens payload = (let text = collect_input_text (JDict payload) in
     if text = [] then 0
     else max 1 (round_div (int (length text)) TOKEN_ESTIMATE_CHARS_PER_TOKEN))"

section \<open>Templates\<close>

definition name_start :: "char \<Rightarrow> bool" where
  "name_start c = (let n = (of_char c :: nat) in
     (65 \<le> n \<and> n \<le> 90) \<or> (97 \<le> n \<and> n \<le> 122) \<or> n = 95)"

definition name_char :: "char \<Rightarrow> bool" where
  "name_char c \<longleftrightarrow> name_start c \<or> is_digit c \<or> c = CHR ''.'' \<or> c = CHR ''-''"

text \<open>\<open>TEMPLATE_PATTERN\<close> at the start of a text: the variable's name and the rest of the text.
  White space, name characters and the closing brace are disjoint, so the pattern matches in
  at most one way and needs no backtracking.\<close>

definition template_match :: "string \<Rightarrow> (string \<times> string) option" where
  "template_match s =
     (if \<not> starts_with s ''{{'' then None
      else (case lstrip (drop 2 s) of
          [] \<Rightarrow> None
        | c # cs \<Rightarrow>
            if \<not> name_start c then None
            else (let rest = lstrip (dropWhile name_char cs) in
              if starts_with rest ''}}'' then Some (c # takeWhile name_char cs, drop 2 rest)
              else None)))"

lemma length_dropWhile: "length (dropWhile P xs) \<le> length xs"
  by (induction xs) auto

lemma template_match_shorter: "template_match s = Some (n, rest) \<Longrightarrow> length rest < length s"
proof -
  assume m: "template_match s = Some (n, rest)"
  then obtain c cs where c: "lstrip (drop 2 s) = c # cs"
    and r: "rest = drop 2 (lstrip (dropWhile name_char cs))"
    by (auto simp: template_match_def Let_def split: if_splits list.splits)
  have "length rest \<le> length (dropWhile py_space (dropWhile name_char cs))"
    by (simp add: r lstrip_def)
  also have "\<dots> \<le> length cs"
    by (metis length_dropWhile order_trans)
  also have "\<dots> < length (lstrip (drop 2 s))"
    by (simp add: c)
  also have "\<dots> \<le> length s"
    unfolding lstrip_def by (metis diff_le_self length_drop length_dropWhile order_trans)
  finally show ?thesis .
qed

fun template_walk :: "json \<Rightarrow> string list \<Rightarrow> json option" where
  "template_walk cur [] = Some cur"
| "template_walk cur (part # parts) = (case cur of
     JDict d \<Rightarrow> (case map_of d part of None \<Rightarrow> None | Some v \<Rightarrow> template_walk v parts)
   | _ \<Rightarrow> None)"

definition template_variable :: "dict \<Rightarrow> string \<Rightarrow> string \<Rightarrow> json res" where
  "template_variable vars name field = (case template_walk (JDict vars) (split_on CHR ''.'' name) of
       None \<Rightarrow> Inl (TaskProtocolError
         (field @ '' references unknown template variable '' @ repr_str name @ ''.''))
     | Some v \<Rightarrow> Inr v)"

definition template_text :: "json \<Rightarrow> string" where
  "template_text v = (case v of JDict _ \<Rightarrow> json_dumps v | JList _ \<Rightarrow> json_dumps v | _ \<Rightarrow> py_str v)"

function template_sub :: "dict \<Rightarrow> string \<Rightarrow> string \<Rightarrow> string res" where
  "template_sub vars field s = (case template_match s of
       Some (name, rest) \<Rightarrow>
         bind_res (template_variable vars name field) (\<lambda>v.
         bind_res (template_sub vars field rest) (\<lambda>r. Inr (template_text v @ r)))
     | None \<Rightarrow> (case s of [] \<Rightarrow> Inr []
         | c # cs \<Rightarrow> bind_res (template_sub vars field cs) (\<lambda>r. Inr (c # r))))"
  by pat_completeness auto
termination
  by (relation "measure (\<lambda>(vars, field, s). length s)") (auto dest: template_match_shorter)

declare template_sub.simps [simp del]

definition render_template_string :: "string \<Rightarrow> dict \<Rightarrow> string \<Rightarrow> json res" where
  "render_template_string s vars field = (case template_match s of
       Some (name, []) \<Rightarrow> template_variable vars name field
     | _ \<Rightarrow> bind_res (template_sub vars field s) (\<lambda>r. Inr (JStr r)))"

fun render_payload_template :: "json \<Rightarrow> dict \<Rightarrow> string \<Rightarrow> json res"
  and render_items :: "json list \<Rightarrow> nat \<Rightarrow> dict \<Rightarrow> string \<Rightarrow> json list res"
  and render_fields :: "dict \<Rightarrow> dict \<Rightarrow> string \<Rightarrow> dict res"
where
  "render_payload_template (JStr s) vars field = render_template_string s vars field"
| "render_payload_template (JList xs) vars field =
     bind_res (render_items xs 0 vars field) (\<lambda>ys. Inr (JList ys))"
| "render_payload_template (JDict d) vars field =
     bind_res (render_fields d vars field) (\<lambda>e. Inr (JDict e))"
| "render_payload_template v vars field = Inr v"
| "render_items [] i vars field = Inr []"
| "render_items (x # xs) i vars field =
     bind_res (render_payload_template x vars (field @ ''['' @ nat_digits i @ '']'')) (\<lambda>y.
     bind_res (render_items xs (Suc i) vars field) (\<lambda>ys. Inr (y # ys)))"
| "render_fields [] vars field = Inr []"
| "render_fields ((k, x) # d) vars field =
     bind_res (render_payload_template x vars (field @ ''.'' @ k)) (\<lambda>y.
     bind_res (render_fields d vars field) (\<lambda>e. Inr ((k, y) # e)))"

section \<open>Parsing a queue submission\<close>

text \<open>The field names of the error messages: \<open>tasks[index].field\<close>.\<close>

definition task_field :: "nat \<Rightarrow> string \<Rightarrow> string" where
  "task_field i f = ''tasks['' @ nat_digits i @ ''].'' @ f"

definition task_payload_from_raw ::
  "dict \<Rightarrow> dict option \<Rightarrow> dict \<Rightarrow> dict \<Rightarrow> nat \<Rightarrow> dict res" where
  "task_payload_from_raw raw common_template base_vars common_vars i =
     (if dhas raw ''payload'' then optional_mapping (dget raw ''payload'') (task_field i ''payload'')
      else
        bind_res (if dget raw ''payload_template'' \<noteq> JNull
            then bind_res (optional_mapping (dget raw ''payload_template'') (task_field i ''payload_template''))
                   (\<lambda>d. Inr (Some d))
            else Inr common_template) (\<lambda>template.
        case template of
          None \<Rightarrow> Inr []
        | Some tmpl \<Rightarrow>
            bind_res (optional_mapping (dget raw ''template_vars'') (task_field i ''template_vars'')) (\<lambda>raw_vars.
            bind_res (render_payload_template (JDict tmpl)
                (dmerge (dmerge base_vars common_vars) raw_vars) (task_field i ''payload_template'')) (\<lambda>rendered.
            case rendered of JDict d \<Rightarrow> Inr d
            | _ \<Rightarrow> Inl (TaskProtocolError
                (task_field i ''payload_template'' @ '' must render to a JSON object.''))))))"

record token_counts =
  tc_estimated_input :: int
  tc_max_output :: int
  tc_required_context :: int

definition task_tokens :: "dict \<Rightarrow> dict \<Rightarrow> dict \<Rightarrow> nat \<Rightarrow> token_counts res" where
  "task_tokens raw orch payload i =
     bind_res (optional_mapping (dget orch ''tokens'') (task_field i ''orchestration.tokens'')) (\<lambda>common.
     bind_res (optional_mapping (dget raw ''tokens'') (task_field i ''tokens'')) (\<lambda>own.
     let tokens = dmerge common own in
     bind_res (optional_positive_int (dget tokens ''estimated_input_tokens'')
         (task_field i ''tokens.estimated_input_tokens'')) (\<lambda>est.
     let est = (case est of None \<Rightarrow> estimate_input_tokens payload | Some n \<Rightarrow> n) in
     bind_res (optional_positive_int
         (py_or (py_or (py_or (py_or (dget tokens ''max_output_tokens'') (dget payload ''max_tokens''))
            (dget payload ''max_output_tokens'')) (dget payload ''max_completion_tokens''))
            (dget orch ''max_output_tokens''))
         (task_field i ''tokens.max_output_tokens'')) (\<lambda>out.
     let out = (case out of None \<Rightarrow> DEFAULT_MAX_OUTPUT_TOKENS | Some n \<Rightarrow> n) in
     Inr \<lparr>tc_estimated_input = est, tc_max_output = out, tc_required_context = max 1 (est + out)\<rparr>))))"

fun each_res :: "('a \<Rightarrow> 'b res) \<Rightarrow> 'a list \<Rightarrow> unit res" where
  "each_res f [] = Inr ()"
| "each_res f (x # xs) = bind_res (f x) (\<lambda>_. each_res f xs)"

definition validate_common_orchestration :: "dict \<Rightarrow> unit res" where
  "validate_common_orchestration orch =
     bind_res (string_value (dget orch ''schema_version'') ''orchestration.schema_version'') (\<lambda>version.
     if version \<noteq> SCHEMA_VERSION
     then Inl (TaskProtocolError (''orchestration.schema_version must be '' @ repr_str SCHEMA_VERSION @ ''.''))
     else
       bind_res (each_res (\<lambda>f. string_value (dget orch f) (''orchestration.'' @ f))
           [''tenant'', ''project'', ''service'', ''task'', ''priority'']) (\<lambda>_.
       if py_str (dget orch ''priority'') \<notin> PRIORITIES
       then Inl (TaskProtocolError
         ''orchestration.priority must be one of: batch, foreground, interactive, maintenance.'')
       else
         bind_res (each_res (\<lambda>f. optional_positive_int (dget orch f) (''orchestration.'' @ f))
             [''lms_parallel'', ''max_parallel'', ''lms_context_length'']) (\<lambda>_. Inr ())))"

text \<open>\<open>for key in (...): if key in raw_task: orchestration[key] = raw_task[key]\<close>\<close>

definition override_keys :: "dict \<Rightarrow> dict \<Rightarrow> dict" where
  "override_keys common raw =
     fold (\<lambda>k d. if dhas raw k then dset k (dget raw k) d else d)
       [''job_id'', ''idempotency_key'', ''labels'', ''artifacts''] common"

definition parse_queue_task ::
  "dict \<Rightarrow> dict \<Rightarrow> string \<Rightarrow> string \<Rightarrow> dict option \<Rightarrow> dict \<Rightarrow> nat \<Rightarrow> queue_task res" where
  "parse_queue_task raw common common_model common_endpoint common_template common_vars i =
     (let orch = override_keys common raw in
     bind_res (string_value (dget orch ''job_id'') (task_field i ''job_id'')) (\<lambda>job_id.
     bind_res (string_value (dget orch ''idempotency_key'') (task_field i ''idempotency_key'')) (\<lambda>ikey.
     bind_res (optional_mapping (dget orch ''artifacts'') (task_field i ''artifacts'')) (\<lambda>artifacts.
     bind_res (optional_mapping (dget orch ''labels'') (task_field i ''labels'')) (\<lambda>labels.
     bind_res (string_value (py_or (dget raw ''model'') (JStr common_model)) (task_field i ''model'')) (\<lambda>model.
     bind_res (string_value (py_or (dget raw ''endpoint'') (JStr common_endpoint)) (task_field i ''endpoint'')) (\<lambda>endpoint.
     bind_res (task_payload_from_raw raw common_template
       [(''model'', JStr model), (''endpoint'', JStr endpoint), (''job_id'', JStr job_id),
        (''idempotency_key'', JStr ikey), (''tenant'', dget common ''tenant''),
        (''project'', dget common ''project''), (''service'', dget common ''service''),
        (''task'', dget common ''task''), (''priority'', dget common ''priority''),
        (''artifacts'', JDict artifacts), (''labels'', JDict labels)] common_vars i) (\<lambda>payload.
     bind_res (task_tokens raw orch payload i) (\<lambda>tokens.
     bind_res (string_value (dget common ''tenant'') ''orchestration.tenant'') (\<lambda>tenant.
     bind_res (string_value (dget common ''project'') ''orchestration.project'') (\<lambda>project.
     bind_res (string_value (dget common ''service'') ''orchestration.service'') (\<lambda>service.
     bind_res (string_value (dget common ''task'') ''orchestration.task'') (\<lambda>task.
     bind_res (string_value (dget common ''priority'') ''orchestration.priority'') (\<lambda>priority.
     Inr \<lparr>t_tenant = tenant, t_project = project, t_service = service, t_task = task,
          t_job_id = job_id, t_idempotency_key = ikey, t_priority = priority, t_model = model,
          t_endpoint = endpoint, t_estimated_input_tokens = tc_estimated_input tokens,
          t_max_output_tokens = tc_max_output tokens,
          t_required_context_tokens = tc_required_context tokens, t_payload = payload,
          t_orchestration = orch, t_artifacts = artifacts, t_labels = labels\<rparr>))))))))))))))"

fun parse_raw_tasks ::
  "dict \<Rightarrow> string \<Rightarrow> string \<Rightarrow> dict option \<Rightarrow> dict \<Rightarrow> nat \<Rightarrow> json list \<Rightarrow> queue_task list res" where
  "parse_raw_tasks common model endpoint template vars i [] = Inr []"
| "parse_raw_tasks common model endpoint template vars i (raw # rest) = (case raw of
     JDict d \<Rightarrow>
       bind_res (parse_queue_task d common model endpoint template vars i) (\<lambda>t.
       bind_res (parse_raw_tasks common model endpoint template vars (Suc i) rest) (\<lambda>ts. Inr (t # ts)))
   | _ \<Rightarrow> Inl (TaskProtocolError (''tasks['' @ nat_digits i @ ''] must be a JSON object.'')))"

definition parse_task_queue_payload :: "json \<Rightarrow> queue_task list res" where
  "parse_task_queue_payload body = (case body of
     JDict payload \<Rightarrow>
       bind_res (require_mapping (dget payload ''orchestration'') ''orchestration'') (\<lambda>common.
       bind_res (validate_common_orchestration common) (\<lambda>_.
       bind_res (required_string payload ''model'') (\<lambda>model.
       bind_res (string_value (py_or (dget payload ''endpoint'') (JStr ''/v1/chat/completions'')) ''endpoint'') (\<lambda>endpoint.
       bind_res (optional_mapping_or_none (dget payload ''payload_template'') ''payload_template'') (\<lambda>template.
       bind_res (optional_mapping (dget payload ''template_vars'') ''template_vars'') (\<lambda>vars.
       case dget payload ''tasks'' of
         JList raw \<Rightarrow>
           if raw = [] then Inl (TaskProtocolError ''Task queue request requires a non-empty tasks array.'')
           else parse_raw_tasks common model endpoint template vars 0 raw
       | _ \<Rightarrow> Inl (TaskProtocolError ''Task queue request requires a non-empty tasks array.'')))))))
   | _ \<Rightarrow> Inl (TaskProtocolError ''Task queue request body must be a JSON object.''))"

section \<open>Facts about the templates\<close>

fun has_open :: "string \<Rightarrow> bool" where
  "has_open [] = False"
| "has_open (c # s) \<longleftrightarrow> starts_with (c # s) ''{{'' \<or> has_open s"

lemma template_match_needs_open: "\<not> starts_with s ''{{'' \<Longrightarrow> template_match s = None"
  by (simp add: template_match_def)

lemma template_sub_plain: "\<not> has_open s \<Longrightarrow> template_sub vars field s = Inr s"
proof (induction s)
  case Nil
  then show ?case
    by (subst template_sub.simps) (simp add: template_match_def starts_with_def)
next
  case (Cons c s)
  then show ?case
    by (subst template_sub.simps) (simp add: template_match_needs_open)
qed

lemma render_string_plain:
  "\<not> has_open s \<Longrightarrow> render_template_string s vars field = Inr (JStr s)"
proof -
  assume s: "\<not> has_open s"
  then have "template_match s = None"
    by (cases s) (simp_all add: template_match_needs_open starts_with_def)
  with s show ?thesis by (simp add: render_template_string_def template_sub_plain)
qed

text \<open>A value none of whose strings opens a placeholder.\<close>

fun plain_json :: "json \<Rightarrow> bool" where
  "plain_json (JStr s) = (\<not> has_open s)"
| "plain_json (JList xs) = list_all plain_json xs"
| "plain_json (JDict d) = list_all (\<lambda>kv. plain_json (snd kv)) d"
| "plain_json _ = True"

lemma render_plain_all:
  "plain_json v \<Longrightarrow> render_payload_template v vars field = Inr v"
  "list_all plain_json xs \<Longrightarrow> render_items xs i vars field = Inr xs"
  "list_all (\<lambda>kv. plain_json (snd kv)) d \<Longrightarrow> render_fields d vars field = Inr d"
  by (induction v vars field and xs i vars field and d vars field
      rule: render_payload_template_render_items_render_fields.induct)
    (auto simp: render_string_plain)

definition template_name :: "string \<Rightarrow> bool" where
  "template_name n \<longleftrightarrow> n \<noteq> [] \<and> name_start (hd n) \<and> list_all name_char (tl n)"

lemma name_not_space: "name_char c \<Longrightarrow> \<not> py_space c" and name_not_brace: "\<not> name_char CHR ''}''"
  by (auto simp: name_char_def name_start_def is_digit_def py_space_def Let_def)

lemma brace_not_space: "\<not> py_space CHR ''}''" "\<not> py_space CHR ''{''"
  by (simp_all add: py_space_def Let_def)

lemma space_not_name: "py_space c \<Longrightarrow> \<not> name_char c"
  using name_not_space by blast

lemma dropWhile_spaces: "list_all py_space ws \<Longrightarrow> dropWhile py_space (ws @ s) = dropWhile py_space s"
  by (induction ws) auto

lemma template_match_placeholder:
  assumes "template_name n" "list_all py_space ws1" "list_all py_space ws2"
  shows "template_match (''{{'' @ ws1 @ n @ ws2 @ ''}}'' @ rest) = Some (n, rest)"
proof -
  obtain c cs where n: "n = c # cs" "name_start c" "list_all name_char cs"
    using assms(1) by (cases n) (auto simp: template_name_def)
  have c: "\<not> py_space c" using n(2) by (intro name_not_space) (simp add: name_char_def)
  have stop: "dropWhile name_char (ws2 @ CHR ''}'' # t) = ws2 @ CHR ''}'' # t"
    "takeWhile name_char (ws2 @ CHR ''}'' # t) = []" for t
    using assms(3) by (cases ws2; simp add: name_not_brace space_not_name)+
  have cs: "dropWhile name_char (cs @ t) = dropWhile name_char t"
    "takeWhile name_char (cs @ t) = cs @ takeWhile name_char t" for t
    using n(3) by (induction cs) auto
  show ?thesis
    using assms(2,3) n c
    by (simp add: template_match_def starts_with_def lstrip_def dropWhile_spaces cs stop
        brace_not_space)
qed

lemma render_full_match:
  assumes "template_name n" "list_all py_space ws1" "list_all py_space ws2"
  shows "render_template_string (''{{'' @ ws1 @ n @ ws2 @ ''}}'') vars field = template_variable vars n field"
  using template_match_placeholder [OF assms, of "[]"] by (simp add: render_template_string_def)

lemma template_sub_placeholder:
  assumes "template_name n" "list_all py_space ws1" "list_all py_space ws2"
  shows "template_sub vars field (''{{'' @ ws1 @ n @ ws2 @ ''}}'' @ rest) =
     bind_res (template_variable vars n field) (\<lambda>v.
     bind_res (template_sub vars field rest) (\<lambda>r. Inr (template_text v @ r)))"
  by (subst template_sub.simps) (simp only: template_match_placeholder [OF assms] option.case prod.case)

lemma template_sub_prefix:
  assumes "CHR ''{'' \<notin> set pre"
  shows "template_sub vars field (pre @ s) = bind_res (template_sub vars field s) (\<lambda>r. Inr (pre @ r))"
  using assms
proof (induction pre)
  case Nil
  then show ?case by (cases "template_sub vars field s") simp_all
next
  case (Cons c pre)
  then have "c \<noteq> CHR ''{''" by auto
  then have "template_match (c # pre @ s) = None"
    by (simp add: template_match_needs_open starts_with_def)
  then have "template_sub vars field ((c # pre) @ s) =
      bind_res (template_sub vars field (pre @ s)) (\<lambda>r. Inr (c # r))"
    by (subst template_sub.simps) simp
  with Cons show ?case by (cases "template_sub vars field s") simp_all
qed

lemma render_keeps_keys: "render_fields d vars field = Inr e \<Longrightarrow> map fst e = map fst d"
  by (induction d arbitrary: e) (auto simp: bind_res_Inr_iff)

lemma render_dict_is_dict:
  "render_payload_template (JDict d) vars field = Inr v \<Longrightarrow> \<exists>e. v = JDict e \<and> map fst e = map fst d"
  by (auto simp: bind_res_Inr_iff dest: render_keeps_keys)

lemma template_variable_simple:
  assumes "CHR ''.'' \<notin> set n"
  shows "template_variable vars n field = (case map_of vars n of
       None \<Rightarrow> Inl (TaskProtocolError (field @ '' references unknown template variable '' @ repr_str n @ ''.''))
     | Some v \<Rightarrow> Inr v)"
proof -
  have "split_on CHR ''.'' n = [n]" using assms by (induction n) auto
  then show ?thesis by (simp add: template_variable_def split: option.splits)
qed

section \<open>Facts about estimation and parsing\<close>

lemma estimate_nonneg: "0 \<le> estimate_input_tokens payload"
  by (simp add: estimate_input_tokens_def Let_def le_max_iff_disj)

lemma estimate_bounds:
  assumes "collect_input_text (JDict payload) \<noteq> []"
  defines "n \<equiv> int (length (collect_input_text (JDict payload)))"
  shows "1 \<le> estimate_input_tokens payload"
    and "n - 2 \<le> 4 * estimate_input_tokens payload"
    and "4 * estimate_input_tokens payload \<le> n + 3"
proof -
  have e: "estimate_input_tokens payload = max 1 (round_div n 4)"
    using assms by (simp add: estimate_input_tokens_def TOKEN_ESTIMATE_CHARS_PER_TOKEN_def Let_def)
  have n: "1 \<le> n" using assms by (cases "collect_input_text (JDict payload)") simp_all
  show "1 \<le> estimate_input_tokens payload" by (simp add: e)
  show "n - 2 \<le> 4 * estimate_input_tokens payload" "4 * estimate_input_tokens payload \<le> n + 3"
    using round_div_bounds [of 4 n] n unfolding e by linarith+
qed

definition wf_queue_task :: "queue_task \<Rightarrow> bool" where
  "wf_queue_task q \<longleftrightarrow>
     clean_string (t_tenant q) \<and> clean_string (t_project q) \<and> clean_string (t_service q) \<and>
     clean_string (t_task q) \<and> clean_string (t_job_id q) \<and> clean_string (t_idempotency_key q) \<and>
     clean_string (t_priority q) \<and> clean_string (t_model q) \<and> clean_string (t_endpoint q) \<and>
     0 \<le> t_estimated_input_tokens q \<and> 1 \<le> t_max_output_tokens q \<and>
     t_required_context_tokens q = t_estimated_input_tokens q + t_max_output_tokens q"

lemma task_tokens_wf:
  assumes "task_tokens raw orch payload i = Inr k"
  shows "0 \<le> tc_estimated_input k \<and> 1 \<le> tc_max_output k \<and>
     tc_required_context k = tc_estimated_input k + tc_max_output k"
  using assms estimate_nonneg [of payload]
  by (auto simp: task_tokens_def bind_res_Inr_iff Let_def DEFAULT_MAX_OUTPUT_TOKENS_def max_def
      dest!: optional_positive_int_pos split: option.splits)

lemma parse_queue_task_wf:
  "parse_queue_task raw common model endpoint template vars i = Inr q \<Longrightarrow> wf_queue_task q"
  by (auto simp: parse_queue_task_def bind_res_Inr_iff Let_def wf_queue_task_def
      dest!: string_value_clean task_tokens_wf)

lemma parse_queue_task_common:
  "parse_queue_task raw common model endpoint template vars i = Inr q \<Longrightarrow>
     string_value (dget common f) (''orchestration.'' @ f) = Inr (g q)"
  if "(f, g) \<in> {(''tenant'', t_tenant), (''project'', t_project), (''service'', t_service),
       (''task'', t_task), (''priority'', t_priority)}"
  using that by (auto simp: parse_queue_task_def bind_res_Inr_iff Let_def)

lemma parse_raw_tasks_all2:
  "parse_raw_tasks common model endpoint template vars i raw = Inr qs \<Longrightarrow>
     length qs = length raw \<and>
     (\<forall>j < length raw. \<exists>d. raw ! j = JDict d \<and>
        parse_queue_task d common model endpoint template vars (i + j) = Inr (qs ! j))"
proof (induction raw arbitrary: i qs)
  case Nil
  then show ?case by simp
next
  case (Cons r raw)
  then obtain d q qs' where "r = JDict d" "parse_queue_task d common model endpoint template vars i = Inr q"
    "parse_raw_tasks common model endpoint template vars (Suc i) raw = Inr qs'" "qs = q # qs'"
    by (auto simp: bind_res_Inr_iff split: json.splits)
  with Cons.IH [of "Suc i" qs'] show ?case by (auto simp: nth_Cons split: nat.splits)
qed

lemma priorities_clean: "s \<in> PRIORITIES \<Longrightarrow> strip s = s"
  by (auto simp: PRIORITIES_def intro!: strip_no_space) (auto simp: py_space_def Let_def)

lemma parse_payload_cases:
  assumes "parse_task_queue_payload body = Inr qs"
  obtains payload common model endpoint template vars raw where
    "body = JDict payload" "dget payload ''orchestration'' = JDict common"
    "validate_common_orchestration common = Inr ()" "dget payload ''tasks'' = JList raw" "raw \<noteq> []"
    "parse_raw_tasks common model endpoint template vars 0 raw = Inr qs"
proof -
  obtain payload where b: "body = JDict payload"
    using assms by (cases body) (auto simp: parse_task_queue_payload_def)
  obtain raw where r: "dget payload ''tasks'' = JList raw"
    using assms
    by (cases "dget payload ''tasks''") (auto simp: b parse_task_queue_payload_def bind_res_Inr_iff)
  obtain common where c: "dget payload ''orchestration'' = JDict common"
    using assms
    by (cases "dget payload ''orchestration''")
      (auto simp: b parse_task_queue_payload_def bind_res_Inr_iff require_mapping_def)
  from assms show thesis
    by (auto simp: b r c parse_task_queue_payload_def bind_res_Inr_iff require_mapping_def
        intro: that [OF b c _ r] split: if_splits)
qed

section \<open>Which exceptions leave the parser\<close>

text \<open>\<open>admits m\<close>: if \<open>m\<close> raises, it raises a protocol error or the OverflowError of \<open>int()\<close> on an
  infinite number. One rule per construct, so that a function's proof follows its text.\<close>

definition admits :: "'a res \<Rightarrow> bool" where
  "admits m \<longleftrightarrow> (\<forall>e. m = Inl e \<longrightarrow> e = OverflowError \<or> (\<exists>msg. e = TaskProtocolError msg))"

lemma admits_simps [simp]:
  "admits (Inr x)" "admits (Inl (TaskProtocolError msg))" "admits (Inl OverflowError)"
  by (simp_all add: admits_def)

lemma admits_bind [intro!]:
  "admits m \<Longrightarrow> (\<And>x. m = Inr x \<Longrightarrow> admits (f x)) \<Longrightarrow> admits (bind_res m f)"
  by (cases m) (auto simp: admits_def)

lemma admits_readers [simp]:
  "admits (string_value v f)" "admits (required_string d f)" "admits (optional_mapping v f)"
  "admits (optional_mapping_or_none v f)" "admits (require_mapping v f)"
  "admits (optional_positive_int v f)" "admits (template_variable d n f)"
proof -
  show "admits (string_value v f)" for v
    by (auto simp: admits_def dest: string_value_blank)
  then show "admits (required_string d f)" by (simp add: required_string_def)
  show "admits (optional_mapping v f)" by (cases v) (auto simp: optional_mapping_def)
  show "admits (optional_mapping_or_none v f)" by (cases v) (auto simp: optional_mapping_or_none_def)
  show "admits (require_mapping v f)" by (cases v) (auto simp: require_mapping_def)
  show "admits (optional_positive_int v f)" by (auto simp: admits_def dest: optional_positive_int_Inl)
  show "admits (template_variable d n f)" by (auto simp: template_variable_def split: option.splits)
qed

lemma admits_each_res [simp]: "(\<And>x. admits (f x)) \<Longrightarrow> admits (each_res f xs)"
  by (induction xs) auto

lemma admits_template_sub [simp]: "admits (template_sub vars field s)"
proof (induction vars field s rule: template_sub.induct)
  case (1 vars field s)
  then show ?case
    by (subst template_sub.simps) (auto split: option.splits list.splits)
qed

lemma admits_render_string [simp]: "admits (render_template_string s vars field)"
  by (auto simp: render_template_string_def split: option.splits list.splits)

lemma admits_render [simp]:
  "admits (render_payload_template v vars field)"
  "admits (render_items xs i vars field)"
  "admits (render_fields d vars field)"
  by (induction v vars field and xs i vars field and d vars field
      rule: render_payload_template_render_items_render_fields.induct) auto

lemma admits_payload [simp]: "admits (task_payload_from_raw raw ct bv cv i)"
proof -
  have r: "admits (case v of JDict d \<Rightarrow> Inr d | _ \<Rightarrow> Inl (TaskProtocolError msg))" for v msg
    by (cases v) auto
  show ?thesis
    unfolding task_payload_from_raw_def
    by (auto simp: r simp del: render_payload_template.simps split: option.split)
qed

lemma admits_tokens [simp]: "admits (task_tokens raw orch payload i)"
  by (auto simp: task_tokens_def Let_def)

lemma admits_parse_queue_task [simp]:
  "admits (parse_queue_task raw common model endpoint template vars i)"
  unfolding parse_queue_task_def Let_def by (intro admits_bind) simp_all

lemma admits_parse_raw_tasks [simp]:
  "admits (parse_raw_tasks common model endpoint template vars i raw)"
proof (induction raw arbitrary: i)
  case (Cons r raw)
  then show ?case by (cases r) auto
qed simp

lemma admits_validate [simp]: "admits (validate_common_orchestration orch)"
  by (auto simp: validate_common_orchestration_def)

lemma admits_parse_payload: "admits (parse_task_queue_payload body)"
proof -
  have r: "admits (case v of JList raw \<Rightarrow> if raw = [] then Inl (TaskProtocolError msg) else g raw
      | _ \<Rightarrow> Inl (TaskProtocolError msg'))" if "\<And>raw. admits (g raw)" for v g msg msg'
    using that by (cases v) auto
  show ?thesis
    unfolding parse_task_queue_payload_def
    by (cases body) (auto intro!: r)
qed

end
