(* ===== verification/Context_Plan.thy ===== *)
theory Context_Plan
  imports Task_Model
begin

text \<open>
  Capacity planning over stored tasks (\<open>queue_proxy/task_queue.py\<close>): context buckets, the
  context plan of one model, and the queue lengths and plans per model that are sent to the
  lifecycle service. A plan is the dictionary the code builds; it may raise, because the
  parallelism and context hints are read from the stored orchestration block.
\<close>

section \<open>max and min with a default\<close>

fun max_default :: "int \<Rightarrow> int list \<Rightarrow> int" where
  "max_default d [] = d"
| "max_default d (x # xs) = fold max xs x"

fun min_or_none :: "int list \<Rightarrow> int option" where
  "min_or_none [] = None"
| "min_or_none (x # xs) = Some (fold min xs x)"

lemma fold_max_ge: "(y :: int) \<in> insert x (set xs) \<Longrightarrow> y \<le> fold max xs x"
  by (metis List.finite_set Max.set_eq_fold Max_ge list.simps(15))

lemma fold_max_in: "fold max xs (x :: int) \<in> insert x (set xs)"
  by (metis List.finite_set Max.set_eq_fold Max_in insert_not_empty list.simps(15))

lemma fold_min_le: "(y :: int) \<in> insert x (set xs) \<Longrightarrow> fold min xs x \<le> y"
  by (metis List.finite_set Min.set_eq_fold Min_le list.simps(15))

lemma fold_min_in: "fold min xs (x :: int) \<in> insert x (set xs)"
  by (metis List.finite_set Min.set_eq_fold Min_in insert_not_empty list.simps(15))

lemma max_default_ge: "y \<in> set xs \<Longrightarrow> y \<le> max_default d xs"
  using fold_max_ge by (cases xs) auto

lemma max_default_in: "xs \<noteq> [] \<Longrightarrow> max_default d xs \<in> set xs"
  using fold_max_in by (cases xs) auto

lemma min_or_none_iff: "min_or_none xs = None \<longleftrightarrow> xs = []"
  by (cases xs) auto

lemma min_or_none_le: "min_or_none xs = Some m \<Longrightarrow> y \<in> set xs \<Longrightarrow> m \<le> y"
  using fold_min_le by (cases xs) auto

lemma min_or_none_in: "min_or_none xs = Some m \<Longrightarrow> m \<in> set xs"
  using fold_min_in by (cases xs) auto

lemma min_or_none_Some_iff: "min_or_none xs = Some c \<longleftrightarrow> c \<in> set xs \<and> (\<forall>d\<in>set xs. c \<le> d)"
proof
  assume "min_or_none xs = Some c"
  then show "c \<in> set xs \<and> (\<forall>d\<in>set xs. c \<le> d)"
    using min_or_none_in min_or_none_le by blast
next
  assume c: "c \<in> set xs \<and> (\<forall>d\<in>set xs. c \<le> d)"
  then obtain m where m: "min_or_none xs = Some m" by (cases xs) auto
  from c have "m \<le> c" using min_or_none_le [OF m] by blast
  moreover from c have "c \<le> m" using min_or_none_in [OF m] by blast
  ultimately show "min_or_none xs = Some c" using m by simp
qed

section \<open>Context buckets\<close>

definition context_bucket :: "int \<Rightarrow> int" where
  "context_bucket required_context_tokens = (let required = max 1 required_context_tokens in
     case find (\<lambda>b. required \<le> b) CONTEXT_BUCKETS of Some b \<Rightarrow> b | None \<Rightarrow> required)"

lemma find_sorted_least:
  "sorted xs \<Longrightarrow> find P xs = Some b \<Longrightarrow> c \<in> set xs \<Longrightarrow> P c \<Longrightarrow> b \<le> c"
  by (induction xs) (auto split: if_splits)

lemma buckets_sorted: "sorted CONTEXT_BUCKETS"
  by (simp add: CONTEXT_BUCKETS_def)

lemma context_bucket_fits: "n \<le> context_bucket n" "1 \<le> context_bucket n"
  by (auto simp: context_bucket_def Let_def find_Some_iff split: option.splits)

lemma context_bucket_least:
  "c \<in> set CONTEXT_BUCKETS \<Longrightarrow> n \<le> c \<Longrightarrow> context_bucket n \<le> c"
proof -
  assume c: "c \<in> set CONTEXT_BUCKETS" "n \<le> c"
  then have m: "max 1 n \<le> c" by (auto simp: CONTEXT_BUCKETS_def)
  then obtain b where b: "find (\<lambda>b. max 1 n \<le> b) CONTEXT_BUCKETS = Some b"
    using c(1) by (metis find_None_iff not_Some_eq)
  then show ?thesis
    using find_sorted_least [OF buckets_sorted b c(1) m]
    by (simp add: context_bucket_def Let_def del: max.bounded_iff)
qed

lemma context_bucket_cases: "context_bucket n \<in> set CONTEXT_BUCKETS \<or> context_bucket n = max 1 n"
  by (auto simp: context_bucket_def Let_def find_Some_iff split: option.splits)

lemma context_bucket_beyond: "131072 < n \<Longrightarrow> context_bucket n = n"
  by (simp add: context_bucket_def CONTEXT_BUCKETS_def)

lemma context_bucket_in: "n \<le> 131072 \<Longrightarrow> context_bucket n \<in> set CONTEXT_BUCKETS"
proof -
  assume "n \<le> 131072"
  then have "max 1 n \<le> 131072" "131072 \<in> set CONTEXT_BUCKETS"
    by (simp_all add: CONTEXT_BUCKETS_def)
  then obtain b where b: "find (\<lambda>b. max 1 n \<le> b) CONTEXT_BUCKETS = Some b"
    by (metis (no_types, lifting) find_None_iff not_Some_eq)
  then have "b \<in> set CONTEXT_BUCKETS" by (auto simp: find_Some_iff)
  with b show ?thesis by (simp add: context_bucket_def Let_def del: max.bounded_iff)
qed

lemma context_bucket_mono:
  assumes "m \<le> n"
  shows "context_bucket m \<le> context_bucket n"
proof (cases "131072 < n")
  case False
  then have "context_bucket n \<in> set CONTEXT_BUCKETS" by (intro context_bucket_in) simp
  moreover have "m \<le> context_bucket n" using assms context_bucket_fits(1) by (rule order_trans)
  ultimately show ?thesis by (rule context_bucket_least)
next
  case True
  then have n: "context_bucket n = n" by (rule context_bucket_beyond)
  show ?thesis
  proof (cases "131072 < m")
    case True
    with n assms show ?thesis by (simp add: context_bucket_beyond)
  next
    case False
    then have "context_bucket m \<le> 131072"
      by (intro context_bucket_least) (simp_all add: CONTEXT_BUCKETS_def)
    with True n show ?thesis by simp
  qed
qed

section \<open>The hints of a task\<close>

definition requested_parallel_for_task :: "stored_task \<Rightarrow> int res" where
  "requested_parallel_for_task t =
     bind_res (optional_positive_int (dget (t_orchestration t) ''lms_parallel'') ''lms_parallel'') (\<lambda>a.
     case a of Some n \<Rightarrow> Inr n
     | None \<Rightarrow>
       bind_res (optional_positive_int (dget (t_orchestration t) ''max_parallel'') ''max_parallel'') (\<lambda>b.
       case b of Some n \<Rightarrow> Inr n | None \<Rightarrow> Inr 1))"

definition context_cap_for_task :: "stored_task \<Rightarrow> int option res" where
  "context_cap_for_task t =
     optional_positive_int (dget (t_orchestration t) ''lms_context_length'') ''lms_context_length''"

lemma requested_parallel_pos: "requested_parallel_for_task t = Inr n \<Longrightarrow> 1 \<le> n"
  by (auto simp: requested_parallel_for_task_def bind_res_Inr_iff
      dest: optional_positive_int_pos split: option.splits)

lemma context_cap_pos: "context_cap_for_task t = Inr (Some n) \<Longrightarrow> 1 \<le> n"
  by (auto simp: context_cap_for_task_def dest: optional_positive_int_pos)

section \<open>The plan of one model\<close>

definition task_context_entry :: "stored_task \<Rightarrow> json" where
  "task_context_entry t = JDict
     [(''task_id'', JStr (t_task_id t)), (''job_id'', JStr (t_job_id t)),
      (''required_context_tokens'', JInt (t_required_context_tokens t)),
      (''estimated_input_tokens'', JInt (t_estimated_input_tokens t)),
      (''max_output_tokens'', JInt (t_max_output_tokens t))]"

definition opt_int :: "int option \<Rightarrow> json" where
  "opt_int x = (case x of None \<Rightarrow> JNull | Some n \<Rightarrow> JInt n)"

definition capped :: "int option \<Rightarrow> int \<Rightarrow> int" where
  "capped cap n = (case cap of None \<Rightarrow> n | Some c \<Rightarrow> min n c)"

definition oversized_task :: "int option \<Rightarrow> stored_task \<Rightarrow> bool" where
  "oversized_task cap t = (case cap of None \<Rightarrow> False | Some c \<Rightarrow> c < t_required_context_tokens t)"

definition context_plan_for_model :: "stored_task list \<Rightarrow> dict res" where
  "context_plan_for_model tasks =
     (let max_required = max_default 0 (map t_required_context_tokens tasks) in
     bind_res (map_res requested_parallel_for_task tasks) (\<lambda>parallels.
     let requested = max_default 1 parallels;
         desired = max 1 (min (int (length tasks)) requested) in
     bind_res (map_res context_cap_for_task tasks) (\<lambda>caps.
     let cap = min_or_none (List.map_filter id caps);
         recommended = capped cap (context_bucket max_required) in
     Inr
       [(''queued_tasks'', JInt (int (length tasks))),
        (''max_required_context_tokens'', JInt max_required),
        (''recommended_lms_context_length'', JInt recommended),
        (''requested_parallel'', JInt requested),
        (''recommended_lms_parallel'', JInt desired),
        (''total_slot_context_tokens'', JInt (recommended * desired)),
        (''context_cap_tokens'', opt_int cap),
        (''oversized_tasks'', JList (map (JStr \<circ> t_job_id) (filter (oversized_task cap) tasks))),
        (''reload_required'', JBool False),
        (''task_contexts'', JList (map task_context_entry tasks))])))"

lemma map_filter_id: "List.map_filter id xs = [y. Some y \<leftarrow> xs]"
  by (induction xs) (auto simp: List.map_filter_simps split: option.splits)

lemma in_map_filter_id: "y \<in> set (List.map_filter id xs) \<longleftrightarrow> Some y \<in> set xs"
  by (induction xs) (auto simp: List.map_filter_simps split: option.splits)

text \<open>What a returned plan says: the parallelism and context hints it was computed from, and the
  entries that depend on them.\<close>

lemma context_plan_entries:
  assumes "context_plan_for_model tasks = Inr plan"
  obtains requested cap where
    "dget plan ''queued_tasks'' = JInt (int (length tasks))"
    "dget plan ''max_required_context_tokens'' = JInt (max_default 0 (map t_required_context_tokens tasks))"
    "dget plan ''recommended_lms_context_length'' =
       JInt (capped cap (context_bucket (max_default 0 (map t_required_context_tokens tasks))))"
    "dget plan ''recommended_lms_parallel'' = JInt (max 1 (min (int (length tasks)) requested))"
    "dget plan ''context_cap_tokens'' = opt_int cap"
    "dget plan ''oversized_tasks'' = JList (map (JStr \<circ> t_job_id) (filter (oversized_task cap) tasks))"
    "1 \<le> requested"
    "\<And>c. cap = Some c \<longleftrightarrow> (\<exists>t\<in>set tasks. context_cap_for_task t = Inr (Some c)) \<and>
       (\<forall>t\<in>set tasks. \<forall>d. context_cap_for_task t = Inr (Some d) \<longrightarrow> c \<le> d)"
proof -
  from assms obtain ps caps where
    ps: "map_res requested_parallel_for_task tasks = Inr ps"
    and caps: "map_res context_cap_for_task tasks = Inr caps"
    and plan: "plan = (let cap = min_or_none (List.map_filter id caps);
         requested = max_default 1 ps;
         max_required = max_default 0 (map t_required_context_tokens tasks);
         desired = max 1 (min (int (length tasks)) requested);
         recommended = capped cap (context_bucket max_required) in
       [(''queued_tasks'', JInt (int (length tasks))),
        (''max_required_context_tokens'', JInt max_required),
        (''recommended_lms_context_length'', JInt recommended),
        (''requested_parallel'', JInt requested),
        (''recommended_lms_parallel'', JInt desired),
        (''total_slot_context_tokens'', JInt (recommended * desired)),
        (''context_cap_tokens'', opt_int cap),
        (''oversized_tasks'', JList (map (JStr \<circ> t_job_id) (filter (oversized_task cap) tasks))),
        (''reload_required'', JBool False),
        (''task_contexts'', JList (map task_context_entry tasks))])"
    by (auto simp: context_plan_for_model_def bind_res_Inr_iff Let_def)
  have "list_all2 (\<lambda>x y. requested_parallel_for_task x = Inr y) tasks ps"
    using ps by (simp add: map_res_Inr_iff)
  then have "\<forall>p\<in>set ps. 1 \<le> p"
    by (auto simp: list_all2_conv_all_nth in_set_conv_nth) (metis requested_parallel_pos)
  then have one: "1 \<le> max_default 1 ps"
    using max_default_in [of ps 1] by (cases "ps = []") auto
  have "list_all2 (\<lambda>x y. context_cap_for_task x = Inr y) tasks caps"
    using caps by (simp add: map_res_Inr_iff)
  then have in_caps: "Some c \<in> set caps \<longleftrightarrow> (\<exists>t\<in>set tasks. context_cap_for_task t = Inr (Some c))" for c
    by (fastforce simp: list_all2_conv_all_nth in_set_conv_nth)
  have cap: "min_or_none (List.map_filter id caps) = Some c \<longleftrightarrow>
      Some c \<in> set caps \<and> (\<forall>d. Some d \<in> set caps \<longrightarrow> c \<le> d)" for c
    by (simp add: min_or_none_Some_iff in_map_filter_id Ball_def)
  show thesis
    by (rule that [of "min_or_none (List.map_filter id caps)" "max_default 1 ps"])
      (simp_all add: plan Let_def one cap in_caps, blast)
qed

section \<open>Queue lengths and plans per model\<close>

definition queue_lengths_by_model :: "stored_task list \<Rightarrow> (string \<times> int) list" where
  "queue_lengths_by_model tasks =
     fold (\<lambda>t m. if t_state t \<in> ACTIVE_STATES then count_add (t_model t) 1 m else m) tasks []"

definition plans_per_model :: "(string \<times> stored_task list) list \<Rightarrow> (string \<times> dict) list res" where
  "plans_per_model groups =
     map_res (\<lambda>(model, ts). bind_res (context_plan_for_model ts) (\<lambda>p. Inr (model, p)))
       (sort_key fst groups)"

definition context_plans_by_model :: "stored_task list \<Rightarrow> (string \<times> dict) list res" where
  "context_plans_by_model tasks =
     plans_per_model (group_by t_model (filter (\<lambda>t. t_state t \<in> ACTIVE_STATES) tasks))"

definition queue_lengths_for_tasks :: "stored_task list \<Rightarrow> (string \<times> int) list" where
  "queue_lengths_for_tasks tasks = sort_key fst
     (fold (\<lambda>t m. if t_state t \<noteq> ''queued'' then m else count_add (t_model t) 1 m) tasks [])"

definition context_plans_for_tasks :: "stored_task list \<Rightarrow> (string \<times> dict) list res" where
  "context_plans_for_tasks tasks =
     plans_per_model (group_by t_model (filter (\<lambda>t. t_state t = ''queued'') tasks))"

definition task_state_count_key :: "stored_task \<Rightarrow> string \<times> string \<times> string \<times> string \<times> string \<times> string" where
  "task_state_count_key t =
     (t_tenant t, t_project t, t_service t, t_task t, t_model t, t_state t)"

definition task_counts_by_state ::
  "stored_task list \<Rightarrow> ((string \<times> string \<times> string \<times> string \<times> string \<times> string) \<times> int) list" where
  "task_counts_by_state tasks = fold (\<lambda>t. count_add (task_state_count_key t) 1) tasks []"

lemma fold_guarded: "fold (\<lambda>t m. if P t then f t m else m) ts m = fold f (filter P ts) m"
  by (induction ts arbitrary: m) simp_all

lemma queue_lengths_count:
  "count_get (queue_lengths_by_model tasks) model =
     int (length (filter (\<lambda>t. t_model t = model \<and> t_state t \<in> ACTIVE_STATES) tasks))"
proof -
  have "count_get (queue_lengths_by_model tasks) model =
      (\<Sum>x \<leftarrow> filter (\<lambda>t. t_model t = model) (filter (\<lambda>t. t_state t \<in> ACTIVE_STATES) tasks). 1)"
    unfolding queue_lengths_by_model_def fold_guarded count_get_fold by simp
  then show ?thesis by (simp add: sum_list_triv conj_commute)
qed

lemma task_counts_count:
  "count_get (task_counts_by_state tasks) k = int (length (filter (\<lambda>t. task_state_count_key t = k) tasks))"
  by (simp add: task_counts_by_state_def count_get_fold sum_list_triv)

end
