(* ===== verification/Task_Store.thy ===== *)
theory Task_Store
  imports Task_Parse Context_Plan
begin

text \<open>
  \<open>InMemoryTaskStore\<close> of \<open>queue_proxy/task_queue.py\<close>: the two dictionaries, every method, the
  fair choice of the next task, and the invariant that ties the idempotency index to the
  tasks. What the environment supplies is an argument: the clock (an instant for \<open>utc_now()\<close>,
  a text for \<open>now_iso()\<close>) and, for the \<open>i\<close>-th task of a submission, the triple of the fresh
  \<open>uuid4().hex\<close> and the two default time stamps.
\<close>

section \<open>State\<close>

record store =
  tasks_by_id :: "(string \<times> stored_task) list"
  idempotency_index :: "((string \<times> string) \<times> string) list"

definition empty_store :: store where
  "empty_store = \<lparr>tasks_by_id = [], idempotency_index = []\<rparr>"

definition all_tasks :: "store \<Rightarrow> stored_task list" where
  "all_tasks s = map snd (tasks_by_id s)"

definition lookup :: "store \<Rightarrow> string \<Rightarrow> stored_task option" where
  "lookup s i = map_of (tasks_by_id s) i"

definition put_task :: "stored_task \<Rightarrow> store \<Rightarrow> store" where
  "put_task t s = s\<lparr>tasks_by_id := AList.update (t_task_id t) t (tasks_by_id s)\<rparr>"

section \<open>submit_many\<close>

type_synonym submit_env = "nat \<Rightarrow> string \<times> string \<times> string"

definition new_stored_task :: "string \<times> string \<times> string \<Rightarrow> queue_task \<Rightarrow> stored_task" where
  "new_stored_task e q = (case e of (uuid, created, updated) \<Rightarrow>
     queue_task.extend q
       (stored_task.fields (''task_'' @ uuid) ''queued'' created updated 0 None None None None None))"

definition idem_key :: "'a queue_task_scheme \<Rightarrow> string \<times> string" where
  "idem_key q = (t_tenant q, t_idempotency_key q)"

definition insert_new :: "stored_task \<Rightarrow> store \<Rightarrow> store" where
  "insert_new t s = s\<lparr>tasks_by_id := AList.update (t_task_id t) t (tasks_by_id s),
     idempotency_index := AList.update (idem_key t) (t_task_id t) (idempotency_index s)\<rparr>"

fun submit_loop ::
  "submit_env \<Rightarrow> nat \<Rightarrow> queue_task list \<Rightarrow> store \<Rightarrow> (store \<times> stored_task list \<times> stored_task list) res" where
  "submit_loop env i [] s = Inr (s, [], [])"
| "submit_loop env i (q # qs) s = (case map_of (idempotency_index s) (idem_key q) of
     Some existing \<Rightarrow> (case lookup s existing of
         None \<Rightarrow> Inl (KeyError existing)
       | Some t \<Rightarrow> bind_res (submit_loop env (Suc i) qs s) (\<lambda>(s', acc, reu). Inr (s', acc, t # reu)))
   | None \<Rightarrow> (let t = new_stored_task (env i) q in
       bind_res (submit_loop env (Suc i) qs (insert_new t s)) (\<lambda>(s', acc, reu). Inr (s', t # acc, reu))))"

definition submit_many ::
  "submit_env \<Rightarrow> queue_task list \<Rightarrow> store \<Rightarrow> (store \<times> stored_task list \<times> stored_task list) res" where
  "submit_many env qs s = submit_loop env 0 qs s"

section \<open>Reading\<close>

definition get_task :: "store \<Rightarrow> string \<Rightarrow> string \<Rightarrow> stored_task option" where
  "get_task s tenant i = (case lookup s i of
       None \<Rightarrow> None
     | Some t \<Rightarrow> if t_tenant t \<noteq> tenant then None else Some t)"

definition list_tasks ::
  "store \<Rightarrow> string \<Rightarrow> string option \<Rightarrow> string option \<Rightarrow> int \<Rightarrow> stored_task list" where
  "list_tasks s tenant state model limit =
     take (nat (max 1 limit))
       (sort_key (\<lambda>t. (t_created_at t, t_task_id t))
         (filter (\<lambda>t. t_tenant t = tenant \<and> (state = None \<or> Some (t_state t) = state) \<and>
            (model = None \<or> Some (t_model t) = model)) (all_tasks s)))"

section \<open>The fair choice\<close>

definition parse_iso_datetime :: "string \<Rightarrow> int res" where
  "parse_iso_datetime v = (case from_isoformat (replace_Z v) of
       None \<Rightarrow> Inl (ValueError ''Invalid isoformat string'')
     | Some p \<Rightarrow> Inr (to_utc p))"

definition is_task_claimable :: "stored_task \<Rightarrow> int \<Rightarrow> string option \<Rightarrow> bool res" where
  "is_task_claimable t now model =
     (if t_state t \<notin> CLAIMABLE_STATES then Inr False
      else if model \<noteq> None \<and> Some (t_model t) \<noteq> model then Inr False
      else (case t_next_attempt_at t of
          None \<Rightarrow> Inr True
        | Some next_at \<Rightarrow> bind_res (parse_iso_datetime next_at) (\<lambda>d. Inr (d \<le> now))))"

fun filter_res :: "('a \<Rightarrow> bool res) \<Rightarrow> 'a list \<Rightarrow> 'a list res" where
  "filter_res p [] = Inr []"
| "filter_res p (x # xs) =
     bind_res (p x) (\<lambda>b. bind_res (filter_res p xs) (\<lambda>ys. Inr (if b then x # ys else ys)))"

definition fairness_group_key :: "stored_task \<Rightarrow> string list" where
  "fairness_group_key t =
     [t_tenant t, t_project t, t_service t, t_task t, t_priority t, t_model t]"

text \<open>\<open>last_claimed_by_group\<close>: per group, the latest \<open>updated_at\<close> of a task claimed at least
  once.\<close>

definition last_claimed_add ::
  "stored_task \<Rightarrow> (string list \<times> string) list \<Rightarrow> (string list \<times> string) list" where
  "last_claimed_add t m =
     (if t_attempt_count t < 1 then m
      else (case map_of m (fairness_group_key t) of
          None \<Rightarrow> AList.update (fairness_group_key t) (t_updated_at t) m
        | Some current \<Rightarrow>
            if current < t_updated_at t then AList.update (fairness_group_key t) (t_updated_at t) m
            else m))"

definition last_claimed_by_group :: "stored_task list \<Rightarrow> (string list \<times> string) list" where
  "last_claimed_by_group ts = fold last_claimed_add ts []"

type_synonym group_rank = "bool \<times> string \<times> string \<times> string list"

definition group_sort_key ::
  "(string list \<times> stored_task list) list \<Rightarrow> (string list \<times> string) list \<Rightarrow> string list \<Rightarrow> group_rank" where
  "group_sort_key groups claimed g =
     (map_of claimed g \<noteq> None,
      (case map_of claimed g of None \<Rightarrow> [] | Some u \<Rightarrow> u),
      (case map_of groups g of None \<Rightarrow> [] | Some ts \<Rightarrow> t_created_at (arg_min_list t_created_at ts)),
      g)"

definition choose_fair_task :: "stored_task list \<Rightarrow> stored_task list \<Rightarrow> stored_task" where
  "choose_fair_task candidates everything =
     (let groups = group_by fairness_group_key candidates;
          claimed = last_claimed_by_group everything;
          selected = arg_min_list (group_sort_key groups claimed) (map fst groups)
      in arg_min_list (\<lambda>t. (t_created_at t, t_task_id t))
           (case map_of groups selected of None \<Rightarrow> [] | Some ts \<Rightarrow> ts))"

section \<open>Claiming, recording, cancelling\<close>

definition claim_task :: "string \<Rightarrow> stored_task \<Rightarrow> stored_task" where
  "claim_task now_text t = t\<lparr>t_state := ''running'', t_attempt_count := t_attempt_count t + 1,
     t_started_at := Some (str_or (t_started_at t) now_text), t_updated_at := now_text,
     t_next_attempt_at := None\<rparr>"

definition claim_next :: "int \<Rightarrow> string option \<Rightarrow> store \<Rightarrow> (store \<times> stored_task option) res" where
  "claim_next now model s =
     bind_res (filter_res (\<lambda>t. is_task_claimable t now model) (all_tasks s)) (\<lambda>candidates.
     if candidates = [] then Inr (s, None)
     else let t = claim_task (iso_format now) (choose_fair_task candidates (all_tasks s))
          in Inr (put_task t s, Some t))"

definition succeed_task :: "string \<Rightarrow> dict \<Rightarrow> stored_task \<Rightarrow> stored_task" where
  "succeed_task now_text r t = t\<lparr>t_state := ''succeeded'', t_result := Some r, t_error := None,
     t_next_attempt_at := None, t_finished_at := Some now_text, t_updated_at := now_text\<rparr>"

definition fail_task :: "string \<Rightarrow> dict \<Rightarrow> stored_task \<Rightarrow> stored_task" where
  "fail_task now_text e t = t\<lparr>t_state := ''failed'', t_error := Some e, t_next_attempt_at := None,
     t_finished_at := Some now_text, t_updated_at := now_text\<rparr>"

definition retry_task :: "string \<Rightarrow> dict \<Rightarrow> string \<Rightarrow> stored_task \<Rightarrow> stored_task" where
  "retry_task now_text e next_at t = t\<lparr>t_state := ''queued'', t_error := Some e,
     t_next_attempt_at := Some next_at, t_updated_at := now_text\<rparr>"

definition cancelled_task :: "string \<Rightarrow> stored_task \<Rightarrow> stored_task" where
  "cancelled_task now_text t = t\<lparr>t_state := ''cancelled'', t_next_attempt_at := None,
     t_finished_at := Some now_text, t_updated_at := now_text\<rparr>"

definition modify_task :: "(stored_task \<Rightarrow> stored_task) \<Rightarrow> string \<Rightarrow> store \<Rightarrow> (store \<times> stored_task) res" where
  "modify_task f i s = (case lookup s i of
       None \<Rightarrow> Inl (KeyError i)
     | Some t \<Rightarrow> Inr (put_task (f t) s, f t))"

definition record_result :: "string \<Rightarrow> string \<Rightarrow> dict \<Rightarrow> store \<Rightarrow> (store \<times> stored_task) res" where
  "record_result now_text i r s = modify_task (succeed_task now_text r) i s"

definition record_error :: "string \<Rightarrow> string \<Rightarrow> dict \<Rightarrow> store \<Rightarrow> (store \<times> stored_task) res" where
  "record_error now_text i e s = modify_task (fail_task now_text e) i s"

definition record_retry ::
  "string \<Rightarrow> string \<Rightarrow> dict \<Rightarrow> string \<Rightarrow> store \<Rightarrow> (store \<times> stored_task) res" where
  "record_retry now_text i e next_at s = modify_task (retry_task now_text e next_at) i s"

definition terminal_states :: "string set" where
  "terminal_states = {''succeeded'', ''failed'', ''cancelled''}"

definition cancel_task :: "string \<Rightarrow> string \<Rightarrow> string \<Rightarrow> store \<Rightarrow> store \<times> stored_task option" where
  "cancel_task now_text tenant i s = (case get_task s tenant i of
       None \<Rightarrow> (s, None)
     | Some t \<Rightarrow>
         if t_state t \<in> terminal_states then (s, Some t)
         else (put_task (cancelled_task now_text t) s, Some (cancelled_task now_text t)))"

definition load_tasks :: "stored_task list \<Rightarrow> store" where
  "load_tasks ts = fold insert_new ts empty_store"

section \<open>The invariant\<close>

definition store_inv :: "store \<Rightarrow> bool" where
  "store_inv s \<longleftrightarrow>
     distinct (map fst (tasks_by_id s)) \<and>
     (\<forall>i t. lookup s i = Some t \<longrightarrow> t_task_id t = i \<and> wf_task t \<and>
        map_of (idempotency_index s) (idem_key t) = Some i) \<and>
     (\<forall>k i. map_of (idempotency_index s) k = Some i \<longrightarrow> (\<exists>t. lookup s i = Some t \<and> idem_key t = k))"

lemma store_invD:
  assumes "store_inv s"
  shows "distinct (map fst (tasks_by_id s))"
    and "lookup s i = Some t \<Longrightarrow> t_task_id t = i"
    and "lookup s i = Some t \<Longrightarrow> wf_task t"
    and "lookup s i = Some t \<Longrightarrow> map_of (idempotency_index s) (idem_key t) = Some i"
    and "map_of (idempotency_index s) k = Some i \<Longrightarrow> \<exists>t. lookup s i = Some t \<and> idem_key t = k"
  using assms unfolding store_inv_def by blast+

lemma lookup_put [simp]: "lookup (put_task t s) = (lookup s)(t_task_id t \<mapsto> t)"
  by (simp add: fun_eq_iff lookup_def put_task_def update_conv')

lemma lookup_insert_new [simp]: "lookup (insert_new t s) = (lookup s)(t_task_id t \<mapsto> t)"
  by (simp add: fun_eq_iff lookup_def insert_new_def update_conv')

lemma index_put [simp]: "idempotency_index (put_task t s) = idempotency_index s"
  by (simp add: put_task_def)

lemma index_insert_new [simp]:
  "map_of (idempotency_index (insert_new t s)) = (map_of (idempotency_index s))(idem_key t \<mapsto> t_task_id t)"
  by (simp add: insert_new_def update_conv')

lemma in_all_tasks: "store_inv s \<Longrightarrow> t \<in> set (all_tasks s) \<longleftrightarrow> (\<exists>i. lookup s i = Some t)"
  by (force simp: all_tasks_def lookup_def store_inv_def)

lemma all_tasks_lookup: "store_inv s \<Longrightarrow> t \<in> set (all_tasks s) \<longleftrightarrow> lookup s (t_task_id t) = Some t"
  by (auto simp: in_all_tasks dest: store_invD(2))

lemma empty_store_inv: "store_inv empty_store"
  by (simp add: store_inv_def empty_store_def lookup_def)

text \<open>The update of a stored task that keeps its identity and well-formedness.\<close>

definition keeps_identity :: "(stored_task \<Rightarrow> stored_task) \<Rightarrow> bool" where
  "keeps_identity f \<longleftrightarrow> (\<forall>t. t_task_id (f t) = t_task_id t \<and> idem_key (f t) = idem_key t \<and>
     (wf_task t \<longrightarrow> wf_task (f t)))"

lemma put_task_inv:
  assumes "store_inv s" "lookup s (t_task_id t) = Some t" "keeps_identity f"
  shows "store_inv (put_task (f t) s)"
proof -
  from assms(2,3) assms(1) have f: "t_task_id (f t) = t_task_id t" "idem_key (f t) = idem_key t" "wf_task (f t)"
    by (auto simp: keeps_identity_def dest: store_invD(3))
  have idx: "map_of (idempotency_index s) (idem_key t) = Some (t_task_id t)"
    using assms(1,2) by (rule store_invD(4))
  show ?thesis
    unfolding store_inv_def
  proof (intro conjI allI impI)
    show "distinct (map fst (tasks_by_id (put_task (f t) s)))"
      using store_invD(1) [OF assms(1)] by (simp add: put_task_def distinct_update)
  next
    fix i u
    assume u: "lookup (put_task (f t) s) i = Some u"
    then show "t_task_id u = i" "wf_task u"
      using store_invD(2,3) [OF assms(1)] f by (auto split: if_splits)
    from u show "map_of (idempotency_index (put_task (f t) s)) (idem_key u) = Some i"
      using store_invD(4) [OF assms(1)] f idx by (auto split: if_splits)
  next
    fix k i
    assume "map_of (idempotency_index (put_task (f t) s)) k = Some i"
    then show "\<exists>u. lookup (put_task (f t) s) i = Some u \<and> idem_key u = k"
      using store_invD(5) [OF assms(1)] f assms(2) by fastforce
  qed
qed

lemma put_stored_inv:
  assumes "store_inv s" "lookup s i = Some t" "keeps_identity f"
  shows "store_inv (put_task (f t) s)"
  using assms store_invD(2) [OF assms(1,2)] by (intro put_task_inv) auto

lemma clean_literals [simp]:
  "clean_string ''running''" "clean_string ''queued''" "clean_string ''succeeded''"
  "clean_string ''failed''" "clean_string ''cancelled''"
  by (simp_all add: clean_string_def strip_def py_space_def Let_def)

lemma keeps_identity_claim: "n \<noteq> [] \<Longrightarrow> keeps_identity (claim_task n)"
  by (auto simp: keeps_identity_def claim_task_def idem_key_def wf_task_def str_or_def split: option.splits)

lemma keeps_identity_succeed: "n \<noteq> [] \<Longrightarrow> keeps_identity (succeed_task n r)"
  by (simp add: keeps_identity_def succeed_task_def idem_key_def wf_task_def)

lemma keeps_identity_fail: "n \<noteq> [] \<Longrightarrow> keeps_identity (fail_task n e)"
  by (simp add: keeps_identity_def fail_task_def idem_key_def wf_task_def)

lemma keeps_identity_retry: "n \<noteq> [] \<Longrightarrow> na \<noteq> [] \<Longrightarrow> keeps_identity (retry_task n e na)"
  by (simp add: keeps_identity_def retry_task_def idem_key_def wf_task_def)

lemma keeps_identity_cancel: "n \<noteq> [] \<Longrightarrow> keeps_identity (cancelled_task n)"
  by (simp add: keeps_identity_def cancelled_task_def idem_key_def wf_task_def)

lemmas keeps_identity_ops = keeps_identity_claim keeps_identity_succeed keeps_identity_fail
  keeps_identity_retry keeps_identity_cancel

lemma modify_task_inv:
  assumes "modify_task f i s = Inr (s', t')" "store_inv s" "keeps_identity f"
  shows "store_inv s'"
  using assms by (auto simp: modify_task_def dest: put_stored_inv split: option.splits)

lemma modify_task_total:
  "store_inv s \<Longrightarrow> lookup s i = Some t \<Longrightarrow> modify_task f i s = Inr (put_task (f t) s, f t)"
  by (simp add: modify_task_def)

lemma cancel_task_inv: "store_inv s \<Longrightarrow> n \<noteq> [] \<Longrightarrow> store_inv (fst (cancel_task n tenant i s))"
  using put_stored_inv [OF _ _ keeps_identity_cancel]
  by (auto simp: cancel_task_def get_task_def split: option.splits)

section \<open>Submission\<close>

text \<open>The identifiers \<open>uuid4\<close> supplies are new: distinct among themselves and unused in the store;
  the default time stamps are non-empty texts.\<close>

definition fresh_env :: "submit_env \<Rightarrow> nat \<Rightarrow> nat \<Rightarrow> store \<Rightarrow> bool" where
  "fresh_env env i n s \<longleftrightarrow>
     (\<forall>j < n. clean_string (''task_'' @ fst (env (i + j))) \<and> lookup s (''task_'' @ fst (env (i + j))) = None \<and>
        fst (snd (env (i + j))) \<noteq> [] \<and> snd (snd (env (i + j))) \<noteq> []) \<and>
     inj_on (\<lambda>j. fst (env (i + j))) {..<n}"

lemma new_stored_task_simps [simp]:
  "t_task_id (new_stored_task e q) = ''task_'' @ fst e"
  "t_state (new_stored_task e q) = ''queued''"
  "t_attempt_count (new_stored_task e q) = 0"
  "t_next_attempt_at (new_stored_task e q) = None"
  "t_created_at (new_stored_task e q) = fst (snd e)"
  "t_updated_at (new_stored_task e q) = snd (snd e)"
  "idem_key (new_stored_task e q) = idem_key q"
  "t_tenant (new_stored_task e q) = t_tenant q"
  "t_model (new_stored_task e q) = t_model q"
  "t_payload (new_stored_task e q) = t_payload q"
  "t_required_context_tokens (new_stored_task e q) = t_required_context_tokens q"
  "queue_task.truncate (new_stored_task e q) = q"
  by (simp_all add: new_stored_task_def queue_task.defs stored_task.defs idem_key_def split: prod.splits)

lemma new_stored_task_wf:
  assumes "wf_queue_task q" "clean_string (''task_'' @ fst e)" "fst (snd e) \<noteq> []" "snd (snd e) \<noteq> []"
  shows "wf_task (new_stored_task e q)"
  using assms
  by (auto simp: wf_task_def wf_queue_task_def new_stored_task_def queue_task.defs stored_task.defs
      split: prod.splits)

lemma insert_new_inv:
  assumes "store_inv s" "lookup s (t_task_id t) = None" "map_of (idempotency_index s) (idem_key t) = None"
    "wf_task t"
  shows "store_inv (insert_new t s)"
  unfolding store_inv_def
proof (intro conjI allI impI)
  show "distinct (map fst (tasks_by_id (insert_new t s)))"
    using store_invD(1) [OF assms(1)] by (simp add: insert_new_def distinct_update)
next
  fix i u
  assume u: "lookup (insert_new t s) i = Some u"
  then show "t_task_id u = i" "wf_task u"
    using store_invD(2,3) [OF assms(1)] assms(4) by (auto split: if_splits)
  from u show "map_of (idempotency_index (insert_new t s)) (idem_key u) = Some i"
  proof (cases "i = t_task_id t")
    case False
    with u have "map_of (idempotency_index s) (idem_key u) = Some i"
      using store_invD(4) [OF assms(1), of i u] by simp
    with assms(3) have "idem_key u \<noteq> idem_key t" by (metis option.distinct(1))
    then show ?thesis
      using \<open>map_of (idempotency_index s) (idem_key u) = Some i\<close> by simp
  qed simp
next
  fix k i
  assume "map_of (idempotency_index (insert_new t s)) k = Some i"
  then show "\<exists>u. lookup (insert_new t s) i = Some u \<and> idem_key u = k"
    using store_invD(5) [OF assms(1), of k i] assms(2) by (cases "k = idem_key t") auto
qed

lemma fresh_env_step:
  assumes "fresh_env env i (Suc n) s"
  shows "fresh_env env (Suc i) n s"
    and "fresh_env env (Suc i) n (insert_new (new_stored_task (env i) q) s)"
proof -
  have inj: "inj_on (\<lambda>j. fst (env (Suc i + j))) {..<n}"
  proof (rule inj_onI)
    fix x y
    assume "x \<in> {..<n}" "y \<in> {..<n}" "fst (env (Suc i + x)) = fst (env (Suc i + y))"
    then have "Suc x = Suc y"
      using assms by (intro inj_onD [of "\<lambda>j. fst (env (i + j))" "{..<Suc n}"]) (auto simp: fresh_env_def)
    then show "x = y" by simp
  qed
  have new: "fst (env (Suc i + j)) \<noteq> fst (env i)" if "j < n" for j
    using assms that inj_onD [of "\<lambda>j. fst (env (i + j))" "{..<Suc n}" "Suc j" 0]
    by (auto simp: fresh_env_def)
  have old: "\<forall>j<n. clean_string (''task_'' @ fst (env (Suc i + j))) \<and> lookup s (''task_'' @ fst (env (Suc i + j))) = None \<and>
      fst (snd (env (Suc i + j))) \<noteq> [] \<and> snd (snd (env (Suc i + j))) \<noteq> []"
  proof (intro allI impI)
    fix j assume "j < n"
    then have "Suc j < Suc n" by simp
    then show "clean_string (''task_'' @ fst (env (Suc i + j))) \<and> lookup s (''task_'' @ fst (env (Suc i + j))) = None \<and>
        fst (snd (env (Suc i + j))) \<noteq> [] \<and> snd (snd (env (Suc i + j))) \<noteq> []"
      using assms unfolding fresh_env_def by (metis add_Suc_right add_Suc)
  qed
  from inj old show "fresh_env env (Suc i) n s" by (simp add: fresh_env_def)
  from inj old new show "fresh_env env (Suc i) n (insert_new (new_stored_task (env i) q) s)"
    by (simp add: fresh_env_def)
qed

text \<open>One submission, in full: it keeps the invariant, splits the batch into accepted and reused
  tasks, adds the accepted ones and nothing else, and answers every task of the batch.\<close>

definition by_id :: "stored_task list \<Rightarrow> (string \<times> stored_task) list" where
  "by_id ts = map (\<lambda>t. (t_task_id t, t)) ts"

definition by_key :: "stored_task list \<Rightarrow> ((string \<times> string) \<times> string) list" where
  "by_key ts = map (\<lambda>t. (idem_key t, t_task_id t)) ts"

definition submit_post ::
  "queue_task list \<Rightarrow> store \<Rightarrow> store \<Rightarrow> stored_task list \<Rightarrow> stored_task list \<Rightarrow> bool" where
  "submit_post qs s s' acc reu \<longleftrightarrow>
     store_inv s' \<and> length acc + length reu = length qs \<and>
     lookup s' = lookup s ++ map_of (by_id acc) \<and>
     map_of (idempotency_index s') = map_of (idempotency_index s) ++ map_of (by_key acc) \<and>
     (\<forall>t\<in>set acc. t_state t = ''queued'' \<and> t_attempt_count t = 0 \<and> t_next_attempt_at t = None \<and>
        lookup s (t_task_id t) = None \<and>
        map_of (idempotency_index s) (idem_key t) = None \<and> queue_task.truncate t \<in> set qs) \<and>
     distinct (map t_task_id acc) \<and> distinct (map idem_key acc) \<and>
     (\<forall>t\<in>set reu. lookup s' (t_task_id t) = Some t \<and> idem_key t \<in> idem_key ` set qs) \<and>
     (\<forall>q\<in>set qs. \<exists>t\<in>set acc \<union> set reu. idem_key t = idem_key q)"

lemma submit_postI:
  assumes "store_inv s'" "length acc + length reu = length qs"
    "lookup s' = lookup s ++ map_of (by_id acc)"
    "map_of (idempotency_index s') = map_of (idempotency_index s) ++ map_of (by_key acc)"
    "\<And>t. t \<in> set acc \<Longrightarrow> t_state t = ''queued'' \<and> t_attempt_count t = 0 \<and> t_next_attempt_at t = None \<and>
       lookup s (t_task_id t) = None \<and>
       map_of (idempotency_index s) (idem_key t) = None \<and> queue_task.truncate t \<in> set qs"
    "distinct (map t_task_id acc)" "distinct (map idem_key acc)"
    "\<And>t. t \<in> set reu \<Longrightarrow> lookup s' (t_task_id t) = Some t \<and> idem_key t \<in> idem_key ` set qs"
    "\<And>q. q \<in> set qs \<Longrightarrow> \<exists>t\<in>set acc \<union> set reu. idem_key t = idem_key q"
  shows "submit_post qs s s' acc reu"
  using assms unfolding submit_post_def by blast

lemma submit_postD:
  assumes "submit_post qs s s' acc reu"
  shows "store_inv s'" "length acc + length reu = length qs"
    "lookup s' = lookup s ++ map_of (by_id acc)"
    "map_of (idempotency_index s') = map_of (idempotency_index s) ++ map_of (by_key acc)"
    "t \<in> set acc \<Longrightarrow> t_state t = ''queued'' \<and> t_attempt_count t = 0 \<and> t_next_attempt_at t = None \<and>
       lookup s (t_task_id t) = None \<and>
       map_of (idempotency_index s) (idem_key t) = None \<and> queue_task.truncate t \<in> set qs"
    "distinct (map t_task_id acc)" "distinct (map idem_key acc)"
    "t \<in> set reu \<Longrightarrow> lookup s' (t_task_id t) = Some t \<and> idem_key t \<in> idem_key ` set qs"
    "q \<in> set qs \<Longrightarrow> \<exists>t\<in>set acc \<union> set reu. idem_key t = idem_key q"
  using assms unfolding submit_post_def by blast+

lemma by_id_simps [simp]:
  "by_id [] = []" "by_id (t # ts) = (t_task_id t, t) # by_id ts"
  "by_key [] = []" "by_key (t # ts) = (idem_key t, t_task_id t) # by_key ts"
  "map fst (by_id ts) = map t_task_id ts" "map fst (by_key ts) = map idem_key ts"
  by (simp_all add: by_id_def by_key_def)

lemma map_of_by_id_None: "map_of (by_id ts) i = None \<longleftrightarrow> i \<notin> t_task_id ` set ts"
  by (simp add: map_of_eq_None_iff by_id_def image_image)

lemma map_of_by_key_None: "map_of (by_key ts) k = None \<longleftrightarrow> k \<notin> idem_key ` set ts"
  by (simp add: map_of_eq_None_iff by_key_def image_image)

lemma submit_post_reuse:
  assumes post: "submit_post qs s s' acc reu" and inv: "store_inv s"
    and t: "lookup s (t_task_id t) = Some t" "idem_key t = idem_key q"
  shows "submit_post (q # qs) s s' acc (t # reu)"
proof (rule submit_postI)
  have "t_task_id t \<notin> t_task_id ` set acc"
    using submit_postD(5) [OF post] t(1) by (metis imageE option.distinct(1))
  then have "lookup s' (t_task_id t) = Some t"
    using submit_postD(3) [OF post] t(1) by (simp add: map_add_def map_of_by_id_None [THEN iffD2])
  then show "lookup s' (t_task_id u) = Some u \<and> idem_key u \<in> idem_key ` set (q # qs)"
    if "u \<in> set (t # reu)" for u
    using that submit_postD(8) [OF post, of u] t(2) by auto
  show "\<exists>u\<in>set acc \<union> set (t # reu). idem_key u = idem_key r" if "r \<in> set (q # qs)" for r
    using that submit_postD(9) [OF post, of r] t(2) by auto
qed (use submit_postD [OF post] in auto)

lemma submit_post_new:
  assumes post: "submit_post qs (insert_new t s) s' acc reu"
    and new: "lookup s (t_task_id t) = None" "map_of (idempotency_index s) (idem_key t) = None"
    and t: "queue_task.truncate t = q" "idem_key t = idem_key q" "t_state t = ''queued''"
      "t_attempt_count t = 0" "t_next_attempt_at t = None"
  shows "submit_post (q # qs) s s' (t # acc) reu"
proof (rule submit_postI)
  have "t_task_id u \<noteq> t_task_id t \<and> idem_key u \<noteq> idem_key t" if "u \<in> set acc" for u
    using submit_postD(5) [OF post that] by (auto split: if_splits)
  then have id: "t_task_id t \<notin> t_task_id ` set acc" and key: "idem_key t \<notin> idem_key ` set acc"
    by (metis imageE)+
  show "lookup s' = lookup s ++ map_of (by_id (t # acc))"
    using submit_postD(3) [OF post] id by (simp add: map_add_upd_left domIff map_of_by_id_None)
  show "map_of (idempotency_index s') = map_of (idempotency_index s) ++ map_of (by_key (t # acc))"
    using submit_postD(4) [OF post] key by (simp add: map_add_upd_left domIff map_of_by_key_None)
  show "distinct (map t_task_id (t # acc))" "distinct (map idem_key (t # acc))"
    using id key submit_postD(6,7) [OF post] by simp_all
  show "t_state u = ''queued'' \<and> t_attempt_count u = 0 \<and> t_next_attempt_at u = None \<and>
      lookup s (t_task_id u) = None \<and>
      map_of (idempotency_index s) (idem_key u) = None \<and> queue_task.truncate u \<in> set (q # qs)"
    if "u \<in> set (t # acc)" for u
    using that submit_postD(5) [OF post, of u] new t by (auto split: if_splits)
  show "\<exists>u\<in>set (t # acc) \<union> set reu. idem_key u = idem_key r" if "r \<in> set (q # qs)" for r
    using that submit_postD(9) [OF post, of r] t(2) by auto
  show "lookup s' (t_task_id u) = Some u \<and> idem_key u \<in> idem_key ` set (q # qs)" if "u \<in> set reu" for u
    using that submit_postD(8) [OF post, of u] by auto
qed (use submit_postD(1,2) [OF post] in simp_all)

lemma submit_loop_post:
  "store_inv s \<Longrightarrow> fresh_env env i (length qs) s \<Longrightarrow> \<forall>q\<in>set qs. wf_queue_task q \<Longrightarrow>
    \<exists>s' acc reu. submit_loop env i qs s = Inr (s', acc, reu) \<and> submit_post qs s s' acc reu"
proof (induction qs arbitrary: i s)
  case Nil
  then show ?case by (simp add: submit_post_def)
next
  case (Cons q qs)
  have fresh: "fresh_env env i (Suc (length qs)) s" using Cons.prems(2) by simp
  show ?case
  proof (cases "map_of (idempotency_index s) (idem_key q)")
    case (Some j)
    then obtain t where t: "lookup s j = Some t" "idem_key t = idem_key q"
      using store_invD(5) [OF Cons.prems(1)] by blast
    then have j: "t_task_id t = j" using store_invD(2) [OF Cons.prems(1)] by blast
    obtain s' acc reu where r: "submit_loop env (Suc i) qs s = Inr (s', acc, reu)"
        "submit_post qs s s' acc reu"
      using Cons.IH [OF Cons.prems(1) fresh_env_step(1) [OF fresh]] Cons.prems(3) by auto
    have "submit_post (q # qs) s s' acc (t # reu)"
      using submit_post_reuse [OF r(2) Cons.prems(1)] t j by simp
    then show ?thesis using Some t r(1) by simp
  next
    case None
    let ?t = "new_stored_task (env i) q"
    have e: "clean_string (''task_'' @ fst (env i))" "lookup s (''task_'' @ fst (env i)) = None"
        "fst (snd (env i)) \<noteq> []" "snd (snd (env i)) \<noteq> []"
      using fresh unfolding fresh_env_def by (metis add_0_right zero_less_Suc)+
    have inv: "store_inv (insert_new ?t s)"
      using e None Cons.prems(1,3) by (intro insert_new_inv) (auto intro: new_stored_task_wf)
    obtain s' acc reu where r: "submit_loop env (Suc i) qs (insert_new ?t s) = Inr (s', acc, reu)"
        "submit_post qs (insert_new ?t s) s' acc reu"
      using Cons.IH [OF inv fresh_env_step(2) [OF fresh]] Cons.prems(3) by auto
    have "submit_post (q # qs) s s' (?t # acc) reu"
      using e(2) None by (intro submit_post_new [OF r(2)]) simp_all
    then show ?thesis using None r(1) by simp
  qed
qed

lemma submit_many_post:
  assumes "store_inv s" "fresh_env env 0 (length qs) s" "\<forall>q\<in>set qs. wf_queue_task q"
  obtains s' acc reu where "submit_many env qs s = Inr (s', acc, reu)" "submit_post qs s s' acc reu"
  using submit_loop_post [OF assms] by (auto simp: submit_many_def)

text \<open>Submitting a batch whose keys are all known changes nothing and reuses every task.\<close>

lemma submit_loop_all_known:
  assumes "store_inv s" "\<forall>q\<in>set qs. map_of (idempotency_index s) (idem_key q) \<noteq> None"
  shows "\<exists>reu. submit_loop env i qs s = Inr (s, [], reu) \<and> map idem_key reu = map idem_key qs \<and>
     (\<forall>t\<in>set reu. lookup s (t_task_id t) = Some t)"
  using assms
proof (induction qs arbitrary: i)
  case (Cons q qs)
  then obtain j t where j: "map_of (idempotency_index s) (idem_key q) = Some j"
      and t: "lookup s j = Some t" "idem_key t = idem_key q"
    using store_invD(5) [OF Cons.prems(1)] by (meson list.set_intros(1) not_None_eq)
  have "t_task_id t = j" using t store_invD(2) [OF Cons.prems(1)] by blast
  moreover obtain reu where "submit_loop env (Suc i) qs s = Inr (s, [], reu)"
      "map idem_key reu = map idem_key qs" "\<forall>t\<in>set reu. lookup s (t_task_id t) = Some t"
    using Cons.IH [of "Suc i"] Cons.prems by auto
  ultimately show ?case using j t by simp
qed simp

lemma submit_post_known:
  assumes post: "submit_post qs s s' acc reu" and q: "q \<in> set qs"
  shows "map_of (idempotency_index s') (idem_key q) \<noteq> None"
proof -
  obtain t where t: "t \<in> set acc \<union> set reu" "idem_key t = idem_key q"
    using submit_postD(9) [OF post q] by blast
  show ?thesis
  proof (cases "t \<in> set acc")
    case True
    then have "map_of (by_key acc) (idem_key q) \<noteq> None"
      using t(2) [symmetric] by (auto simp: map_of_by_key_None)
    then show ?thesis using submit_postD(4) [OF post] by auto
  next
    case False
    then have "lookup s' (t_task_id t) = Some t" using t(1) submit_postD(8) [OF post] by blast
    then show ?thesis
      using store_invD(4) [OF submit_postD(1) [OF post]] t(2) by fastforce
  qed
qed

end
