(* ===== verification/Py_Calendar.thy ===== *)
theory Py_Calendar
  imports Py_Time
begin

text \<open>
  Facts on the calendar functions of \<open>Py_Time\<close>: the date of an ordinal is a valid date and the
  ordinal of that date is the one started from; \<open>fromisoformat\<close> reads back what \<open>isoformat\<close>
  wrote; and the texts of two instants compare as the instants do, which is what the task store
  relies on when it sorts tasks by their time texts.
\<close>

section \<open>Dates\<close>

text \<open>The month functions see the year only through its being a leap year.\<close>

definition month_start :: "bool \<Rightarrow> int \<Rightarrow> int" where
  "month_start leap m = days_before_month_table ! nat m + (if 2 < m \<and> leap then 1 else 0)"

definition month_length :: "bool \<Rightarrow> int \<Rightarrow> int" where
  "month_length leap m = days_before_month_table ! nat (m + 1) - days_before_month_table ! nat m +
     (if m = 2 \<and> leap then 1 else 0)"

lemma month_folds:
  "days_before_month y m = month_start (is_leap y) m" "days_in_month y m = month_length (is_leap y) m"
  by (simp_all add: days_before_month_def month_start_def days_in_month_def month_length_def)

definition month_of :: "bool \<Rightarrow> int \<Rightarrow> int" where
  "month_of leap n = (let m = (n + 50) div 32 in if month_start leap m > n then m - 1 else m)"

definition month_ok :: "bool \<Rightarrow> int \<Rightarrow> bool" where
  "month_ok leap n \<longleftrightarrow> (let m = month_of leap n in
     1 \<le> m \<and> m \<le> 12 \<and> month_start leap m \<le> n \<and> n < month_start leap m + month_length leap m)"

lemma month_ok_all: "list_all (\<lambda>n. month_ok True n \<and> month_ok False n) [0..364]"
  by code_simp

lemma month_okI: "0 \<le> n \<Longrightarrow> n \<le> 364 \<Longrightarrow> month_ok leap n"
  using month_ok_all by (cases leap) (auto simp: list_all_iff)

text \<open>The months follow each other.\<close>

lemma month_chain_all:
  "list_all (\<lambda>m. month_start True m + month_length True m \<le> month_start True (m + 1) \<and>
      month_start False m + month_length False m \<le> month_start False (m + 1)) [1..11]"
  by code_simp

lemma month_end_all:
  "list_all (\<lambda>m. month_start True m + month_length True m \<le> 366 \<and>
      month_start False m + month_length False m \<le> 365 \<and>
      0 \<le> month_start True m \<and> 0 \<le> month_start False m) [1..12]"
  by code_simp

lemma month_step: "1 \<le> m \<Longrightarrow> m \<le> 11 \<Longrightarrow> month_start leap m + month_length leap m \<le> month_start leap (m + 1)"
  using month_chain_all by (cases leap) (auto simp: list_all_iff)

lemma month_bounds:
  "1 \<le> m \<Longrightarrow> m \<le> 12 \<Longrightarrow> month_start leap m + month_length leap m \<le> (if leap then 366 else 365)"
  "1 \<le> m \<Longrightarrow> m \<le> 12 \<Longrightarrow> 0 \<le> month_start leap m"
  using month_end_all by (cases leap; auto simp: list_all_iff)+

lemma div_next:
  assumes "0 < (k :: int)"
  shows "(z + 1) div k = z div k + (if (z + 1) mod k = 0 then 1 else 0)"
proof -
  define q r where "q = z div k" and "r = z mod k"
  have z: "z = k * q + r" "0 \<le> r" "r < k" using assms by (simp_all add: q_def r_def)
  show ?thesis
  proof (cases "r + 1 = k")
    case True
    then have "z + 1 = k * (q + 1)" using z(1) by (simp add: algebra_simps)
    then show ?thesis using assms by (simp add: q_def [symmetric])
  next
    case False
    then have "(z + 1) div k = q" "(z + 1) mod k = r + 1"
      using z by (auto intro!: int_div_pos_eq int_mod_pos_eq)
    then show ?thesis using z(2) by (simp add: q_def [symmetric])
  qed
qed

lemma leap_arith:
  fixes y p q r p' q' r' :: int
  assumes "p = p' + (if P then 1 else 0)" "q = q' + (if Q then 1 else 0)" "r = r' + (if R then 1 else 0)"
    "Q \<Longrightarrow> P" "R \<Longrightarrow> Q" "L \<longleftrightarrow> P \<and> (\<not> Q \<or> R)"
  shows "y * 365 + p - q + r = (y - 1) * 365 + p' - q' + r' + (if L then 366 else 365)"
  using assms by (cases P; cases Q; cases R) simp_all

lemma days_before_next_year: "days_before_year (y + 1) = days_before_year y + (if is_leap y then 366 else 365)"
proof -
  have step: "y div k = (y - 1) div k + (if y mod k = 0 then 1 else 0)" if "0 < k" for k
    using div_next [OF that, of "y - 1"] by simp
  have "days_before_year (y + 1) = y * 365 + y div 4 - y div 100 + y div 400"
    by (simp add: days_before_year_def Let_def)
  also have "\<dots> = (y - 1) * 365 + (y - 1) div 4 - (y - 1) div 100 + (y - 1) div 400 +
      (if is_leap y then 366 else 365)"
  proof (rule leap_arith [OF step step step _ _ is_leap_def])
    show "y mod 100 = 0 \<Longrightarrow> y mod 4 = 0"
      using dvd_trans [of 4 100 y] by (simp add: mod_eq_0_iff_dvd)
    show "y mod 400 = 0 \<Longrightarrow> y mod 100 = 0"
      using dvd_trans [of 100 400 y] by (simp add: mod_eq_0_iff_dvd)
  qed simp_all
  also have "\<dots> = days_before_year y + (if is_leap y then 366 else 365)"
    by (simp only: days_before_year_def Let_def)
  finally show ?thesis .
qed

lemma days_before_year_mono:
  assumes "y < y'"
  shows "days_before_year y + (if is_leap y then 366 else 365) \<le> days_before_year y'"
proof -
  define k where "k = nat (y' - y - 1)"
  have "days_before_year (y + 1) \<le> days_before_year (y + 1 + int k)"
  proof (induction k)
    case (Suc k)
    then show ?case using days_before_next_year [of "y + 1 + int k"] by (auto simp: ac_simps)
  qed simp
  moreover have "y + 1 + int k = y'" using assms by (simp add: k_def)
  ultimately show ?thesis by (simp add: days_before_next_year)
qed

text \<open>The ordinals of valid dates are ordered as the dates.\<close>

lemma ymd2ord_bounds:
  assumes "date_ok y m d"
  shows "days_before_year y < ymd2ord y m d"
    and "ymd2ord y m d \<le> days_before_year y + (if is_leap y then 366 else 365)"
    and "days_before_year y + days_before_month y m < ymd2ord y m d"
    and "ymd2ord y m d \<le> days_before_year y + days_before_month y m + days_in_month y m"
  using assms month_bounds [of m "is_leap y"]
  by (auto simp: ymd2ord_def date_ok_def month_folds)

lemma month_mono_all:
  "list_all (\<lambda>m. list_all (\<lambda>m'. m < m' \<longrightarrow> month_start True m + month_length True m \<le> month_start True m' \<and>
      month_start False m + month_length False m \<le> month_start False m') [1..12]) [1..12]"
  by code_simp

lemma month_mono:
  "1 \<le> m \<Longrightarrow> m < m' \<Longrightarrow> m' \<le> 12 \<Longrightarrow> month_start leap m + month_length leap m \<le> month_start leap m'"
  using month_mono_all by (cases leap) (auto simp: list_all_iff)

lemma ymd2ord_mono:
  assumes "date_ok y m d" "date_ok y' m' d'" "(y, m, d) < (y', m', d')"
  shows "ymd2ord y m d < ymd2ord y' m' d'"
proof -
  consider "y < y'" | "y = y'" "m < m'" | "y = y'" "m = m'" "d < d'"
    using assms(3) by (auto simp: less_prod_def order_less_le)
  then show ?thesis
  proof cases
    case 1
    then show ?thesis
      using days_before_year_mono [OF 1] ymd2ord_bounds(2) [OF assms(1)] ymd2ord_bounds(1) [OF assms(2)] by linarith
  next
    case 2
    have "days_before_month y m + days_in_month y m \<le> days_before_month y' m'"
      using assms(1,2) 2 month_mono [of m m' "is_leap y"] by (simp add: month_folds date_ok_def)
    with 2 show ?thesis
      using ymd2ord_bounds(4) [OF assms(1)] ymd2ord_bounds(3) [OF assms(2)] by simp
  next
    case 3
    then show ?thesis by (simp add: ymd2ord_def)
  qed
qed

section \<open>ord2ymd\<close>

text \<open>The four quotients of \<open>ord2ymd\<close>.\<close>

lemma leap_of_parts:
  fixes a b c e :: int
  assumes "0 \<le> b" "b < 4" "0 \<le> c" "c < 25" "0 \<le> e" "e < 4"
  defines "y \<equiv> a * 400 + 1 + b * 100 + c * 4 + e"
  shows "days_before_year y = a * 146097 + b * 36524 + c * 1461 + e * 365"
    and "is_leap y \<longleftrightarrow> e = 3 \<and> (c \<noteq> 24 \<or> b = 3)"
proof -
  have z: "y - 1 = 4 * (100 * a + 25 * b + c) + e" "y - 1 = 100 * (4 * a + b) + (4 * c + e)"
    "y - 1 = 400 * a + (100 * b + 4 * c + e)"
    by (simp_all add: y_def)
  have "(y - 1) div 4 = 100 * a + 25 * b + c"
    unfolding z(1) by (rule int_div_pos_eq [where r = e]) (use assms in auto)
  moreover have "(y - 1) div 100 = 4 * a + b"
    unfolding z(2) by (rule int_div_pos_eq [where r = "4 * c + e"]) (use assms in auto)
  moreover have "(y - 1) div 400 = a"
    unfolding z(3) by (rule int_div_pos_eq [where r = "100 * b + 4 * c + e"]) (use assms in auto)
  ultimately show "days_before_year y = a * 146097 + b * 36524 + c * 1461 + e * 365"
    unfolding days_before_year_def Let_def by (simp add: y_def)
  have "y mod 4 = 0 \<longleftrightarrow> e = 3"
  proof -
    have "y = 4 * (100 * a + 25 * b + c) + (e + 1)" by (simp add: y_def)
    then have "y mod 4 = (e + 1) mod 4" by (simp only: mod_mult_self4)
    moreover have "e + 1 = 4 \<longleftrightarrow> e = 3" "0 < e + 1" "e + 1 \<le> 4"
      using assms by auto
    ultimately show ?thesis by (cases "e + 1 = 4") auto
  qed
  moreover have "y mod 100 = 0 \<longleftrightarrow> c = 24 \<and> e = 3"
  proof -
    have "y = 100 * (4 * a + b) + (4 * c + e + 1)" by (simp add: y_def)
    then have "y mod 100 = (4 * c + e + 1) mod 100" by (simp only: mod_mult_self4)
    moreover have "4 * c + e + 1 = 100 \<longleftrightarrow> c = 24 \<and> e = 3"
      using assms(1-6) by (intro iffI conjI; (elim conjE)?; linarith)
    moreover have "0 < 4 * c + e + 1" "4 * c + e + 1 \<le> 100" using assms(1-6) by linarith+
    ultimately show ?thesis by (cases "4 * c + e + 1 = 100") auto
  qed
  moreover have "y mod 400 = 0 \<longleftrightarrow> b = 3 \<and> c = 24 \<and> e = 3"
  proof -
    have "y = 400 * a + (100 * b + 4 * c + e + 1)" by (simp add: y_def)
    then have "y mod 400 = (100 * b + 4 * c + e + 1) mod 400" by (simp only: mod_mult_self4)
    moreover have "100 * b + 4 * c + e + 1 = 400 \<longleftrightarrow> b = 3 \<and> c = 24 \<and> e = 3"
      using assms(1-6) by (intro iffI conjI; (elim conjE)?; linarith)
    moreover have "0 < 100 * b + 4 * c + e + 1" "100 * b + 4 * c + e + 1 \<le> 400"
      using assms(1-6) by linarith+
    ultimately show ?thesis by (cases "100 * b + 4 * c + e + 1 = 400") auto
  qed
  ultimately show "is_leap y \<longleftrightarrow> e = 3 \<and> (c \<noteq> 24 \<or> b = 3)"
    by (auto simp: is_leap_def)
qed

lemma ord2ymd_parts:
  fixes n :: int
  assumes "0 \<le> n"
  obtains a b c e r where "0 \<le> a" "n = a * 146097 + b * 36524 + c * 1461 + e * 365 + r"
    "n div 146097 = a" "n mod 146097 div 36524 = b" "n mod 146097 mod 36524 div 1461 = c"
    "n mod 146097 mod 36524 mod 1461 div 365 = e" "n mod 146097 mod 36524 mod 1461 mod 365 = r"
    "0 \<le> b" "0 \<le> c" "c < 25" "0 \<le> e" "0 \<le> r" "r < 365"
    "b < 4 \<or> b = 4 \<and> c = 0 \<and> e = 0 \<and> r = 0" "e < 4 \<or> e = 4 \<and> r = 0 \<and> c < 24"
proof -
  define a r1 where "a = n div 146097" and "r1 = n mod 146097"
  define b r2 where "b = r1 div 36524" and "r2 = r1 mod 36524"
  define c r3 where "c = r2 div 1461" and "r3 = r2 mod 1461"
  define e r where "e = r3 div 365" and "r = r3 mod 365"
  have eq: "n = a * 146097 + r1" "r1 = b * 36524 + r2" "r2 = c * 1461 + r3" "r3 = e * 365 + r"
    by (simp_all only: a_def r1_def b_def r2_def c_def r3_def e_def r_def div_mult_mod_eq)
  have bounds: "0 \<le> r1" "r1 < 146097" "0 \<le> r2" "r2 < 36524" "0 \<le> r3" "r3 < 1461" "0 \<le> r" "r < 365"
    by (simp_all add: r1_def r2_def r3_def r_def)
  have pos: "0 \<le> a" "0 \<le> b" "0 \<le> c" "0 \<le> e"
    using assms bounds by (simp_all add: a_def b_def c_def e_def pos_imp_zdiv_nonneg_iff)
  show ?thesis
  proof (rule that [of a b c e r])
    show "n = a * 146097 + b * 36524 + c * 1461 + e * 365 + r" using eq by linarith
    show "c < 25" using eq bounds pos by linarith
    show "b < 4 \<or> b = 4 \<and> c = 0 \<and> e = 0 \<and> r = 0"
    proof (cases "b < 4")
      case False
      then have "r2 = 0" "b = 4" using eq bounds by linarith+
      then show ?thesis by (simp add: c_def r3_def e_def r_def)
    qed simp
    show "e < 4 \<or> e = 4 \<and> r = 0 \<and> c < 24"
    proof (cases "e < 4")
      case False
      then have "r = 0" "e = 4" using eq bounds by linarith+
      moreover have "c < 24" using eq bounds calculation by linarith
      ultimately show ?thesis by simp
    qed simp
    show "n div 146097 = a" "n mod 146097 div 36524 = b" "n mod 146097 mod 36524 div 1461 = c"
      "n mod 146097 mod 36524 mod 1461 div 365 = e" "n mod 146097 mod 36524 mod 1461 mod 365 = r"
      by (simp_all only: a_def r1_def b_def r2_def c_def r3_def e_def r_def)
  qed (fact pos bounds)+
qed

lemma last_of_december:
  assumes "is_leap y" "1 \<le> y"
  shows "date_ok y 12 31" "ymd2ord y 12 31 = days_before_year y + 366"
  using assms by (simp_all add: date_ok_def ymd2ord_def month_folds month_start_def month_length_def
      days_before_month_table_def)

lemma ord2ymd_correct:
  assumes "1 \<le> n" "ord2ymd n = (y, m, d)"
  shows "date_ok y m d \<and> ymd2ord y m d = n"
proof -
  have pos: "0 \<le> n - 1" using assms(1) by simp
  obtain a b c e r where p: "0 \<le> a" "n - 1 = a * 146097 + b * 36524 + c * 1461 + e * 365 + r"
    "(n - 1) div 146097 = a" "(n - 1) mod 146097 div 36524 = b" "(n - 1) mod 146097 mod 36524 div 1461 = c"
    "(n - 1) mod 146097 mod 36524 mod 1461 div 365 = e" "(n - 1) mod 146097 mod 36524 mod 1461 mod 365 = r"
    and q: "0 \<le> b" "0 \<le> c" "c < 25" "0 \<le> e" "0 \<le> r" "r < 365"
    "b < 4 \<or> b = 4 \<and> c = 0 \<and> e = 0 \<and> r = 0" "e < 4 \<or> e = 4 \<and> r = 0 \<and> c < 24"
    by (rule ord2ymd_parts [OF pos])
  define Y where "Y = a * 400 + 1 + b * 100 + c * 4 + e"
  have result: "(y, m, d) =
      (if e = 4 \<or> b = 4 then (Y - 1, 12, 31)
       else (Y, month_of (is_leap Y) r, r - month_start (is_leap Y) (month_of (is_leap Y) r) + 1))"
    using assms(2) [symmetric] unfolding ord2ymd_def Let_def p(3-7) month_folds month_of_def Y_def .
  consider "b = 4" | "b < 4" "e = 4" | "b < 4" "e < 4" using q by auto
  then show ?thesis
  proof cases
    case 1
    have "Y - 1 = a * 400 + 1 + 3 * 100 + 24 * 4 + 3" using 1 q by (auto simp: Y_def)
    then have "days_before_year (Y - 1) = a * 146097 + 145731" "is_leap (Y - 1)"
      using leap_of_parts [of 3 24 3 a] by simp_all
    moreover have "1 \<le> Y - 1" using 1 p(1) q by (auto simp: Y_def)
    moreover have "n = a * 146097 + 146097" using 1 p(2) q by auto
    ultimately show ?thesis using result 1 last_of_december [of "Y - 1"] by simp
  next
    case 2
    have "Y - 1 = a * 400 + 1 + b * 100 + c * 4 + 3" using 2 by (simp add: Y_def)
    then have "days_before_year (Y - 1) = a * 146097 + b * 36524 + c * 1461 + 1095" "is_leap (Y - 1)"
      using leap_of_parts [of b c 3 a] 2 q by simp_all
    moreover have "1 \<le> Y - 1" using 2 p(1) q by (auto simp: Y_def)
    moreover have "n = a * 146097 + b * 36524 + c * 1461 + 1461" using 2 p(2) q by auto
    ultimately show ?thesis using result 2 last_of_december [of "Y - 1"] by simp
  next
    case 3
    have "days_before_year Y = a * 146097 + b * 36524 + c * 1461 + e * 365"
      unfolding Y_def using 3 q by (intro leap_of_parts(1))
    moreover have "month_ok (is_leap Y) r" using q by (intro month_okI) auto
    moreover have "1 \<le> Y" using p(1) q by (simp add: Y_def)
    ultimately show ?thesis
      using result 3 p(2) by (simp add: month_ok_def Let_def date_ok_def ymd2ord_def month_folds)
  qed
qed

lemma ord2ymd_mono:
  assumes "1 \<le> n" "n < n'"
  shows "ord2ymd n < ord2ymd n'"
proof (rule ccontr)
  obtain y m d y' m' d' where s: "ord2ymd n = (y, m, d)" "ord2ymd n' = (y', m', d')"
    by (cases "ord2ymd n"; cases "ord2ymd n'") auto
  have n: "date_ok y m d" "ymd2ord y m d = n" "date_ok y' m' d'" "ymd2ord y' m' d' = n'"
    using ord2ymd_correct [OF _ s(1)] ord2ymd_correct [OF _ s(2)] assms by auto
  assume "\<not> ord2ymd n < ord2ymd n'"
  then have "(y', m', d') < (y, m, d) \<or> (y', m', d') = (y, m, d)" using s by (auto simp: not_less order_le_less)
  then show False using ymd2ord_mono [OF n(3,1)] n assms(2) by auto
qed

lemma ord2ymd_year_bounds:
  assumes "1 \<le> n" "n \<le> 3652059" "ord2ymd n = (y, m, d)"
  shows "1 \<le> y \<and> y \<le> 9999"
proof -
  have ok: "date_ok y m d" "ymd2ord y m d = n" using ord2ymd_correct [OF assms(1,3)] by auto
  have "days_before_year 10000 = 3652059" by code_simp
  then have "\<not> 10000 \<le> y"
    using days_before_year_mono [of 10000 y] ymd2ord_bounds(1) [OF ok(1)] ok(2) assms(2)
    by (cases "y = 10000") (auto split: if_splits)
  then show ?thesis using ok(1) by (simp add: date_ok_def)
qed

section \<open>Digits\<close>

lemma length_pad_digits [simp]: "length (pad_digits w n) = w"
  by (induction w arbitrary: n) auto

lemma pad_digits_Nil [simp]: "pad_digits w n = [] \<longleftrightarrow> w = 0"
  using length_pad_digits [of w n] by (metis length_0_conv)

lemma list_less_append:
  fixes a b x y :: "('a :: order) list"
  assumes "length a = length b"
  shows "a @ x < b @ y \<longleftrightarrow> a < b \<or> (a = b \<and> x < y)"
  using assms by (induction a b rule: list_induct2) auto

lemma digit_char_less:
  assumes "i < j" "j < 10"
  shows "digit_char i < digit_char j"
proof -
  have "list_all (\<lambda>j. list_all (\<lambda>i. digit_char i < digit_char j) [0..<j]) [0..<10]" by code_simp
  with assms show ?thesis by (simp add: list_all_iff)
qed

lemma pad_digits_less: "n < n' \<Longrightarrow> n' < 10 ^ w \<Longrightarrow> pad_digits w n < pad_digits w n'"
proof (induction w arbitrary: n n')
  case (Suc w)
  have q: "n div 10 \<le> n' div 10" "n' div 10 < 10 ^ w"
    using Suc.prems by (simp_all add: div_le_mono less_mult_imp_div_less mult.commute)
  show ?case
  proof (cases "n div 10 = n' div 10")
    case True
    then have "n mod 10 < n' mod 10"
      using Suc.prems(1) div_mult_mod_eq [of n 10] div_mult_mod_eq [of n' 10] by linarith
    then have "digit_char (n mod 10) < digit_char (n' mod 10)" by (intro digit_char_less) auto
    with True show ?thesis by (simp add: list_less_append)
  next
    case False
    then show ?thesis using Suc.IH [of "n div 10" "n' div 10"] q by (simp add: list_less_append)
  qed
qed simp

lemma take_digits_append:
  "take_digits (w + v) acc s =
     Option.bind (take_digits w acc s) (\<lambda>(a, r). take_digits v a r)"
  by (induction w acc s rule: take_digits.induct) auto

lemma take_pad_digits: "n < 10 ^ w \<Longrightarrow> take_digits w acc (pad_digits w n @ s) = Some (acc * 10 ^ w + n, s)"
proof (induction w arbitrary: n acc s)
  case (Suc w)
  have "n div 10 < 10 ^ w" using Suc.prems by (simp add: less_mult_imp_div_less mult.commute)
  then have "take_digits w acc (pad_digits w (n div 10) @ digit_char (n mod 10) # s) =
      Some (acc * 10 ^ w + n div 10, digit_char (n mod 10) # s)"
    by (rule Suc.IH)
  then have "take_digits (w + 1) acc (pad_digits (Suc w) n @ s) =
      Some (10 * (acc * 10 ^ w + n div 10) + n mod 10, s)"
    unfolding take_digits_append by simp
  then show ?case by (simp add: algebra_simps)
qed simp

lemma pad_digits_all: "c \<in> set (pad_digits w n) \<Longrightarrow> is_digit c"
  by (induction w arbitrary: n) auto

section \<open>isoformat\<close>

text \<open>The seven numbers of an instant and its text.\<close>

definition iso_text :: "int \<times> int \<times> int \<Rightarrow> int \<Rightarrow> int \<Rightarrow> int \<Rightarrow> int \<Rightarrow> string" where
  "iso_text = (\<lambda>(y, m, d) h mi se us.
     pad_digits 4 (nat y) @ ''-'' @ pad_digits 2 (nat m) @ ''-'' @ pad_digits 2 (nat d) @ ''T'' @
     pad_digits 2 (nat h) @ '':'' @ pad_digits 2 (nat mi) @ '':'' @ pad_digits 2 (nat se) @
     (if us = 0 then [] else ''.'' @ pad_digits 6 (nat us)) @ ''+00:00'')"

lemma int_div_less:
  assumes "0 < (k :: int)" "n < q * k"
  shows "n div k < q"
proof (rule ccontr)
  assume "\<not> n div k < q"
  then have "q * k \<le> n div k * k" using assms(1) by (simp add: mult_right_mono)
  then show False using assms div_mult_mod_eq [of n k] pos_mod_sign [of k n] by linarith
qed

lemma time_of_day:
  fixes r :: int
  assumes "0 \<le> r" "r < us_per_day"
  defines "s \<equiv> r div 1000000"
  shows "0 \<le> s div 3600" "s div 3600 < 24" "0 \<le> s div 60 mod 60" "s div 60 mod 60 < 60"
    "0 \<le> s mod 60" "s mod 60 < 60" "0 \<le> r mod 1000000" "r mod 1000000 < 1000000"
    "r = (s div 3600 * 3600 + s div 60 mod 60 * 60 + s mod 60) * 1000000 + r mod 1000000"
proof -
  have s: "0 \<le> s" "s < 86400"
    using assms int_div_less [of 1000000 r 86400] by (simp_all add: us_per_day_def pos_imp_zdiv_nonneg_iff)
  then show "0 \<le> s div 3600" "s div 3600 < 24"
    using int_div_less [of 3600 s 24] by (simp_all add: pos_imp_zdiv_nonneg_iff)
  have "s div 60 = s div 3600 * 60 + s div 60 mod 60"
    using zdiv_zmult2_eq [of 60 s 60] div_mult_mod_eq [of "s div 60" 60] by simp
  then have "s = s div 3600 * 3600 + s div 60 mod 60 * 60 + s mod 60"
    using div_mult_mod_eq [of s 60] by linarith
  then show "r = (s div 3600 * 3600 + s div 60 mod 60 * 60 + s mod 60) * 1000000 + r mod 1000000"
    using div_mult_mod_eq [of r 1000000] by (simp only: s_def)
qed simp_all

text \<open>One case distinction gives both facts on \<open>isoformat\<close> all they need.\<close>

lemma iso_formatE:
  assumes "0 \<le> t" "t < max_instant"
  obtains y m d h mi se us where "iso_format t = iso_text (y, m, d) h mi se us"
    "ord2ymd (t div us_per_day + 1) = (y, m, d)"
    "t = (t div us_per_day) * us_per_day + (h * 3600 + mi * 60 + se) * 1000000 + us"
    "date_ok y m d" "ymd2ord y m d = t div us_per_day + 1" "1 \<le> y" "y \<le> 9999" "1 \<le> m" "m \<le> 12" "1 \<le> d" "d \<le> 31"
    "0 \<le> h" "h < 24" "0 \<le> mi" "mi < 60" "0 \<le> se" "se < 60" "0 \<le> us" "us < 1000000"
proof -
  obtain y m d where ymd: "ord2ymd (t div us_per_day + 1) = (y, m, d)"
    by (cases "ord2ymd (t div us_per_day + 1)")
  define r where "r = t mod us_per_day"
  have r: "0 \<le> r" "r < us_per_day" by (simp_all add: r_def us_per_day_def)
  have D: "1 \<le> t div us_per_day + 1" "t div us_per_day + 1 \<le> 3652059"
    using assms int_div_less [of us_per_day t 3652059]
    by (simp_all add: max_instant_def us_per_day_def pos_imp_zdiv_nonneg_iff)
  note ok = ord2ymd_correct [OF D(1) ymd]
  have months: "list_all (\<lambda>m. month_length True m \<le> 31 \<and> month_length False m \<le> 31) [1..12]" by code_simp
  have "days_in_month y m \<le> 31"
    using ok months by (cases "is_leap y") (auto simp: month_folds date_ok_def list_all_iff)
  with ok have dmy: "1 \<le> m" "m \<le> 12" "1 \<le> d" "d \<le> 31" by (auto simp: date_ok_def)
  show ?thesis
  proof (rule that [of y m d "r div 1000000 div 3600" "r div 1000000 div 60 mod 60" "r div 1000000 mod 60" "r mod 1000000"])
    show "iso_format t = iso_text (y, m, d) (r div 1000000 div 3600) (r div 1000000 div 60 mod 60)
        (r div 1000000 mod 60) (r mod 1000000)"
      unfolding iso_format_def iso_text_def Let_def ymd r_def split_conv ..
    show "t = (t div us_per_day) * us_per_day + (r div 1000000 div 3600 * 3600 + r div 1000000 div 60 mod 60 * 60 +
        r div 1000000 mod 60) * 1000000 + r mod 1000000"
      using time_of_day(9) [OF r] div_mult_mod_eq [of t us_per_day] by (simp only: r_def)
    show "date_ok y m d" "ymd2ord y m d = t div us_per_day + 1" using ok by auto
    show "1 \<le> y" "y \<le> 9999" using ord2ymd_year_bounds [OF D ymd] by auto
  qed (fact ymd dmy time_of_day(1-8) [OF r])+
qed

lemma take_iso_fraction:
  "0 \<le> us \<Longrightarrow> us < 1000000 \<Longrightarrow>
     take_fraction ((if us = 0 then [] else ''.'' @ pad_digits 6 (nat us)) @ ''+00:00'') = Some (us, ''+00:00'')"
proof (cases "us = 0")
  case False
  assume us: "0 \<le> us" "us < 1000000"
  have plus: "\<not> is_digit CHR ''+''" by code_simp
  have "takeWhile is_digit (pad_digits 6 (nat us) @ CHR ''+'' # ''00:00'') = pad_digits 6 (nat us)"
    "dropWhile is_digit (pad_digits 6 (nat us) @ CHR ''+'' # ''00:00'') = ''+00:00''"
    using pad_digits_all plus by (auto simp: takeWhile_append2 dropWhile_append2)
  moreover have "take_digits 6 0 (pad_digits 6 (nat us)) = Some (nat us, [])"
    using take_pad_digits [of "nat us" 6 0 "[]"] us by simp
  ultimately show ?thesis using False us by (simp add: take_fraction_def Let_def)
qed (simp add: take_fraction_def)

lemma take_offset_utc: "take_offset ''+00:00'' = Some (Some 0)"
  by code_simp

text \<open>\<open>fromisoformat\<close> reads back what \<open>isoformat\<close> wrote.\<close>

lemma from_isoformat_iso_format:
  assumes "0 \<le> t" "t < max_instant"
  shows "from_isoformat (iso_format t) = Some (t, Some 0)"
  using assms
proof (rule iso_formatE)
  fix y m d h mi se us
  assume f: "iso_format t = iso_text (y, m, d) h mi se us"
    and t: "t = (t div us_per_day) * us_per_day + (h * 3600 + mi * 60 + se) * 1000000 + us"
    and ok: "date_ok y m d" "ymd2ord y m d = t div us_per_day + 1"
    and b: "1 \<le> y" "y \<le> 9999" "1 \<le> m" "m \<le> 12" "1 \<le> d" "d \<le> 31"
      "0 \<le> h" "h < 24" "0 \<le> mi" "mi < 60" "0 \<le> se" "se < 60" "0 \<le> us" "us < 1000000"
  have limits: "\<not> 24 \<le> nat h" "\<not> 60 \<le> nat mi" "\<not> 60 \<le> nat se" using b by auto
  have "from_isoformat (iso_format t) =
      Some ((ymd2ord y m d - 1) * us_per_day + (h * 3600 + mi * 60 + se) * 1000000 + us, Some 0)"
    using b ok limits
    by (simp add: f iso_text_def from_isoformat_def take_pad_digits take_iso_fraction [simplified] take_offset_utc
        nat_less_iff)
  then show ?thesis using t ok(2) by simp
qed

lemma field_less:
  assumes "(a < b \<and> 0 \<le> a \<and> b < 10 ^ w) \<or> (a = b \<and> x < y)"
  shows "pad_digits w (nat a) @ sep @ x < pad_digits w (nat b) @ sep @ (y :: string)"
proof (cases "a = b")
  case True
  with assms have "x < y" by simp
  then have "sep @ x < sep @ y" by (simp add: list_less_append)
  with True show ?thesis by (simp add: list_less_append)
next
  case False
  with assms have "pad_digits w (nat a) < pad_digits w (nat b)"
    by (intro pad_digits_less) (auto simp: nat_less_iff)
  then show ?thesis by (simp add: list_less_append)
qed

lemma iso_text_less:
  assumes "(y, m, d) < (y', m', d') \<or> (y, m, d) = (y', m', d') \<and> (h, mi, se, us) < (h', mi', se', us')"
    and b: "0 \<le> y" "y' \<le> 9999" "0 \<le> m" "m' \<le> 99" "0 \<le> d" "d' \<le> 99" "0 \<le> h" "h' \<le> 99" "0 \<le> mi" "mi' \<le> 99"
    "0 \<le> se" "se' \<le> 99" "0 \<le> us" "us' < 1000000"
  shows "iso_text (y, m, d) h mi se us < iso_text (y', m', d') h' mi' se' us'"
proof -
  let ?F = "\<lambda>us. (if us = 0 then [] else ''.'' @ pad_digits 6 (nat us)) @ ''+00:00''"
  let ?S = "\<lambda>se us. pad_digits 2 (nat se) @ [] @ ?F us"
  let ?M = "\<lambda>mi se us. pad_digits 2 (nat mi) @ '':'' @ ?S se us"
  let ?H = "\<lambda>h mi se us. pad_digits 2 (nat h) @ '':'' @ ?M mi se us"
  have F: "?F us < ?F us'" if "us < us'"
  proof (cases "us = 0")
    case True
    have "CHR ''+'' < CHR ''.''" by code_simp
    with True that show ?thesis by simp
  next
    case False
    then have "pad_digits 6 (nat us) @ ''+00:00'' < pad_digits 6 (nat us') @ ''+00:00''"
      using that b pad_digits_less [of "nat us" "nat us'" 6] by (simp add: list_less_append nat_less_iff)
    with False that b show ?thesis by simp
  qed
  have S: "?S se us < ?S se' us'" if "(se, us) < (se', us')"
    using that b F by (intro field_less) (auto simp: less_prod_def order_less_le)
  have M: "?M mi se us < ?M mi' se' us'" if "(mi, se, us) < (mi', se', us')"
  proof (rule field_less)
    show "(mi < mi' \<and> 0 \<le> mi \<and> mi' < 10 ^ 2) \<or> (mi = mi' \<and> ?S se us < ?S se' us')"
      using that b S by (cases "mi = mi'") (auto simp: less_prod_def order_less_le)
  qed
  have H: "?H h mi se us < ?H h' mi' se' us'" if "(h, mi, se, us) < (h', mi', se', us')"
  proof (rule field_less)
    show "(h < h' \<and> 0 \<le> h \<and> h' < 10 ^ 2) \<or> (h = h' \<and> ?M mi se us < ?M mi' se' us')"
      using that b M by (cases "h = h'") (auto simp: less_prod_def order_less_le)
  qed
  let ?D = "\<lambda>d h mi se us. pad_digits 2 (nat d) @ ''T'' @ ?H h mi se us"
  let ?O = "\<lambda>m d h mi se us. pad_digits 2 (nat m) @ ''-'' @ ?D d h mi se us"
  have D: "?D d h mi se us < ?D d' h' mi' se' us'"
    if "d < d' \<or> d = d' \<and> (h, mi, se, us) < (h', mi', se', us')"
  proof (rule field_less)
    show "(d < d' \<and> 0 \<le> d \<and> d' < 10 ^ 2) \<or> (d = d' \<and> ?H h mi se us < ?H h' mi' se' us')"
      using that b H by (cases "d = d'") auto
  qed
  have O: "?O m d h mi se us < ?O m' d' h' mi' se' us'"
    if "m < m' \<or> m = m' \<and> (d < d' \<or> d = d' \<and> (h, mi, se, us) < (h', mi', se', us'))"
  proof (rule field_less)
    show "(m < m' \<and> 0 \<le> m \<and> m' < 10 ^ 2) \<or> (m = m' \<and> ?D d h mi se us < ?D d' h' mi' se' us')"
      using that b D by (cases "m = m'") auto
  qed
  have "pad_digits 4 (nat y) @ ''-'' @ ?O m d h mi se us < pad_digits 4 (nat y') @ ''-'' @ ?O m' d' h' mi' se' us'"
  proof (rule field_less)
    have "y < y' \<or> y = y' \<and> (m < m' \<or> m = m' \<and> (d < d' \<or> d = d' \<and> (h, mi, se, us) < (h', mi', se', us')))"
      using assms(1) by (auto simp: less_prod_def order_less_le)
    then show "(y < y' \<and> 0 \<le> y \<and> y' < 10 ^ 4) \<or> (y = y' \<and> ?O m d h mi se us < ?O m' d' h' mi' se' us')"
      using b O by (cases "y = y'") auto
  qed
  then show ?thesis unfolding iso_text_def split_conv append_Nil .
qed

lemma time_less:
  fixes h mi se us h' mi' se' us' :: int
  assumes "(h * 3600 + mi * 60 + se) * 1000000 + us < (h' * 3600 + mi' * 60 + se') * 1000000 + us'"
    and "0 \<le> mi" "mi' < 60" "0 \<le> se" "se' < 60" "0 \<le> us" "us' < 1000000"
  shows "h < h' \<or> h = h' \<and> (mi < mi' \<or> mi = mi' \<and> (se < se' \<or> se = se' \<and> us < us'))"
proof -
  have less_part: "s \<le> s'" if "s * k + u < s' * k + u'" "0 \<le> u" "u' < k" "0 < k" for s s' u u' k :: int
  proof (rule ccontr)
    assume "\<not> s \<le> s'"
    then have "(s' + 1) * k \<le> s * k" using that by (intro mult_right_mono) auto
    with that show False by (simp add: algebra_simps)
  qed
  have s: "h * 3600 + mi * 60 + se \<le> h' * 3600 + mi' * 60 + se'"
    using less_part [OF assms(1,6,7)] by simp
  then have "h \<le> h'" using assms(2-5) by linarith
  moreover have "mi \<le> mi'" if "h = h'" using s assms(2-5) that by linarith
  moreover have "se \<le> se'" if "h = h'" "mi = mi'" using s that by linarith
  moreover have "us < us'" if "h = h'" "mi = mi'" "se = se'" using assms(1) that by simp
  ultimately show ?thesis by fastforce
qed

text \<open>Texts of instants compare as the instants.\<close>

lemma iso_format_less:
  assumes "0 \<le> t" "t < t'" "t' < max_instant"
  shows "iso_format t < iso_format t'"
proof -
  let ?day = "\<lambda>t. t div us_per_day"
  have "t < max_instant" "0 \<le> t'" using assms by simp_all
  obtain y m d h mi se us where f: "iso_format t = iso_text (y, m, d) h mi se us"
    "ord2ymd (?day t + 1) = (y, m, d)" "t = ?day t * us_per_day + (h * 3600 + mi * 60 + se) * 1000000 + us"
    and b: "1 \<le> y" "y \<le> 9999" "1 \<le> m" "m \<le> 12" "1 \<le> d" "d \<le> 31"
    "0 \<le> h" "h < 24" "0 \<le> mi" "mi < 60" "0 \<le> se" "se < 60" "0 \<le> us" "us < 1000000"
    using \<open>0 \<le> t\<close> \<open>t < max_instant\<close> by (rule iso_formatE)
  obtain y' m' d' h' mi' se' us' where f': "iso_format t' = iso_text (y', m', d') h' mi' se' us'"
    "ord2ymd (?day t' + 1) = (y', m', d')" "t' = ?day t' * us_per_day + (h' * 3600 + mi' * 60 + se') * 1000000 + us'"
    and b': "1 \<le> y'" "y' \<le> 9999" "1 \<le> m'" "m' \<le> 12" "1 \<le> d'" "d' \<le> 31"
    "0 \<le> h'" "h' < 24" "0 \<le> mi'" "mi' < 60" "0 \<le> se'" "se' < 60" "0 \<le> us'" "us' < 1000000"
    using \<open>0 \<le> t'\<close> \<open>t' < max_instant\<close> by (rule iso_formatE)
  have "?day t \<le> ?day t'" using assms(2) by (intro zdiv_mono1) (simp_all add: us_per_day_def)
  have "(y, m, d) < (y', m', d') \<or> (y, m, d) = (y', m', d') \<and> (h, mi, se, us) < (h', mi', se', us')"
  proof (cases "?day t = ?day t'")
    case True
    then have "?day t * us_per_day = ?day t' * us_per_day" by simp
    then have "(h * 3600 + mi * 60 + se) * 1000000 + us < (h' * 3600 + mi' * 60 + se') * 1000000 + us'"
      using f(3) f'(3) assms(2) by linarith
    then have "h < h' \<or> h = h' \<and> (mi < mi' \<or> mi = mi' \<and> (se < se' \<or> se = se' \<and> us < us'))"
      by (rule time_less) (use b b' in simp_all)
    then have "(h, mi, se, us) < (h', mi', se', us')" by (auto simp: less_prod_def order_less_le)
    with True f(2) f'(2) show ?thesis by simp
  next
    case False
    have "1 \<le> ?day t + 1" using assms(1) by (simp add: us_per_day_def pos_imp_zdiv_nonneg_iff)
    then have "ord2ymd (?day t + 1) < ord2ymd (?day t' + 1)"
      using False \<open>?day t \<le> ?day t'\<close> by (intro ord2ymd_mono) auto
    with f(2) f'(2) show ?thesis by simp
  qed
  then show ?thesis unfolding f(1) f'(1) by (rule iso_text_less) (use b b' in simp_all)
qed

lemma iso_format_le_iff:
  "0 \<le> t \<Longrightarrow> t < max_instant \<Longrightarrow> 0 \<le> t' \<Longrightarrow> t' < max_instant \<Longrightarrow> iso_format t \<le> iso_format t' \<longleftrightarrow> t \<le> t'"
  using iso_format_less [of t t'] iso_format_less [of t' t] by (cases t t' rule: linorder_cases) auto

lemma iso_format_less_iff:
  "0 \<le> t \<Longrightarrow> t < max_instant \<Longrightarrow> 0 \<le> t' \<Longrightarrow> t' < max_instant \<Longrightarrow> iso_format t < iso_format t' \<longleftrightarrow> t < t'"
  using iso_format_le_iff [of t' t] by auto

lemma replace_Z_iso_format:
  assumes "0 \<le> t" "t < max_instant"
  shows "replace_Z (iso_format t) = iso_format t"
proof -
  have clean: "replace_Z (a @ b) = replace_Z a @ replace_Z b" for a b by (simp add: replace_Z_def)
  have lit: "replace_Z ''-'' = ''-''" "replace_Z ''T'' = ''T''" "replace_Z '':'' = '':''"
    "replace_Z ''.'' = ''.''" "replace_Z ''+00:00'' = ''+00:00''" "replace_Z [] = []"
    by code_simp+
  have "is_digit c \<Longrightarrow> c \<noteq> CHR ''Z''" for c by (auto simp: is_digit_def)
  then have "s = replace_Z s" if "\<forall>c\<in>set s. is_digit c" for s
    using that by (induction s) (auto simp: replace_Z_def)
  then have pad: "replace_Z (pad_digits w n) = pad_digits w n" for w n
    using pad_digits_all by metis
  show ?thesis
    using assms by (rule iso_formatE) (simp only: iso_text_def split_conv clean lit pad if_distrib [of replace_Z])
qed

end
