(* ===== verification/Task_Fairness.thy ===== *)
theory Task_Fairness
  imports Task_Store Py_Calendar
begin

text \<open>
  What \<open>claim_next\<close> and \<open>choose_fair_task\<close> of \<open>queue_proxy/task_queue.py\<close> guarantee: the claimed
  task is a claimable one, only that task changes, groups never served come first, then the
  group served longest ago, inside a group the oldest task, and a group just served is not
  served again while another group has a claimable task.
\<close>

section \<open>Candidates\<close>

text \<open>A time the service wrote is read back.\<close>

lemma parse_iso_format: "0 \<le> t \<Longrightarrow> t < max_instant \<Longrightarrow> parse_iso_datetime (iso_format t) = Inr t"
  by (simp add: parse_iso_datetime_def replace_Z_iso_format from_isoformat_iso_format to_utc_def)

lemma filter_res_Inr:
  "filter_res p xs = Inr ys \<Longrightarrow>
     ys = filter (\<lambda>x. p x = Inr True) xs \<and> (\<forall>x\<in>set xs. \<exists>b. p x = Inr b)"
  by (induction xs arbitrary: ys) (auto simp: bind_res_Inr_iff)

lemma filter_res_total:
  "\<forall>x\<in>set xs. \<exists>b. p x = Inr b \<Longrightarrow> filter_res p xs = Inr (filter (\<lambda>x. p x = Inr True) xs)"
  by (induction xs) auto

lemma is_task_claimable_True:
  "is_task_claimable t now model = Inr True \<longleftrightarrow>
     t_state t = ''queued'' \<and> (model = None \<or> model = Some (t_model t)) \<and>
     (case t_next_attempt_at t of None \<Rightarrow> True
      | Some d \<Rightarrow> (\<exists>i. parse_iso_datetime d = Inr i \<and> i \<le> now))"
  by (auto simp: is_task_claimable_def CLAIMABLE_STATES_def bind_res_Inr_iff split: option.splits)

text \<open>Every time stamp a queued task waits for is one the parser accepts; the service writes only
  such texts.\<close>

definition readable_times :: "stored_task \<Rightarrow> bool" where
  "readable_times t \<longleftrightarrow>
     (case t_next_attempt_at t of None \<Rightarrow> True | Some d \<Rightarrow> (\<exists>i. parse_iso_datetime d = Inr i))"

lemma is_task_claimable_total: "readable_times t \<Longrightarrow> \<exists>b. is_task_claimable t now model = Inr b"
  by (auto simp: is_task_claimable_def readable_times_def split: option.splits)

section \<open>The chosen task\<close>

lemma last_claimed_None:
  "map_of (fold last_claimed_add ts m) g = None \<longleftrightarrow>
     map_of m g = None \<and> (\<forall>t\<in>set ts. t_attempt_count t \<ge> 1 \<longrightarrow> fairness_group_key t \<noteq> g)"
  by (induction ts arbitrary: m) (auto simp: last_claimed_add_def update_conv' split: option.splits if_splits)

lemma last_claimed_source:
  "map_of (fold last_claimed_add ts m) g = Some u \<Longrightarrow>
     map_of m g = Some u \<or>
     (\<exists>t\<in>set ts. t_attempt_count t \<ge> 1 \<and> fairness_group_key t = g \<and> t_updated_at t = u)"
proof (induction ts arbitrary: m)
  case (Cons t ts)
  then have "map_of (last_claimed_add t m) g = Some u \<or>
      (\<exists>t\<in>set ts. t_attempt_count t \<ge> 1 \<and> fairness_group_key t = g \<and> t_updated_at t = u)"
    by simp
  then show ?case
    by (auto simp: last_claimed_add_def update_conv' split: option.splits if_splits)
qed simp

lemma last_claimed_keeps:
  "map_of m g = Some v \<Longrightarrow> \<exists>u. map_of (fold last_claimed_add ts m) g = Some u \<and> v \<le> u"
proof (induction ts arbitrary: m v)
  case (Cons t ts)
  have "\<exists>w. map_of (last_claimed_add t m) g = Some w \<and> v \<le> w"
    using Cons.prems by (auto simp: last_claimed_add_def update_conv' split: option.splits)
  then obtain w where w: "map_of (last_claimed_add t m) g = Some w" "v \<le> w" by blast
  obtain u where "map_of (fold last_claimed_add ts (last_claimed_add t m)) g = Some u" "w \<le> u"
    using Cons.IH [OF w(1)] by blast
  with w(2) show ?case by auto
qed simp

lemma last_claimed_bound:
  assumes "t \<in> set ts" "t_attempt_count t \<ge> 1"
  shows "\<exists>u. map_of (fold last_claimed_add ts m) (fairness_group_key t) = Some u \<and> t_updated_at t \<le> u"
  using assms(1)
proof (induction ts arbitrary: m)
  case (Cons a ts)
  show ?case
  proof (cases "a = t")
    case True
    have "\<exists>w. map_of (last_claimed_add t m) (fairness_group_key t) = Some w \<and> t_updated_at t \<le> w"
      using assms(2) by (auto simp: last_claimed_add_def update_conv' not_less split: option.splits)
    then obtain w where w: "map_of (last_claimed_add t m) (fairness_group_key t) = Some w" "t_updated_at t \<le> w"
      by blast
    obtain u where "map_of (fold last_claimed_add ts (last_claimed_add t m)) (fairness_group_key t) = Some u" "w \<le> u"
      using last_claimed_keeps [OF w(1)] by blast
    with w(2) True show ?thesis by auto
  next
    case False
    then show ?thesis using Cons by simp
  qed
qed simp

lemma last_claimed_by_group_None:
  "map_of (last_claimed_by_group ts) g = None \<longleftrightarrow>
     (\<forall>t\<in>set ts. t_attempt_count t \<ge> 1 \<longrightarrow> fairness_group_key t \<noteq> g)"
  by (simp add: last_claimed_by_group_def last_claimed_None)

lemma last_claimed_by_group_source:
  "map_of (last_claimed_by_group ts) g = Some u \<Longrightarrow>
     \<exists>t\<in>set ts. t_attempt_count t \<ge> 1 \<and> fairness_group_key t = g \<and> t_updated_at t = u"
  unfolding last_claimed_by_group_def by (drule last_claimed_source) simp

lemma last_claimed_by_group_bound:
  "t \<in> set ts \<Longrightarrow> t_attempt_count t \<ge> 1 \<Longrightarrow>
     \<exists>u. map_of (last_claimed_by_group ts) (fairness_group_key t) = Some u \<and> t_updated_at t \<le> u"
  unfolding last_claimed_by_group_def by (rule last_claimed_bound)

text \<open>The group of the chosen task ranks least, and the task is first inside its group.\<close>

lemma choose_fair_task_spec:
  fixes cs everything
  defines "chosen \<equiv> choose_fair_task cs everything"
  assumes "cs \<noteq> []"
  shows "chosen \<in> set cs"
    and "c \<in> set cs \<Longrightarrow>
       group_sort_key (group_by fairness_group_key cs) (last_claimed_by_group everything) (fairness_group_key chosen)
       \<le> group_sort_key (group_by fairness_group_key cs) (last_claimed_by_group everything) (fairness_group_key c)"
    and "c \<in> set cs \<Longrightarrow> fairness_group_key c = fairness_group_key chosen \<Longrightarrow>
       (t_created_at chosen, t_task_id chosen) \<le> (t_created_at c, t_task_id c)"
proof -
  let ?gs = "group_by fairness_group_key cs"
  let ?rank = "group_sort_key ?gs (last_claimed_by_group everything)"
  let ?sel = "arg_min_list ?rank (map fst ?gs)"
  let ?in = "filter (\<lambda>t. fairness_group_key t = ?sel) cs"
  have keys: "set (map fst ?gs) = fairness_group_key ` set cs" by (simp add: keys_group_by)
  then have "map fst ?gs \<noteq> []" using assms(2) by (auto simp del: set_map)
  then have sel: "?sel \<in> fairness_group_key ` set cs"
    using arg_min_list_in keys by blast
  then have map_sel: "map_of ?gs ?sel = Some ?in" by (auto simp: map_of_group_by)
  from sel have ne: "?in \<noteq> []" by (auto simp: filter_empty_conv)
  have chosen: "chosen = arg_min_list (\<lambda>t. (t_created_at t, t_task_id t)) ?in"
    by (simp add: chosen_def choose_fair_task_def Let_def map_sel)
  have mem: "chosen \<in> set ?in" unfolding chosen by (rule arg_min_list_in [OF ne])
  then show "chosen \<in> set cs" by simp
  from mem have key: "fairness_group_key chosen = ?sel" by simp
  show "?rank (fairness_group_key chosen) \<le> ?rank (fairness_group_key c)" if "c \<in> set cs"
    using that key keys by (simp add: arg_min_list_le)
  show "(t_created_at chosen, t_task_id chosen) \<le> (t_created_at c, t_task_id c)"
    if "c \<in> set cs" "fairness_group_key c = fairness_group_key chosen"
    unfolding chosen using that key by (intro arg_min_list_le) simp
qed

lemma rank_never_served:
  "map_of claimed g = None \<Longrightarrow> map_of claimed h \<noteq> None \<Longrightarrow> group_sort_key gs claimed g < group_sort_key gs claimed h"
  by (simp add: group_sort_key_def)

lemma rank_served_earlier:
  "map_of claimed g = Some u \<Longrightarrow> map_of claimed h = Some v \<Longrightarrow> u < v \<Longrightarrow>
     group_sort_key gs claimed g < group_sort_key gs claimed h"
  by (simp add: group_sort_key_def)

section \<open>claim_next\<close>

lemma claim_next_cases:
  assumes "claim_next now model s = Inr (s', r)"
  obtains (none) "r = None" "s' = s" "\<forall>t\<in>set (all_tasks s). is_task_claimable t now model = Inr False"
  | (some) cs t where "cs = filter (\<lambda>t. is_task_claimable t now model = Inr True) (all_tasks s)"
      "cs \<noteq> []" "t = choose_fair_task cs (all_tasks s)"
      "r = Some (claim_task (iso_format now) t)" "s' = put_task (claim_task (iso_format now) t) s"
proof -
  let ?p = "\<lambda>t. is_task_claimable t now model"
  obtain cs where cs: "filter_res ?p (all_tasks s) = Inr cs"
    and rest: "(if cs = [] then Inr (s, None)
       else let t = claim_task (iso_format now) (choose_fair_task cs (all_tasks s))
            in Inr (put_task t s, Some t)) = (Inr (s', r) :: (store \<times> stored_task option) res)"
  proof (cases "filter_res ?p (all_tasks s)")
    case (Inr cs)
    show thesis by (rule that [OF Inr]) (use assms Inr in \<open>simp add: claim_next_def\<close>)
  qed (use assms in \<open>simp add: claim_next_def\<close>)
  from filter_res_Inr [OF cs]
  have eq: "cs = filter (\<lambda>t. ?p t = Inr True) (all_tasks s)" and tot: "\<forall>x\<in>set (all_tasks s). \<exists>b. ?p x = Inr b"
    by auto
  show thesis
  proof (cases "cs = []")
    case True
    then have "\<forall>t\<in>set (all_tasks s). ?p t \<noteq> Inr True" using eq by (simp add: filter_empty_conv)
    then have "\<forall>t\<in>set (all_tasks s). ?p t = Inr False" using tot by (metis (full_types))
    with True rest show thesis by (intro none) auto
  next
    case False
    with rest eq show thesis by (intro some [of cs]) (auto simp: Let_def)
  qed
qed

lemma claim_next_some:
  assumes "store_inv s" "claim_next now model s = Inr (s', Some u)"
  obtains t where "u = claim_task (iso_format now) t" "lookup s (t_task_id t) = Some t"
    "s' = put_task u s" "is_task_claimable t now model = Inr True"
    "t = choose_fair_task (filter (\<lambda>t. is_task_claimable t now model = Inr True) (all_tasks s)) (all_tasks s)"
  using assms(2)
proof (cases rule: claim_next_cases)
  case (some cs t)
  then have "t \<in> set cs" using choose_fair_task_spec(1) by blast
  with some show thesis
    using assms(1) by (intro that [of t]) (auto simp: all_tasks_lookup)
qed simp

lemma claim_next_inv: "store_inv s \<Longrightarrow> claim_next now model s = Inr (s', r) \<Longrightarrow> store_inv s'"
proof (cases r)
  case None
  assume "claim_next now model s = Inr (s', r)" "store_inv s"
  then show ?thesis using None by (cases rule: claim_next_cases) auto
next
  case (Some u)
  assume inv: "store_inv s" and c: "claim_next now model s = Inr (s', r)"
  from inv c [unfolded Some] obtain t where t: "u = claim_task (iso_format now) t" "lookup s (t_task_id t) = Some t"
      "s' = put_task u s"
    by (rule claim_next_some)
  have "store_inv (put_task (claim_task (iso_format now) t) s)"
    by (rule put_task_inv [OF inv t(2) keeps_identity_claim]) simp
  with t show ?thesis by simp
qed

lemma claim_next_total:
  assumes "\<forall>t\<in>set (all_tasks s). readable_times t"
  shows "\<exists>s' r. claim_next now model s = Inr (s', r)"
proof -
  let ?p = "\<lambda>t. is_task_claimable t now model"
  have "\<forall>t\<in>set (all_tasks s). \<exists>b. ?p t = Inr b"
    using assms is_task_claimable_total by blast
  from filter_res_total [OF this] show ?thesis
    by (auto simp: claim_next_def Let_def)
qed

lemma claim_task_simps [simp]:
  "t_task_id (claim_task n t) = t_task_id t" "t_state (claim_task n t) = ''running''"
  "t_attempt_count (claim_task n t) = t_attempt_count t + 1" "t_updated_at (claim_task n t) = n"
  "t_next_attempt_at (claim_task n t) = None" "t_tenant (claim_task n t) = t_tenant t"
  "t_model (claim_task n t) = t_model t" "t_orchestration (claim_task n t) = t_orchestration t"
  "fairness_group_key (claim_task n t) = fairness_group_key t" "idem_key (claim_task n t) = idem_key t"
  by (simp_all add: claim_task_def fairness_group_key_def idem_key_def)

text \<open>Two claims in a row: the second one goes to another group when one has a claimable task.\<close>

lemma claim_rotates:
  assumes inv: "store_inv s" and one: "claim_next now1 m1 s = Inr (s1, Some t1)"
    and two: "claim_next now2 m2 s1 = Inr (s2, Some t2)"
    and late: "\<forall>t\<in>set (all_tasks s). t_updated_at t < iso_format now1"
    and c: "c \<in> set (all_tasks s1)" "is_task_claimable c now2 m2 = Inr True"
      "fairness_group_key c \<noteq> fairness_group_key t1"
    and att: "\<forall>t\<in>set (all_tasks s). t_attempt_count t \<ge> 0"
  shows "fairness_group_key t2 \<noteq> fairness_group_key t1"
proof
  assume same: "fairness_group_key t2 = fairness_group_key t1"
  from inv one obtain t where t: "t1 = claim_task (iso_format now1) t" "lookup s (t_task_id t) = Some t"
      "s1 = put_task t1 s"
    by (rule claim_next_some)
  have inv1: "store_inv s1" using inv one by (rule claim_next_inv)
  from inv1 two obtain t' where t': "t2 = claim_task (iso_format now2) t'"
      "t' = choose_fair_task (filter (\<lambda>t. is_task_claimable t now2 m2 = Inr True) (all_tasks s1)) (all_tasks s1)"
    by (rule claim_next_some)
  let ?cs = "filter (\<lambda>t. is_task_claimable t now2 m2 = Inr True) (all_tasks s1)"
  let ?cl = "last_claimed_by_group (all_tasks s1)"
  let ?rank = "group_sort_key (group_by fairness_group_key ?cs) ?cl"
  have ccs: "c \<in> set ?cs" using c by simp
  then have le: "?rank (fairness_group_key t1) \<le> ?rank (fairness_group_key c)"
  proof -
    have "?cs \<noteq> []" using ccs by (rule list.set_cases) simp_all
    from choose_fair_task_spec(2) [OF this ccs, of "all_tasks s1"]
    show ?thesis unfolding t'(2) [symmetric] same [unfolded t'(1) claim_task_simps] .
  qed
  have in1: "t1 \<in> set (all_tasks s1)" using t inv1 by (simp add: all_tasks_lookup)
  have "t_attempt_count t1 \<ge> 1"
    using att t inv by (auto simp: all_tasks_lookup)
  from last_claimed_by_group_bound [OF in1 this]
  obtain u where u: "map_of ?cl (fairness_group_key t1) = Some u" "iso_format now1 \<le> u"
    using t(1) by auto
  show False
  proof (cases "map_of ?cl (fairness_group_key c)")
    case None
    then have "?rank (fairness_group_key c) < ?rank (fairness_group_key t1)"
      using u by (intro rank_never_served) auto
    with le show False by simp
  next
    case (Some v)
    from last_claimed_by_group_source [OF this] obtain d where d: "d \<in> set (all_tasks s1)"
        "fairness_group_key d = fairness_group_key c" "t_updated_at d = v"
      by blast
    then have "d \<noteq> t1" using c(3) by auto
    with d(1) t inv inv1 have "d \<in> set (all_tasks s)"
      by (auto simp: all_tasks_lookup split: if_splits)
    with late d(3) u(2) have "v < u" by force
    with Some u(1) have "?rank (fairness_group_key c) < ?rank (fairness_group_key t1)"
      by (intro rank_served_earlier) auto
    with le show False by simp
  qed
qed

end
