(* ===== verification/Task_Contract.thy ===== *)
theory Task_Contract
  imports Task_Fairness "HOL-Library.Multiset"
begin

text \<open>
  The protocol class \<open>TaskStore\<close> of \<open>queue_proxy/task_queue.py\<close>: a record of operations, the laws
  its clients rely on as a locale, and the two stores of that file that provide it,
  \<open>InMemoryTaskStore\<close> and \<open>JsonFileTaskStore\<close>, which writes the whole state to disk after every
  mutation and reads it back at start.
\<close>

section \<open>The protocol\<close>

record 's task_store_ops =
  op_submit_many :: "submit_env \<Rightarrow> queue_task list \<Rightarrow> 's \<Rightarrow> ('s \<times> stored_task list \<times> stored_task list) res"
  op_queue_lengths :: "'s \<Rightarrow> (string \<times> int) list"
  op_context_plans :: "'s \<Rightarrow> (string \<times> dict) list res"
  op_get_task :: "'s \<Rightarrow> string \<Rightarrow> string \<Rightarrow> stored_task option"
  op_list_tasks :: "'s \<Rightarrow> string \<Rightarrow> string option \<Rightarrow> string option \<Rightarrow> int \<Rightarrow> stored_task list"
  op_claim_next :: "int \<Rightarrow> string option \<Rightarrow> 's \<Rightarrow> ('s \<times> stored_task option) res"
  op_record_result :: "string \<Rightarrow> string \<Rightarrow> dict \<Rightarrow> 's \<Rightarrow> ('s \<times> stored_task) res"
  op_record_error :: "string \<Rightarrow> string \<Rightarrow> dict \<Rightarrow> 's \<Rightarrow> ('s \<times> stored_task) res"
  op_record_retry :: "string \<Rightarrow> string \<Rightarrow> dict \<Rightarrow> string \<Rightarrow> 's \<Rightarrow> ('s \<times> stored_task) res"
  op_cancel_task :: "string \<Rightarrow> string \<Rightarrow> string \<Rightarrow> 's \<Rightarrow> 's \<times> stored_task option"

text \<open>What a client of the protocol may rely on: a claim takes a queued task and marks it running,
  a record operation rewrites exactly the named task, a cancellation touches only a live task of
  the asking tenant, a submission adds queued tasks with no attempts.\<close>

locale task_store =
  fixes ops :: "'s task_store_ops"
    and inv :: "'s \<Rightarrow> bool"
    and view :: "'s \<Rightarrow> string \<Rightarrow> stored_task option"
  assumes view_id: "inv s \<Longrightarrow> view s i = Some t \<Longrightarrow> t_task_id t = i"
    and get_ok: "inv s \<Longrightarrow> op_get_task ops s tenant i =
       (case view s i of None \<Rightarrow> None | Some t \<Rightarrow> if t_tenant t \<noteq> tenant then None else Some t)"
    and claim_none: "inv s \<Longrightarrow> op_claim_next ops clock m s = Inr (s', None) \<Longrightarrow> s' = s"
    and claim_some: "inv s \<Longrightarrow> op_claim_next ops clock m s = Inr (s', Some u) \<Longrightarrow>
       \<exists>t. view s (t_task_id t) = Some t \<and> t_state t = ''queued'' \<and> u = claim_task (iso_format clock) t \<and>
           view s' = (view s)(t_task_id t \<mapsto> u) \<and> inv s'"
    and result_ok: "inv s \<Longrightarrow> view s i = Some t \<Longrightarrow> now \<noteq> [] \<Longrightarrow>
       \<exists>s'. op_record_result ops now i d s = Inr (s', succeed_task now d t) \<and>
           view s' = (view s)(i \<mapsto> succeed_task now d t) \<and> inv s'"
    and error_ok: "inv s \<Longrightarrow> view s i = Some t \<Longrightarrow> now \<noteq> [] \<Longrightarrow>
       \<exists>s'. op_record_error ops now i d s = Inr (s', fail_task now d t) \<and>
           view s' = (view s)(i \<mapsto> fail_task now d t) \<and> inv s'"
    and retry_ok: "inv s \<Longrightarrow> view s i = Some t \<Longrightarrow> now \<noteq> [] \<Longrightarrow> na \<noteq> [] \<Longrightarrow>
       \<exists>s'. op_record_retry ops now i d na s = Inr (s', retry_task now d na t) \<and>
           view s' = (view s)(i \<mapsto> retry_task now d na t) \<and> inv s'"
    and cancel_ok: "inv s \<Longrightarrow> now \<noteq> [] \<Longrightarrow> op_cancel_task ops now tenant i s = (s', r) \<Longrightarrow>
       inv s' \<and>
       (case view s i of
          None \<Rightarrow> s' = s \<and> r = None
        | Some t \<Rightarrow>
            if t_tenant t \<noteq> tenant then s' = s \<and> r = None
            else if t_state t \<in> terminal_states then s' = s \<and> r = Some t
            else view s' = (view s)(i \<mapsto> cancelled_task now t) \<and> r = Some (cancelled_task now t))"
    and submit_ok: "inv s \<Longrightarrow> op_submit_many ops env qs s = Inr (s', acc, reu) \<Longrightarrow>
       (\<forall>j < length qs. clean_string (''task_'' @ fst (env j)) \<and> view s (''task_'' @ fst (env j)) = None \<and>
          fst (snd (env j)) \<noteq> [] \<and> snd (snd (env j)) \<noteq> []) \<Longrightarrow>
       inj_on (\<lambda>j. fst (env j)) {..<length qs} \<Longrightarrow> \<forall>q\<in>set qs. wf_queue_task q \<Longrightarrow>
       inv s' \<and> view s' = view s ++ map_of (by_id acc) \<and>
       (\<forall>t\<in>set acc. t_state t = ''queued'' \<and> t_attempt_count t = 0 \<and> view s (t_task_id t) = None)"
begin

text \<open>A task once in the store stays there, with its tenant.\<close>

lemma claim_keeps:
  assumes "inv s" "op_claim_next ops now m s = Inr (s', r)" "view s i = Some t"
  obtains t' where "view s' i = Some t'" "t_tenant t' = t_tenant t" "t_task_id t' = t_task_id t"
proof (cases r)
  case None
  with assms claim_none [of s now m s'] show ?thesis by (intro that [of t]) auto
next
  case (Some u)
  with assms claim_some [of s now m s' u] obtain t0 where "view s (t_task_id t0) = Some t0"
      "u = claim_task (iso_format now) t0" "view s' = (view s)(t_task_id t0 \<mapsto> u)"
    by auto
  with assms(3) show ?thesis by (cases "t_task_id t0 = i") (auto intro: that)
qed

lemma claim_inv: "inv s \<Longrightarrow> op_claim_next ops now m s = Inr (s', r) \<Longrightarrow> inv s'"
  using claim_none claim_some by (cases r) blast+

end

section \<open>InMemoryTaskStore\<close>

definition memory_ops :: "store task_store_ops" where
  "memory_ops = \<lparr>op_submit_many = submit_many,
     op_queue_lengths = (\<lambda>s. queue_lengths_by_model (all_tasks s)),
     op_context_plans = (\<lambda>s. context_plans_by_model (all_tasks s)),
     op_get_task = get_task,
     op_list_tasks = list_tasks,
     op_claim_next = claim_next,
     op_record_result = record_result,
     op_record_error = record_error,
     op_record_retry = record_retry,
     op_cancel_task = cancel_task\<rparr>"

lemma modify_task_ok:
  assumes "store_inv s" "lookup s i = Some t" "keeps_identity f"
  shows "\<exists>s'. modify_task f i s = Inr (s', f t) \<and> lookup s' = (lookup s)(i \<mapsto> f t) \<and> store_inv s'"
proof -
  have "t_task_id (f t) = i"
    using assms store_invD(2) by (auto simp: keeps_identity_def)
  then show ?thesis
    using assms modify_task_total [OF assms(1,2)] put_stored_inv [OF assms] by simp
qed

lemma cancel_task_ok:
  assumes "store_inv s" "now \<noteq> []" "cancel_task now tenant i s = (s', r)"
  shows "store_inv s' \<and>
    (case lookup s i of
       None \<Rightarrow> s' = s \<and> r = None
     | Some t \<Rightarrow>
         if t_tenant t \<noteq> tenant then s' = s \<and> r = None
         else if t_state t \<in> terminal_states then s' = s \<and> r = Some t
         else lookup s' = (lookup s)(i \<mapsto> cancelled_task now t) \<and> r = Some (cancelled_task now t))"
proof
  show "store_inv s'"
    using cancel_task_inv [OF assms(1,2), of tenant i] assms(3) by simp
  have id: "lookup s i = Some t \<Longrightarrow> t_task_id (cancelled_task now t) = i" for t
    using store_invD(2) [OF assms(1)] by (simp add: cancelled_task_def)
  show "case lookup s i of
       None \<Rightarrow> s' = s \<and> r = None
     | Some t \<Rightarrow>
         if t_tenant t \<noteq> tenant then s' = s \<and> r = None
         else if t_state t \<in> terminal_states then s' = s \<and> r = Some t
         else lookup s' = (lookup s)(i \<mapsto> cancelled_task now t) \<and> r = Some (cancelled_task now t)"
  proof (cases "lookup s i")
    case None
    then show ?thesis using assms(3) by (simp add: cancel_task_def get_task_def)
  next
    case (Some t)
    then show ?thesis
      using assms(3) id [OF Some] by (auto simp: cancel_task_def get_task_def)
  qed
qed

lemma claim_next_ok:
  assumes "store_inv s" "claim_next now m s = Inr (s', Some u)"
  shows "\<exists>t. lookup s (t_task_id t) = Some t \<and> t_state t = ''queued'' \<and> u = claim_task (iso_format now) t \<and>
      lookup s' = (lookup s)(t_task_id t \<mapsto> u) \<and> store_inv s'"
proof -
  from assms obtain t where t: "u = claim_task (iso_format now) t" "lookup s (t_task_id t) = Some t"
      "s' = put_task u s" "is_task_claimable t now m = Inr True"
    by (rule claim_next_some)
  moreover have "store_inv s'" using assms by (rule claim_next_inv)
  ultimately show ?thesis by (auto simp: is_task_claimable_True)
qed

lemma submit_many_ok:
  assumes "store_inv s" "submit_many env qs s = Inr (s', acc, reu)"
    "\<forall>j < length qs. clean_string (''task_'' @ fst (env j)) \<and> lookup s (''task_'' @ fst (env j)) = None \<and>
       fst (snd (env j)) \<noteq> [] \<and> snd (snd (env j)) \<noteq> []"
    "inj_on (\<lambda>j. fst (env j)) {..<length qs}" "\<forall>q\<in>set qs. wf_queue_task q"
  shows "store_inv s' \<and> lookup s' = lookup s ++ map_of (by_id acc) \<and>
    (\<forall>t\<in>set acc. t_state t = ''queued'' \<and> t_attempt_count t = 0 \<and> lookup s (t_task_id t) = None)"
proof -
  have "fresh_env env 0 (length qs) s" using assms(3,4) by (simp add: fresh_env_def)
  from submit_many_post [OF assms(1) this assms(5)] assms(2)
  have post: "submit_post qs s s' acc reu" by auto
  show ?thesis using submit_postD(1,3,5) [OF post] by blast
qed

interpretation memory: task_store memory_ops store_inv lookup
proof unfold_locales
  show "store_inv s \<Longrightarrow> lookup s i = Some t \<Longrightarrow> t_task_id t = i" for s i t
    by (rule store_invD(2))
  show "op_get_task memory_ops s tenant i =
       (case lookup s i of None \<Rightarrow> None | Some t \<Rightarrow> if t_tenant t \<noteq> tenant then None else Some t)" for s tenant i
    by (simp add: memory_ops_def get_task_def)
  show "op_claim_next memory_ops now m s = Inr (s', None) \<Longrightarrow> s' = s" for s now m s'
    by (auto simp: memory_ops_def elim: claim_next_cases)
  show "store_inv s \<Longrightarrow> lookup s i = Some t \<Longrightarrow> now \<noteq> [] \<Longrightarrow>
       \<exists>s'. op_record_result memory_ops now i d s = Inr (s', succeed_task now d t) \<and>
           lookup s' = (lookup s)(i \<mapsto> succeed_task now d t) \<and> store_inv s'" for s i t now d
    using modify_task_ok [OF _ _ keeps_identity_succeed] by (simp add: memory_ops_def record_result_def)
  show "store_inv s \<Longrightarrow> lookup s i = Some t \<Longrightarrow> now \<noteq> [] \<Longrightarrow>
       \<exists>s'. op_record_error memory_ops now i d s = Inr (s', fail_task now d t) \<and>
           lookup s' = (lookup s)(i \<mapsto> fail_task now d t) \<and> store_inv s'" for s i t now d
    using modify_task_ok [OF _ _ keeps_identity_fail] by (simp add: memory_ops_def record_error_def)
  show "store_inv s \<Longrightarrow> lookup s i = Some t \<Longrightarrow> now \<noteq> [] \<Longrightarrow> na \<noteq> [] \<Longrightarrow>
       \<exists>s'. op_record_retry memory_ops now i d na s = Inr (s', retry_task now d na t) \<and>
           lookup s' = (lookup s)(i \<mapsto> retry_task now d na t) \<and> store_inv s'" for s i t now d na
    using modify_task_ok [OF _ _ keeps_identity_retry] by (simp add: memory_ops_def record_retry_def)
  show "store_inv s \<Longrightarrow> op_claim_next memory_ops clock m s = Inr (s', Some u) \<Longrightarrow>
       \<exists>t. lookup s (t_task_id t) = Some t \<and> t_state t = ''queued'' \<and> u = claim_task (iso_format clock) t \<and>
           lookup s' = (lookup s)(t_task_id t \<mapsto> u) \<and> store_inv s'" for s clock m s' u
    unfolding memory_ops_def task_store_ops.simps by (rule claim_next_ok)
  show "store_inv s \<Longrightarrow> now \<noteq> [] \<Longrightarrow> op_cancel_task memory_ops now tenant i s = (s', r) \<Longrightarrow>
       store_inv s' \<and>
       (case lookup s i of
          None \<Rightarrow> s' = s \<and> r = None
        | Some t \<Rightarrow>
            if t_tenant t \<noteq> tenant then s' = s \<and> r = None
            else if t_state t \<in> terminal_states then s' = s \<and> r = Some t
            else lookup s' = (lookup s)(i \<mapsto> cancelled_task now t) \<and> r = Some (cancelled_task now t))"
    for s now tenant i s' r
    unfolding memory_ops_def task_store_ops.simps by (rule cancel_task_ok)
  show "store_inv s \<Longrightarrow> op_submit_many memory_ops env qs s = Inr (s', acc, reu) \<Longrightarrow>
       (\<forall>j < length qs. clean_string (''task_'' @ fst (env j)) \<and> lookup s (''task_'' @ fst (env j)) = None \<and>
          fst (snd (env j)) \<noteq> [] \<and> snd (snd (env j)) \<noteq> []) \<Longrightarrow>
       inj_on (\<lambda>j. fst (env j)) {..<length qs} \<Longrightarrow> \<forall>q\<in>set qs. wf_queue_task q \<Longrightarrow>
       store_inv s' \<and> lookup s' = lookup s ++ map_of (by_id acc) \<and>
       (\<forall>t\<in>set acc. t_state t = ''queued'' \<and> t_attempt_count t = 0 \<and> lookup s (t_task_id t) = None)" for s env qs s' acc reu
    unfolding memory_ops_def task_store_ops.simps by (rule submit_many_ok)
qed

section \<open>JsonFileTaskStore\<close>

text \<open>The file holds the JSON value \<open>json.loads\<close> reads back from what \<open>_save_to_disk\<close> wrote; None is
  a file that does not exist. The records are written in the order of their identifiers.\<close>

definition saved_payload :: "store \<Rightarrow> json" where
  "saved_payload s = JDict [(''schema_version'', JStr SCHEMA_VERSION),
     (''tasks'', JList (map (JDict \<circ> to_record) (sort_key t_task_id (all_tasks s))))]"

fun load_records :: "(nat \<Rightarrow> string \<times> string) \<Rightarrow> nat \<Rightarrow> json list \<Rightarrow> stored_task list res" where
  "load_records now i [] = Inr []"
| "load_records now i (r # rs) = (case r of
     JDict d \<Rightarrow> bind_res (from_record (fst (now i)) (snd (now i)) d) (\<lambda>t.
       bind_res (load_records now (Suc i) rs) (\<lambda>ts. Inr (t # ts)))
   | _ \<Rightarrow> Inl (TaskProtocolError (''Task store tasks['' @ nat_digits i @ ''] must be an object.'')))"

definition load_from_disk :: "(nat \<Rightarrow> string \<times> string) \<Rightarrow> json option \<Rightarrow> store res" where
  "load_from_disk now file = (case file of
       None \<Rightarrow> Inr empty_store
     | Some (JDict raw) \<Rightarrow> (case dget_or raw ''tasks'' (JList []) of
           JList rs \<Rightarrow> bind_res (load_records now 0 rs) (\<lambda>ts. Inr (load_tasks ts))
         | _ \<Rightarrow> Inl (TaskProtocolError ''Task store file field 'tasks' must be an array.''))
     | Some _ \<Rightarrow> Inl (TaskProtocolError ''Task store file must contain a JSON object.''))"

record json_store =
  js_memory :: store
  js_disk :: "json option"

definition save_after :: "store \<Rightarrow> json_store" where
  "save_after s = \<lparr>js_memory = s, js_disk = Some (saved_payload s)\<rparr>"

definition open_json_store :: "(nat \<Rightarrow> string \<times> string) \<Rightarrow> json option \<Rightarrow> json_store res" where
  "open_json_store now file =
     bind_res (load_from_disk now file) (\<lambda>s. Inr \<lparr>js_memory = s, js_disk = file\<rparr>)"

text \<open>Each operation is that of the superclass; the ones that reach \<open>_after_mutation\<close> save.\<close>

definition json_ops :: "json_store task_store_ops" where
  "json_ops = \<lparr>op_submit_many = (\<lambda>env qs js. bind_res (submit_many env qs (js_memory js))
       (\<lambda>(s, acc, reu). Inr (save_after s, acc, reu))),
     op_queue_lengths = (\<lambda>js. queue_lengths_by_model (all_tasks (js_memory js))),
     op_context_plans = (\<lambda>js. context_plans_by_model (all_tasks (js_memory js))),
     op_get_task = (\<lambda>js. get_task (js_memory js)),
     op_list_tasks = (\<lambda>js. list_tasks (js_memory js)),
     op_claim_next = (\<lambda>now m js. bind_res (claim_next now m (js_memory js))
       (\<lambda>(s, r). Inr (if r = None then js else save_after s, r))),
     op_record_result = (\<lambda>now i r js. bind_res (record_result now i r (js_memory js))
       (\<lambda>(s, t). Inr (save_after s, t))),
     op_record_error = (\<lambda>now i r js. bind_res (record_error now i r (js_memory js))
       (\<lambda>(s, t). Inr (save_after s, t))),
     op_record_retry = (\<lambda>now i r na js. bind_res (record_retry now i r na (js_memory js))
       (\<lambda>(s, t). Inr (save_after s, t))),
     op_cancel_task = (\<lambda>now tenant i js. case get_task (js_memory js) tenant i of
         None \<Rightarrow> (js, None)
       | Some t \<Rightarrow> if t_state t \<in> terminal_states then (js, Some t)
           else (case cancel_task now tenant i (js_memory js) of (s, r) \<Rightarrow> (save_after s, r)))\<rparr>"

section \<open>What is written is what is read back\<close>

lemma load_records_saved:
  "\<forall>t\<in>set ts. wf_task t \<Longrightarrow> load_records now i (map (JDict \<circ> to_record) ts) = Inr ts"
  by (induction ts arbitrary: i) (simp_all add: from_to_record)

lemma load_tasks_lookup:
  assumes "distinct (map t_task_id ts)"
  shows "lookup (fold insert_new ts s) = lookup s ++ map_of (by_id ts)"
  using assms
proof (induction ts arbitrary: s)
  case (Cons t ts)
  then have new: "t_task_id t \<notin> dom (map_of (by_id ts))" by (simp add: domIff map_of_by_id_None)
  have "lookup (fold insert_new (t # ts) s) = (lookup s)(t_task_id t \<mapsto> t) ++ map_of (by_id ts)"
    using Cons by simp
  also have "\<dots> = (lookup s ++ map_of (by_id ts))(t_task_id t \<mapsto> t)"
    by (rule map_add_upd_left [OF new])
  also have "\<dots> = lookup s ++ map_of (by_id (t # ts))"
    by (simp only: by_id_simps map_of.simps fst_conv snd_conv map_add_upd)
  finally show ?case .
qed simp

lemma load_tasks_index:
  assumes "distinct (map idem_key ts)"
  shows "map_of (idempotency_index (fold insert_new ts s)) = map_of (idempotency_index s) ++ map_of (by_key ts)"
  using assms
proof (induction ts arbitrary: s)
  case (Cons t ts)
  then have new: "idem_key t \<notin> dom (map_of (by_key ts))" by (simp add: domIff map_of_by_key_None)
  have "map_of (idempotency_index (fold insert_new (t # ts) s)) =
      (map_of (idempotency_index s))(idem_key t \<mapsto> t_task_id t) ++ map_of (by_key ts)"
    using Cons by simp
  also have "\<dots> = (map_of (idempotency_index s) ++ map_of (by_key ts))(idem_key t \<mapsto> t_task_id t)"
    by (rule map_add_upd_left [OF new])
  also have "\<dots> = map_of (idempotency_index s) ++ map_of (by_key (t # ts))"
    by (simp only: by_id_simps map_of.simps fst_conv snd_conv map_add_upd)
  finally show ?case .
qed simp

lemma store_distinct:
  assumes "store_inv s"
  shows "distinct (map t_task_id (all_tasks s))" and "distinct (map idem_key (all_tasks s))"
proof -
  have m: "map t_task_id (all_tasks s) = map fst (tasks_by_id s)"
  proof -
    have "t_task_id (snd p) = fst p" if "p \<in> set (tasks_by_id s)" for p
    proof -
      have "lookup s (fst p) = Some (snd p)"
        using that store_invD(1) [OF assms] by (simp add: lookup_def map_of_is_SomeI)
      then show ?thesis by (rule store_invD(2) [OF assms])
    qed
    then show ?thesis by (simp add: all_tasks_def)
  qed
  then show d: "distinct (map t_task_id (all_tasks s))"
    using store_invD(1) [OF assms] by simp
  have "inj_on idem_key (set (all_tasks s))"
  proof (rule inj_onI)
    fix a b assume "a \<in> set (all_tasks s)" "b \<in> set (all_tasks s)" "idem_key a = idem_key b"
    then show "a = b"
      using store_invD(4) [OF assms] all_tasks_lookup [OF assms]
      by (metis option.inject)
  qed
  moreover have "distinct (all_tasks s)" using d by (simp add: distinct_map)
  ultimately show "distinct (map idem_key (all_tasks s))" by (simp add: distinct_map)
qed

lemma map_of_by_id_all: "store_inv s \<Longrightarrow> set ts = set (all_tasks s) \<Longrightarrow> distinct (map t_task_id ts) \<Longrightarrow>
    map_of (by_id ts) = lookup s"
proof (rule ext)
  fix i
  assume inv: "store_inv s" and ts: "set ts = set (all_tasks s)" "distinct (map t_task_id ts)"
  have "map_of (by_id ts) i = Some t \<longleftrightarrow> lookup s i = Some t" for t
  proof -
    have "map_of (by_id ts) i = Some t \<longleftrightarrow> (i, t) \<in> set (by_id ts)"
      using ts(2) by (intro map_of_eq_Some_iff) simp
    also have "\<dots> \<longleftrightarrow> t \<in> set (all_tasks s) \<and> t_task_id t = i"
      using ts(1) by (auto simp: by_id_def)
    also have "\<dots> \<longleftrightarrow> lookup s i = Some t"
      using all_tasks_lookup [OF inv] store_invD(2) [OF inv] by blast
    finally show ?thesis .
  qed
  then show "map_of (by_id ts) i = lookup s i"
    by (metis not_Some_eq)
qed

lemma map_of_by_key_all: "store_inv s \<Longrightarrow> set ts = set (all_tasks s) \<Longrightarrow> distinct (map idem_key ts) \<Longrightarrow>
    map_of (by_key ts) = map_of (idempotency_index s)"
proof (rule ext)
  fix k
  assume inv: "store_inv s" and ts: "set ts = set (all_tasks s)" "distinct (map idem_key ts)"
  have "map_of (by_key ts) k = Some i \<longleftrightarrow> map_of (idempotency_index s) k = Some i" for i
  proof -
    have "map_of (by_key ts) k = Some i \<longleftrightarrow> (k, i) \<in> set (by_key ts)"
      using ts(2) by (intro map_of_eq_Some_iff) simp
    also have "\<dots> \<longleftrightarrow> (\<exists>t\<in>set (all_tasks s). idem_key t = k \<and> t_task_id t = i)"
      using ts(1) by (auto simp: by_key_def)
    also have "\<dots> \<longleftrightarrow> map_of (idempotency_index s) k = Some i"
    proof
      assume "\<exists>t\<in>set (all_tasks s). idem_key t = k \<and> t_task_id t = i"
      then show "map_of (idempotency_index s) k = Some i"
        using all_tasks_lookup [OF inv] store_invD(4) [OF inv] by blast
    next
      assume "map_of (idempotency_index s) k = Some i"
      from store_invD(5) [OF inv this] obtain t where "lookup s i = Some t" "idem_key t = k" by blast
      then show "\<exists>t\<in>set (all_tasks s). idem_key t = k \<and> t_task_id t = i"
        using in_all_tasks [OF inv] store_invD(2) [OF inv] by blast
    qed
    finally show ?thesis .
  qed
  then show "map_of (by_key ts) k = map_of (idempotency_index s) k"
    by (metis not_Some_eq)
qed

lemma wf_all_tasks: "store_inv s \<Longrightarrow> t \<in> set (all_tasks s) \<Longrightarrow> wf_task t"
  using store_invD(3) by (auto simp: in_all_tasks)

lemma load_saved:
  assumes "store_inv s"
  shows "\<exists>s'. load_from_disk now (Some (saved_payload s)) = Inr s' \<and>
     lookup s' = lookup s \<and> map_of (idempotency_index s') = map_of (idempotency_index s) \<and> store_inv s'"
proof -
  let ?ts = "sort_key t_task_id (all_tasks s)"
  have wf: "\<forall>t\<in>set ?ts. wf_task t" using wf_all_tasks [OF assms] by simp
  have load: "load_from_disk now (Some (saved_payload s)) = Inr (load_tasks ?ts)"
    by (simp add: load_from_disk_def saved_payload_def dget_or_def load_records_saved [OF wf])
  have perm: "mset ?ts = mset (all_tasks s)" by simp
  have set: "set ?ts = set (all_tasks s)" by simp
  have d1: "distinct (map t_task_id ?ts)" and d2: "distinct (map idem_key ?ts)"
    using store_distinct [OF assms] perm by (metis mset_map mset_eq_imp_distinct_iff)+
  have l: "lookup (load_tasks ?ts) = lookup s"
    using load_tasks_lookup [OF d1, of empty_store] map_of_by_id_all [OF assms set d1]
    by (simp add: load_tasks_def empty_store_def lookup_def fun_eq_iff map_add_def split: option.splits)
  have k: "map_of (idempotency_index (load_tasks ?ts)) = map_of (idempotency_index s)"
    using load_tasks_index [OF d2, of empty_store] map_of_by_key_all [OF assms set d2]
    by (simp add: load_tasks_def empty_store_def fun_eq_iff map_add_def split: option.splits)
  have "distinct (map fst (tasks_by_id (fold insert_new ts t)))" if "distinct (map fst (tasks_by_id t))" for ts t
    using that by (induction ts arbitrary: t) (simp_all add: insert_new_def distinct_update)
  then have "distinct (map fst (tasks_by_id (load_tasks ?ts)))"
    by (simp add: load_tasks_def empty_store_def)
  then have "store_inv (load_tasks ?ts)"
    using assms by (simp add: store_inv_def l k)
  with load l k show ?thesis by blast
qed

text \<open>The disk is never behind the memory.\<close>

definition json_inv :: "json_store \<Rightarrow> bool" where
  "json_inv js \<longleftrightarrow> store_inv (js_memory js) \<and>
     (js_disk js = Some (saved_payload (js_memory js)) \<or> js_disk js = None \<and> js_memory js = empty_store)"

definition json_view :: "json_store \<Rightarrow> string \<Rightarrow> stored_task option" where
  "json_view js = lookup (js_memory js)"

lemma json_inv_save_after [simp]: "json_inv (save_after s) \<longleftrightarrow> store_inv s"
  by (simp add: json_inv_def save_after_def)

lemma json_view_save_after [simp]: "json_view (save_after s) = lookup s"
  by (simp add: json_view_def save_after_def)

lemma json_record_ok:
  assumes "json_inv js" "json_view js i = Some t" "keeps_identity f"
  shows "\<exists>js'. bind_res (modify_task f i (js_memory js)) (\<lambda>(s, t). Inr (save_after s, t)) = Inr (js', f t) \<and>
     json_view js' = (json_view js)(i \<mapsto> f t) \<and> json_inv js'"
proof -
  have "store_inv (js_memory js)" "lookup (js_memory js) i = Some t"
    using assms(1,2) by (simp_all add: json_inv_def json_view_def)
  from modify_task_ok [OF this assms(3)] obtain s' where
    s': "modify_task f i (js_memory js) = Inr (s', f t)" "lookup s' = (lookup (js_memory js))(i \<mapsto> f t)" "store_inv s'"
    by blast
  show ?thesis
    by (rule exI [of _ "save_after s'"])
      (insert s', simp only: bind_res.simps prod.case json_inv_save_after json_view_save_after simp_thms, simp add: json_view_def)
qed

lemma json_claim_ok:
  assumes "json_inv js" "op_claim_next json_ops now m js = Inr (js', Some u)"
  shows "\<exists>t. json_view js (t_task_id t) = Some t \<and> t_state t = ''queued'' \<and> u = claim_task (iso_format now) t \<and>
     json_view js' = (json_view js)(t_task_id t \<mapsto> u) \<and> json_inv js'"
proof -
  from assms(2) obtain s where s: "claim_next now m (js_memory js) = Inr (s, Some u)" "js' = save_after s"
    by (auto simp: json_ops_def bind_res_Inr_iff split: if_splits)
  have "store_inv (js_memory js)" using assms(1) by (simp add: json_inv_def)
  from claim_next_ok [OF this s(1)] s(2) show ?thesis by (simp add: json_view_def save_after_def json_inv_def)
qed

lemma json_cancel_ok:
  assumes "json_inv js" "now \<noteq> []" "op_cancel_task json_ops now tenant i js = (js', r)"
  shows "json_inv js' \<and>
    (case json_view js i of
       None \<Rightarrow> js' = js \<and> r = None
     | Some t \<Rightarrow>
         if t_tenant t \<noteq> tenant then js' = js \<and> r = None
         else if t_state t \<in> terminal_states then js' = js \<and> r = Some t
         else json_view js' = (json_view js)(i \<mapsto> cancelled_task now t) \<and> r = Some (cancelled_task now t))"
proof -
  have inv: "store_inv (js_memory js)" using assms(1) by (simp add: json_inv_def)
  show ?thesis
  proof (cases "lookup (js_memory js) i")
    case None
    then show ?thesis
      using assms by (simp add: json_ops_def get_task_def json_view_def)
  next
    case (Some t)
    obtain s r' where c: "cancel_task now tenant i (js_memory js) = (s, r')" by fastforce
    from cancel_task_ok [OF inv assms(2) c] Some assms(1,3) c show ?thesis
      by (auto simp: json_ops_def get_task_def json_view_def save_after_def json_inv_def split: if_splits)
  qed
qed

interpretation json: task_store json_ops json_inv json_view
proof unfold_locales
  show "json_inv s \<Longrightarrow> json_view s i = Some t \<Longrightarrow> t_task_id t = i" for s i t
    by (auto simp: json_inv_def json_view_def dest: store_invD(2))
  show "op_get_task json_ops s tenant i =
       (case json_view s i of None \<Rightarrow> None | Some t \<Rightarrow> if t_tenant t \<noteq> tenant then None else Some t)" for s tenant i
    by (simp add: json_ops_def json_view_def get_task_def)
  show "op_claim_next json_ops now m s = Inr (s', None) \<Longrightarrow> s' = s" for s now m s'
    by (auto simp: json_ops_def bind_res_Inr_iff split: if_splits)
  show "json_inv s \<Longrightarrow> op_submit_many json_ops env qs s = Inr (s', acc, reu) \<Longrightarrow>
       (\<forall>j < length qs. clean_string (''task_'' @ fst (env j)) \<and> json_view s (''task_'' @ fst (env j)) = None \<and>
          fst (snd (env j)) \<noteq> [] \<and> snd (snd (env j)) \<noteq> []) \<Longrightarrow>
       inj_on (\<lambda>j. fst (env j)) {..<length qs} \<Longrightarrow> \<forall>q\<in>set qs. wf_queue_task q \<Longrightarrow>
       json_inv s' \<and> json_view s' = json_view s ++ map_of (by_id acc) \<and>
       (\<forall>t\<in>set acc. t_state t = ''queued'' \<and> t_attempt_count t = 0 \<and> json_view s (t_task_id t) = None)" for s env qs s' acc reu
    using submit_many_ok [of "js_memory s" env qs _ acc reu]
    by (auto simp: json_ops_def json_view_def json_inv_def bind_res_Inr_iff save_after_def)
  show "json_inv s \<Longrightarrow> json_view s i = Some t \<Longrightarrow> now \<noteq> [] \<Longrightarrow>
       \<exists>s'. op_record_result json_ops now i d s = Inr (s', succeed_task now d t) \<and>
           json_view s' = (json_view s)(i \<mapsto> succeed_task now d t) \<and> json_inv s'" for s i t now d
    using json_record_ok [OF _ _ keeps_identity_succeed] by (simp add: json_ops_def record_result_def)
  show "json_inv s \<Longrightarrow> json_view s i = Some t \<Longrightarrow> now \<noteq> [] \<Longrightarrow>
       \<exists>s'. op_record_error json_ops now i d s = Inr (s', fail_task now d t) \<and>
           json_view s' = (json_view s)(i \<mapsto> fail_task now d t) \<and> json_inv s'" for s i t now d
    using json_record_ok [OF _ _ keeps_identity_fail] by (simp add: json_ops_def record_error_def)
  show "json_inv s \<Longrightarrow> json_view s i = Some t \<Longrightarrow> now \<noteq> [] \<Longrightarrow> na \<noteq> [] \<Longrightarrow>
       \<exists>s'. op_record_retry json_ops now i d na s = Inr (s', retry_task now d na t) \<and>
           json_view s' = (json_view s)(i \<mapsto> retry_task now d na t) \<and> json_inv s'" for s i t now d na
    using json_record_ok [OF _ _ keeps_identity_retry] by (simp add: json_ops_def record_retry_def)
qed (rule json_claim_ok json_cancel_ok; assumption)+

text \<open>A reopened store has the tasks of the file in the order of the file, so it satisfies the
  invariant again.\<close>

lemma update_new_key: "k \<notin> fst ` set xs \<Longrightarrow> AList.update k v xs = xs @ [(k, v)]"
  by (induction xs) auto

lemma load_tasks_by_id:
  assumes "distinct (map t_task_id ts)" "t_task_id ` set ts \<inter> fst ` set (tasks_by_id s) = {}"
  shows "tasks_by_id (fold insert_new ts s) = tasks_by_id s @ by_id ts"
  using assms
proof (induction ts arbitrary: s)
  case (Cons t ts)
  then have n: "tasks_by_id (insert_new t s) = tasks_by_id s @ [(t_task_id t, t)]"
    by (simp add: insert_new_def update_new_key)
  have "tasks_by_id (fold insert_new ts (insert_new t s)) = tasks_by_id (insert_new t s) @ by_id ts"
    by (rule Cons.IH) (use Cons.prems n in auto)
  then show ?case by (simp add: n)
qed simp

lemma all_tasks_load: "distinct (map t_task_id ts) \<Longrightarrow> all_tasks (load_tasks ts) = ts"
  by (simp add: load_tasks_def all_tasks_def load_tasks_by_id empty_store_def by_id_def comp_def)

lemma saved_payload_load:
  assumes "store_inv s"
  shows "saved_payload (load_tasks (sort_key t_task_id (all_tasks s))) = saved_payload s"
proof -
  have "distinct (map t_task_id (sort_key t_task_id (all_tasks s)))"
    using store_distinct(1) [OF assms] by (simp add: distinct_map)
  then show ?thesis by (simp add: saved_payload_def all_tasks_load sort_key_id_if_sorted)
qed

lemma open_json_store_ok:
  assumes "json_inv js" "open_json_store now (js_disk js) = Inr js'"
  shows "json_view js' = json_view js" "json_inv js'"
    "map_of (idempotency_index (js_memory js')) = map_of (idempotency_index (js_memory js))"
proof -
  have all: "json_view js' = json_view js \<and> json_inv js' \<and>
      map_of (idempotency_index (js_memory js')) = map_of (idempotency_index (js_memory js))"
  proof (cases "js_disk js")
    case None
    with assms have "js' = js" by (cases js) (auto simp: json_inv_def open_json_store_def load_from_disk_def)
    with assms(1) show ?thesis by simp_all
  next
    case (Some f)
    with assms(1) have f: "js_disk js = Some (saved_payload (js_memory js))" and inv: "store_inv (js_memory js)"
      by (auto simp: json_inv_def)
    obtain s where s: "load_from_disk now (Some (saved_payload (js_memory js))) = Inr s"
        "lookup s = lookup (js_memory js)" "map_of (idempotency_index s) = map_of (idempotency_index (js_memory js))"
        "store_inv s"
      using load_saved [OF inv] by blast
    have "\<forall>t\<in>set (sort_key t_task_id (all_tasks (js_memory js))). wf_task t"
      using wf_all_tasks [OF inv] by simp
    then have "s = load_tasks (sort_key t_task_id (all_tasks (js_memory js)))"
      using s(1) by (simp add: load_from_disk_def saved_payload_def load_records_saved dget_or_def)
    with saved_payload_load [OF inv] have "saved_payload s = saved_payload (js_memory js)" by simp
    moreover have "js' = \<lparr>js_memory = s, js_disk = js_disk js\<rparr>"
      using assms(2) s(1) by (simp add: open_json_store_def f)
    ultimately show ?thesis
      using s f by (simp_all add: json_view_def json_inv_def)
  qed
  then show "json_view js' = json_view js" "json_inv js'"
    "map_of (idempotency_index (js_memory js')) = map_of (idempotency_index (js_memory js))" by simp_all
qed

lemma open_json_store_total: "json_inv js \<Longrightarrow> \<exists>js'. open_json_store now (js_disk js) = Inr js'"
  using load_saved [of "js_memory js" now]
  by (auto simp: json_inv_def open_json_store_def load_from_disk_def)

end
