(* ===== verification/Py_Float.thy ===== *)
theory Py_Float
  imports Py_Prelude "HOL-Library.Log_Nat"
begin

text \<open>
  Python's \<open>float\<close>: IEEE binary64 with round to nearest, ties to even. A finite float is the
  rational number it denotes (the sign of a zero is not kept, nothing in the code reads it);
  every operation rounds its exact result once. \<open>float(x)\<close>, \<open>repr\<close>, the comparisons and
  \<open>max\<close>/\<open>min\<close> are those of the language, NaN included.
\<close>

section \<open>Rounding\<close>

datatype flt = Fin rat | FInf bool | FNaN

definition pow2 :: "int \<Rightarrow> rat" where
  "pow2 e = (if 0 \<le> e then 2 ^ nat e else 1 / 2 ^ nat (- e))"

text \<open>The exponent \<open>e\<close> with \<open>2 ^ e \<le> \<bar>q\<bar> < 2 ^ (e + 1)\<close>.\<close>

definition ilog2 :: "rat \<Rightarrow> int" where
  "ilog2 q = (case quotient_of \<bar>q\<bar> of (n, d) \<Rightarrow>
     let e = bitlen n - bitlen d in if pow2 e \<le> \<bar>q\<bar> then e else e - 1)"

definition fl :: "rat \<Rightarrow> flt" where
  "fl q = (if q = 0 then Fin 0 else
     let k = max (ilog2 q - 52) (- 1074);
         v = of_int (round_half_even (q / pow2 k)) * pow2 k
     in if 2 ^ 1024 \<le> \<bar>v\<bar> then FInf (q < 0) else Fin v)"

section \<open>Arithmetic and comparisons\<close>

fun fneg :: "flt \<Rightarrow> flt" where
  "fneg (Fin a) = Fin (- a)"
| "fneg (FInf s) = FInf (\<not> s)"
| "fneg FNaN = FNaN"

fun fadd :: "flt \<Rightarrow> flt \<Rightarrow> flt" where
  "fadd (Fin a) (Fin b) = fl (a + b)"
| "fadd (Fin a) (FInf s) = FInf s"
| "fadd (FInf s) (Fin b) = FInf s"
| "fadd (FInf s) (FInf t) = (if s = t then FInf s else FNaN)"
| "fadd FNaN y = FNaN"
| "fadd x FNaN = FNaN"

definition fsub :: "flt \<Rightarrow> flt \<Rightarrow> flt" where
  "fsub x y = fadd x (fneg y)"

fun fmul :: "flt \<Rightarrow> flt \<Rightarrow> flt" where
  "fmul (Fin a) (Fin b) = fl (a * b)"
| "fmul (Fin a) (FInf s) = (if a = 0 then FNaN else FInf ((a < 0) \<noteq> s))"
| "fmul (FInf s) (Fin b) = (if b = 0 then FNaN else FInf ((b < 0) \<noteq> s))"
| "fmul (FInf s) (FInf t) = FInf (s \<noteq> t)"
| "fmul FNaN y = FNaN"
| "fmul x FNaN = FNaN"

fun fdiv :: "flt \<Rightarrow> flt \<Rightarrow> flt res" where
  "fdiv FNaN y = (if y = Fin 0 then Inl ZeroDivisionError else Inr FNaN)"
| "fdiv x FNaN = Inr FNaN"
| "fdiv (Fin a) (Fin b) = (if b = 0 then Inl ZeroDivisionError else Inr (fl (a / b)))"
| "fdiv (Fin a) (FInf s) = Inr (Fin 0)"
| "fdiv (FInf s) (Fin b) = (if b = 0 then Inl ZeroDivisionError else Inr (FInf ((b < 0) \<noteq> s)))"
| "fdiv (FInf s) (FInf t) = Inr FNaN"

fun flt_less :: "flt \<Rightarrow> flt \<Rightarrow> bool" where
  "flt_less (Fin a) (Fin b) \<longleftrightarrow> a < b"
| "flt_less (Fin a) (FInf s) \<longleftrightarrow> \<not> s"
| "flt_less (FInf s) (Fin b) \<longleftrightarrow> s"
| "flt_less (FInf s) (FInf t) \<longleftrightarrow> s \<and> \<not> t"
| "flt_less FNaN y \<longleftrightarrow> False"
| "flt_less x FNaN \<longleftrightarrow> False"

fun flt_le :: "flt \<Rightarrow> flt \<Rightarrow> bool" where
  "flt_le (Fin a) (Fin b) \<longleftrightarrow> a \<le> b"
| "flt_le (Fin a) (FInf s) \<longleftrightarrow> \<not> s"
| "flt_le (FInf s) (Fin b) \<longleftrightarrow> s"
| "flt_le (FInf s) (FInf t) \<longleftrightarrow> s \<or> \<not> t"
| "flt_le FNaN y \<longleftrightarrow> False"
| "flt_le x FNaN \<longleftrightarrow> False"

text \<open>\<open>max(a, b)\<close> and \<open>min(a, b)\<close>: the second argument only when it compares strictly better.\<close>

definition fmax :: "flt \<Rightarrow> flt \<Rightarrow> flt" where
  "fmax a b = (if flt_less a b then b else a)"

definition fmin :: "flt \<Rightarrow> flt \<Rightarrow> flt" where
  "fmin a b = (if flt_less b a then b else a)"

section \<open>repr\<close>

text \<open>The shortest decimal that reads back as the same float: \<open>n\<close> significant digits, the
  smallest \<open>n\<close> up to 17 that does.\<close>

definition pow10 :: "int \<Rightarrow> rat" where
  "pow10 e = (if 0 \<le> e then 10 ^ nat e else 1 / 10 ^ nat (- e))"

definition ilog10 :: "rat \<Rightarrow> int" where
  "ilog10 q = (let e = \<lfloor>of_int (ilog2 q) * (30103 / 100000 :: rat)\<rfloor> in
     if pow10 (e + 1) \<le> \<bar>q\<bar> then e + 1 else if pow10 e \<le> \<bar>q\<bar> then e else e - 1)"

text \<open>Digits and decimal exponent: \<open>(m, e)\<close> is \<open>m * 10 ^ e\<close>.\<close>

definition decimal_of :: "rat \<Rightarrow> nat \<Rightarrow> int \<times> int" where
  "decimal_of q n = (let e = ilog10 q - int n + 1 in (round_half_even (\<bar>q\<bar> / pow10 e), e))"

definition shortest_decimal :: "rat \<Rightarrow> int \<times> int" where
  "shortest_decimal q =
     (case find (\<lambda>n. case decimal_of q n of (m, e) \<Rightarrow> fl (of_int m * pow10 e) = fl \<bar>q\<bar>) [1..<18] of
        None \<Rightarrow> decimal_of q 17
      | Some n \<Rightarrow> decimal_of q n)"

definition strip_zeros :: "string \<Rightarrow> string" where
  "strip_zeros s = rev (dropWhile (\<lambda>c. c = CHR ''0'') (rev s))"

definition float_repr :: "rat \<Rightarrow> string" where
  "float_repr q = (if q = 0 then ''0.0'' else
     case shortest_decimal q of (m, e) \<Rightarrow>
       let digits = strip_zeros (nat_digits (nat m));
           point = int (length (nat_digits (nat m))) + e;
           sign = (if q < 0 then ''-'' else []);
           n = int (length digits)
       in sign @
         (if -3 \<le> point \<and> point \<le> 16 then
            (if point \<le> 0 then ''0.'' @ replicate (nat (- point)) (CHR ''0'') @ digits
             else if n \<le> point then digits @ replicate (nat (point - n)) (CHR ''0'') @ ''.0''
             else take (nat point) digits @ ''.'' @ drop (nat point) digits)
          else (let x = point - 1; xs = nat_digits (nat \<bar>x\<bar>) in
             take 1 digits @ (if 1 < n then ''.'' @ drop 1 digits else []) @ ''e'' @
             (if x < 0 then ''-'' else ''+'') @ (if length xs < 2 then ''0'' @ xs else xs))))"

definition json_of_flt :: "flt \<Rightarrow> json" where
  "json_of_flt x = (case x of Fin q \<Rightarrow> JFloat q (float_repr q) | FInf s \<Rightarrow> JInf s | FNaN \<Rightarrow> JNaN)"

section \<open>float(x)\<close>

text \<open>A digit string with single underscores between digits, split off the front of a text: the
  digits and the rest.\<close>

definition digit_run :: "string \<Rightarrow> string \<times> string" where
  "digit_run s = (takeWhile (\<lambda>c. is_digit c \<or> c = CHR ''_'') s, dropWhile (\<lambda>c. is_digit c \<or> c = CHR ''_'') s)"

definition run_value :: "string \<Rightarrow> (nat \<times> nat) option" where
  "run_value s = (if s = [] then Some (0, 0)
     else map_option (\<lambda>v. (v, length (filter is_digit s))) (parse_digits 0 False s))"

definition parse_exponent :: "string \<Rightarrow> int option" where
  "parse_exponent s = (case s of
       [] \<Rightarrow> Some 0
     | c # cs \<Rightarrow> if c \<noteq> CHR ''e'' then None
         else (case cs of
             [] \<Rightarrow> None
           | d # ds \<Rightarrow>
               if d = CHR ''-'' then map_option (\<lambda>n. - int n) (parse_digits 0 False ds)
               else if d = CHR ''+'' then map_option int (parse_digits 0 False ds)
               else map_option int (parse_digits 0 False (d # ds))))"

definition parse_decimal :: "string \<Rightarrow> rat option" where
  "parse_decimal s = (case digit_run s of (ip, r1) \<Rightarrow>
     (case (case r1 of [] \<Rightarrow> ([], []) | c # cs \<Rightarrow> if c = CHR ''.'' then digit_run cs else ([], r1)) of
        (fp, r2) \<Rightarrow>
          if ip = [] \<and> fp = [] then None
          else (case (run_value ip, run_value fp, parse_exponent r2) of
              (Some (i, _), Some (f, nf), Some e) \<Rightarrow>
                Some ((of_nat i * 10 ^ nf + of_nat f) / 10 ^ nf * pow10 e)
            | _ \<Rightarrow> None)))"

definition parse_unsigned_float :: "string \<Rightarrow> flt option" where
  "parse_unsigned_float s =
     (if s \<in> {''inf'', ''infinity''} then Some (FInf False)
      else if s = ''nan'' then Some FNaN
      else map_option fl (parse_decimal s))"

definition parse_float :: "string \<Rightarrow> flt option" where
  "parse_float s = (case py_lower (strip s) of
       [] \<Rightarrow> None
     | c # cs \<Rightarrow>
         if c = CHR ''-'' then map_option fneg (parse_unsigned_float cs)
         else if c = CHR ''+'' then parse_unsigned_float cs
         else parse_unsigned_float (c # cs))"

fun py_float :: "json \<Rightarrow> flt res" where
  "py_float JNull = Inl TypeError"
| "py_float (JBool b) = Inr (Fin (if b then 1 else 0))"
| "py_float (JInt n) = (case fl (of_int n) of Fin q \<Rightarrow> Inr (Fin q) | _ \<Rightarrow> Inl OverflowError)"
| "py_float (JFloat q _) = Inr (Fin q)"
| "py_float (JInf s) = Inr (FInf s)"
| "py_float JNaN = Inr FNaN"
| "py_float (JStr s) = (case parse_float s of
     None \<Rightarrow> Inl (ValueError ''could not convert string to float'') | Some x \<Rightarrow> Inr x)"
| "py_float (JList _) = Inl TypeError"
| "py_float (JDict _) = Inl TypeError"

text \<open>\<open>round(x)\<close> to an integer.\<close>

fun flt_round :: "flt \<Rightarrow> int res" where
  "flt_round (Fin q) = Inr (round_half_even q)"
| "flt_round (FInf _) = Inl OverflowError"
| "flt_round FNaN = Inl (ValueError ''cannot convert float NaN to integer'')"

section \<open>Integers as floats\<close>

lemma round_half_even_int [simp]: "round_half_even (of_int n) = n"
  by (simp add: round_half_even_def)

lemma round_half_even_ge:
  assumes "of_int m \<le> q"
  shows "m \<le> round_half_even q"
proof -
  have "m \<le> \<lfloor>q\<rfloor>" using assms by (simp add: le_floor_iff)
  then show ?thesis by (simp add: round_half_even_def Let_def)
qed

lemma ilog2_of_int:
  assumes "0 < n"
  shows "ilog2 (of_int n) = bitlen n - 1"
proof -
  have "2 ^ nat (bitlen n - 1) \<le> n" using bitlen_bounds [OF assms] by simp
  then have "(2 :: rat) ^ nat (bitlen n - 1) \<le> of_int n"
    by (metis of_int_le_iff of_int_numeral of_int_power)
  moreover have "0 \<le> bitlen n - 1" using assms bitlen_eq_zero_iff [of n] bitlen_nonneg [of n] by linarith
  moreover have "bitlen 1 = 1" using bitlen_twopow_add_eq [of 0 0] by simp
  ultimately show ?thesis using assms by (simp add: ilog2_def quotient_of_int pow2_def)
qed

lemma fl_of_int_exact:
  assumes "0 < n" "n < 2 ^ 53"
  shows "fl (of_int n) = Fin (of_int n)"
proof -
  have b: "1 \<le> bitlen n" "bitlen n \<le> 53"
    using assms bitlen_eq_zero_iff [of n] bitlen_nonneg [of n] bitlen_le_iff_power [of n 53] by auto
  define j where "j = nat (53 - bitlen n)"
  have k: "max (ilog2 (of_int n) - 52) (- 1074) = - int j"
    using b by (simp add: ilog2_of_int [OF assms(1)] j_def)
  have p: "pow2 (- int j) = 1 / 2 ^ j" by (simp add: pow2_def)
  have "of_int n / pow2 (- int j) = (of_int (n * 2 ^ j) :: rat)" by (simp add: p)
  moreover have "(of_int n :: rat) < 2 ^ 1024"
  proof -
    have "n < 2 ^ 1024" using assms(2) by simp
    then show ?thesis by (metis of_int_less_iff of_int_numeral of_int_power)
  qed
  ultimately show ?thesis
    using assms(1) by (simp add: fl_def k p Let_def del: of_int_mult) simp
qed

lemma fl_of_int_overflow:
  assumes "2 ^ 1024 \<le> n"
  shows "fl (of_int n) = FInf False"
proof -
  have pos: "0 < n" by (rule less_le_trans [OF _ assms]) simp
  have b: "1025 \<le> bitlen n" using assms bitlen_ge_iff_power [of 1025 n] by simp
  define j where "j = nat (bitlen n - 53)"
  have k: "max (ilog2 (of_int n) - 52) (- 1074) = int j"
    using b by (simp add: ilog2_of_int [OF pos] j_def)
  have e: "nat (bitlen n - 1) = j + 52" using b by (simp add: j_def)
  have "2 ^ (j + 52) \<le> n" using bitlen_bounds [OF pos] e by simp
  then have "(of_int (2 ^ 52 * 2 ^ j) :: rat) \<le> of_int n"
    by (simp only: of_int_le_iff power_add mult.commute)
  then have "of_int (2 ^ 52) \<le> (of_int n / pow2 (int j) :: rat)"
    by (simp add: pow2_def field_simps)
  then have r: "2 ^ 52 \<le> round_half_even (of_int n / pow2 (int j) :: rat)"
    by (rule round_half_even_ge)
  have "(2 :: int) ^ 1024 = 2 ^ 52 * 2 ^ 972" by (simp flip: power_add)
  also have "\<dots> \<le> round_half_even (of_int n / pow2 (int j)) * 2 ^ j"
    by (rule mult_mono [OF r power_increasing]) (use b r in \<open>simp_all add: j_def\<close>)
  finally have "(of_int (2 ^ 1024) :: rat) \<le> of_int (round_half_even (of_int n / pow2 (int j)) * 2 ^ j)"
    by (simp only: of_int_le_iff)
  moreover have "pow2 (int j) = 2 ^ j" by (simp add: pow2_def)
  ultimately have "(2 :: rat) ^ 1024 \<le> \<bar>of_int (round_half_even (of_int n / pow2 (int j))) * pow2 (int j)\<bar>"
    by (simp only: of_int_mult of_int_power of_int_numeral)
  then show ?thesis
    using pos by (simp only: fl_def k Let_def) simp
qed

end
