(* ===== verification/Policy.thy ===== *)
theory Policy
  imports Task_Parse Py_Float
begin

text \<open>
  \<open>queue_proxy/policy.py\<close> and \<open>orchestrator_core/config.py\<close>: the configuration as pydantic
  validates it, the per-model policies, their choice, the per-request overrides, the check of
  the orchestration block and the token policy. The two places where the code iterates over a
  set take the iteration order as an argument.
\<close>

section \<open>Configuration\<close>

record orchestrator_config =
  cfg_defaults :: dict
  cfg_dynamic_models :: dict
  cfg_models :: "(string \<times> dict option) list"

definition empty_or_invalid_mapping_to_dict :: "json \<Rightarrow> dict" where
  "empty_or_invalid_mapping_to_dict v = (case v of JDict d \<Rightarrow> d | _ \<Rightarrow> [])"

definition model_entry :: "string \<times> json \<Rightarrow> (string \<times> dict option) res" where
  "model_entry kv = (case snd kv of
       JNull \<Rightarrow> Inr (fst kv, None)
     | JDict d \<Rightarrow> Inr (fst kv, Some d)
     | _ \<Rightarrow> Inl (ValueError ''Input should be a valid dictionary''))"

text \<open>\<open>load_orchestrator_config\<close> on what \<open>yaml.safe_load\<close> returned.\<close>

definition load_orchestrator_config :: "json \<Rightarrow> orchestrator_config res" where
  "load_orchestrator_config yaml =
     (let raw = (case yaml of JDict d \<Rightarrow> d | _ \<Rightarrow> []) in
      bind_res (map_res model_entry (empty_or_invalid_mapping_to_dict (dget raw ''models''))) (\<lambda>models.
      Inr \<lparr>cfg_defaults = empty_or_invalid_mapping_to_dict (dget raw ''defaults''),
           cfg_dynamic_models = empty_or_invalid_mapping_to_dict (dget raw ''dynamic_models''),
           cfg_models = models\<rparr>))"

section \<open>Model policies\<close>

record model_policy =
  public_name :: string
  backend_model :: string
  aliases :: "string list"
  max_active_requests :: int
  max_queued_requests :: int
  queue_timeout_seconds :: flt
  default_max_output_tokens :: int
  max_input_tokens :: int
  max_output_tokens :: int
  max_total_tokens :: int
  token_estimate_chars_per_token :: flt
  output_over_limit_behavior :: string

definition policy_matches :: "model_policy \<Rightarrow> string \<Rightarrow> bool" where
  "policy_matches p model \<longleftrightarrow> model = public_name p \<or> model \<in> set (aliases p)"

definition dynamic_policy :: "string \<Rightarrow> model_policy \<Rightarrow> model_policy" where
  "dynamic_policy model p =
     p\<lparr>public_name := model, backend_model := model, aliases := []\<rparr>"

record policy_registry =
  policies :: "(string \<times> model_policy) list"
  default_policy :: model_policy
  dynamic_models_enabled :: bool

definition resolve_policy :: "policy_registry \<Rightarrow> string option \<Rightarrow> model_policy" where
  "resolve_policy reg model = (case model of
       None \<Rightarrow> default_policy reg
     | Some m \<Rightarrow>
         if m = [] then default_policy reg
         else (case find (\<lambda>p. policy_matches p m) (map snd (policies reg)) of
             Some p \<Rightarrow> p
           | None \<Rightarrow> if dynamic_models_enabled reg then dynamic_policy m (default_policy reg)
                     else default_policy reg))"

text \<open>\<open>for alias in v\<close>, for the values \<open>aliases\<close> may have.\<close>

definition iterate_strings :: "json \<Rightarrow> string list res" where
  "iterate_strings v = (case v of
       JList xs \<Rightarrow> Inr (map py_str xs)
     | JStr s \<Rightarrow> Inr (map (\<lambda>c. [c]) s)
     | JDict d \<Rightarrow> Inr (map fst d)
     | _ \<Rightarrow> Inl TypeError)"

definition model_policy_from_data :: "string \<Rightarrow> dict \<Rightarrow> model_policy res" where
  "model_policy_from_data key d =
     (let name = py_str (py_or (dget d ''public_name'') (JStr key)) in
     bind_res (iterate_strings (dget_or d ''aliases'' (JList []))) (\<lambda>als.
     bind_res (py_int (dget_or d ''max_active_requests'' (JInt 1))) (\<lambda>active.
     bind_res (py_int (dget_or d ''max_queued_requests'' (JInt 16))) (\<lambda>queued.
     bind_res (py_float (dget_or d ''queue_timeout_seconds'' (JInt 30))) (\<lambda>timeout.
     bind_res (py_int (dget_or d ''default_max_output_tokens'' (JInt 512))) (\<lambda>dflt.
     bind_res (py_int (dget_or d ''max_input_tokens'' (JInt 8192))) (\<lambda>inp.
     bind_res (py_int (dget_or d ''max_output_tokens'' (JInt 1024))) (\<lambda>out.
     bind_res (py_int (dget_or d ''max_total_tokens'' (JInt 9216))) (\<lambda>total.
     bind_res (py_float (dget_or d ''token_estimate_chars_per_token'' (JInt 4))) (\<lambda>chars.
     Inr \<lparr>public_name = name,
          backend_model = py_str (py_or (dget d ''backend_model'') (JStr name)),
          aliases = als,
          max_active_requests = active,
          max_queued_requests = queued,
          queue_timeout_seconds = timeout,
          default_max_output_tokens = dflt,
          max_input_tokens = inp,
          max_output_tokens = out,
          max_total_tokens = total,
          token_estimate_chars_per_token = chars,
          output_over_limit_behavior =
            py_str (dget_or d ''output_over_limit_behavior'' (JStr ''clamp''))\<rparr>))))))))))"

fun load_policies ::
  "dict \<Rightarrow> (string \<times> dict option) list \<Rightarrow> (string \<times> model_policy) list \<Rightarrow> (string \<times> model_policy) list res" where
  "load_policies defaults [] acc = Inr acc"
| "load_policies defaults ((key, cfg) # rest) acc =
     bind_res (model_policy_from_data key (dmerge defaults (case cfg of None \<Rightarrow> [] | Some d \<Rightarrow> d))) (\<lambda>p.
     load_policies defaults rest (AList.update (public_name p) p acc))"

text \<open>The policy of a configuration that names no model: the defaults without their names and
  without their \<open>output_over_limit_behavior\<close>.\<close>

definition fallback_policy :: "dict \<Rightarrow> model_policy res" where
  "fallback_policy d =
     bind_res (py_int (dget_or d ''max_active_requests'' (JInt 1))) (\<lambda>active.
     bind_res (py_int (dget_or d ''max_queued_requests'' (JInt 16))) (\<lambda>queued.
     bind_res (py_float (dget_or d ''queue_timeout_seconds'' (JInt 30))) (\<lambda>timeout.
     bind_res (py_int (dget_or d ''default_max_output_tokens'' (JInt 512))) (\<lambda>dflt.
     bind_res (py_int (dget_or d ''max_input_tokens'' (JInt 8192))) (\<lambda>inp.
     bind_res (py_int (dget_or d ''max_output_tokens'' (JInt 1024))) (\<lambda>out.
     bind_res (py_int (dget_or d ''max_total_tokens'' (JInt 9216))) (\<lambda>total.
     bind_res (py_float (dget_or d ''token_estimate_chars_per_token'' (JInt 4))) (\<lambda>chars.
     Inr \<lparr>public_name = ''default'', backend_model = ''default'', aliases = [],
          max_active_requests = active, max_queued_requests = queued,
          queue_timeout_seconds = timeout, default_max_output_tokens = dflt,
          max_input_tokens = inp, max_output_tokens = out, max_total_tokens = total,
          token_estimate_chars_per_token = chars,
          output_over_limit_behavior = ''clamp''\<rparr>))))))))"

definition load_policy_registry :: "orchestrator_config \<Rightarrow> policy_registry res" where
  "load_policy_registry cfg =
     (let dynamic = truthy (dget_or (cfg_dynamic_models cfg) ''enabled'' (JBool False)) in
     bind_res (load_policies (cfg_defaults cfg) (cfg_models cfg) []) (\<lambda>ps.
     if ps = [] then
       bind_res (fallback_policy (cfg_defaults cfg)) (\<lambda>p.
       Inr \<lparr>policies = [(''default'', p)], default_policy = p, dynamic_models_enabled = dynamic\<rparr>)
     else
       bind_res (model_policy_from_data ''default'' (cfg_defaults cfg)) (\<lambda>p.
       Inr \<lparr>policies = ps, default_policy = p, dynamic_models_enabled = dynamic\<rparr>)))"

definition extract_model :: "json \<Rightarrow> string option" where
  "extract_model payload = (case payload of
       JDict d \<Rightarrow> (if dget d ''model'' \<noteq> JNull then Some (py_str (dget d ''model'')) else None)
     | _ \<Rightarrow> None)"

section \<open>Token policy\<close>

definition output_token_key :: "dict \<Rightarrow> string" where
  "output_token_key payload =
     (if dhas payload ''max_completion_tokens'' then ''max_completion_tokens''
      else if dhas payload ''max_output_tokens'' then ''max_output_tokens''
      else ''max_tokens'')"

definition policy_estimate_input_tokens :: "dict \<Rightarrow> model_policy \<Rightarrow> int res" where
  "policy_estimate_input_tokens payload p = (let text = collect_input_text (JDict payload) in
     if text = [] then Inr 0
     else bind_res (fdiv (fl (of_nat (length text))) (token_estimate_chars_per_token p)) (\<lambda>q.
          bind_res (flt_round q) (\<lambda>n. Inr (max 1 n))))"

definition apply_token_policy :: "dict \<Rightarrow> model_policy \<Rightarrow> dict res" where
  "apply_token_policy payload p =
     bind_res (policy_estimate_input_tokens payload p) (\<lambda>input.
     let key = output_token_key payload in
     if input > max_input_tokens p then
       Inl (TokenBudgetExceeded (''Estimated input tokens '' @ str_int input @
         '' exceed max_input_tokens '' @ str_int (max_input_tokens p) @ '' for model '' @ public_name p @ ''.''))
     else bind_res (if dget payload key = JNull
         then Inr (default_max_output_tokens p, dset key (JInt (default_max_output_tokens p)) payload)
         else bind_res (py_int (dget payload key)) (\<lambda>n. Inr (n, payload))) (\<lambda>(requested, updated).
     bind_res (if requested > max_output_tokens p then
           (if output_over_limit_behavior p = ''reject'' then
              Inl (TokenBudgetExceeded (''Requested output tokens '' @ str_int requested @
                '' exceed max_output_tokens '' @ str_int (max_output_tokens p) @ '' for model '' @ public_name p @ ''.''))
            else Inr (max_output_tokens p, dset key (JInt (max_output_tokens p)) updated, True))
         else Inr (requested, updated, False)) (\<lambda>(requested, updated, capped).
     let remaining = max_total_tokens p - input in
     if remaining < 1 then
       Inl (TokenBudgetExceeded (''Estimated input tokens '' @ str_int input @
         '' leave no room within max_total_tokens '' @ str_int (max_total_tokens p) @ '' for model '' @ public_name p @ ''.''))
     else (case (if requested > remaining then (remaining, dset key (JInt remaining) updated, True)
                 else (requested, updated, capped)) of (requested, updated, capped) \<Rightarrow>
       Inr (dset ''_orchestrator'' (JDict
         [(''estimated_input_tokens'', JInt input),
          (''effective_output_tokens'', JInt requested),
          (''output_tokens_capped'', JBool capped)]) updated)))))"

section \<open>Overrides of one request\<close>

definition bounded_int_override :: "json \<Rightarrow> int \<Rightarrow> int option res" where
  "bounded_int_override raw upper = (if is_blank raw then Inr None
     else bind_res (py_int raw) (\<lambda>n. Inr (Some (min (max 1 n) upper))))"

definition bounded_float_override :: "json \<Rightarrow> flt \<Rightarrow> flt option res" where
  "bounded_float_override raw upper = (if is_blank raw then Inr None
     else bind_res (py_float raw) (\<lambda>x.
       Inr (Some (fmin (fmax (fl (1 / 1000)) x) upper))))"

definition changed :: "'a option \<Rightarrow> 'a \<Rightarrow> 'a" where
  "changed c old = (case c of None \<Rightarrow> old | Some new \<Rightarrow> new)"

definition apply_orchestration_overrides :: "model_policy \<Rightarrow> json \<Rightarrow> model_policy res" where
  "apply_orchestration_overrides p orchestration = (case orchestration of
     JDict orch \<Rightarrow>
       (let tokens = (case dget orch ''tokens'' of JDict d \<Rightarrow> d | _ \<Rightarrow> []) in
       bind_res (bounded_int_override
         (dget_or orch ''max_parallel'' (dget orch ''max_active_requests'')) (max_active_requests p)) (\<lambda>active.
       bind_res (bounded_int_override (dget orch ''max_queued_requests'') (max_queued_requests p)) (\<lambda>queued.
       bind_res (bounded_float_override (dget orch ''queue_timeout_seconds'') (queue_timeout_seconds p)) (\<lambda>timeout.
       bind_res (bounded_int_override
         (dget_or tokens ''default_max_output_tokens'' (dget orch ''default_max_output_tokens''))
         (default_max_output_tokens p)) (\<lambda>dflt.
       bind_res (bounded_int_override
         (dget_or tokens ''max_input_tokens'' (dget orch ''max_input_tokens'')) (max_input_tokens p)) (\<lambda>inp.
       bind_res (bounded_int_override
         (dget_or tokens ''max_output_tokens'' (dget orch ''max_output_tokens'')) (max_output_tokens p)) (\<lambda>out.
       bind_res (bounded_int_override
         (dget_or tokens ''max_total_tokens'' (dget orch ''max_total_tokens'')) (max_total_tokens p)) (\<lambda>total.
       Inr (p\<lparr>max_active_requests := changed active (max_active_requests p),
         max_queued_requests := changed queued (max_queued_requests p),
         queue_timeout_seconds := changed timeout (queue_timeout_seconds p),
         default_max_output_tokens := changed dflt (default_max_output_tokens p),
         max_input_tokens := changed inp (max_input_tokens p),
         max_output_tokens := changed out (max_output_tokens p),
         max_total_tokens := changed total (max_total_tokens p)\<rparr>)))))))))
   | _ \<Rightarrow> Inr p)"

section \<open>The orchestration contract\<close>

definition TASK_PROTOCOL_VERSION :: string where "TASK_PROTOCOL_VERSION = ''llmo.task.v1''"

definition TASK_PROTOCOL_REQUIRED_FIELDS :: "string list" where
  "TASK_PROTOCOL_REQUIRED_FIELDS =
     [''tenant'', ''project'', ''service'', ''task'', ''job_id'', ''priority'']"

definition TASK_PROTOCOL_PRIORITIES :: "string list" where
  "TASK_PROTOCOL_PRIORITIES = [''interactive'', ''foreground'', ''batch'', ''maintenance'']"

definition TASK_PROTOCOL_POSITIVE_INT_FIELDS :: "string list" where
  "TASK_PROTOCOL_POSITIVE_INT_FIELDS =
     [''max_parallel'', ''max_active_requests'', ''max_queued_requests'', ''startup_timeout_seconds'',
      ''idle_ttl_seconds'', ''ttl_seconds'', ''lms_context_length'', ''lms_parallel'', ''lms_ttl_seconds'']"

definition TASK_PROTOCOL_NON_NEGATIVE_NUMBER_FIELDS :: "string list" where
  "TASK_PROTOCOL_NON_NEGATIVE_NUMBER_FIELDS =
     [''estimated_vram_gb'', ''safety_margin_gb'', ''queue_timeout_seconds'']"

definition TASK_PROTOCOL_TOKEN_FIELDS :: "string list" where
  "TASK_PROTOCOL_TOKEN_FIELDS =
     [''default_max_output_tokens'', ''max_input_tokens'', ''max_output_tokens'', ''max_total_tokens'']"

definition non_empty_string :: "json \<Rightarrow> bool" where
  "non_empty_string v = (case v of JStr s \<Rightarrow> strip s \<noteq> [] | _ \<Rightarrow> False)"

text \<open>\<open>except (TypeError, ValueError): return None\<close>; anything else, an overflow, goes through.\<close>

definition parse_positive_int :: "json \<Rightarrow> int option res" where
  "parse_positive_int v = (case v of JBool _ \<Rightarrow> Inr None
     | _ \<Rightarrow> (case py_int v of
          Inl OverflowError \<Rightarrow> Inl OverflowError
        | Inl _ \<Rightarrow> Inr None
        | Inr n \<Rightarrow> Inr (if n > 0 then Some n else None)))"

definition parse_non_negative_number :: "json \<Rightarrow> flt option res" where
  "parse_non_negative_number v = (case v of JBool _ \<Rightarrow> Inr None
     | _ \<Rightarrow> (case py_float v of
          Inl OverflowError \<Rightarrow> Inl OverflowError
        | Inl _ \<Rightarrow> Inr None
        | Inr x \<Rightarrow> Inr (if flt_le (Fin 0) x then Some x else None)))"

definition valid_gpu_hint :: "json \<Rightarrow> bool" where
  "valid_gpu_hint v = (case v of
       JStr s \<Rightarrow> strip s \<noteq> []
     | JList xs \<Rightarrow> list_all non_empty_string xs
     | _ \<Rightarrow> False)"

definition protocol_error :: "string \<Rightarrow> 'a res" where
  "protocol_error msg = Inl (PolicyError msg ''invalid_task_protocol'')"

text \<open>One field of a numeric group: absent (or null), or accepted by its reader.\<close>

definition check_number :: "(json \<Rightarrow> 'a option res) \<Rightarrow> string \<Rightarrow> string \<Rightarrow> dict \<Rightarrow> string \<Rightarrow> unit res" where
  "check_number reader prefix what d f = (if dget d f = JNull then Inr ()
     else bind_res (reader (dget d f)) (\<lambda>r. case r of
         None \<Rightarrow> protocol_error (prefix @ f @ '' must be a '' @ what @ ''.'')
       | Some _ \<Rightarrow> Inr ()))"

definition validate_orchestration_contract :: "(string list \<Rightarrow> string list) \<Rightarrow> json \<Rightarrow> unit res" where
  "validate_orchestration_contract iter orchestration = (case orchestration of
     JDict orch \<Rightarrow>
       (if dget orch ''schema_version'' = JNull then Inr ()
        else if dget orch ''schema_version'' \<noteq> JStr TASK_PROTOCOL_VERSION then
          protocol_error (''Unsupported orchestration.schema_version: '' @ py_repr (dget orch ''schema_version'') @ ''.'')
        else bind_res (each_res (\<lambda>f. if non_empty_string (dget orch f) then Inr ()
            else protocol_error (''orchestration.'' @ f @ '' is required for '' @ TASK_PROTOCOL_VERSION @ ''.''))
          TASK_PROTOCOL_REQUIRED_FIELDS) (\<lambda>_.
        if py_str (dget orch ''priority'') \<notin> set TASK_PROTOCOL_PRIORITIES then
          protocol_error (''orchestration.priority must be one of '' @
            py_repr (JList (map JStr (sort TASK_PROTOCOL_PRIORITIES))) @ ''.'')
        else bind_res (each_res (\<lambda>f. case dget orch f of
              JNull \<Rightarrow> Inr () | JDict _ \<Rightarrow> Inr ()
            | _ \<Rightarrow> protocol_error (''orchestration.'' @ f @ '' must be an object.''))
          [''tokens'', ''artifacts'', ''labels'']) (\<lambda>_.
        bind_res (each_res (check_number parse_positive_int ''orchestration.'' ''positive integer'' orch)
          (iter TASK_PROTOCOL_POSITIVE_INT_FIELDS)) (\<lambda>_.
        bind_res (each_res (check_number parse_non_negative_number ''orchestration.'' ''non-negative number'' orch)
          (iter TASK_PROTOCOL_NON_NEGATIVE_NUMBER_FIELDS)) (\<lambda>_.
        bind_res (case dget orch ''tokens'' of
            JDict tokens \<Rightarrow> each_res (check_number parse_positive_int ''orchestration.tokens.'' ''positive integer'' tokens)
              (iter TASK_PROTOCOL_TOKEN_FIELDS)
          | _ \<Rightarrow> Inr ()) (\<lambda>_.
        if dget orch ''gpu'' \<noteq> JNull \<and> \<not> valid_gpu_hint (dget orch ''gpu'') then
          protocol_error ''orchestration.gpu must be a string or an array of strings.''
        else Inr ()))))))
   | _ \<Rightarrow> Inr ())"

definition strip_internal_fields :: "dict \<Rightarrow> dict" where
  "strip_internal_fields payload = dpop ''orchestration'' (dpop ''_orchestrator'' payload)"

section \<open>What the token policy guarantees\<close>

lemma output_token_key_cases:
  "output_token_key d \<in> {''max_completion_tokens'', ''max_output_tokens'', ''max_tokens''}"
  by (simp add: output_token_key_def)

lemma output_token_key_neq [simp]:
  "output_token_key d \<noteq> ''_orchestrator''" "''_orchestrator'' \<noteq> output_token_key d"
  using output_token_key_cases [of d] by auto

text \<open>The request that leaves the token policy, with its estimate and its effective output budget.\<close>

definition within_budget :: "dict \<Rightarrow> model_policy \<Rightarrow> dict \<Rightarrow> int \<Rightarrow> int \<Rightarrow> bool \<Rightarrow> bool" where
  "within_budget payload p out input effective capped \<longleftrightarrow>
     policy_estimate_input_tokens payload p = Inr input \<and>
     input \<le> max_input_tokens p \<and> effective \<le> max_output_tokens p \<and>
     input + effective \<le> max_total_tokens p \<and>
     py_int (dget out (output_token_key payload)) = Inr effective \<and>
     (\<not> capped \<and> dget payload (output_token_key payload) \<noteq> JNull \<longrightarrow>
        dget out (output_token_key payload) = dget payload (output_token_key payload)) \<and>
     dget out ''_orchestrator'' = JDict
       [(''estimated_input_tokens'', JInt input), (''effective_output_tokens'', JInt effective),
        (''output_tokens_capped'', JBool capped)] \<and>
     (\<forall>k. k \<noteq> output_token_key payload \<and> k \<noteq> ''_orchestrator'' \<longrightarrow> dget out k = dget payload k)"

lemma apply_token_policy_within:
  assumes "apply_token_policy payload p = Inr out"
  shows "\<exists>input effective capped. within_budget payload p out input effective capped"
proof -
  let ?key = "output_token_key payload"
  obtain input where input: "policy_estimate_input_tokens payload p = Inr input"
    using assms by (auto simp: apply_token_policy_def bind_res_Inr_iff)
  have le: "input \<le> max_input_tokens p"
    using assms input by (auto simp: apply_token_policy_def Let_def split: if_splits)
  obtain n u where nu: "(if dget payload ?key = JNull
         then Inr (default_max_output_tokens p, dset ?key (JInt (default_max_output_tokens p)) payload)
         else bind_res (py_int (dget payload ?key)) (\<lambda>n. Inr (n, payload))) = (Inr (n, u) :: (int \<times> dict) res)"
    using assms input le by (auto simp: apply_token_policy_def Let_def bind_res_Inr_iff split: if_splits)
  have n: "py_int (dget u ?key) = Inr n" "\<And>k. k \<noteq> ?key \<Longrightarrow> dget u k = dget payload k"
      "dget payload ?key \<noteq> JNull \<Longrightarrow> u = payload"
    using nu by (auto simp: bind_res_Inr_iff split: if_splits)
  show ?thesis
  proof (cases "n > max_output_tokens p")
    case True
    then have "output_over_limit_behavior p \<noteq> ''reject''"
      using assms input le nu by (auto simp: apply_token_policy_def Let_def)
    then have "within_budget payload p out input
        (min (max_output_tokens p) (max_total_tokens p - input)) True"
      using assms input le nu n True
      by (auto simp: apply_token_policy_def Let_def within_budget_def min_def split: if_splits)
    then show ?thesis by blast
  next
    case False
    then have "within_budget payload p out input (min n (max_total_tokens p - input))
        (max_total_tokens p - input < n)"
      using assms input le nu n
      by (auto simp: apply_token_policy_def Let_def within_budget_def min_def split: if_splits)
    then show ?thesis by blast
  qed
qed

lemma round_half_even_nonneg: "0 \<le> q \<Longrightarrow> 0 \<le> round_half_even q"
  by (simp add: round_half_even_def Let_def)

lemma policy_estimate_nonneg: "policy_estimate_input_tokens payload p = Inr n \<Longrightarrow> 0 \<le> n"
  by (auto simp: policy_estimate_input_tokens_def Let_def bind_res_Inr_iff split: if_splits)

section \<open>What the overrides guarantee\<close>

lemma bounded_int_override_changed:
  "bounded_int_override raw u = Inr c \<Longrightarrow> changed c u \<le> u \<and> (1 \<le> u \<longrightarrow> 1 \<le> changed c u)"
  by (auto simp: bounded_int_override_def changed_def bind_res_Inr_iff split: if_splits)

lemma overrides_cases:
  assumes "apply_orchestration_overrides p o' = Inr p'"
  obtains "p' = p"
  | orch active queued timeout dflt inp out total where
    "o' = JDict orch"
    "bounded_int_override (dget_or orch ''max_parallel'' (dget orch ''max_active_requests''))
       (max_active_requests p) = Inr active"
    "bounded_int_override (dget orch ''max_queued_requests'') (max_queued_requests p) = Inr queued"
    "bounded_float_override (dget orch ''queue_timeout_seconds'') (queue_timeout_seconds p) = Inr timeout"
    "\<exists>v. bounded_int_override v (default_max_output_tokens p) = Inr dflt"
    "\<exists>v. bounded_int_override v (max_input_tokens p) = Inr inp"
    "\<exists>v. bounded_int_override v (max_output_tokens p) = Inr out"
    "\<exists>v. bounded_int_override v (max_total_tokens p) = Inr total"
    "p' = p\<lparr>max_active_requests := changed active (max_active_requests p),
         max_queued_requests := changed queued (max_queued_requests p),
         queue_timeout_seconds := changed timeout (queue_timeout_seconds p),
         default_max_output_tokens := changed dflt (default_max_output_tokens p),
         max_input_tokens := changed inp (max_input_tokens p),
         max_output_tokens := changed out (max_output_tokens p),
         max_total_tokens := changed total (max_total_tokens p)\<rparr>"
proof (cases o')
  case (JDict orch)
  with assms show ?thesis
    unfolding apply_orchestration_overrides_def Let_def
    by (simp only: json.case bind_res_Inr_iff) (elim exE conjE, rule that(2), auto)
qed (use assms that(1) in \<open>simp_all add: apply_orchestration_overrides_def\<close>)

lemma overrides_only_lower:
  assumes "apply_orchestration_overrides p o' = Inr p'"
  shows "public_name p' = public_name p" "backend_model p' = backend_model p"
    "output_over_limit_behavior p' = output_over_limit_behavior p"
    "max_active_requests p' \<le> max_active_requests p" "max_queued_requests p' \<le> max_queued_requests p"
    "default_max_output_tokens p' \<le> default_max_output_tokens p"
    "max_input_tokens p' \<le> max_input_tokens p" "max_output_tokens p' \<le> max_output_tokens p"
    "max_total_tokens p' \<le> max_total_tokens p"
    "1 \<le> max_active_requests p \<Longrightarrow> 1 \<le> max_active_requests p'"
    "1 \<le> max_queued_requests p \<Longrightarrow> 1 \<le> max_queued_requests p'"
  using assms by (cases rule: overrides_cases; force dest: bounded_int_override_changed)+

section \<open>What the contract check accepts\<close>

lemma each_res_Inr_iff: "each_res f xs = Inr () \<longleftrightarrow> (\<forall>x\<in>set xs. \<exists>y. f x = Inr y)"
  by (induction xs) (auto simp: bind_res_Inr_iff)

definition number_ok :: "(json \<Rightarrow> 'a option res) \<Rightarrow> dict \<Rightarrow> string \<Rightarrow> bool" where
  "number_ok reader d f \<longleftrightarrow> dget d f = JNull \<or> (\<exists>x. reader (dget d f) = Inr (Some x))"

lemma check_number_Inr: "(\<exists>y. check_number reader a b d f = Inr y) \<longleftrightarrow> number_ok reader d f"
  by (auto simp: check_number_def number_ok_def bind_res_Inr_iff protocol_error_def split: option.splits)

definition contract_ok :: "dict \<Rightarrow> bool" where
  "contract_ok orch \<longleftrightarrow> dget orch ''schema_version'' = JNull \<or>
     dget orch ''schema_version'' = JStr TASK_PROTOCOL_VERSION \<and>
     (\<forall>f\<in>set TASK_PROTOCOL_REQUIRED_FIELDS. non_empty_string (dget orch f)) \<and>
     py_str (dget orch ''priority'') \<in> set TASK_PROTOCOL_PRIORITIES \<and>
     (\<forall>f\<in>{''tokens'', ''artifacts'', ''labels''}. dget orch f = JNull \<or> (\<exists>d. dget orch f = JDict d)) \<and>
     (\<forall>f\<in>set TASK_PROTOCOL_POSITIVE_INT_FIELDS. number_ok parse_positive_int orch f) \<and>
     (\<forall>f\<in>set TASK_PROTOCOL_NON_NEGATIVE_NUMBER_FIELDS. number_ok parse_non_negative_number orch f) \<and>
     (\<forall>d. dget orch ''tokens'' = JDict d \<longrightarrow>
        (\<forall>f\<in>set TASK_PROTOCOL_TOKEN_FIELDS. number_ok parse_positive_int d f)) \<and>
     (dget orch ''gpu'' = JNull \<or> valid_gpu_hint (dget orch ''gpu''))"

lemma bind_unit_Inr: "bind_res m (\<lambda>_. n) = Inr () \<longleftrightarrow> m = Inr () \<and> n = Inr ()" for m n :: "unit res"
  by (cases m) auto

lemma if_error_Inr: "(if b then protocol_error m else r) = Inr () \<longleftrightarrow> \<not> b \<and> r = Inr ()"
  by (simp add: protocol_error_def)

lemma object_or_null_Inr:
  "(\<exists>y. (case v of JNull \<Rightarrow> Inr () | JDict _ \<Rightarrow> Inr () | _ \<Rightarrow> protocol_error m) = Inr y) \<longleftrightarrow>
     v = JNull \<or> (\<exists>d. v = JDict d)"
  by (cases v) (simp_all add: protocol_error_def)

lemma tokens_Inr:
  "(case v of JDict d \<Rightarrow> each_res (f d) xs | _ \<Rightarrow> Inr ()) = Inr () \<longleftrightarrow>
     (\<forall>d. v = JDict d \<longrightarrow> (\<forall>x\<in>set xs. \<exists>y. f d x = Inr y))"
  by (cases v) (simp_all add: each_res_Inr_iff)

lemma string_required_Inr:
  "(\<exists>y. (if b then Inr () else protocol_error m) = Inr y) \<longleftrightarrow> b"
  by (simp add: protocol_error_def)

lemma validate_contract_iff:
  assumes iter: "\<And>xs. set (iter xs) = set xs"
  shows "validate_orchestration_contract iter (JDict orch) = Inr () \<longleftrightarrow> contract_ok orch"
proof (cases "dget orch ''schema_version'' = JNull")
  case True
  then show ?thesis by (simp add: validate_orchestration_contract_def contract_ok_def)
next
  case False
  then show ?thesis
    unfolding validate_orchestration_contract_def contract_ok_def
    by (simp only: json.case if_False simp_thms False if_error_Inr bind_unit_Inr each_res_Inr_iff
        string_required_Inr object_or_null_Inr check_number_Inr tokens_Inr iter) auto
qed

section \<open>What the registry resolves to\<close>

lemma load_policies_keys:
  "load_policies d ms acc = Inr ps \<Longrightarrow> \<forall>(k, p)\<in>set acc. public_name p = k \<Longrightarrow> distinct (map fst acc) \<Longrightarrow>
     (\<forall>(k, p)\<in>set ps. public_name p = k) \<and> distinct (map fst ps)"
proof (induction d ms acc rule: load_policies.induct)
  case (2 d key cfg rest acc)
  from "2.prems"(1) obtain p where p: "load_policies d rest (AList.update (public_name p) p acc) = Inr ps"
      "model_policy_from_data key (dmerge d (case cfg of None \<Rightarrow> [] | Some d \<Rightarrow> d)) = Inr p"
    by (auto simp: bind_res_Inr_iff)
  have "set (AList.update (public_name p) p acc) \<subseteq> insert (public_name p, p) (set acc)" for p
    by (induction acc) (auto split: if_splits)
  then have "\<forall>(k, q)\<in>set (AList.update (public_name p) p acc). public_name q = k"
    using "2.prems"(2) by fastforce
  moreover have "distinct (map fst (AList.update (public_name p) p acc))"
    using "2.prems"(3) by (rule distinct_update)
  ultimately show ?case using "2.IH" [OF p(2)] p(1) by blast
qed auto

lemma resolve_policy_matches:
  "q \<in> set (map snd (policies reg)) \<Longrightarrow> policy_matches q m \<Longrightarrow> m \<noteq> [] \<Longrightarrow>
     resolve_policy reg (Some m) \<in> set (map snd (policies reg)) \<and>
     policy_matches (resolve_policy reg (Some m)) m"
proof -
  assume q: "q \<in> set (map snd (policies reg))" "policy_matches q m" and m: "m \<noteq> []"
  then obtain p where p: "find (\<lambda>p. policy_matches p m) (map snd (policies reg)) = Some p"
    by (metis (mono_tags, lifting) find_None_iff not_None_eq)
  then have "p \<in> set (map snd (policies reg)) \<and> policy_matches p m"
    by (metis (mono_tags, lifting) find_Some_iff nth_mem)
  with p m show ?thesis by (simp add: resolve_policy_def)
qed

lemma strip_internal_fields_dget:
  "dget (strip_internal_fields d) k =
     (if k = ''orchestration'' \<or> k = ''_orchestrator'' then JNull else dget d k)"
  by (simp add: strip_internal_fields_def)

lemma strip_internal_fields_dhas:
  "dhas (strip_internal_fields d) k \<longleftrightarrow> k \<noteq> ''orchestration'' \<and> k \<noteq> ''_orchestrator'' \<and> dhas d k"
  by (auto simp: strip_internal_fields_def)

end
