(* ===== verification/Backend_Client.thy ===== *)
theory Backend_Client
  imports Policy
begin

text \<open>
  The proxy's side of the backend registry: \<open>queue_proxy/backend_registry.py\<close> (the HTTP client of
  the lifecycle service) and \<open>queue_proxy/routing.py\<close> (\<open>BackendResolver\<close>), with the settings both
  read and the URL and header helpers of \<open>orchestrator_core/openai.py\<close> and
  \<open>queue_proxy/http_proxy.py\<close>. The answers of the lifecycle service are arguments; the calls made
  are part of the result, so that what is leased and released can be counted.
\<close>

section \<open>Settings\<close>

record settings =
  upstream_base_url :: string
  upstream_api_key :: string
  backend_registry_url :: string
  enable_backend_registry_routing :: bool
  require_backend_registry_backend :: bool
  queue_proxy_api_key :: string
  task_executor_max_attempts :: int
  task_executor_retry_base_seconds :: flt
  task_executor_retry_max_seconds :: flt

definition registry_client_configured :: "settings \<Rightarrow> bool" where
  "registry_client_configured st \<longleftrightarrow> backend_registry_url st \<noteq> []"

section \<open>HTTP answers\<close>

text \<open>A request fails with an exception class of \<open>httpx.HTTPError\<close>, or is answered with a status
  and a body; reading the body as JSON may raise.\<close>

datatype http_reply = Failed string | Reply int "json res"

definition raise_for_status :: "http_reply \<Rightarrow> json res res" where
  "raise_for_status r = (case r of
       Failed e \<Rightarrow> Inl (HTTPError e)
     | Reply st body \<Rightarrow> if 200 \<le> st \<and> st < 300 then Inr body else Inl (HTTPStatusError st))"

fun is_http_error :: "exn \<Rightarrow> bool" where
  "is_http_error (HTTPError _) = True"
| "is_http_error (HTTPStatusError _) = True"
| "is_http_error _ = False"

section \<open>BackendRegistryClient\<close>

record client_instance =
  ci_id :: string
  ci_model :: string
  ci_base_url :: string
  ci_state :: string
  ci_active :: int

definition ci_ready :: "client_instance \<Rightarrow> bool" where
  "ci_ready i \<longleftrightarrow> ci_state i = ''ready'' \<and>
     (starts_with (ci_base_url i) ''http://'' \<or> starts_with (ci_base_url i) ''https://'')"

definition text_or :: "json \<Rightarrow> string \<Rightarrow> string" where
  "text_or v d = py_str (py_or v (JStr d))"

definition parse_instance :: "dict \<Rightarrow> client_instance res" where
  "parse_instance d =
     bind_res (py_int (py_or (dget d ''active_requests'') (JInt 0))) (\<lambda>n.
     Inr \<lparr>ci_id = text_or (dget d ''instance_id'') [], ci_model = text_or (dget d ''model'') [],
          ci_base_url = text_or (dget d ''base_url'') [], ci_state = text_or (dget d ''state'') ''unknown'',
          ci_active = n\<rparr>)"

definition dict_items :: "json list \<Rightarrow> dict list" where
  "dict_items xs = concat (map (\<lambda>x. case x of JDict d \<Rightarrow> [d] | _ \<Rightarrow> []) xs)"

definition parse_registry_instances :: "json \<Rightarrow> client_instance list res" where
  "parse_registry_instances payload = (case payload of
       JDict d \<Rightarrow> (case dget_or d ''instances'' (JList []) of
           JList xs \<Rightarrow> map_res parse_instance (dict_items xs)
         | _ \<Rightarrow> Inr [])
     | _ \<Rightarrow> Inl AttributeError)"

definition list_instances :: "http_reply \<Rightarrow> client_instance list res" where
  "list_instances r = bind_res (raise_for_status r) (\<lambda>body. bind_res body parse_registry_instances)"

definition choose_backend :: "http_reply \<Rightarrow> string \<Rightarrow> client_instance option res" where
  "choose_backend r model = bind_res (list_instances r) (\<lambda>is.
     let candidates = filter (\<lambda>i. ci_model i = model \<and> ci_ready i) is in
     Inr (if candidates = [] then None else Some (arg_min_list ci_active candidates)))"

definition client_ensure_allocation :: "http_reply \<Rightarrow> client_instance option res" where
  "client_ensure_allocation r =
     (if (case r of Reply st _ \<Rightarrow> st = 404 | _ \<Rightarrow> False) then Inr None
      else bind_res (raise_for_status r) (\<lambda>body. bind_res body (\<lambda>data. case data of
          JDict d \<Rightarrow> (case dget d ''instance'' of
              JDict i \<Rightarrow> bind_res (parse_instance i) (\<lambda>b. Inr (Some b))
            | _ \<Rightarrow> Inr None)
        | _ \<Rightarrow> Inl AttributeError)))"

definition allocation_payload :: "string \<Rightarrow> dict \<Rightarrow> dict" where
  "allocation_payload model orch =
     (if orch = [] then [(''model'', JStr model)]
      else [(''model'', JStr model), (''orchestration'', JDict orch)])"

definition reconcile_payload :: "(string \<times> int) list \<Rightarrow> (string \<times> dict) list \<Rightarrow> dict" where
  "reconcile_payload lengths plans =
     [(''queue_lengths'', JDict (map (\<lambda>(m, n). (m, JInt n)) lengths)),
      (''context_plans'', JDict (map (\<lambda>(m, d). (m, JDict d)) plans))]"

text \<open>\<open>reconcile\<close> and \<open>explain_plan\<close>: the body of a successful answer.\<close>

definition client_post_json :: "http_reply \<Rightarrow> json res" where
  "client_post_json r = bind_res (raise_for_status r) id"

definition client_lease :: "http_reply \<Rightarrow> unit res" where
  "client_lease r = bind_res (raise_for_status r) (\<lambda>_. Inr ())"

section \<open>BackendResolver\<close>

datatype registry_call =
    ListInstances
  | EnsureAllocation dict
  | LeaseBackend string
  | ReleaseBackend string

record registry_replies =
  r_list :: http_reply
  r_allocate :: http_reply
  r_lease :: http_reply
  r_release :: http_reply

definition no_backend :: "settings \<Rightarrow> (string option \<times> string option) res" where
  "no_backend st = Inr (if require_backend_registry_backend st then (None, None)
     else (Some (upstream_base_url st), None))"

definition ensure_allocation :: "http_reply \<Rightarrow> client_instance option res" where
  "ensure_allocation r = (case client_ensure_allocation r of
       Inr b \<Rightarrow> Inr b
     | Inl (HTTPStatusError code) \<Rightarrow>
         if code \<in> {403, 404, 409} then Inl AllocationUnavailable else Inr None
     | Inl e \<Rightarrow> if is_http_error e then Inr None else Inl e)"

definition lease_chosen ::
  "settings \<Rightarrow> registry_replies \<Rightarrow> registry_call list \<Rightarrow> client_instance \<Rightarrow>
     (string option \<times> string option) res \<times> registry_call list" where
  "lease_chosen st rep calls b = (case client_lease (r_lease rep) of
       Inr _ \<Rightarrow> (Inr (Some (ci_base_url b), Some (ci_id b)), calls @ [LeaseBackend (ci_id b)])
     | Inl e \<Rightarrow> if is_http_error e then (no_backend st, calls @ [LeaseBackend (ci_id b)])
                else (Inl e, calls @ [LeaseBackend (ci_id b)]))"

definition resolve_backend ::
  "settings \<Rightarrow> registry_replies \<Rightarrow> string \<Rightarrow> dict \<Rightarrow>
     (string option \<times> string option) res \<times> registry_call list" where
  "resolve_backend st rep model orch =
     (if \<not> enable_backend_registry_routing st \<or> \<not> registry_client_configured st
      then (Inr (Some (upstream_base_url st), None), [])
      else (case choose_backend (r_list rep) model of
          Inl e \<Rightarrow> if is_http_error e then (no_backend st, [ListInstances]) else (Inl e, [ListInstances])
        | Inr (Some b) \<Rightarrow> lease_chosen st rep [ListInstances] b
        | Inr None \<Rightarrow>
            (let calls = [ListInstances, EnsureAllocation (allocation_payload model orch)] in
             case ensure_allocation (r_allocate rep) of
               Inl AllocationUnavailable \<Rightarrow> (Inr (None, None), calls)
             | Inl e \<Rightarrow> (Inl e, calls)
             | Inr None \<Rightarrow> (no_backend st, calls)
             | Inr (Some b) \<Rightarrow> if ci_ready b then lease_chosen st rep calls b else (no_backend st, calls))))"

definition release_backend :: "settings \<Rightarrow> string option \<Rightarrow> registry_call list" where
  "release_backend st instance_id = (case instance_id of
       None \<Rightarrow> []
     | Some i \<Rightarrow> if registry_client_configured st then [ReleaseBackend i] else [])"

section \<open>URLs and headers\<close>

text \<open>\<open>sub in s\<close>.\<close>

fun contains_text :: "string \<Rightarrow> string \<Rightarrow> bool" where
  "contains_text sub [] \<longleftrightarrow> sub = []"
| "contains_text sub (c # cs) \<longleftrightarrow> starts_with (c # cs) sub \<or> contains_text sub cs"

definition rstrip_slash :: "string \<Rightarrow> string" where
  "rstrip_slash s = rev (dropWhile (\<lambda>c. c = CHR ''/'') (rev s))"

definition lstrip_slash :: "string \<Rightarrow> string" where
  "lstrip_slash s = dropWhile (\<lambda>c. c = CHR ''/'') s"

definition removeprefix :: "string \<Rightarrow> string \<Rightarrow> string" where
  "removeprefix p s = (if starts_with s p then drop (length p) s else s)"

definition openai_url :: "string \<Rightarrow> string \<Rightarrow> bool \<Rightarrow> string" where
  "openai_url base_url path ensure_v1 =
     (let base = rstrip_slash base_url; p = lstrip_slash path in
      base @ ''/'' @
        (if ends_with base ''/v1'' \<and> starts_with p ''v1/'' then drop 3 p
         else if ensure_v1 \<and> \<not> ends_with base ''/v1'' then ''v1/'' @ removeprefix ''v1/'' p
         else p))"

definition HOP_BY_HOP_HEADERS :: "string list" where
  "HOP_BY_HOP_HEADERS = [''connection'', ''keep-alive'', ''proxy-authenticate'', ''proxy-authorization'',
     ''te'', ''trailers'', ''transfer-encoding'', ''upgrade'', ''host'', ''content-length'']"

definition upstream_url :: "string \<Rightarrow> string \<Rightarrow> string" where
  "upstream_url base_url path = openai_url base_url path True"

text \<open>The header mappings of starlette and httpx give lower-case names; a header list is an
  association list.\<close>

type_synonym headers = "(string \<times> string) list"

definition upstream_headers :: "headers \<Rightarrow> string \<Rightarrow> headers" where
  "upstream_headers hs key =
     (let forwarded = filter (\<lambda>(n, v). py_lower n \<notin> set HOP_BY_HOP_HEADERS) hs in
      if key = [] then forwarded else AList.update ''authorization'' (''Bearer '' @ key) forwarded)"

definition response_headers :: "headers \<Rightarrow> headers" where
  "response_headers hs = filter (\<lambda>(n, v). py_lower n \<notin> set HOP_BY_HOP_HEADERS) hs"

section \<open>Facts\<close>

lemma choose_backend_ready:
  "choose_backend r model = Inr (Some b) \<Longrightarrow> ci_model b = model \<and> ci_ready b"
proof -
  assume "choose_backend r model = Inr (Some b)"
  then obtain xs where ne: "filter (\<lambda>i. ci_model i = model \<and> ci_ready i) xs \<noteq> []"
      and b: "b = arg_min_list ci_active (filter (\<lambda>i. ci_model i = model \<and> ci_ready i) xs)"
    by (auto simp: choose_backend_def bind_res_Inr_iff Let_def split: if_splits)
  from arg_min_list_in [OF ne, of ci_active] show ?thesis by (simp add: b)
qed

lemma choose_backend_least:
  "list_instances r = Inr is \<Longrightarrow> choose_backend r model = Inr (Some b) \<Longrightarrow>
     i \<in> set is \<Longrightarrow> ci_model i = model \<Longrightarrow> ci_ready i \<Longrightarrow> ci_active b \<le> ci_active i"
  by (auto simp: choose_backend_def Let_def intro!: arg_min_list_le split: if_splits)

definition leases :: "registry_call list \<Rightarrow> string list" where
  "leases cs = concat (map (\<lambda>c. case c of LeaseBackend i \<Rightarrow> [i] | _ \<Rightarrow> []) cs)"

definition releases :: "registry_call list \<Rightarrow> string list" where
  "releases cs = concat (map (\<lambda>c. case c of ReleaseBackend i \<Rightarrow> [i] | _ \<Rightarrow> []) cs)"

lemma leases_simps [simp]:
  "leases [] = []" "leases (ListInstances # cs) = leases cs" "leases (EnsureAllocation d # cs) = leases cs"
  "leases (LeaseBackend i # cs) = i # leases cs" "leases (ReleaseBackend i # cs) = leases cs"
  "leases (as @ bs) = leases as @ leases bs"
  "releases [] = []" "releases (ListInstances # cs) = releases cs" "releases (EnsureAllocation d # cs) = releases cs"
  "releases (LeaseBackend i # cs) = releases cs" "releases (ReleaseBackend i # cs) = i # releases cs"
  "releases (as @ bs) = releases as @ releases bs"
  by (simp_all add: leases_def releases_def)

text \<open>An instance is handed out exactly when its lease was granted, and with its own address.\<close>

lemma lease_chosen_leased:
  assumes "lease_chosen st rep calls b = (r, calls')" "ci_ready b"
  shows "\<forall>url i. r = Inr (url, Some i) \<longrightarrow> client_lease (r_lease rep) = Inr () \<and>
      i = ci_id b \<and> url = Some (ci_base_url b) \<and> leases calls' = leases calls @ [i]"
    and "client_lease (r_lease rep) = Inr () \<Longrightarrow> r = Inr (Some (ci_base_url b), Some (ci_id b))"
  using assms by (auto simp: lease_chosen_def no_backend_def split: sum.splits if_splits)

lemma resolve_backend_leased:
  assumes "resolve_backend st rep model orch = (Inr (url, Some i), calls)"
  shows "client_lease (r_lease rep) = Inr () \<and> leases calls = [i] \<and> releases calls = [] \<and> url \<noteq> None \<and>
     registry_client_configured st"
  using assms
  by (auto simp: resolve_backend_def lease_chosen_def no_backend_def Let_def
      split: sum.splits if_splits option.splits exn.splits)

lemma resolve_backend_not_leased:
  assumes "resolve_backend st rep model orch = (r, calls)" "\<forall>url i. r \<noteq> Inr (url, Some i)"
  shows "leases calls = [] \<or> client_lease (r_lease rep) \<noteq> Inr ()" "releases calls = []"
  using assms
  by (auto simp: resolve_backend_def lease_chosen_def no_backend_def Let_def
      split: sum.splits if_splits option.splits exn.splits)

end
