(* ===== verification/Task_Executor.thy ===== *)
theory Task_Executor
  imports Task_Contract Backend_Client
begin

text \<open>
  The durable task executor of \<open>queue_proxy/main.py\<close>: \<open>task_executor_loop\<close>, \<open>execute_stored_task\<close>,
  \<open>record_task_failure\<close>, the retry delay and the checks on payloads and statuses, over any
  provider of the \<open>TaskStore\<close> protocol. What the environment answers during one execution (the
  clocks, the lifecycle service, the upstream) is an argument. The text of a Python exception
  and the headers of the upstream answer are arguments as well.
\<close>

section \<open>Helpers\<close>

definition is_retryable_upstream_status :: "int \<Rightarrow> bool" where
  "is_retryable_upstream_status code \<longleftrightarrow> code \<in> {408, 409, 425, 429} \<or> 500 \<le> code"

definition is_non_empty_list :: "json \<Rightarrow> bool" where
  "is_non_empty_list v = (case v of JList xs \<Rightarrow> xs \<noteq> [] | _ \<Rightarrow> False)"

definition invalid_task_payload_error :: "stored_task \<Rightarrow> string \<Rightarrow> dict" where
  "invalid_task_payload_error t msg =
     [(''type'', JStr ''invalid_task_payload''), (''message'', JStr msg), (''endpoint'', JStr (t_endpoint t))]"

definition validate_executable_task_payload :: "stored_task \<Rightarrow> dict option" where
  "validate_executable_task_payload t =
     (let endpoint = py_lower (strip (t_endpoint t)); p = t_payload t in
      if ends_with endpoint ''/chat/completions'' then
        (if is_non_empty_list (dget p ''messages'') then None
         else Some (invalid_task_payload_error t ''chat completions tasks require payload.messages.''))
      else if ends_with endpoint ''/responses'' then
        (if \<not> is_blank (dget p ''input'') \<or> is_non_empty_list (dget p ''messages'') then None
         else Some (invalid_task_payload_error t ''responses tasks require payload.input or payload.messages.''))
      else if ends_with endpoint ''/completions'' then
        (if \<not> is_blank (dget p ''prompt'') then None
         else Some (invalid_task_payload_error t ''completions tasks require payload.prompt.''))
      else if ends_with endpoint ''/embeddings'' then
        (if \<not> is_blank (dget p ''input'') then None
         else Some (invalid_task_payload_error t ''embeddings tasks require payload.input.''))
      else if list_ex (\<lambda>k. \<not> is_blank (dget p k)) [''messages'', ''input'', ''prompt''] then None
      else Some (invalid_task_payload_error t ''durable task payload must contain OpenAI-compatible input.''))"

text \<open>\<open>settings.task_executor_retry_base_seconds * (2**exponent)\<close>: the integer becomes a float,
  which overflows beyond \<open>2 ** 1023\<close>.\<close>

definition retry_delay_seconds :: "settings \<Rightarrow> int \<Rightarrow> flt res" where
  "retry_delay_seconds st attempt_count =
     bind_res (py_float (JInt (2 ^ nat (max 0 (attempt_count - 1))))) (\<lambda>factor.
     Inr (fmin (fmul (task_executor_retry_base_seconds st) factor) (task_executor_retry_max_seconds st)))"

text \<open>\<open>timedelta(seconds=x)\<close> in microseconds, and the addition to an instant.\<close>

definition timedelta_seconds :: "flt \<Rightarrow> int res" where
  "timedelta_seconds x = (case x of
       FNaN \<Rightarrow> Inl (ValueError ''cannot convert float NaN to integer'')
     | FInf _ \<Rightarrow> Inl OverflowError
     | Fin q \<Rightarrow> (let i = rat_trunc q;
           frac = (case fl (1000000 * (q - of_int i)) of Fin d \<Rightarrow> d | _ \<Rightarrow> 0);
           us = round_half_even (of_int (i * 1000000) + frac)
         in if 999999999 < \<bar>us div us_per_day\<bar> then Inl OverflowError else Inr us))"

definition add_seconds :: "int \<Rightarrow> flt \<Rightarrow> int res" where
  "add_seconds now x = bind_res (timedelta_seconds x) (\<lambda>us.
     if 0 \<le> now + us \<and> now + us < max_instant then Inr (now + us) else Inl OverflowError)"

text \<open>\<open>seconds_between\<close>: only whether it raises matters here, its value goes to a histogram.\<close>

definition check_seconds_between :: "string option \<Rightarrow> string option \<Rightarrow> unit res" where
  "check_seconds_between start finish = (case (start, finish) of
       (Some a, Some b) \<Rightarrow> (case (from_isoformat (replace_Z a), from_isoformat (replace_Z b)) of
           (Some (_, x), Some (_, y)) \<Rightarrow> if (x = None) = (y = None) then Inr () else Inl TypeError
         | _ \<Rightarrow> Inl (ValueError ''Invalid isoformat string''))
     | _ \<Rightarrow> Inr ())"

definition task_executor_headers :: "settings \<Rightarrow> headers" where
  "task_executor_headers st = [(''content-type'', ''application/json'')] @
     (if upstream_api_key st = [] then [] else [(''authorization'', ''Bearer '' @ upstream_api_key st)])"

definition response_body :: "string \<Rightarrow> string \<Rightarrow> json res \<Rightarrow> json res" where
  "response_body content_type text parsed =
     (if \<not> contains_text ''json'' (py_lower content_type) then Inr (JStr text)
      else (case parsed of
          Inr v \<Rightarrow> Inr v
        | Inl (JSONDecodeError _) \<Rightarrow> Inr (JStr text)
        | Inl e \<Rightarrow> Inl e))"

section \<open>Capacity\<close>

definition reconcile_capacity :: "settings \<Rightarrow> http_reply \<Rightarrow> dict res" where
  "reconcile_capacity st reply =
     (if \<not> registry_client_configured st then
        Inr [(''state'', JStr ''skipped''), (''reason'', JStr ''backend_registry_url_not_configured'')]
      else (case client_post_json reply of
          Inr body \<Rightarrow> Inr [(''state'', JStr ''reconciled''), (''result'', body)]
        | Inl e \<Rightarrow> if is_http_error e
            then Inr [(''state'', JStr ''failed''), (''error_type'', JStr (exn_name e))]
            else Inl e))"

definition explain_capacity :: "settings \<Rightarrow> http_reply \<Rightarrow> dict res" where
  "explain_capacity st reply =
     (if \<not> registry_client_configured st then
        Inr [(''state'', JStr ''skipped''), (''reason'', JStr ''backend_registry_url_not_configured'')]
      else (case client_post_json reply of
          Inr body \<Rightarrow> Inr [(''state'', JStr ''explained''), (''result'', body)]
        | Inl e \<Rightarrow> if is_http_error e
            then Inr [(''state'', JStr ''failed''), (''error_type'', JStr (exn_name e))]
            else Inl e))"

definition reconcile_current_task_capacity ::
  "'s task_store_ops \<Rightarrow> settings \<Rightarrow> http_reply \<Rightarrow> 's \<Rightarrow> dict res" where
  "reconcile_current_task_capacity ops st reply s =
     bind_res (op_context_plans ops s) (\<lambda>_. reconcile_capacity st reply)"

section \<open>Recording a failure\<close>

record failure_clock =
  fc_now :: int
  fc_text :: string

text \<open>\<open>fc_now\<close> is \<open>datetime.now(UTC)\<close> of \<open>record_task_failure\<close>, \<open>fc_text\<close> the \<open>now_iso()\<close> of the
  store operation.\<close>

definition enriched_error :: "settings \<Rightarrow> stored_task \<Rightarrow> dict \<Rightarrow> bool \<Rightarrow> dict" where
  "enriched_error st t error retryable = dmerge error
     [(''retryable'', JBool retryable), (''attempt_count'', JInt (t_attempt_count t)),
      (''max_attempts'', JInt (task_executor_max_attempts st))]"

definition record_task_failure ::
  "'s task_store_ops \<Rightarrow> settings \<Rightarrow> failure_clock \<Rightarrow> stored_task \<Rightarrow> dict \<Rightarrow> bool \<Rightarrow> 's \<Rightarrow> 's \<times> unit res" where
  "record_task_failure ops st clock t error retryable s =
     (let e = enriched_error st t error retryable in
      if retryable \<and> t_attempt_count t < task_executor_max_attempts st then
        (case bind_res (retry_delay_seconds st (t_attempt_count t)) (\<lambda>delay.
              bind_res (add_seconds (fc_now clock) delay) (\<lambda>next.
              op_record_retry ops (fc_text clock) (t_task_id t)
                (dset ''retry_delay_seconds'' (json_of_flt delay)
                  (dset ''next_attempt_at'' (JStr (iso_format next)) e)) (iso_format next) s)) of
           Inl x \<Rightarrow> (s, Inl x)
         | Inr (s', _) \<Rightarrow> (s', Inr ()))
      else (case op_record_error ops (fc_text clock) (t_task_id t) e s of
           Inl x \<Rightarrow> (s, Inl x)
         | Inr (s', failed) \<Rightarrow> (s', check_seconds_between (t_started_at failed) (t_finished_at failed))))"

definition record_task_failure_and_reconcile ::
  "'s task_store_ops \<Rightarrow> settings \<Rightarrow> failure_clock \<Rightarrow> http_reply \<Rightarrow> stored_task \<Rightarrow> dict \<Rightarrow> bool \<Rightarrow> 's \<Rightarrow> 's \<times> unit res" where
  "record_task_failure_and_reconcile ops st clock reply t error retryable s =
     (case record_task_failure ops st clock t error retryable s of
        (s', Inl x) \<Rightarrow> (s', Inl x)
      | (s', Inr _) \<Rightarrow> (s', bind_res (reconcile_current_task_capacity ops st reply s') (\<lambda>_. Inr ())))"

section \<open>Executing one task\<close>

text \<open>What \<open>client.post\<close> does: an \<open>httpx.HTTPError\<close>, another exception (a payload it cannot
  encode, an URL it cannot parse), or an answer with its content type, text and parsed body.\<close>

datatype task_upstream =
    TaskHttpError string
  | TaskRaises exn
  | TaskResponse int string string "json res"

datatype verdict =
    Failure dict bool
  | Success dict
  | Crash exn

definition executable_payload :: "stored_task \<Rightarrow> model_policy \<Rightarrow> string option \<Rightarrow> dict" where
  "executable_payload t p inst =
     (let d = strip_internal_fields (t_payload t);
          d = (if dhas d ''model'' then d else dset ''model'' (JStr (public_name p)) d)
      in if inst \<noteq> None then dset ''model'' (JStr (backend_model p)) d else d)"

text \<open>\<open>execute_stored_task\<close> up to the point where it records: what it will record, and the calls
  to the lifecycle service. \<open>_\<close> of the exception branch never arises, \<open>resolve\<close> of the policy
  registry does not raise.\<close>

definition execution_verdict ::
  "settings \<Rightarrow> policy_registry \<Rightarrow> registry_replies \<Rightarrow> task_upstream \<Rightarrow> stored_task \<Rightarrow> verdict \<times> registry_call list" where
  "execution_verdict st reg rep up t =
     (if t_payload t = [] then
        (Failure [(''type'', JStr ''missing_task_payload''),
           (''message'', JStr ''Durable task execution requires a stored OpenAI-compatible payload.'')] False, [])
      else (case validate_executable_task_payload t of
          Some e \<Rightarrow> (Failure e False, [])
        | None \<Rightarrow> (let p = resolve_policy reg (Some (t_model t)) in
            case resolve_backend st rep (public_name p) (t_orchestration t) of
              (Inl e, calls) \<Rightarrow> (Crash e, calls)
            | (Inr (None, _), calls) \<Rightarrow>
                (Failure [(''type'', JStr ''no_ready_backend''),
                   (''message'', JStr ''No ready backend instance is available for this task.'')] True, calls)
            | (Inr (Some url, inst), calls) \<Rightarrow>
                (let calls' = calls @ release_backend st inst in
                 case up of
                   TaskHttpError name \<Rightarrow>
                     (Failure [(''type'', JStr ''upstream_request_failed''),
                        (''message'', JStr ''Upstream LLM gateway request failed.''),
                        (''error_type'', JStr name), (''backend_instance_id'', opt_str inst)] True, calls')
                 | TaskRaises e \<Rightarrow> (Crash e, calls')
                 | TaskResponse code content_type text parsed \<Rightarrow>
                     (case response_body content_type text parsed of
                        Inl e \<Rightarrow> (Crash e, calls')
                      | Inr body \<Rightarrow>
                          if 400 \<le> code then
                            (Failure [(''type'', JStr ''upstream_status''),
                               (''message'', JStr ''Upstream LLM backend returned an error status.''),
                               (''status_code'', JInt code), (''body'', body),
                               (''backend_instance_id'', opt_str inst)]
                               (is_retryable_upstream_status code), calls')
                          else
                            (Success [(''status_code'', JInt code), (''body'', body),
                               (''backend_instance_id'', opt_str inst)], calls'))))))"

definition apply_verdict ::
  "'s task_store_ops \<Rightarrow> settings \<Rightarrow> failure_clock \<Rightarrow> http_reply \<Rightarrow> stored_task \<Rightarrow> verdict \<Rightarrow> 's \<Rightarrow> 's \<times> unit res" where
  "apply_verdict ops st clock reply t v s = (case v of
       Crash e \<Rightarrow> (s, Inl e)
     | Failure e retryable \<Rightarrow> record_task_failure_and_reconcile ops st clock reply t e retryable s
     | Success r \<Rightarrow> (case op_record_result ops (fc_text clock) (t_task_id t) r s of
           Inl x \<Rightarrow> (s, Inl x)
         | Inr (s', done) \<Rightarrow> (s', bind_res (check_seconds_between (t_started_at done) (t_finished_at done))
             (\<lambda>_. bind_res (reconcile_current_task_capacity ops st reply s') (\<lambda>_. Inr ())))))"

text \<open>The handler of the loop, which records the task once more as a retryable failure.\<close>

definition crash_error :: "(exn \<Rightarrow> string) \<Rightarrow> exn \<Rightarrow> dict" where
  "crash_error describe e = [(''type'', JStr (exn_name e)), (''message'', JStr (describe e))]"

record turn_env =
  te_clock :: failure_clock
  te_reconcile :: http_reply
  te_clock2 :: failure_clock
  te_reconcile2 :: http_reply

text \<open>The rest of one turn of the loop after the verdict; the second component tells how the loop
  goes on: an exception leaves it and ends the executor.\<close>

definition finish_turn ::
  "'s task_store_ops \<Rightarrow> settings \<Rightarrow> (exn \<Rightarrow> string) \<Rightarrow> turn_env \<Rightarrow> stored_task \<Rightarrow> verdict \<Rightarrow> 's \<Rightarrow> 's \<times> unit res" where
  "finish_turn ops st describe env t v s =
     (case apply_verdict ops st (te_clock env) (te_reconcile env) t v s of
        (s', Inr _) \<Rightarrow> (s', Inr ())
      | (s', Inl e) \<Rightarrow>
          record_task_failure_and_reconcile ops st (te_clock2 env) (te_reconcile2 env) t
            (crash_error describe e) True s')"

datatype turn_result = Idle | Continues | Dies exn

text \<open>One turn of \<open>task_executor_loop\<close>, with nothing happening in between.\<close>

definition executor_turn ::
  "'s task_store_ops \<Rightarrow> settings \<Rightarrow> policy_registry \<Rightarrow> (exn \<Rightarrow> string) \<Rightarrow> int \<Rightarrow> registry_replies \<Rightarrow>
     task_upstream \<Rightarrow> turn_env \<Rightarrow> 's \<Rightarrow> 's \<times> turn_result" where
  "executor_turn ops st reg describe now rep up env s =
     (case op_claim_next ops now None s of
        Inl e \<Rightarrow> (s, Dies e)
      | Inr (s', None) \<Rightarrow> (s', Idle)
      | Inr (s', Some t) \<Rightarrow>
          (case check_seconds_between (Some (t_created_at t)) (t_started_at t) of
             Inl e \<Rightarrow> (s', Dies e)
           | Inr _ \<Rightarrow>
               (case finish_turn ops st describe env t (fst (execution_verdict st reg rep up t)) s' of
                  (s'', Inr _) \<Rightarrow> (s'', Continues)
                | (s'', Inl e) \<Rightarrow> (s'', Dies e))))"

section \<open>Facts\<close>

lemma retry_delay_bound:
  "retry_delay_seconds st n = Inr d \<Longrightarrow> task_executor_retry_max_seconds st \<noteq> FNaN \<Longrightarrow>
     fmul (task_executor_retry_base_seconds st) (fl (2 ^ nat (max 0 (n - 1)))) \<noteq> FNaN \<Longrightarrow>
     flt_le d (task_executor_retry_max_seconds st)"
proof -
  assume d: "retry_delay_seconds st n = Inr d" and m: "task_executor_retry_max_seconds st \<noteq> FNaN"
    and b: "fmul (task_executor_retry_base_seconds st) (fl (2 ^ nat (max 0 (n - 1)))) \<noteq> FNaN"
  have "flt_le (fmin x y) y" if "x \<noteq> FNaN" "y \<noteq> FNaN" for x y
    using that by (cases x; cases y) (auto simp: fmin_def)
  with d m b show ?thesis
    by (auto simp: retry_delay_seconds_def bind_res_Inr_iff split: flt.splits)
qed

lemma retryable_status_cases:
  "is_retryable_upstream_status code \<Longrightarrow> 400 \<le> code"
  by (auto simp: is_retryable_upstream_status_def)

end
