(* ===== verification/Task_System.thy ===== *)
theory Task_System
  imports Task_Executor
begin

text \<open>
  The durable task system as a whole: submissions, cancellations and the executor of
  \<open>queue_proxy/main.py\<close> interleaved over any \<open>TaskStore\<close>. The handlers run between the awaits of
  the executor, so an execution is several steps: the claim, the recording of its outcome, and,
  when an exception escaped, the second recording of the loop's handler. The results hold in
  the locale \<open>task_store\<close>, so for every provider of the protocol.
\<close>

section \<open>The step relation\<close>

text \<open>The executor waits, executes a task, has had an exception escape from an execution, or is
  gone.\<close>

datatype phase = Waiting | Executing stored_task | Recovering stored_task dict | Dead

record 's config =
  c_store :: 's
  c_phase :: phase

datatype task_event =
    Submitted "queue_task list"
  | CancelledBy string string
  | Claimed string
  | Recorded string
  | Escaped string
  | Recovered string
  | Died

text \<open>The identifiers of a batch are new and distinct, its default time stamps are texts.\<close>

definition batch_env :: "'s task_store_ops \<Rightarrow> 's \<Rightarrow> submit_env \<Rightarrow> queue_task list \<Rightarrow> bool" where
  "batch_env ops s env qs \<longleftrightarrow>
     (\<forall>j < length qs. clean_string (''task_'' @ fst (env j)) \<and>
        (\<forall>tenant. op_get_task ops s tenant (''task_'' @ fst (env j)) = None) \<and>
        fst (snd (env j)) \<noteq> [] \<and> snd (snd (env j)) \<noteq> []) \<and>
     inj_on (\<lambda>j. fst (env j)) {..<length qs} \<and> (\<forall>q\<in>set qs. wf_queue_task q)"

inductive exec_step ::
  "'s task_store_ops \<Rightarrow> settings \<Rightarrow> policy_registry \<Rightarrow> (exn \<Rightarrow> string) \<Rightarrow>
     's config \<Rightarrow> task_event \<Rightarrow> 's config \<Rightarrow> bool"
  for ops st reg describe
where
  submit: "batch_env ops (c_store c) env qs \<Longrightarrow>
    op_submit_many ops env qs (c_store c) = Inr (s', acc, reu) \<Longrightarrow>
    exec_step ops st reg describe c (Submitted qs) (c\<lparr>c_store := s'\<rparr>)"
| cancel: "now \<noteq> [] \<Longrightarrow> op_cancel_task ops now tenant i (c_store c) = (s', r) \<Longrightarrow>
    exec_step ops st reg describe c (CancelledBy tenant i) (c\<lparr>c_store := s'\<rparr>)"
| claim: "c_phase c = Waiting \<Longrightarrow> op_claim_next ops now None (c_store c) = Inr (s', Some u) \<Longrightarrow>
    check_seconds_between (Some (t_created_at u)) (t_started_at u) = Inr () \<Longrightarrow>
    exec_step ops st reg describe c (Claimed (t_task_id u)) \<lparr>c_store = s', c_phase = Executing u\<rparr>"
| claim_dies: "c_phase c = Waiting \<Longrightarrow> op_claim_next ops now None (c_store c) = Inr (s', Some u) \<Longrightarrow>
    check_seconds_between (Some (t_created_at u)) (t_started_at u) = Inl e \<Longrightarrow>
    exec_step ops st reg describe c (Claimed (t_task_id u)) \<lparr>c_store = s', c_phase = Dead\<rparr>"
| claim_raises: "c_phase c = Waiting \<Longrightarrow> op_claim_next ops now None (c_store c) = Inl e \<Longrightarrow>
    exec_step ops st reg describe c Died (c\<lparr>c_phase := Dead\<rparr>)"
| finish: "c_phase c = Executing u \<Longrightarrow> fc_text clock \<noteq> [] \<Longrightarrow>
    apply_verdict ops st clock reply u (fst (execution_verdict st reg rep up u)) (c_store c) = (s', Inr ()) \<Longrightarrow>
    exec_step ops st reg describe c (Recorded (t_task_id u)) \<lparr>c_store = s', c_phase = Waiting\<rparr>"
| escape: "c_phase c = Executing u \<Longrightarrow> fc_text clock \<noteq> [] \<Longrightarrow>
    apply_verdict ops st clock reply u (fst (execution_verdict st reg rep up u)) (c_store c) = (s', Inl e) \<Longrightarrow>
    exec_step ops st reg describe c (Escaped (t_task_id u))
      \<lparr>c_store = s', c_phase = Recovering u (crash_error describe e)\<rparr>"
| recover: "c_phase c = Recovering u d \<Longrightarrow> fc_text clock \<noteq> [] \<Longrightarrow>
    record_task_failure_and_reconcile ops st clock reply u d True (c_store c) = (s', Inr ()) \<Longrightarrow>
    exec_step ops st reg describe c (Recovered (t_task_id u)) \<lparr>c_store = s', c_phase = Waiting\<rparr>"
| recover_dies: "c_phase c = Recovering u d \<Longrightarrow> fc_text clock \<noteq> [] \<Longrightarrow>
    record_task_failure_and_reconcile ops st clock reply u d True (c_store c) = (s', Inl e) \<Longrightarrow>
    exec_step ops st reg describe c (Recovered (t_task_id u)) \<lparr>c_store = s', c_phase = Dead\<rparr>"

inductive_cases exec_stepE: "exec_step ops st reg describe c e c'"

inductive exec_run ::
  "'s task_store_ops \<Rightarrow> settings \<Rightarrow> policy_registry \<Rightarrow> (exn \<Rightarrow> string) \<Rightarrow>
     's config \<Rightarrow> task_event list \<Rightarrow> 's config \<Rightarrow> bool"
  for ops st reg describe
where
  stop: "exec_run ops st reg describe c [] c"
| more: "exec_step ops st reg describe c e c' \<Longrightarrow> exec_run ops st reg describe c' es c'' \<Longrightarrow>
    exec_run ops st reg describe c (e # es) c''"

section \<open>Invariants\<close>

text \<open>No task was attempted more often than the settings allow, and a queued one has an attempt
  left.\<close>

definition attempts_ok :: "settings \<Rightarrow> stored_task \<Rightarrow> bool" where
  "attempts_ok st t \<longleftrightarrow> 0 \<le> t_attempt_count t \<and> t_attempt_count t \<le> task_executor_max_attempts st \<and>
     (t_state t = ''queued'' \<longrightarrow> t_attempt_count t < task_executor_max_attempts st)"

text \<open>The task the executor holds is stored with the same attempt count, and while it executes it
  is not queued.\<close>

definition held :: "phase \<Rightarrow> stored_task option" where
  "held ph = (case ph of Executing u \<Rightarrow> Some u | Recovering u _ \<Rightarrow> Some u | _ \<Rightarrow> None)"

definition phase_ok :: "(string \<Rightarrow> stored_task option) \<Rightarrow> phase \<Rightarrow> bool" where
  "phase_ok view ph \<longleftrightarrow> (\<forall>u. held ph = Some u \<longrightarrow>
     (\<exists>t. view (t_task_id u) = Some t \<and> t_attempt_count t = t_attempt_count u)) \<and>
     (\<forall>u. ph = Executing u \<longrightarrow> (\<forall>t. view (t_task_id u) = Some t \<longrightarrow> t_state t \<noteq> ''queued''))"

text \<open>What a recording does to the store: one task changes.\<close>

definition touched ::
  "settings \<Rightarrow> (string \<Rightarrow> stored_task option) \<Rightarrow> (string \<Rightarrow> stored_task option) \<Rightarrow> stored_task \<Rightarrow> bool" where
  "touched st before after u \<longleftrightarrow>
     (\<exists>t t'. before (t_task_id u) = Some t \<and> after = before(t_task_id u \<mapsto> t') \<and>
        t_attempt_count t' = t_attempt_count t \<and> t_tenant t' = t_tenant t \<and>
        (t_state t' = ''succeeded'' \<or> t_state t' = ''failed'' \<or>
         t_state t' = ''queued'' \<and> t_attempt_count u < task_executor_max_attempts st))"

lemma touchedI:
  "before (t_task_id u) = Some t \<Longrightarrow> after = before(t_task_id u \<mapsto> t') \<Longrightarrow>
     t_attempt_count t' = t_attempt_count t \<Longrightarrow> t_tenant t' = t_tenant t \<Longrightarrow>
     t_state t' = ''succeeded'' \<or> t_state t' = ''failed'' \<or>
       t_state t' = ''queued'' \<and> t_attempt_count u < task_executor_max_attempts st \<Longrightarrow>
     touched st before after u"
  by (auto simp: touched_def)

text \<open>The specification of the system: what a step may do to the tasks and to the executor, with
  no store, no lifecycle service and no upstream.\<close>

inductive abs_step ::
  "settings \<Rightarrow> (string \<Rightarrow> stored_task option) \<Rightarrow> phase \<Rightarrow> task_event \<Rightarrow>
     (string \<Rightarrow> stored_task option) \<Rightarrow> phase \<Rightarrow> bool"
  for st
where
  a_submit: "\<forall>t\<in>set acc. t_state t = ''queued'' \<and> t_attempt_count t = 0 \<and> v (t_task_id t) = None \<Longrightarrow>
    abs_step st v ph (Submitted qs) (v ++ map_of (by_id acc)) ph"
| a_cancel: "v i = Some t \<Longrightarrow> t_tenant t = tenant \<Longrightarrow> t_state t \<notin> terminal_states \<Longrightarrow>
    abs_step st v ph (CancelledBy tenant i) (v(i \<mapsto> cancelled_task now t)) ph"
| a_cancel_nothing: "abs_step st v ph (CancelledBy tenant i) v ph"
| a_claim: "v (t_task_id t) = Some t \<Longrightarrow> t_state t = ''queued'' \<Longrightarrow> u = claim_task now t \<Longrightarrow>
    ph = Executing u \<or> ph = Dead \<Longrightarrow>
    abs_step st v Waiting (Claimed (t_task_id t)) (v(t_task_id t \<mapsto> u)) ph"
| a_die: "abs_step st v Waiting Died v Dead"
| a_record: "touched st v v' u \<Longrightarrow> abs_step st v (Executing u) (Recorded (t_task_id u)) v' Waiting"
| a_escape: "v' = v \<or> touched st v v' u \<Longrightarrow>
    abs_step st v (Executing u) (Escaped (t_task_id u)) v' (Recovering u d)"
| a_recover: "touched st v v' u \<Longrightarrow>
    abs_step st v (Recovering u d) (Recovered (t_task_id u)) v' Waiting"
| a_recover_die: "v' = v \<or> touched st v v' u \<Longrightarrow>
    abs_step st v (Recovering u d) (Recovered (t_task_id u)) v' Dead"

inductive_cases abs_stepE: "abs_step st v ph e v' ph'"

lemma record_states [simp]:
  "t_state (succeed_task n r t) = ''succeeded''" "t_state (fail_task n r t) = ''failed''"
  "t_state (retry_task n r na t) = ''queued''" "t_state (cancelled_task n t) = ''cancelled''"
  "t_attempt_count (succeed_task n r t) = t_attempt_count t" "t_attempt_count (fail_task n r t) = t_attempt_count t"
  "t_attempt_count (retry_task n r na t) = t_attempt_count t" "t_attempt_count (cancelled_task n t) = t_attempt_count t"
  "t_tenant (succeed_task n r t) = t_tenant t" "t_tenant (fail_task n r t) = t_tenant t"
  "t_tenant (retry_task n r na t) = t_tenant t" "t_tenant (cancelled_task n t) = t_tenant t"
  "t_task_id (succeed_task n r t) = t_task_id t" "t_task_id (fail_task n r t) = t_task_id t"
  "t_task_id (retry_task n r na t) = t_task_id t" "t_task_id (cancelled_task n t) = t_task_id t"
  by (simp_all add: succeed_task_def fail_task_def retry_task_def cancelled_task_def)

context task_store
begin

lemma failure_effect:
  assumes "inv s" "view s (t_task_id u) = Some t" "fc_text clock \<noteq> []"
    "record_task_failure ops st clock u e retryable s = (s', r)"
  shows "inv s' \<and> (s' = s \<and> (\<exists>x. r = Inl x) \<or> touched st (view s) (view s') u)"
proof (cases "retryable \<and> t_attempt_count u < task_executor_max_attempts st")
  case True
  show ?thesis
  proof (cases "bind_res (retry_delay_seconds st (t_attempt_count u)) (\<lambda>d. bind_res (add_seconds (fc_now clock) d) (\<lambda>n. Inr (d, n)))")
    case (Inl x)
    then show ?thesis
      using assms True by (auto simp: record_task_failure_def Let_def bind_res_Inl_iff)
  next
    case (Inr dn)
    then obtain d n where dn: "retry_delay_seconds st (t_attempt_count u) = Inr d" "add_seconds (fc_now clock) d = Inr n"
      by (auto simp: bind_res_Inr_iff)
    let ?e = "dset ''retry_delay_seconds'' (json_of_flt d) (dset ''next_attempt_at'' (JStr (iso_format n))
        (enriched_error st u e retryable))"
    obtain s1 where s1: "op_record_retry ops (fc_text clock) (t_task_id u) ?e (iso_format n) s =
          Inr (s1, retry_task (fc_text clock) ?e (iso_format n) t)"
        "view s1 = (view s)(t_task_id u \<mapsto> retry_task (fc_text clock) ?e (iso_format n) t)" "inv s1"
      using retry_ok [OF assms(1,2,3) iso_format_not_Nil] by blast
    have "s' = s1" using assms(4) True dn s1(1) by (simp add: record_task_failure_def Let_def)
    moreover have "touched st (view s) (view s1) u"
      by (rule touchedI [OF assms(2) s1(2)]) (use True in simp_all)
    ultimately show ?thesis using s1(3) by blast
  qed
next
  case False
  obtain s1 where s1: "op_record_error ops (fc_text clock) (t_task_id u) (enriched_error st u e retryable) s =
        Inr (s1, fail_task (fc_text clock) (enriched_error st u e retryable) t)"
      "view s1 = (view s)(t_task_id u \<mapsto> fail_task (fc_text clock) (enriched_error st u e retryable) t)" "inv s1"
    using error_ok [OF assms(1,2,3)] by blast
  have "s' = s1" using assms(4) False s1(1) by (auto simp: record_task_failure_def Let_def)
  moreover have "touched st (view s) (view s1) u"
    by (rule touchedI [OF assms(2) s1(2)]) simp_all
  ultimately show ?thesis using s1(3) by blast
qed

lemma failure_and_reconcile_effect:
  assumes "inv s" "view s (t_task_id u) = Some t" "fc_text clock \<noteq> []"
    "record_task_failure_and_reconcile ops st clock reply u e retryable s = (s', r)"
  shows "inv s' \<and> (s' = s \<and> (\<exists>x. r = Inl x) \<or> touched st (view s) (view s') u)"
proof -
  obtain s1 r1 where r1: "record_task_failure ops st clock u e retryable s = (s1, r1)" by fastforce
  from failure_effect [OF assms(1-3) r1] assms(4) r1 show ?thesis
    by (cases r1) (auto simp: record_task_failure_and_reconcile_def)
qed

lemma verdict_effect:
  assumes "inv s" "view s (t_task_id u) = Some t" "fc_text clock \<noteq> []"
    "apply_verdict ops st clock reply u v s = (s', r)"
  shows "inv s' \<and> (s' = s \<and> (\<exists>x. r = Inl x) \<or> touched st (view s) (view s') u)"
proof (cases v)
  case (Failure e retryable)
  then show ?thesis
    using failure_and_reconcile_effect [OF assms(1-3)] assms(4) by (simp add: apply_verdict_def)
next
  case (Success d)
  obtain s1 where s1: "op_record_result ops (fc_text clock) (t_task_id u) d s = Inr (s1, succeed_task (fc_text clock) d t)"
      "view s1 = (view s)(t_task_id u \<mapsto> succeed_task (fc_text clock) d t)" "inv s1"
    using result_ok [OF assms(1-3)] by blast
  have "s' = s1" using assms(4) s1(1) Success by (simp add: apply_verdict_def)
  moreover have "touched st (view s) (view s1) u"
    by (rule touchedI [OF assms(2) s1(2)]) simp_all
  ultimately show ?thesis using s1(3) by blast
next
  case (Crash x)
  then show ?thesis using assms(1,4) by (auto simp: apply_verdict_def)
qed

lemma unknown_view: "inv s \<Longrightarrow> (\<forall>tenant. op_get_task ops s tenant i = None) \<Longrightarrow> view s i = None"
  by (cases "view s i") (auto simp: get_ok dest: spec [of _ "t_tenant (the (view s i))"])

lemma submit_effect:
  assumes "inv s" "batch_env ops s env qs" "op_submit_many ops env qs s = Inr (s', acc, reu)"
  shows "inv s' \<and> view s' = view s ++ map_of (by_id acc) \<and>
    (\<forall>t\<in>set acc. t_state t = ''queued'' \<and> t_attempt_count t = 0 \<and> view s (t_task_id t) = None)"
  using assms submit_ok [OF assms(1,3)] unknown_view [OF assms(1)] unfolding batch_env_def by blast

text \<open>The running system refines the specification.\<close>

lemma step_refines:
  assumes "exec_step ops st reg describe c e c'" "inv (c_store c)" "phase_ok (view (c_store c)) (c_phase c)"
  shows "inv (c_store c') \<and> abs_step st (view (c_store c)) (c_phase c) e (view (c_store c')) (c_phase c')"
  using assms(1)
proof (cases rule: exec_step.cases)
  case (submit env qs s' acc reu)
  then show ?thesis
    using submit_effect [OF assms(2) submit(3,4)] by (auto intro!: a_submit)
next
  case (cancel now tenant i s' r)
  from cancel_ok [OF assms(2) cancel(3,4)] show ?thesis
    using cancel(1,2)
    by (auto split: option.splits if_splits intro: a_cancel_nothing intro!: a_cancel)
next
  case (claim now s' u)
  from claim_some [OF assms(2) claim(4)] obtain t where t: "view (c_store c) (t_task_id t) = Some t"
      "t_state t = ''queued''" "u = claim_task (iso_format now) t"
      "view s' = (view (c_store c))(t_task_id t \<mapsto> u)" "inv s'" by blast
  then show ?thesis using claim(1-3) a_claim [of "view (c_store c)" t u "iso_format now" "Executing u" st] by simp
next
  case (claim_dies now s' u x)
  from claim_some [OF assms(2) claim_dies(4)] obtain t where t: "view (c_store c) (t_task_id t) = Some t"
      "t_state t = ''queued''" "u = claim_task (iso_format now) t"
      "view s' = (view (c_store c))(t_task_id t \<mapsto> u)" "inv s'" by blast
  then show ?thesis using claim_dies(1-3) a_claim [of "view (c_store c)" t u "iso_format now" Dead st] by simp
next
  case (claim_raises now x)
  then show ?thesis using assms(2) by (simp add: a_die)
next
  case (finish u clock reply rep up s')
  then obtain t where "view (c_store c) (t_task_id u) = Some t"
    using assms(3) by (auto simp: phase_ok_def held_def)
  from verdict_effect [OF assms(2) this finish(4,5)] finish show ?thesis by (auto intro: a_record)
next
  case (escape u clock reply rep up s' x)
  then obtain t where "view (c_store c) (t_task_id u) = Some t"
    using assms(3) by (auto simp: phase_ok_def held_def)
  from verdict_effect [OF assms(2) this escape(4,5)] escape show ?thesis by (auto intro: a_escape)
next
  case (recover u d clock reply s')
  then obtain t where "view (c_store c) (t_task_id u) = Some t"
    using assms(3) by (auto simp: phase_ok_def held_def)
  from failure_and_reconcile_effect [OF assms(2) this recover(4,5)] recover show ?thesis by (auto intro: a_recover)
next
  case (recover_dies u d clock reply s' x)
  then obtain t where "view (c_store c) (t_task_id u) = Some t"
    using assms(3) by (auto simp: phase_ok_def held_def)
  from failure_and_reconcile_effect [OF assms(2) this recover_dies(4,5)] recover_dies
  show ?thesis by (auto intro: a_recover_die)
qed

end

section \<open>What the specification guarantees\<close>

definition sys_ok :: "settings \<Rightarrow> (string \<Rightarrow> stored_task option) \<Rightarrow> phase \<Rightarrow> bool" where
  "sys_ok st v ph \<longleftrightarrow> phase_ok v ph \<and> (\<forall>i t. v i = Some t \<longrightarrow> attempts_ok st t)"

definition attempts_of :: "(string \<Rightarrow> stored_task option) \<Rightarrow> string \<Rightarrow> int" where
  "attempts_of v i = (case v i of None \<Rightarrow> 0 | Some t \<Rightarrow> t_attempt_count t)"

lemma by_id_Some: "map_of (by_id ts) i = Some t \<Longrightarrow> t \<in> set ts \<and> t_task_id t = i"
  by (auto simp: by_id_def dest!: map_of_SomeD)

lemma submit_view:
  assumes "\<forall>t\<in>set acc. t_state t = ''queued'' \<and> t_attempt_count t = 0 \<and> v (t_task_id t) = None"
  shows "v i = Some t \<Longrightarrow> (v ++ map_of (by_id acc)) i = Some t"
    and "(v ++ map_of (by_id acc)) i = Some t \<Longrightarrow>
      v i = Some t \<or> v i = None \<and> t_state t = ''queued'' \<and> t_attempt_count t = 0"
  using assms by (auto simp: map_add_def split: option.splits dest!: by_id_Some)

lemma touched_other: "touched st v v' u \<Longrightarrow> i \<noteq> t_task_id u \<Longrightarrow> v' i = v i"
  by (auto simp: touched_def)

lemma touched_attempts: "touched st v v' u \<Longrightarrow> attempts_of v' i = attempts_of v i"
  by (auto simp: touched_def attempts_of_def)

lemma touched_ok:
  assumes "touched st v v' u" "\<forall>i t. v i = Some t \<longrightarrow> attempts_ok st t"
    "\<exists>t. v (t_task_id u) = Some t \<and> t_attempt_count t = t_attempt_count u"
  shows "\<forall>i t. v' i = Some t \<longrightarrow> attempts_ok st t"
    and "\<exists>t. v' (t_task_id u) = Some t \<and> t_attempt_count t = t_attempt_count u"
proof -
  from assms(1) obtain t t' where t: "v (t_task_id u) = Some t" "v' = v(t_task_id u \<mapsto> t')"
      "t_attempt_count t' = t_attempt_count t"
      "t_state t' = ''queued'' \<longrightarrow> t_attempt_count u < task_executor_max_attempts st"
    by (auto simp: touched_def)
  from t(1) assms(3) have u: "t_attempt_count t = t_attempt_count u" by simp
  have "attempts_ok st t" using assms(2) t(1) by blast
  with t u have "attempts_ok st t'" by (simp add: attempts_ok_def)
  with t(2) assms(2) show "\<forall>i t. v' i = Some t \<longrightarrow> attempts_ok st t" by auto
  show "\<exists>t. v' (t_task_id u) = Some t \<and> t_attempt_count t = t_attempt_count u"
    using t u by simp
qed

lemma submit_phase_ok:
  assumes "\<forall>t\<in>set acc. t_state t = ''queued'' \<and> t_attempt_count t = 0 \<and> v (t_task_id t) = None" "phase_ok v ph"
  shows "phase_ok (v ++ map_of (by_id acc)) ph"
proof -
  have "\<exists>t. v (t_task_id u) = Some t \<and> (v ++ map_of (by_id acc)) (t_task_id u) = Some t \<and>
      t_attempt_count t = t_attempt_count u" if "held ph = Some u" for u
    using assms(2) that submit_view(1) [OF assms(1)] by (fastforce simp: phase_ok_def)
  moreover have "held (Executing u) = Some u" for u by (simp add: held_def)
  ultimately show ?thesis using assms(2) unfolding phase_ok_def by (metis option.inject)
qed

lemma abs_step_sys_ok:
  assumes "abs_step st v ph e v' ph'" "sys_ok st v ph" "1 \<le> task_executor_max_attempts st"
  shows "sys_ok st v' ph'"
  using assms(1)
proof cases
  case (a_submit acc qs)
  show ?thesis
    unfolding sys_ok_def
  proof (intro conjI allI impI)
    show "phase_ok v' ph'"
      using assms(2) submit_phase_ok [OF a_submit(4)] a_submit(2,3) by (simp add: sys_ok_def)
    fix i t assume "v' i = Some t"
    then have "v i = Some t \<or> t_state t = ''queued'' \<and> t_attempt_count t = 0"
      using submit_view(2) [OF a_submit(4), of i t] a_submit(2) by blast
    then show "attempts_ok st t"
      using assms(2,3) by (auto simp: sys_ok_def attempts_ok_def)
  qed
next
  case (a_cancel i t tenant now)
  then show ?thesis
    using assms(2) by (auto simp: sys_ok_def phase_ok_def attempts_ok_def)
next
  case (a_claim t u now)
  then show ?thesis
  proof -
    have "attempts_ok st t" using assms(2) a_claim(4) by (simp add: sys_ok_def)
    then have "attempts_ok st u" using a_claim(5,6) by (simp add: attempts_ok_def)
    then show ?thesis
      using assms(2) a_claim by (auto simp: sys_ok_def phase_ok_def held_def)
  qed
next
  case (a_record u)
  then show ?thesis
    using assms(2) touched_ok [OF a_record(4)] by (auto simp: sys_ok_def phase_ok_def held_def)
next
  case (a_escape u d)
  then show ?thesis
    using assms(2) touched_ok [of st v v' u] by (auto simp: sys_ok_def phase_ok_def held_def)
next
  case (a_recover u d)
  then show ?thesis
    using assms(2) touched_ok [OF a_recover(4)] by (auto simp: sys_ok_def phase_ok_def held_def)
next
  case (a_recover_die u d)
  then show ?thesis
    using assms(2) touched_ok [of st v v' u] by (auto simp: sys_ok_def phase_ok_def held_def)
qed (use assms(2) in \<open>auto simp: sys_ok_def phase_ok_def held_def\<close>)

lemma abs_step_attempts:
  assumes "abs_step st v ph e v' ph'"
  shows "attempts_of v' i = attempts_of v i + (if e = Claimed i then 1 else 0)"
  using assms
proof cases
  case (a_submit acc qs)
  then show ?thesis
  proof (cases "v i")
    case None
    then show ?thesis
      using a_submit(1,2) submit_view(2) [OF a_submit(4), of i]
      by (cases "(v ++ map_of (by_id acc)) i") (simp_all add: attempts_of_def del: map_add_None)
  next
    case (Some t)
    then show ?thesis
      using a_submit(1,2) submit_view(1) [OF a_submit(4)] by (simp add: attempts_of_def)
  qed
next
  case (a_cancel j t tenant now)
  then show ?thesis by (auto simp: attempts_of_def)
next
  case (a_claim t u now)
  then show ?thesis by (auto simp: attempts_of_def)
qed (auto simp: touched_attempts)

text \<open>A task that is not queued, is not held by the executor and is not cancelled does not change.\<close>

definition unheld :: "phase \<Rightarrow> string \<Rightarrow> bool" where
  "unheld ph i \<longleftrightarrow> (\<forall>u. held ph = Some u \<longrightarrow> t_task_id u \<noteq> i)"

definition cancels :: "string \<Rightarrow> task_event \<Rightarrow> bool" where
  "cancels i e \<longleftrightarrow> (\<exists>tenant. e = CancelledBy tenant i)"

lemma abs_step_untouched:
  assumes "abs_step st v ph e v' ph'" "v i = Some t" "t_state t \<noteq> ''queued''" "unheld ph i"
    "\<not> cancels i e \<or> t_state t \<in> terminal_states"
  shows "v' i = Some t \<and> unheld ph' i"
  using assms(1)
proof cases
  case (a_submit acc qs)
  then show ?thesis using assms(2,4) submit_view(1) [OF a_submit(4)] by auto
qed (use assms(2-5) in \<open>auto simp: unheld_def held_def cancels_def touched_other\<close>)

section \<open>Runs\<close>

context task_store
begin

lemma run_ok:
  assumes "exec_run ops st reg describe c es c'" "inv (c_store c)" "sys_ok st (view (c_store c)) (c_phase c)"
    "1 \<le> task_executor_max_attempts st"
  shows "inv (c_store c') \<and> sys_ok st (view (c_store c')) (c_phase c') \<and>
    attempts_of (view (c_store c')) i =
      attempts_of (view (c_store c)) i + int (length (filter ((=) (Claimed i)) es))"
  using assms
proof (induction rule: exec_run.induct)
  case (more c e c' es c'')
  have "phase_ok (view (c_store c)) (c_phase c)" using more.prems(2) by (simp add: sys_ok_def)
  from step_refines [OF more.hyps(1) more.prems(1) this]
  have inv: "inv (c_store c')" and a: "abs_step st (view (c_store c)) (c_phase c) e (view (c_store c')) (c_phase c')"
    by simp_all
  show ?case
    using more.IH [OF inv abs_step_sys_ok [OF a more.prems(2,3)] more.prems(3)] abs_step_attempts [OF a, of i]
    by auto
qed simp

lemma run_attempt_bound:
  assumes "exec_run ops st reg describe c es c'" "inv (c_store c)" "sys_ok st (view (c_store c)) (c_phase c)"
    "1 \<le> task_executor_max_attempts st"
  shows "int (length (filter ((=) (Claimed i)) es)) \<le> task_executor_max_attempts st - attempts_of (view (c_store c)) i"
proof -
  note r = run_ok [OF assms, of i]
  have "attempts_of (view (c_store c')) i \<le> task_executor_max_attempts st"
  proof (cases "view (c_store c') i")
    case None
    then show ?thesis using assms(4) by (simp add: attempts_of_def)
  next
    case (Some t)
    then have "attempts_ok st t" using r by (simp add: sys_ok_def)
    then show ?thesis using Some by (simp add: attempts_of_def attempts_ok_def)
  qed
  with r show ?thesis by simp
qed

lemma run_untouched:
  assumes "exec_run ops st reg describe c es c'" "inv (c_store c)" "sys_ok st (view (c_store c)) (c_phase c)"
    "1 \<le> task_executor_max_attempts st" "view (c_store c) i = Some t" "t_state t \<noteq> ''queued''"
    "unheld (c_phase c) i" "(\<forall>e\<in>set es. \<not> cancels i e) \<or> t_state t \<in> terminal_states"
  shows "view (c_store c') i = Some t"
  using assms
proof (induction rule: exec_run.induct)
  case (more c e c' es c'')
  have "phase_ok (view (c_store c)) (c_phase c)" using more.prems(2) by (simp add: sys_ok_def)
  from step_refines [OF more.hyps(1) more.prems(1) this]
  have inv: "inv (c_store c')" and a: "abs_step st (view (c_store c)) (c_phase c) e (view (c_store c')) (c_phase c')"
    by simp_all
  have "\<not> cancels i e \<or> t_state t \<in> terminal_states" using more.prems(7) by auto
  from abs_step_untouched [OF a more.prems(4,5,6) this]
  have u: "view (c_store c') i = Some t" "unheld (c_phase c') i" by simp_all
  show ?case
    using more.IH [OF inv abs_step_sys_ok [OF a more.prems(2,3)] more.prems(3) u(1) more.prems(5) u(2)] more.prems(7)
    by auto
qed simp

end

end
