(* ===== verification/Samples.thy ===== *)
theory Samples
  imports Task_System Context_Plan
begin

text \<open>
  Concrete values the witnesses are evaluated at: a queue request of two tasks as a client would
  send it, the tasks it is parsed to, the identifiers and clock readings of a submission, the
  stores it leads to and an executor configuration.
\<close>

definition sample_task_json :: "string \<Rightarrow> string \<Rightarrow> json" where
  "sample_task_json key vars = JDict
     [(''job_id'', JStr (''job-'' @ key)), (''idempotency_key'', JStr key),
      (''estimated_input_tokens'', JInt 3000), (''max_output_tokens'', JInt 500),
      (''template_vars'', JDict [(''name'', JStr vars)])]"

definition sample_orchestration :: "string \<Rightarrow> dict" where
  "sample_orchestration tenant =
     [(''schema_version'', JStr ''llmo.task.v1''), (''tenant'', JStr tenant), (''project'', JStr ''p''),
      (''service'', JStr ''svc''), (''task'', JStr ''sum''), (''priority'', JStr ''batch'')]"

definition sample_body :: json where
  "sample_body = JDict
     [(''orchestration'', JDict (sample_orchestration ''acme'')), (''model'', JStr ''m''),
      (''payload_template'', JDict [(''messages'', JList [JStr ''Hi {{name}}'']), (''n'', JStr ''{{ name }}'')]),
      (''tasks'', JList [sample_task_json ''k1'' ''a'', sample_task_json ''k2'' ''b''])]"

definition sample_queue_task :: "string \<Rightarrow> string \<Rightarrow> string \<Rightarrow> queue_task" where
  "sample_queue_task tenant service key = \<lparr>t_tenant = tenant, t_project = ''p'', t_service = service,
     t_task = ''sum'', t_job_id = ''job-'' @ key, t_idempotency_key = key, t_priority = ''batch'',
     t_model = ''m'', t_endpoint = ''/v1/chat/completions'', t_estimated_input_tokens = 3000,
     t_max_output_tokens = 500, t_required_context_tokens = 3500,
     t_payload = [(''messages'', JList [JStr ''hi''])], t_orchestration = [], t_artifacts = [], t_labels = []\<rparr>"

definition early :: string where "early = ''2026-01-01T00:00:00+00:00''"

definition sample_env :: submit_env where
  "sample_env i = (nat_digits i, early, early)"

definition q1 :: queue_task where "q1 = sample_queue_task ''acme'' ''svc'' ''k1''"
definition q2 :: queue_task where "q2 = sample_queue_task ''acme'' ''svc2'' ''k2''"

definition task1 :: stored_task where "task1 = new_stored_task (sample_env 0) q1"
definition task2 :: stored_task where "task2 = new_stored_task (sample_env 1) q2"

definition sample_store :: store where "sample_store = insert_new task2 (insert_new task1 empty_store)"

definition noon :: string where "noon = ''2026-01-01T12:00:00+00:00''"

text \<open>\<open>noon\<close> as an instant, in microseconds since year 1.\<close>

definition noon_us :: int where "noon_us = to_utc (the (from_isoformat noon))"

definition running1 :: stored_task where "running1 = claim_task noon task1"

definition running2 :: stored_task where "running2 = claim_task (iso_format (noon_us + 1)) task2"

definition sample_settings :: settings where
  "sample_settings = \<lparr>upstream_base_url = ''http://up'', upstream_api_key = [],
     backend_registry_url = ''http://life'', enable_backend_registry_routing = False,
     require_backend_registry_backend = False, queue_proxy_api_key = [],
     task_executor_max_attempts = 3, task_executor_retry_base_seconds = Fin 5,
     task_executor_retry_max_seconds = Fin 300\<rparr>"

section \<open>The samples are in range\<close>

lemma sample_settings_simps [simp]:
  "task_executor_max_attempts sample_settings = 3"
  "task_executor_retry_base_seconds sample_settings = Fin 5"
  "task_executor_retry_max_seconds sample_settings = Fin 300"
  "enable_backend_registry_routing sample_settings = False"
  "registry_client_configured sample_settings"
  "upstream_base_url sample_settings = ''http://up''"
  by (simp_all add: sample_settings_def registry_client_configured_def)

lemmas sample_defs = q1_def q2_def sample_queue_task_def task1_def task2_def sample_env_def
  early_def noon_def

lemma q_wf [simp]: "wf_queue_task q1" "wf_queue_task q2"
  by code_simp+

lemma task_wf [simp]: "wf_task task1" "wf_task task2"
  by code_simp+

lemma sample_ids [simp]:
  "t_task_id task1 = ''task_0''" "t_task_id task2 = ''task_1''"
  "idem_key task1 = (''acme'', ''k1'')" "idem_key task2 = (''acme'', ''k2'')"
  by code_simp+

lemma sample_store_inv [simp]: "store_inv sample_store"
proof -
  have "store_inv (insert_new task1 empty_store)"
    by (rule insert_new_inv [OF empty_store_inv]) (simp_all add: empty_store_def lookup_def)
  then show ?thesis
    unfolding sample_store_def
    by (rule insert_new_inv) (simp_all add: empty_store_def lookup_def insert_new_def)
qed

lemma sample_lookup: "lookup sample_store = [''task_0'' \<mapsto> task1, ''task_1'' \<mapsto> task2]"
  by (simp add: sample_store_def empty_store_def lookup_def fun_eq_iff)

lemma sample_fresh: "fresh_env sample_env 0 2 empty_store"
proof -
  have "nat_digits 0 = ''0''" "nat_digits 1 = ''1''" "clean_string ''task_0''" "clean_string ''task_1''"
    by code_simp+
  then show ?thesis
    by (auto simp: fresh_env_def sample_env_def less_2_cases_iff inj_on_def empty_store_def lookup_def early_def)
qed

text \<open>The two fairness groups of the store are claimed one after the other.\<close>

lemma sample_claims:
  "claim_next noon_us None sample_store = Inr (put_task running1 sample_store, Some running1)"
  "claim_next (noon_us + 1) None (put_task running1 sample_store) =
     Inr (put_task running2 (put_task running1 sample_store), Some running2)"
  by code_simp+

end
