(* ===== verification/Task_Properties.thy ===== *)
theory Task_Properties
  imports Samples
begin

text \<open>
  The properties of the task store of \<open>queue_proxy/task_queue.py\<close> one operation at a time:
  submission, fair claiming, listing, cancelling, parsing of a queue request, the context plans
  derived from the queue, and the file the JSON store keeps.
\<close>

section \<open>Submission\<close>

text \<open>C1: submitting a batch of parsed tasks to a consistent store with fresh identifiers succeeds.
  Each task is either new, stored as queued with no attempts under a new identifier, or answered by
  the task that carries its tenant and idempotency key already; nothing else in the store changes.\<close>

theorem submission_stores_each_task:
  assumes "store_inv s" "fresh_env env 0 (length qs) s" "\<forall>q\<in>set qs. wf_queue_task q"
  shows "\<exists>s' acc reu. submit_many env qs s = Inr (s', acc, reu) \<and> submit_post qs s s' acc reu"
  using submit_many_post [OF assms] by blast

theorem submission_stores_each_task_witness:
  "\<exists>s' acc reu. submit_many sample_env [q1, q2] empty_store = Inr (s', acc, reu) \<and>
     submit_post [q1, q2] empty_store s' acc reu"
  by (rule submission_stores_each_task)
    (simp_all add: empty_store_inv sample_fresh numeral_2_eq_2 [symmetric] del: One_nat_def)

text \<open>C2: sending an accepted batch again accepts nothing, leaves the store as it is, whatever
  identifiers were drawn, and answers each task with the stored one of the same key.\<close>

theorem resubmission_is_idempotent:
  assumes "store_inv s" "fresh_env env 0 (length qs) s" "\<forall>q\<in>set qs. wf_queue_task q"
    and first: "submit_many env qs s = Inr (s', acc, reu)"
  shows "\<exists>again. submit_many env' qs s' = Inr (s', [], again) \<and> map idem_key again = map idem_key qs \<and>
     (\<forall>t\<in>set again. lookup s' (t_task_id t) = Some t)"
proof -
  have post: "submit_post qs s s' acc reu"
    using submit_many_post [OF assms(1-3)] first by auto
  show ?thesis
    unfolding submit_many_def
    by (rule submit_loop_all_known) (use post submit_postD(1) submit_post_known in blast)+
qed

theorem resubmission_is_idempotent_witness:
  "\<exists>s' acc reu again. submit_many sample_env [q1, q2] empty_store = Inr (s', acc, reu) \<and>
     submit_many sample_env [q1, q2] s' = Inr (s', [], again) \<and> map idem_key again = [idem_key q1, idem_key q2]"
proof -
  have h: "store_inv empty_store" "fresh_env sample_env 0 (length [q1, q2]) empty_store"
      "\<forall>q\<in>set [q1, q2]. wf_queue_task q"
    by (simp_all add: empty_store_inv sample_fresh numeral_2_eq_2 [symmetric])
  obtain s' acc reu where "submit_many sample_env [q1, q2] empty_store = Inr (s', acc, reu)"
    using submit_many_post [OF h] by blast
  with resubmission_is_idempotent [OF h this, of sample_env] show ?thesis by auto
qed

section \<open>Claiming\<close>

text \<open>C3: a claim takes a task that is queued, due and of the asked model, marks exactly this task
  running and counts the attempt. It is the oldest claimable one of its fairness group, and a group
  that was served before is only taken when every claimable group was, none of them earlier.\<close>

theorem claim_takes_the_fair_task:
  assumes "store_inv s" "claim_next now model s = Inr (s', Some u)"
  shows "\<exists>t. lookup s (t_task_id t) = Some t \<and> is_task_claimable t now model = Inr True \<and>
     u = claim_task (iso_format now) t \<and> lookup s' = (lookup s)(t_task_id t \<mapsto> u) \<and> store_inv s' \<and>
     (\<forall>c\<in>set (all_tasks s). is_task_claimable c now model = Inr True \<longrightarrow>
        (fairness_group_key c = fairness_group_key t \<longrightarrow>
           (t_created_at t, t_task_id t) \<le> (t_created_at c, t_task_id c)) \<and>
        (\<forall>a. map_of (last_claimed_by_group (all_tasks s)) (fairness_group_key t) = Some a \<longrightarrow>
           (\<exists>b. map_of (last_claimed_by_group (all_tasks s)) (fairness_group_key c) = Some b \<and> a \<le> b)))"
proof -
  let ?cs = "filter (\<lambda>t. is_task_claimable t now model = Inr True) (all_tasks s)"
  let ?last = "last_claimed_by_group (all_tasks s)"
  obtain t where t: "u = claim_task (iso_format now) t" "lookup s (t_task_id t) = Some t"
      "s' = put_task u s" "is_task_claimable t now model = Inr True" "t = choose_fair_task ?cs (all_tasks s)"
    using claim_next_some [OF assms] by blast
  have ne: "?cs \<noteq> []" using t(2,4) assms(1) all_tasks_lookup by (auto simp: filter_empty_conv)
  have fifo: "(t_created_at t, t_task_id t) \<le> (t_created_at c, t_task_id c)"
    if "c \<in> set ?cs" "fairness_group_key c = fairness_group_key t" for c
    using choose_fair_task_spec(3) [OF ne, of c "all_tasks s"] that t(5) by simp
  have rank: "\<exists>b. map_of ?last (fairness_group_key c) = Some b \<and> a \<le> b"
    if "c \<in> set ?cs" "map_of ?last (fairness_group_key t) = Some a" for c a
    using choose_fair_task_spec(2) [OF ne that(1), of "all_tasks s", folded t(5)] that(2)
    by (auto simp: group_sort_key_def split: option.splits)
  show ?thesis
    using t fifo rank claim_next_inv [OF assms] by (intro exI [of _ t]) auto
qed

theorem claim_takes_the_fair_task_witness:
  "\<exists>t. lookup sample_store (t_task_id t) = Some t \<and> running1 = claim_task (iso_format noon_us) t"
  using claim_takes_the_fair_task [OF sample_store_inv sample_claims(1)] by blast

text \<open>A claim on a consistent store whose retry times can be read always returns; it finds
  nothing exactly when no task is claimable, and then changes nothing.\<close>

theorem claim_finds_the_work:
  assumes "\<forall>t\<in>set (all_tasks s). readable_times t"
  shows "\<exists>s' r. claim_next now model s = Inr (s', r) \<and>
     (r = None \<longleftrightarrow> (\<forall>t\<in>set (all_tasks s). is_task_claimable t now model = Inr False)) \<and> (r = None \<longrightarrow> s' = s)"
proof -
  obtain s' r where e: "claim_next now model s = Inr (s', r)" using claim_next_total [OF assms] by blast
  from e show ?thesis
  proof (cases rule: claim_next_cases)
    case none
    with e show ?thesis by blast
  next
    case (some cs t)
    then obtain c where "c \<in> set (all_tasks s)" "is_task_claimable c now model = Inr True"
      by (auto simp: filter_empty_conv)
    then have "\<not> (\<forall>t\<in>set (all_tasks s). is_task_claimable t now model = Inr False)" by force
    with e some(4) show ?thesis by (intro exI [of _ s'] exI [of _ r]) simp
  qed
qed

theorem claim_finds_the_work_witness:
  "\<exists>s' r. claim_next noon_us None sample_store = Inr (s', r) \<and> r \<noteq> None"
proof -
  have "\<forall>t\<in>set (all_tasks sample_store). t_next_attempt_at t = None" by code_simp
  then have "\<forall>t\<in>set (all_tasks sample_store). readable_times t" by (simp add: readable_times_def)
  from claim_finds_the_work [OF this, of noon_us None] show ?thesis
    using sample_claims(1) by auto
qed

text \<open>C4: groups take turns: right after a claim for one group, the next claim goes to another one
  as long as another one has a claimable task.\<close>

theorem groups_take_turns:
  assumes "store_inv s" "claim_next now1 m1 s = Inr (s1, Some t1)" "claim_next now2 m2 s1 = Inr (s2, Some t2)"
    "\<forall>t\<in>set (all_tasks s). t_updated_at t < iso_format now1" "\<forall>t\<in>set (all_tasks s). 0 \<le> t_attempt_count t"
    "c \<in> set (all_tasks s1)" "is_task_claimable c now2 m2 = Inr True"
    "fairness_group_key c \<noteq> fairness_group_key t1"
  shows "fairness_group_key t2 \<noteq> fairness_group_key t1"
  by (rule claim_rotates [OF assms(1-4,6-8,5)])

theorem groups_take_turns_witness:
  "fairness_group_key running2 \<noteq> fairness_group_key running1"
proof (rule groups_take_turns [OF sample_store_inv sample_claims])
  show "\<forall>t\<in>set (all_tasks sample_store). t_updated_at t < iso_format noon_us"
    "\<forall>t\<in>set (all_tasks sample_store). 0 \<le> t_attempt_count t"
    "task2 \<in> set (all_tasks (put_task running1 sample_store))"
    "is_task_claimable task2 (noon_us + 1) None = Inr True"
    "fairness_group_key task2 \<noteq> fairness_group_key running1"
    by code_simp+
qed

section \<open>Reading and cancelling\<close>

text \<open>A tenant sees and cancels only its own tasks: every read answers with tasks of the asking
  tenant, and a cancellation leaves the tasks of all other tenants as they are.\<close>

theorem tenants_are_isolated:
  assumes "store_inv s" "cancel_task now tenant i s = (s', r)"
  shows "(\<forall>t. get_task s tenant i = Some t \<longleftrightarrow> lookup s i = Some t \<and> t_tenant t = tenant) \<and>
     (\<forall>t \<in> set (list_tasks s tenant state model limit). t_tenant t = tenant \<and> lookup s (t_task_id t) = Some t) \<and>
     (\<forall>t. r = Some t \<longrightarrow> t_tenant t = tenant \<and> t_task_id t = i) \<and>
     (\<forall>j t. lookup s j = Some t \<and> t_tenant t \<noteq> tenant \<longrightarrow> lookup s' j = Some t)"
proof -
  have "t_tenant t = tenant \<and> lookup s (t_task_id t) = Some t"
    if "t \<in> set (list_tasks s tenant state model limit)" for t
    using in_set_takeD [OF that [unfolded list_tasks_def]] assms(1) all_tasks_lookup by auto
  moreover have "\<forall>t. r = Some t \<longrightarrow> t_tenant t = tenant \<and> t_task_id t = i"
    and "\<forall>j t. lookup s j = Some t \<and> t_tenant t \<noteq> tenant \<longrightarrow> lookup s' j = Some t"
    using assms(2) store_invD(2) [OF assms(1), of i]
    by (auto simp: cancel_task_def get_task_def cancelled_task_def split: option.splits if_splits)
  ultimately show ?thesis by (auto simp: get_task_def split: option.splits)
qed

theorem tenants_are_isolated_witness:
  "get_task sample_store ''acme'' ''task_0'' = Some task1 \<and> get_task sample_store ''evil'' ''task_0'' = None \<and>
   lookup (fst (cancel_task noon ''evil'' ''task_0'' sample_store)) ''task_0'' = Some task1"
proof -
  have t: "t_tenant task1 = ''acme''" by code_simp
  show ?thesis
    using tenants_are_isolated [where now = noon and tenant = "''acme''" and i = "''task_0''",
        OF sample_store_inv prod.collapse [symmetric]]
      tenants_are_isolated [where now = noon and tenant = "''evil''" and i = "''task_0''",
        OF sample_store_inv prod.collapse [symmetric]] t
    by (auto simp: sample_lookup get_task_def)
qed

text \<open>A listing is sorted by creation, holds at most the limit, and is cut only at its end: a
  matching task that is left out comes no earlier than any task listed, and then the limit is used
  up.\<close>

theorem listing_is_the_oldest_matches:
  fixes s tenant state model limit
  defines "found \<equiv> list_tasks s tenant state model limit"
  assumes "store_inv s"
  shows "sorted (map (\<lambda>t. (t_created_at t, t_task_id t)) found) \<and> distinct (map t_task_id found) \<and>
     int (length found) \<le> max 1 limit \<and>
     (\<forall>t \<in> set (all_tasks s) - set found. t_tenant t = tenant \<and> (\<forall>x. state = Some x \<longrightarrow> t_state t = x) \<and>
        (\<forall>m. model = Some m \<longrightarrow> t_model t = m) \<longrightarrow>
        int (length found) = max 1 limit \<and>
        (\<forall>u \<in> set found. (t_created_at u, t_task_id u) \<le> (t_created_at t, t_task_id t)))"
proof -
  let ?k = "\<lambda>t. (t_created_at t, t_task_id t)" and ?n = "nat (max 1 limit)"
  let ?p = "\<lambda>t. t_tenant t = tenant \<and> (state = None \<or> Some (t_state t) = state) \<and>
     (model = None \<or> Some (t_model t) = model)"
  define xs where "xs = sort_key ?k (filter ?p (all_tasks s))"
  have found: "found = take ?n xs" by (simp add: found_def list_tasks_def xs_def)
  have sorted: "sorted (map ?k (take ?n xs @ drop ?n xs))" by (simp add: xs_def)
  have dist: "distinct (map t_task_id (filter ?p (all_tasks s)))"
    using store_distinct(1) [OF assms(2)] by (rule distinct_map_filter)
  have dist: "distinct (map t_task_id xs)"
    unfolding distinct_map
  proof
    show "distinct xs" using dist by (simp add: xs_def distinct_map)
    show "inj_on t_task_id (set xs)" using dist by (simp add: xs_def distinct_map)
  qed
  have cut: "t \<in> set (drop ?n xs)" if "t \<in> set (all_tasks s) - set found" "?p t" for t
  proof -
    have "t \<in> set (take ?n xs @ drop ?n xs)" using that by (simp add: xs_def)
    with that show ?thesis by (auto simp: found simp del: append_take_drop_id)
  qed
  show ?thesis
  proof (intro conjI ballI impI)
    show "sorted (map ?k found)"
      using sorted by (simp add: found sorted_wrt_append del: append_take_drop_id)
    show "distinct (map t_task_id found)"
      using distinct_take [OF dist, of ?n] by (simp add: found take_map)
    show "int (length found) \<le> max 1 limit" by (simp add: found)
  next
    fix t
    assume t: "t \<in> set (all_tasks s) - set found"
      and p: "t_tenant t = tenant \<and> (\<forall>x. state = Some x \<longrightarrow> t_state t = x) \<and> (\<forall>m. model = Some m \<longrightarrow> t_model t = m)"
    have c: "t \<in> set (drop ?n xs)" by (rule cut [OF t]) (use p in \<open>cases state; cases model; simp\<close>)
    then have "?n < length xs" by (cases "?n < length xs") auto
    then show "int (length found) = max 1 limit" by (simp add: found)
    show "?k u \<le> ?k t" if "u \<in> set found" for u
      using sorted c that by (auto simp: found sorted_wrt_append simp del: append_take_drop_id)
  qed
qed

theorem listing_is_the_oldest_matches_witness:
  "int (length (list_tasks sample_store ''acme'' None None 0)) \<le> 1"
  using listing_is_the_oldest_matches [OF sample_store_inv, of "''acme''" None None 0] by simp

text \<open>Cancelling marks a live task cancelled and never touches a finished one; cancelling again
  changes nothing and answers the same.\<close>

theorem cancelling_is_idempotent:
  assumes "store_inv s" "lookup s i = Some t" "t_tenant t = tenant" "cancel_task now tenant i s = (s', r)"
  shows "(t_state t \<in> terminal_states \<longrightarrow> s' = s \<and> r = Some t) \<and>
     (t_state t \<notin> terminal_states \<longrightarrow>
        lookup s' = (lookup s)(i \<mapsto> cancelled_task now t) \<and> r = Some (cancelled_task now t)) \<and>
     cancel_task later tenant i s' = (s', r)"
proof -
  have id: "t_task_id t = i" using store_invD(2) [OF assms(1,2)] .
  have own: "cancel_task n tenant i s = (if t_state t \<in> terminal_states then (s, Some t)
      else (put_task (cancelled_task n t) s, Some (cancelled_task n t)))" for n
    using assms(2,3) by (simp add: cancel_task_def get_task_def)
  show ?thesis
  proof (cases "t_state t \<in> terminal_states")
    case True
    with own assms(4) show ?thesis by auto
  next
    case False
    with own assms(4) have e: "s' = put_task (cancelled_task now t) s" "r = Some (cancelled_task now t)" by auto
    have "cancel_task later tenant i s' = (s', r)"
      using id assms(3) by (simp add: e cancel_task_def get_task_def terminal_states_def cancelled_task_def)
    with e False id show ?thesis by (simp add: cancelled_task_def)
  qed
qed

theorem cancelling_is_idempotent_witness:
  "\<exists>s' r. cancel_task noon ''acme'' ''task_0'' sample_store = (s', r) \<and>
     cancel_task early ''acme'' ''task_0'' s' = (s', r)"
proof -
  have t: "lookup sample_store ''task_0'' = Some task1" "t_tenant task1 = ''acme''"
    by (simp add: sample_lookup) code_simp
  obtain s' r where e: "cancel_task noon ''acme'' ''task_0'' sample_store = (s', r)" by fastforce
  with cancelling_is_idempotent [OF sample_store_inv t e, of early] show ?thesis by blast
qed

section \<open>The JSON file\<close>



section \<open>Parsing\<close>

text \<open>C6: a request that parses yields one well-formed task per entry of \<open>tasks\<close>, in order: all
  identifying texts are non-empty and stripped, tokens are in range, the required context is the sum
  of input and output, and tenant and priority are those of the common orchestration, the priority a
  known one.\<close>

theorem parsed_tasks_are_well_formed:
  assumes "parse_task_queue_payload body = Inr qs"
  shows "\<exists>payload common raw. body = JDict payload \<and> dget payload ''orchestration'' = JDict common \<and>
     dget payload ''tasks'' = JList raw \<and> qs \<noteq> [] \<and> length qs = length raw \<and>
     (\<forall>q\<in>set qs. wf_queue_task q \<and> JStr (t_priority q) = dget common ''priority'' \<and> t_priority q \<in> PRIORITIES \<and>
        string_value (dget common ''tenant'') ''orchestration.tenant'' = Inr (t_tenant q))"
proof -
  obtain payload common model endpoint template vars raw where p:
    "body = JDict payload" "dget payload ''orchestration'' = JDict common"
    "validate_common_orchestration common = Inr ()" "dget payload ''tasks'' = JList raw" "raw \<noteq> []"
    "parse_raw_tasks common model endpoint template vars 0 raw = Inr qs"
    by (rule parse_payload_cases [OF assms])
  have prio: "\<exists>w. dget common ''priority'' = JStr w \<and> w \<in> PRIORITIES"
  proof -
    have v: "each_res (\<lambda>f. string_value (dget common f) (''orchestration.'' @ f))
          [''tenant'', ''project'', ''service'', ''task'', ''priority''] = Inr ()"
        "py_str (dget common ''priority'') \<in> PRIORITIES"
      using p(3) by (auto simp: validate_common_orchestration_def bind_res_Inr_iff simp del: each_res.simps split: if_splits)
    then obtain w where "dget common ''priority'' = JStr w"
      by (auto simp: bind_res_Inr_iff string_value_def split: json.splits)
    with v(2) show ?thesis by simp
  qed
  have "wf_queue_task q \<and> JStr (t_priority q) = dget common ''priority'' \<and> t_priority q \<in> PRIORITIES \<and>
        string_value (dget common ''tenant'') ''orchestration.tenant'' = Inr (t_tenant q)"
    if q: "q \<in> set qs" for q
  proof -
    obtain j where j: "j < length raw" "q = qs ! j"
      using q parse_raw_tasks_all2 [OF p(6)] by (metis in_set_conv_nth)
    obtain d where d: "parse_queue_task d common model endpoint template vars j = Inr q"
      using parse_raw_tasks_all2 [OF p(6)] j by auto
    have t: "string_value (dget common ''tenant'') (''orchestration.'' @ ''tenant'') = Inr (t_tenant q)"
      by (rule parse_queue_task_common [OF _ d]) simp
    have "string_value (dget common ''priority'') (''orchestration.'' @ ''priority'') = Inr (t_priority q)"
      by (rule parse_queue_task_common [OF _ d]) simp
    with prio have "JStr (t_priority q) = dget common ''priority''" "t_priority q \<in> PRIORITIES"
      by (auto simp: string_value_def priorities_clean split: if_splits)
    with t parse_queue_task_wf [OF d] show ?thesis by simp
  qed
  with p show ?thesis
    using parse_raw_tasks_all2 [OF p(6)] by (intro exI [of _ payload] exI [of _ common] exI [of _ raw]) auto
qed

theorem parsed_tasks_are_well_formed_witness:
  "\<exists>qs. parse_task_queue_payload sample_body = Inr qs \<and> length qs = 2 \<and> (\<forall>q\<in>set qs. wf_queue_task q) \<and>
     map t_payload qs = [[(''messages'', JList [JStr ''Hi a'']), (''n'', JStr ''a'')],
       [(''messages'', JList [JStr ''Hi b'']), (''n'', JStr ''b'')]]"
proof (cases "parse_task_queue_payload sample_body")
  case (Inl e)
  have "case parse_task_queue_payload sample_body of Inl _ \<Rightarrow> False | Inr _ \<Rightarrow> True" by code_simp
  with Inl show ?thesis by simp
next
  case (Inr qs)
  have "case parse_task_queue_payload sample_body of Inl _ \<Rightarrow> False | Inr qs \<Rightarrow>
     map t_payload qs = [[(''messages'', JList [JStr ''Hi a'']), (''n'', JStr ''a'')],
       [(''messages'', JList [JStr ''Hi b'']), (''n'', JStr ''b'')]]" by code_simp
  then have p: "map t_payload qs = [[(''messages'', JList [JStr ''Hi a'']), (''n'', JStr ''a'')],
       [(''messages'', JList [JStr ''Hi b'']), (''n'', JStr ''b'')]]" by (simp add: Inr)
  from arg_cong [OF p, of length] have "length qs = 2" by simp
  moreover have "\<forall>q\<in>set qs. wf_queue_task q"
    using parsed_tasks_are_well_formed [OF Inr] by (elim exE conjE) simp
  ultimately show ?thesis using p Inr by (intro exI [of _ qs]) simp
qed

text \<open>C7: whatever JSON value is sent, parsing either succeeds or ends with a protocol error, which
  the handler answers with status 400, or with the overflow of converting an infinite number.\<close>

theorem parsing_fails_cleanly:
  assumes "parse_task_queue_payload body = Inl e"
  shows "e = OverflowError \<or> (\<exists>msg. e = TaskProtocolError msg)"
  using admits_parse_payload [of body] assms by (simp add: admits_def)

theorem parsing_fails_cleanly_witness:
  "parse_task_queue_payload JNull = Inl (TaskProtocolError ''Task queue request body must be a JSON object.'') \<and>
   (\<exists>msg. Inl (TaskProtocolError ''Task queue request body must be a JSON object.'') =
      (Inl (TaskProtocolError msg) :: unit res))"
proof -
  have e: "parse_task_queue_payload JNull = Inl (TaskProtocolError ''Task queue request body must be a JSON object.'')"
    by (simp add: parse_task_queue_payload_def)
  from parsing_fails_cleanly [OF e] e show ?thesis by blast
qed

text \<open>A placeholder with a plain name that fills a whole string is replaced by the value of the
  variable, whatever its type; inside a longer string it is replaced by the text of the value, the
  rest of the string is kept, and a name that is not defined is an error.\<close>

theorem placeholders_are_substituted:
  assumes "template_name n" "CHR ''.'' \<notin> set n" "list_all py_space ws1" "list_all py_space ws2"
    "CHR ''{'' \<notin> set pre" "\<not> has_open post"
  shows "render_template_string (''{{'' @ ws1 @ n @ ws2 @ ''}}'') vars field =
       (case map_of vars n of Some v \<Rightarrow> Inr v | None \<Rightarrow> Inl (TaskProtocolError
          (field @ '' references unknown template variable '' @ repr_str n @ ''.''))) \<and>
     template_sub vars field (pre @ ''{{'' @ ws1 @ n @ ws2 @ ''}}'' @ post) =
       (case map_of vars n of Some v \<Rightarrow> Inr (pre @ template_text v @ post) | None \<Rightarrow> Inl (TaskProtocolError
          (field @ '' references unknown template variable '' @ repr_str n @ ''.'')))"
proof (intro conjI)
  show "render_template_string (''{{'' @ ws1 @ n @ ws2 @ ''}}'') vars field =
       (case map_of vars n of Some v \<Rightarrow> Inr v | None \<Rightarrow> Inl (TaskProtocolError
          (field @ '' references unknown template variable '' @ repr_str n @ ''.'')))"
    by (simp only: render_full_match [OF assms(1,3,4)] template_variable_simple [OF assms(2)])
  show "template_sub vars field (pre @ ''{{'' @ ws1 @ n @ ws2 @ ''}}'' @ post) =
       (case map_of vars n of Some v \<Rightarrow> Inr (pre @ template_text v @ post) | None \<Rightarrow> Inl (TaskProtocolError
          (field @ '' references unknown template variable '' @ repr_str n @ ''.'')))"
    by (simp only: template_sub_prefix [OF assms(5)] template_sub_placeholder [OF assms(1,3,4)]
        template_variable_simple [OF assms(2)] template_sub_plain [OF assms(6)]) (simp split: option.splits)
qed

theorem placeholders_are_substituted_witness:
  "template_sub [(''a'', JInt 7)] ''f'' (''x='' @ ''{{'' @ '' '' @ ''a'' @ [] @ ''}}'' @ ''!'') = Inr ''x=7!''"
proof -
  have h: "template_name ''a''" "list_all py_space '' ''" "\<not> has_open ''!''" by code_simp+
  have "template_text (JInt 7) = ''7''" by code_simp
  then show ?thesis
    using placeholders_are_substituted [OF h(1) _ h(2) _ _ h(3), of "[]" "''x=''" "[(''a'', JInt 7)]" "''f''"]
    by simp
qed

end
