(* ===== verification/Executor_Properties.thy ===== *)
theory Executor_Properties
  imports Samples
begin

text \<open>
  The properties of the task executor of \<open>queue_proxy/main.py\<close>: what a turn of its loop records,
  what the store may look like after any interleaving of turns with submissions and cancellations,
  and the executions in which the recorded state is not the one the task's owner expects.
\<close>

section \<open>Samples\<close>

definition sample_policy :: model_policy where
  "sample_policy = \<lparr>public_name = ''m'', backend_model = ''m'', aliases = [], max_active_requests = 2,
     max_queued_requests = 4, queue_timeout_seconds = Fin 30, default_max_output_tokens = 512,
     max_input_tokens = 8192, max_output_tokens = 1024, max_total_tokens = 9216,
     token_estimate_chars_per_token = Fin 4, output_over_limit_behavior = ''cap''\<rparr>"

definition sample_registry :: policy_registry where
  "sample_registry = \<lparr>policies = [(''m'', sample_policy)], default_policy = sample_policy,
     dynamic_models_enabled = False\<rparr>"

definition sample_replies :: registry_replies where
  "sample_replies = \<lparr>r_list = Failed ''ConnectError'', r_allocate = Failed ''ConnectError'',
     r_lease = Failed ''ConnectError'', r_release = Failed ''ConnectError''\<rparr>"

definition sample_clock :: failure_clock where
  "sample_clock = \<lparr>fc_now = noon_us, fc_text = noon\<rparr>"

definition sample_turn :: turn_env where
  "sample_turn = \<lparr>te_clock = sample_clock, te_reconcile = Reply 200 (Inr (JDict [])),
     te_clock2 = sample_clock, te_reconcile2 = Failed ''ConnectError''\<rparr>"

definition sample_running_store :: store where
  "sample_running_store = put_task running1 sample_store"

lemma sample_running_inv [simp]: "store_inv sample_running_store"
  using claim_next_inv [OF sample_store_inv sample_claims(1)] by (simp add: sample_running_store_def)

lemma running1_simps [simp]:
  "t_task_id running1 = ''task_0''" "t_state running1 = ''running''" "t_attempt_count running1 = 1"
  "t_tenant running1 = ''acme''" "t_started_at running1 = Some noon"
  by code_simp+

lemma sample_running_lookup [simp]:
  "lookup sample_running_store = [''task_0'' \<mapsto> running1, ''task_1'' \<mapsto> task2]"
  by (simp add: sample_running_store_def sample_lookup fun_eq_iff)

lemma sample_turn_simps [simp]:
  "fc_text sample_clock = noon" "fc_now sample_clock = noon_us" "te_clock sample_turn = sample_clock"
  "te_clock2 sample_turn = sample_clock" "noon \<noteq> []"
  by (simp_all add: sample_turn_def sample_clock_def noon_def)

lemma sample_delay:
  "retry_delay_seconds sample_settings 1 = Inr (Fin 5)"
  "add_seconds noon_us (Fin 5) = Inr (noon_us + 5000000)"
  "iso_format (noon_us + 5000000) = ''2026-01-01T12:00:05+00:00''"
proof -
  have "fl 1 = Fin 1" "fl 5 = Fin 5" using fl_of_int_exact [of 1] fl_of_int_exact [of 5] by simp_all
  then show "retry_delay_seconds sample_settings 1 = Inr (Fin 5)"
    by (simp add: retry_delay_seconds_def fmin_def)
  have "fl 0 = Fin 0" by (simp add: fl_def)
  moreover have "round_half_even 5000000 = 5000000" using round_half_even_int [of 5000000] by simp
  moreover have "rat_trunc 5 = 5" by (simp add: rat_trunc_def)
  ultimately have us: "timedelta_seconds (Fin 5) = Inr 5000000" by (simp add: timedelta_seconds_def us_per_day_def)
  have "0 \<le> noon_us + 5000000 \<and> noon_us + 5000000 < max_instant" by code_simp
  with us show "add_seconds noon_us (Fin 5) = Inr (noon_us + 5000000)" by (simp add: add_seconds_def)
  show "iso_format (noon_us + 5000000) = ''2026-01-01T12:00:05+00:00''" by code_simp
qed

section \<open>Recording a failure\<close>

lemma add_seconds_range: "add_seconds now x = Inr due \<Longrightarrow> 0 \<le> due \<and> due < max_instant"
  by (auto simp: add_seconds_def res_iff split: if_splits)

text \<open>C20: a retryable failure with attempts left puts the task back in the queue, and it can be claimed
  from the moment the back-off delay has passed, not before; any other failure ends the task as
  failed with the error and the attempt count. No other task changes.\<close>

theorem failures_are_retried_or_final:
  assumes "store_inv s" "lookup s (t_task_id u) = Some t" "fc_text clock \<noteq> []"
    "record_task_failure memory_ops st clock u e retryable s = (s', Inr ())"
  shows "\<exists>t'. lookup s' = (lookup s)(t_task_id u \<mapsto> t') \<and>
     (if retryable \<and> t_attempt_count u < task_executor_max_attempts st
      then t_state t' = ''queued'' \<and> (\<exists>delay due. retry_delay_seconds st (t_attempt_count u) = Inr delay \<and>
           add_seconds (fc_now clock) delay = Inr due \<and> t_next_attempt_at t' = Some (iso_format due) \<and>
           (\<forall>later model. is_task_claimable t' later model =
              Inr ((model = None \<or> Some (t_model t') = model) \<and> due \<le> later)))
      else t_state t' = ''failed'' \<and> t_error t' = Some (enriched_error st u e retryable) \<and>
           t_next_attempt_at t' = None \<and> t_finished_at t' = Some (fc_text clock))"
proof (cases "retryable \<and> t_attempt_count u < task_executor_max_attempts st")
  case True
  obtain delay where d1: "retry_delay_seconds st (t_attempt_count u) = Inr delay"
    using assms(4) True
    by (cases "retry_delay_seconds st (t_attempt_count u)") (simp_all add: record_task_failure_def Let_def)
  obtain due where d2: "add_seconds (fc_now clock) delay = Inr due"
    using assms(4) True d1
    by (cases "add_seconds (fc_now clock) delay") (simp_all add: record_task_failure_def Let_def)
  note d = d1 d2
  let ?e = "dset ''retry_delay_seconds'' (json_of_flt delay) (dset ''next_attempt_at'' (JStr (iso_format due))
      (enriched_error st u e retryable))"
  obtain s1 where "op_record_retry memory_ops (fc_text clock) (t_task_id u) ?e (iso_format due) s =
        Inr (s1, retry_task (fc_text clock) ?e (iso_format due) t)"
      "lookup s1 = (lookup s)(t_task_id u \<mapsto> retry_task (fc_text clock) ?e (iso_format due) t)"
    using memory.retry_ok [OF assms(1,2,3) iso_format_not_Nil] by blast
  moreover have "is_task_claimable (retry_task (fc_text clock) ?e (iso_format due) t) later model =
      Inr ((model = None \<or> Some (t_model t) = model) \<and> due \<le> later)" for later model
    using add_seconds_range [OF d2] parse_iso_format [of due]
    by (simp add: is_task_claimable_def retry_task_def CLAIMABLE_STATES_def)
  ultimately show ?thesis using assms(4) True d
    by (intro exI [of _ "retry_task (fc_text clock) ?e (iso_format due) t"])
      (auto simp: record_task_failure_def Let_def retry_task_def)
next
  case False
  let ?e = "enriched_error st u e retryable"
  obtain s1 where "op_record_error memory_ops (fc_text clock) (t_task_id u) ?e s = Inr (s1, fail_task (fc_text clock) ?e t)"
      "lookup s1 = (lookup s)(t_task_id u \<mapsto> fail_task (fc_text clock) ?e t)"
    using memory.error_ok [OF assms(1,2,3)] by blast
  with assms(4) False show ?thesis
    by (intro exI [of _ "fail_task (fc_text clock) ?e t"]) (auto simp: record_task_failure_def Let_def fail_task_def)
qed

theorem failures_are_retried_or_final_witness:
  "\<exists>t'. lookup (fst (record_task_failure memory_ops sample_settings sample_clock running1 [] True sample_running_store))
       ''task_0'' = Some t' \<and> t_state t' = ''queued'' \<and> t_next_attempt_at t' = Some ''2026-01-01T12:00:05+00:00''"
proof -
  let ?run = "record_task_failure memory_ops sample_settings sample_clock running1 [] True sample_running_store"
  have lk: "lookup sample_running_store (t_task_id running1) = Some running1" and ck: "fc_text sample_clock \<noteq> []"
    by (simp_all add: sample_clock_def noon_def)
  note d = sample_delay(1)
  have a: "add_seconds (fc_now sample_clock) (Fin 5) = Inr (noon_us + 5000000)"
    using sample_delay(2) by (simp add: sample_clock_def)
  note iso = sample_delay(3)
  obtain s' r where run: "?run = (s', r)" by fastforce
  let ?e = "dset ''retry_delay_seconds'' (json_of_flt (Fin 5))
    (dset ''next_attempt_at'' (JStr (iso_format (noon_us + 5000000))) (enriched_error sample_settings running1 [] True))"
  obtain s1 where "op_record_retry memory_ops (fc_text sample_clock) (t_task_id running1) ?e
      (iso_format (noon_us + 5000000)) sample_running_store =
        Inr (s1, retry_task (fc_text sample_clock) ?e (iso_format (noon_us + 5000000)) running1)"
    using memory.retry_ok [OF sample_running_inv lk ck iso_format_not_Nil] by blast
  with run d a have "r = Inr ()" by (simp add: record_task_failure_def Let_def)
  from failures_are_retried_or_final [OF sample_running_inv lk ck run [unfolded this]] d a iso run
  show ?thesis by auto
qed

text \<open>When it is finite, the delay before the next attempt never exceeds the configured maximum;
  from the 1025th attempt on the power of two no longer fits a float and the computation raises.\<close>

theorem retry_delay_is_capped:
  assumes "task_executor_retry_base_seconds st = Fin b" "task_executor_retry_max_seconds st = Fin m"
  shows "(\<forall>n d. retry_delay_seconds st n = Inr d \<longrightarrow> flt_le d (Fin m)) \<and>
     (\<forall>n. 1025 \<le> n \<longrightarrow> retry_delay_seconds st n = Inl OverflowError)"
proof (intro conjI allI impI)
  fix n d
  assume d: "retry_delay_seconds st n = Inr d"
  then obtain q where "fl (2 ^ nat (max 0 (n - 1))) = Fin q"
    by (auto simp: retry_delay_seconds_def bind_res_Inr_iff split: flt.splits)
  moreover have "fl x \<noteq> FNaN" for x by (simp add: fl_def Let_def)
  ultimately show "flt_le d (Fin m)"
    using retry_delay_bound [OF d] assms by simp
next
  fix n :: int
  assume n: "1025 \<le> n"
  have "(2 :: int) ^ 1024 \<le> 2 ^ nat (max 0 (n - 1))"
    by (rule power_increasing) (use n in simp_all)
  from fl_of_int_overflow [OF this] show "retry_delay_seconds st n = Inl OverflowError"
    by (simp only: retry_delay_seconds_def py_float.simps flt.case bind_res.simps)
qed

theorem retry_delay_is_capped_witness:
  "\<exists>d. retry_delay_seconds sample_settings 9 = Inr d \<and> flt_le d (Fin 300)"
proof -
  have h: "task_executor_retry_base_seconds sample_settings = Fin 5" "task_executor_retry_max_seconds sample_settings = Fin 300"
    by simp_all
  have "fl 256 = Fin 256" "fl 1280 = Fin 1280"
    using fl_of_int_exact [of 256] fl_of_int_exact [of 1280] by simp_all
  then have "retry_delay_seconds sample_settings 9 = Inr (Fin 300)"
    by (simp add: retry_delay_seconds_def fmin_def)
  with retry_delay_is_capped [OF h] show ?thesis by blast
qed

section \<open>Any interleaving\<close>

definition sample_config :: "json_store config" where
  "sample_config = \<lparr>c_store = save_after sample_store, c_phase = Waiting\<rparr>"

lemma sample_config_simps [simp]:
  "c_store sample_config = save_after sample_store" "c_phase sample_config = Waiting"
  by (simp_all add: sample_config_def)

lemma sample_config_ok: "sys_ok sample_settings (json_view (save_after sample_store)) Waiting"
proof -
  have "attempts_ok sample_settings task1" "attempts_ok sample_settings task2" by code_simp+
  then show ?thesis by (auto simp: sys_ok_def phase_ok_def held_def sample_lookup split: if_splits)
qed

lemma sample_run:
  "exec_run json_ops sample_settings sample_registry (\<lambda>_. []) sample_config [Claimed ''task_0'']
     \<lparr>c_store = save_after sample_running_store, c_phase = Executing running1\<rparr>"
proof -
  have c: "op_claim_next json_ops noon_us None (c_store sample_config) = Inr (save_after sample_running_store, Some running1)"
    by (simp add: json_ops_def save_after_def sample_claims sample_running_store_def)
  have w: "check_seconds_between (Some (t_created_at running1)) (t_started_at running1) = Inr ()" by code_simp
  show ?thesis
    using exec_step.claim [OF _ c w] by (auto intro: exec_run.intros)
qed

text \<open>C19: however submissions, cancellations and executor turns interleave over the file store, a
  task is claimed at most as often as the settings allow attempts, less the attempts it had.\<close>

theorem attempts_are_bounded:
  assumes "exec_run json_ops st reg describe c es c'" "json_inv (c_store c)"
    "sys_ok st (json_view (c_store c)) (c_phase c)" "1 \<le> task_executor_max_attempts st"
  shows "int (length (filter ((=) (Claimed i)) es)) \<le>
     task_executor_max_attempts st - attempts_of (json_view (c_store c)) i"
  by (rule json.run_attempt_bound [OF assms])

theorem attempts_are_bounded_witness:
  "int (length (filter ((=) (Claimed ''task_0'')) [Claimed ''task_0''])) \<le>
     3 - attempts_of (json_view (save_after sample_store)) ''task_0''"
  using attempts_are_bounded [OF sample_run, of "''task_0''"] sample_config_ok by simp

text \<open>C18: every step of the executor over the memory store, whatever the lifecycle service and the
  upstream answer, is a step of the specification: the store changes by a submission, the
  cancellation of a live task, a claim of a queued task, or the recording of the held task alone.\<close>

theorem executor_refines_the_specification:
  assumes "exec_step memory_ops st reg describe c e c'" "store_inv (c_store c)"
    "phase_ok (lookup (c_store c)) (c_phase c)"
  shows "store_inv (c_store c') \<and>
     abs_step st (lookup (c_store c)) (c_phase c) e (lookup (c_store c')) (c_phase c')"
  by (rule memory.step_refines [OF assms])

theorem executor_refines_the_specification_witness:
  "\<exists>c' :: store config. abs_step sample_settings (lookup sample_store) Waiting (CancelledBy ''acme'' ''task_0'') (lookup (c_store c')) Waiting \<and>
     lookup (c_store c') ''task_0'' = Some (cancelled_task noon task1)"
proof -
  let ?c = "\<lparr>c_store = sample_store, c_phase = Waiting\<rparr>"
  have t: "t_tenant task1 = ''acme''" "t_state task1 = ''queued''" by code_simp+
  obtain s' r where e: "op_cancel_task memory_ops noon ''acme'' ''task_0'' sample_store = (s', r)" by fastforce
  then have s': "lookup s' ''task_0'' = Some (cancelled_task noon task1)"
    using memory.cancel_ok [OF sample_store_inv _ e] t by (simp add: sample_lookup terminal_states_def noon_def)
  have "exec_step memory_ops sample_settings sample_registry (\<lambda>_. []) ?c (CancelledBy ''acme'' ''task_0'') (?c\<lparr>c_store := s'\<rparr>)"
    by (rule exec_step.cancel [of noon]) (simp_all add: noon_def e [unfolded noon_def])
  from executor_refines_the_specification [OF this] s' show ?thesis
    by (intro exI [of _ "?c\<lparr>c_store := s'\<rparr>"]) (auto simp: phase_ok_def held_def)
qed

text \<open>C21: a task that succeeded, failed or was cancelled stays exactly as it is through any later
  execution, as long as the executor is not in the middle of executing it.\<close>

theorem finished_tasks_stay_finished:
  assumes "exec_run json_ops st reg describe c es c'" "json_inv (c_store c)"
    "sys_ok st (json_view (c_store c)) (c_phase c)" "1 \<le> task_executor_max_attempts st"
    "json_view (c_store c) i = Some t" "t_state t \<in> terminal_states" "unheld (c_phase c) i"
  shows "json_view (c_store c') i = Some t"
  by (rule json.run_untouched [OF assms(1-5) _ assms(7)]) (use assms(6) in \<open>auto simp: terminal_states_def\<close>)

theorem finished_tasks_stay_finished_witness:
  "\<exists>js c. json_view js ''task_0'' = Some (cancelled_task noon task1) \<and>
     exec_run json_ops sample_settings sample_registry (\<lambda>_. []) \<lparr>c_store = js, c_phase = Waiting\<rparr>
       [CancelledBy ''acme'' ''task_1''] c \<and>
     json_view (c_store c) ''task_0'' = Some (cancelled_task noon task1)"
proof -
  have t: "t_tenant task1 = ''acme''" "t_state task1 = ''queued''" by code_simp+
  obtain js r where e: "op_cancel_task json_ops noon ''acme'' ''task_0'' (save_after sample_store) = (js, r)" by fastforce
  have inv: "json_inv js" and v: "json_view js = (lookup sample_store)(''task_0'' \<mapsto> cancelled_task noon task1)"
    using json.cancel_ok [OF _ _ e] t by (simp_all add: sample_lookup terminal_states_def noon_def)
  have "attempts_ok sample_settings (cancelled_task noon task1)" "attempts_ok sample_settings task2" by code_simp+
  then have ok: "sys_ok sample_settings (json_view js) Waiting"
    by (auto simp: sys_ok_def phase_ok_def held_def v sample_lookup split: if_splits)
  obtain js2 r2 where "op_cancel_task json_ops noon ''acme'' ''task_1'' js = (js2, r2)" by fastforce
  then have "exec_step json_ops sample_settings sample_registry (\<lambda>_. []) \<lparr>c_store = js, c_phase = Waiting\<rparr>
      (CancelledBy ''acme'' ''task_1'') (\<lparr>c_store = js, c_phase = Waiting\<rparr>\<lparr>c_store := js2\<rparr>)"
    by (intro exec_step.cancel [of noon]) (simp_all add: noon_def)
  then have run: "exec_run json_ops sample_settings sample_registry (\<lambda>_. []) \<lparr>c_store = js, c_phase = Waiting\<rparr>
      [CancelledBy ''acme'' ''task_1''] \<lparr>c_store = js2, c_phase = Waiting\<rparr>"
    by (auto intro: exec_run.intros)
  have "t_state (cancelled_task noon task1) \<in> terminal_states" by code_simp
  with finished_tasks_stay_finished [OF run, of "''task_0''" "cancelled_task noon task1"] inv v ok run
  show ?thesis
    by (intro exI [of _ js] exI [of _ "\<lparr>c_store = js2, c_phase = Waiting\<rparr>"]) (simp add: unheld_def held_def)
qed

text \<open>C22: a task that is running when the process stops stays running for ever: after a restart no
  execution changes it unless its owner cancels it, so it is never executed again.\<close>

theorem running_tasks_are_lost_by_a_restart:
  assumes "json_inv js" "open_json_store now (js_disk js) = Inr js'" "json_view js i = Some t"
    "t_state t = ''running''" "\<forall>j u. json_view js j = Some u \<longrightarrow> attempts_ok st u" "1 \<le> task_executor_max_attempts st"
    "exec_run json_ops st reg describe \<lparr>c_store = js', c_phase = Waiting\<rparr> es c" "\<forall>e\<in>set es. \<not> cancels i e"
  shows "json_view (c_store c) i = Some t \<and> filter ((=) (Claimed i)) es = []"
proof -
  have js': "json_view js' = json_view js" "json_inv js'"
    using open_json_store_ok [OF assms(1,2)] by simp_all
  have ok: "sys_ok st (json_view js') Waiting"
    using assms(5) js'(1) by (simp add: sys_ok_def phase_ok_def held_def)
  have "json_view (c_store c) i = Some t"
    by (rule json.run_untouched [OF assms(7)]) (use js' ok assms in \<open>simp_all add: unheld_def held_def\<close>)
  moreover from this have "attempts_of (json_view (c_store c)) i = attempts_of (json_view js') i"
    using js'(1) assms(3) by (simp add: attempts_of_def)
  then have "filter ((=) (Claimed i)) es = []"
    using json.run_ok [OF assms(7), of i] js' ok assms(6) by simp
  ultimately show ?thesis by simp
qed

theorem running_tasks_are_lost_by_a_restart_witness:
  "\<exists>js' c. open_json_store (\<lambda>_. (noon, noon)) (js_disk (save_after sample_running_store)) = Inr js' \<and>
     exec_run json_ops sample_settings sample_registry (\<lambda>_. []) \<lparr>c_store = js', c_phase = Waiting\<rparr>
       [CancelledBy ''evil'' ''task_1''] c \<and>
     json_view (c_store c) ''task_0'' = Some running1"
proof -
  have inv: "json_inv (save_after sample_running_store)" by simp
  obtain js' where o: "open_json_store (\<lambda>_. (noon, noon)) (js_disk (save_after sample_running_store)) = Inr js'"
    using open_json_store_total [OF inv] by blast
  obtain js2 r where "op_cancel_task json_ops noon ''evil'' ''task_1'' js' = (js2, r)" by fastforce
  then have "exec_step json_ops sample_settings sample_registry (\<lambda>_. []) \<lparr>c_store = js', c_phase = Waiting\<rparr>
      (CancelledBy ''evil'' ''task_1'') (\<lparr>c_store = js', c_phase = Waiting\<rparr>\<lparr>c_store := js2\<rparr>)"
    by (intro exec_step.cancel [of noon]) (simp_all add: noon_def)
  then have run: "exec_run json_ops sample_settings sample_registry (\<lambda>_. []) \<lparr>c_store = js', c_phase = Waiting\<rparr>
      [CancelledBy ''evil'' ''task_1''] \<lparr>c_store = js2, c_phase = Waiting\<rparr>"
    by (auto intro: exec_run.intros)
  have ok: "\<forall>j u. json_view (save_after sample_running_store) j = Some u \<longrightarrow> attempts_ok sample_settings u"
  proof -
    have "attempts_ok sample_settings running1" "attempts_ok sample_settings task2" by code_simp+
    then show ?thesis by (simp split: if_splits)
  qed
  from running_tasks_are_lost_by_a_restart [OF inv o _ _ ok _ run, of "''task_0''" running1] o run
  show ?thesis by (auto simp: cancels_def)
qed

section \<open>What is recorded, and what is lost\<close>

text \<open>A turn on a due task whose payload is valid, with direct routing and an upstream that answers
  below 400, records the task as succeeded with the answer, and the loop goes on.\<close>

theorem a_good_answer_completes_the_task:
  fixes env body code t
  defines "finished \<equiv> succeed_task (fc_text (te_clock env))
       [(''status_code'', JInt code), (''body'', body), (''backend_instance_id'', JNull)] t"
  assumes "store_inv s" "claim_next now None s = Inr (s1, Some t)" "\<not> enable_backend_registry_routing st"
    "t_payload t \<noteq> []" "validate_executable_task_payload t = None"
    "code < 400" "response_body content_type text parsed = Inr body"
    "check_seconds_between (Some (t_created_at t)) (t_started_at t) = Inr ()"
    "check_seconds_between (t_started_at t) (Some (fc_text (te_clock env))) = Inr ()"
    "reconcile_current_task_capacity memory_ops st (te_reconcile env) (put_task finished s1) = Inr d"
  shows "executor_turn memory_ops st reg describe now rep (TaskResponse code content_type text parsed) env s =
       (put_task finished s1, Continues) \<and>
     lookup (put_task finished s1) = (lookup s)(t_task_id t \<mapsto> finished)"
proof -
  let ?r = "[(''status_code'', JInt code), (''body'', body), (''backend_instance_id'', JNull)]"
  obtain t0 where t0: "t = claim_task (iso_format now) t0" "s1 = put_task t s"
    by (rule claim_next_some [OF assms(2,3)])
  have inv: "store_inv s1" by (rule claim_next_inv [OF assms(2,3)])
  have v: "fst (execution_verdict st reg rep (TaskResponse code content_type text parsed) t) = Success ?r"
    using assms(4-8) by (simp add: execution_verdict_def resolve_backend_def opt_str_def Let_def)
  have "op_record_result memory_ops (fc_text (te_clock env)) (t_task_id t) ?r s1 = Inr (put_task finished s1, finished)"
    using modify_task_total [OF inv, of "t_task_id t" t] t0(2)
    by (simp add: memory_ops_def record_result_def finished_def)
  then have "apply_verdict memory_ops st (te_clock env) (te_reconcile env) t (Success ?r) s1 = (put_task finished s1, Inr ())"
    using assms(10,11) by (simp add: apply_verdict_def finished_def succeed_task_def)
  then have "finish_turn memory_ops st describe env t (Success ?r) s1 = (put_task finished s1, Inr ())"
    by (simp add: finish_turn_def)
  moreover have "op_claim_next memory_ops now None s = Inr (s1, Some t)"
    using assms(3) by (simp add: memory_ops_def)
  ultimately show ?thesis
    using assms(9) v t0(2) by (simp add: executor_turn_def) (simp add: finished_def succeed_task_def)
qed

lemma sample_readable:
  "check_seconds_between (Some (t_created_at running1)) (Some noon) = Inr ()"
  "check_seconds_between (Some noon) (Some noon) = Inr ()"
  "t_payload running1 = [(''messages'', JList [JStr ''hi''])]" "validate_executable_task_payload running1 = None"
  by code_simp+

definition sample_done :: stored_task where
  "sample_done = succeed_task noon
     [(''status_code'', JInt 200), (''body'', JStr ''hello''), (''backend_instance_id'', JNull)] running1"

lemma sample_done_plans: "\<exists>plans. op_context_plans memory_ops (put_task sample_done sample_running_store) = Inr plans"
proof -
  have "case op_context_plans memory_ops (put_task sample_done sample_running_store) of Inl _ \<Rightarrow> False | Inr _ \<Rightarrow> True"
    by code_simp
  then show ?thesis by (simp split: sum.splits)
qed

theorem a_good_answer_completes_the_task_witness:
  "executor_turn memory_ops sample_settings sample_registry (\<lambda>_. []) noon_us sample_replies
     (TaskResponse 200 ''text/plain'' ''hello'' (Inr JNull)) sample_turn sample_store =
     (put_task sample_done sample_running_store, Continues) \<and> t_state sample_done = ''succeeded''"
proof -
  have b: "response_body ''text/plain'' ''hello'' (Inr JNull) = Inr (JStr ''hello'')" by code_simp
  obtain d where "reconcile_current_task_capacity memory_ops sample_settings (te_reconcile sample_turn)
      (put_task sample_done sample_running_store) = Inr d"
    using sample_done_plans
    by (auto simp: reconcile_current_task_capacity_def reconcile_capacity_def client_post_json_def
        raise_for_status_def sample_turn_def)
  with a_good_answer_completes_the_task [OF sample_store_inv sample_claims(1), where env = sample_turn and
      code = 200 and st = sample_settings and body = "JStr ''hello''", OF _ _ _ _ b]
    sample_readable show ?thesis
    by (simp add: sample_done_def [symmetric] sample_running_store_def [symmetric]) (simp add: sample_done_def)
qed

text \<open>C23: cancelling a task that is being executed does not stay: the owner is told it is cancelled,
  and when the execution ends the same task is recorded as succeeded.\<close>

theorem cancelling_a_running_task_is_overwritten:
  assumes "store_inv s" "lookup s i = Some t" "t_tenant t = tenant" "t_state t = ''running''"
    "now \<noteq> []" "later \<noteq> []" "cancel_task now tenant i s = (s1, r)" "record_result later i result s1 = Inr (s2, u)"
  shows "\<exists>shown. r = Some shown \<and> t_state shown = ''cancelled'' \<and>
     lookup s2 i = Some u \<and> t_state u = ''succeeded'' \<and> t_result u = Some result"
proof -
  have c: "lookup s1 = (lookup s)(i \<mapsto> cancelled_task now t)" "r = Some (cancelled_task now t)" "store_inv s1"
    using memory.cancel_ok [OF assms(1,5), of tenant i s1 r] assms
    by (simp_all add: memory_ops_def terminal_states_def)
  then show ?thesis
    using memory.result_ok [OF c(3) _ assms(6), of i "cancelled_task now t" result] assms(8)
    by (auto simp: memory_ops_def succeed_task_def cancelled_task_def)
qed

theorem cancelling_a_running_task_is_overwritten_witness:
  "\<exists>s2 u. record_result noon ''task_0'' [] (fst (cancel_task noon ''acme'' ''task_0'' sample_running_store)) = Inr (s2, u) \<and>
     lookup s2 ''task_0'' = Some u \<and> t_state u = ''succeeded''"
proof -
  obtain s1 r where c: "cancel_task noon ''acme'' ''task_0'' sample_running_store = (s1, r)" by fastforce
  have s1: "store_inv s1" "lookup s1 ''task_0'' = Some (cancelled_task noon running1)"
    using memory.cancel_ok [OF sample_running_inv, of noon "''acme''" "''task_0''" s1 r] c
    by (simp_all add: memory_ops_def terminal_states_def noon_def)
  then obtain s2 u where u: "record_result noon ''task_0'' [] s1 = Inr (s2, u)"
    using memory.result_ok [OF s1(1) s1(2), of noon "[]"] by (auto simp: memory_ops_def noon_def)
  from cancelling_a_running_task_is_overwritten [OF sample_running_inv _ _ _ _ _ c u] u c
  show ?thesis by (auto simp: noon_def)
qed

text \<open>C24: when the task is recorded as succeeded but the answer of the reconcile call cannot be read
  as JSON, the loop's handler records the succeeded task as a retryable failure: it is queued again.\<close>

theorem a_succeeded_task_is_queued_again:
  assumes "store_inv s" "lookup s (t_task_id t) = Some t" "fc_text (te_clock env) \<noteq> []" "fc_text (te_clock2 env) \<noteq> []"
    "check_seconds_between (t_started_at t) (Some (fc_text (te_clock env))) = Inr ()"
    "registry_client_configured st" "te_reconcile env = Reply 200 (Inl (JSONDecodeError msg))"
    "op_context_plans memory_ops (put_task (succeed_task (fc_text (te_clock env)) result t) s) = Inr plans"
    "t_attempt_count t < task_executor_max_attempts st" "retry_delay_seconds st (t_attempt_count t) = Inr delay"
    "add_seconds (fc_now (te_clock2 env)) delay = Inr due"
  shows "\<exists>t'. lookup (fst (finish_turn memory_ops st describe env t (Success result) s)) (t_task_id t) = Some t' \<and>
     t_state t' = ''queued'' \<and> t_next_attempt_at t' = Some (iso_format due) \<and> t_result t' = Some result"
proof -
  let ?done = "succeed_task (fc_text (te_clock env)) result t"
  have s1: "op_record_result memory_ops (fc_text (te_clock env)) (t_task_id t) result s = Inr (put_task ?done s, ?done)"
    using modify_task_total [OF assms(1,2)] by (simp add: memory_ops_def record_result_def)
  have id: "t_task_id ?done = t_task_id t" by (simp add: succeed_task_def)
  have inv: "store_inv (put_task ?done s)"
    by (rule put_stored_inv [OF assms(1,2) keeps_identity_succeed [OF assms(3)]])
  have "reconcile_current_task_capacity memory_ops st (te_reconcile env) (put_task ?done s) = Inl (JSONDecodeError msg)"
    using assms(6-8)
    by (simp add: reconcile_current_task_capacity_def reconcile_capacity_def client_post_json_def raise_for_status_def)
  then have a: "apply_verdict memory_ops st (te_clock env) (te_reconcile env) t (Success result) s =
      (put_task ?done s, Inl (JSONDecodeError msg))"
    using s1 assms(5) by (simp add: apply_verdict_def succeed_task_def)
  let ?e = "dset ''retry_delay_seconds'' (json_of_flt delay) (dset ''next_attempt_at'' (JStr (iso_format due))
      (enriched_error st t (crash_error describe (JSONDecodeError msg)) True))"
  obtain s2 where s2: "op_record_retry memory_ops (fc_text (te_clock2 env)) (t_task_id t) ?e (iso_format due) (put_task ?done s) =
        Inr (s2, retry_task (fc_text (te_clock2 env)) ?e (iso_format due) ?done)"
      "lookup s2 = (lookup (put_task ?done s))(t_task_id t \<mapsto> retry_task (fc_text (te_clock2 env)) ?e (iso_format due) ?done)"
    using memory.retry_ok [OF inv _ assms(4) iso_format_not_Nil, of "t_task_id t" ?done] id by auto
  have "record_task_failure memory_ops st (te_clock2 env) t (crash_error describe (JSONDecodeError msg)) True (put_task ?done s) = (s2, Inr ())"
    using assms(9-11) s2(1) by (simp add: record_task_failure_def Let_def)
  then have "fst (finish_turn memory_ops st describe env t (Success result) s) = s2"
    using a by (simp add: finish_turn_def record_task_failure_and_reconcile_def)
  with s2(2) show ?thesis by (simp add: retry_task_def succeed_task_def)
qed

theorem a_succeeded_task_is_queued_again_witness:
  "\<exists>t'. lookup (fst (finish_turn memory_ops sample_settings (\<lambda>_. [])
       (sample_turn\<lparr>te_reconcile := Reply 200 (Inl (JSONDecodeError ''Expecting value''))\<rparr>) running1
       (Success [(''status_code'', JInt 200), (''body'', JStr ''hello''), (''backend_instance_id'', JNull)])
       sample_running_store)) ''task_0'' = Some t' \<and> t_state t' = ''queued''"
proof -
  let ?env = "sample_turn\<lparr>te_reconcile := Reply 200 (Inl (JSONDecodeError ''Expecting value''))\<rparr>"
  let ?r = "[(''status_code'', JInt 200), (''body'', JStr ''hello''), (''backend_instance_id'', JNull)]"
  obtain plans where plans: "op_context_plans memory_ops
      (put_task (succeed_task (fc_text (te_clock ?env)) ?r running1) sample_running_store) = Inr plans"
    using sample_done_plans by (auto simp: sample_done_def)
  show ?thesis
    using a_succeeded_task_is_queued_again [OF sample_running_inv _ _ _ _ _ _ plans, of sample_settings "''Expecting value''"
        "Fin 5" "noon_us + 5000000"] sample_readable sample_delay
    by auto
qed

end
