(* ===== verification/Limiter.thy ===== *)
theory Limiter
  imports Policy
begin

text \<open>
  \<open>queue_proxy/limiter.py\<close>: the per-model admission limiter. A coroutine runs \<open>acquire\<close>,
  \<open>_wait_for_slot_locked\<close> and \<open>release\<close> under one asyncio condition, so each stretch of code
  between two awaits is one atomic operation on the limiter; the step relation interleaves
  those of any number of requests. A request is a number; the lists of holders and waiters are
  the coroutines between \<open>acquire\<close> and \<open>release\<close> and inside \<open>wait_for\<close>.
\<close>

section \<open>ModelLimiter\<close>

record limiter =
  l_model :: string
  l_max_active :: int
  l_max_queued :: int
  l_timeout :: flt
  l_active :: int
  l_queued :: int

definition new_limiter :: "string \<Rightarrow> int \<Rightarrow> int \<Rightarrow> flt \<Rightarrow> limiter" where
  "new_limiter model ma mq timeout = \<lparr>l_model = model, l_max_active = ma, l_max_queued = mq,
     l_timeout = timeout, l_active = 0, l_queued = 0\<rparr>"

datatype admission = Admitted | Queued | Full

text \<open>The part of \<open>acquire\<close> up to the first await.\<close>

definition acquire :: "limiter \<Rightarrow> admission \<times> limiter" where
  "acquire l = (if l_active l < l_max_active l then (Admitted, l\<lparr>l_active := l_active l + 1\<rparr>)
     else if l_queued l \<ge> l_max_queued l then (Full, l)
     else (Queued, l\<lparr>l_queued := l_queued l + 1\<rparr>))"

text \<open>One turn of the loop of \<open>_wait_for_slot_locked\<close>: None is another wait.\<close>

definition try_slot :: "limiter \<Rightarrow> limiter option" where
  "try_slot l = (if l_active l \<ge> l_max_active l then None
     else Some (l\<lparr>l_queued := l_queued l - 1, l_active := l_active l + 1\<rparr>))"

text \<open>The handler of \<open>TimeoutError\<close>, and what a cancelled waiter runs, which is nothing.\<close>

definition wait_timed_out :: "limiter \<Rightarrow> limiter" where
  "wait_timed_out l = l\<lparr>l_queued := l_queued l - 1\<rparr>"

definition wait_cancelled :: "limiter \<Rightarrow> limiter" where
  "wait_cancelled l = l"

definition release_slot :: "limiter \<Rightarrow> limiter" where
  "release_slot l = l\<lparr>l_active := max 0 (l_active l - 1)\<rparr>"

definition update_limits :: "int \<Rightarrow> int \<Rightarrow> flt \<Rightarrow> limiter \<Rightarrow> limiter" where
  "update_limits ma mq timeout l = l\<lparr>l_max_active := ma, l_max_queued := mq, l_timeout := timeout\<rparr>"

record limiter_snapshot =
  snap_model :: string
  snap_active :: int
  snap_queued :: int
  snap_max_active :: int
  snap_max_queued :: int

definition snapshot :: "limiter \<Rightarrow> limiter_snapshot" where
  "snapshot l = \<lparr>snap_model = l_model l, snap_active = l_active l, snap_queued = l_queued l,
     snap_max_active = l_max_active l, snap_max_queued = l_max_queued l\<rparr>"

section \<open>LimiterRegistry\<close>

type_synonym limiters = "(string \<times> limiter) list"

definition get_or_create :: "string \<Rightarrow> int \<Rightarrow> int \<Rightarrow> flt \<Rightarrow> limiters \<Rightarrow> limiters" where
  "get_or_create model ma mq timeout ls = (case map_of ls model of
       None \<Rightarrow> AList.update model (new_limiter model ma mq timeout) ls
     | Some l \<Rightarrow> AList.update model (update_limits ma mq timeout l) ls)"

definition snapshots :: "limiters \<Rightarrow> limiter_snapshot list" where
  "snapshots ls = map (snapshot \<circ> snd) ls"

lemma get_or_create_limits:
  "\<exists>l. map_of (get_or_create m ma mq timeout ls) m = Some l \<and>
     l_max_active l = ma \<and> l_max_queued l = mq \<and>
     (case map_of ls m of None \<Rightarrow> l_active l = 0 \<and> l_queued l = 0
      | Some k \<Rightarrow> l_active l = l_active k \<and> l_queued l = l_queued k)"
  by (auto simp: get_or_create_def update_conv' new_limiter_def update_limits_def split: option.splits)

lemma get_or_create_others: "n \<noteq> m \<Longrightarrow> map_of (get_or_create m ma mq timeout ls) n = map_of ls n"
  by (auto simp: get_or_create_def update_conv' split: option.splits)

section \<open>Interleavings\<close>

record lim_sys =
  lim :: limiter
  holders :: "nat list"
  waiters :: "nat list"
  gone :: nat

text \<open>\<open>gone\<close> counts the waiters that were cancelled; the code keeps no such count.\<close>

datatype lim_event =
    Acquire nat
  | Wake nat
  | Timeout nat
  | Cancel nat
  | Release nat
  | Update int int flt

inductive lim_step :: "lim_sys \<Rightarrow> lim_event \<Rightarrow> lim_sys \<Rightarrow> bool" where
  admit: "acquire (lim s) = (Admitted, l) \<Longrightarrow> r \<notin> set (holders s) \<union> set (waiters s) \<Longrightarrow>
    lim_step s (Acquire r) (s\<lparr>lim := l, holders := r # holders s\<rparr>)"
| refuse: "acquire (lim s) = (Full, l) \<Longrightarrow> lim_step s (Acquire r) (s\<lparr>lim := l\<rparr>)"
| enqueue: "acquire (lim s) = (Queued, l) \<Longrightarrow> r \<notin> set (holders s) \<union> set (waiters s) \<Longrightarrow>
    lim_step s (Acquire r) (s\<lparr>lim := l, waiters := waiters s @ [r]\<rparr>)"
| wake: "r \<in> set (waiters s) \<Longrightarrow> try_slot (lim s) = Some l \<Longrightarrow>
    lim_step s (Wake r) (s\<lparr>lim := l, waiters := remove1 r (waiters s), holders := r # holders s\<rparr>)"
| timed_out: "r \<in> set (waiters s) \<Longrightarrow>
    lim_step s (Timeout r) (s\<lparr>lim := wait_timed_out (lim s), waiters := remove1 r (waiters s)\<rparr>)"
| cancelled: "r \<in> set (waiters s) \<Longrightarrow>
    lim_step s (Cancel r)
      (s\<lparr>lim := wait_cancelled (lim s), waiters := remove1 r (waiters s), gone := Suc (gone s)\<rparr>)"
| released: "r \<in> set (holders s) \<Longrightarrow>
    lim_step s (Release r) (s\<lparr>lim := release_slot (lim s), holders := remove1 r (holders s)\<rparr>)"
| updated: "lim_step s (Update ma mq timeout) (s\<lparr>lim := update_limits ma mq timeout (lim s)\<rparr>)"

inductive_cases lim_stepE: "lim_step s e s'"

inductive lim_run :: "lim_sys \<Rightarrow> lim_event list \<Rightarrow> lim_sys \<Rightarrow> bool" where
  stop: "lim_run s [] s"
| more: "lim_step s e s' \<Longrightarrow> lim_run s' es s'' \<Longrightarrow> lim_run s (e # es) s''"

inductive_simps lim_run_Nil: "lim_run s [] s'"
inductive_simps lim_run_Cons: "lim_run s (e # es) s'"

definition idle_sys :: "limiter \<Rightarrow> lim_sys" where
  "idle_sys l = \<lparr>lim = l, holders = [], waiters = [], gone = 0\<rparr>"

text \<open>The counters count: active requests are the holders, queued requests the waiters and those
  cancelled while waiting.\<close>

definition counts_right :: "lim_sys \<Rightarrow> bool" where
  "counts_right s \<longleftrightarrow> l_active (lim s) = int (length (holders s)) \<and>
     l_queued (lim s) = int (length (waiters s)) + int (gone s) \<and>
     distinct (holders s) \<and> distinct (waiters s) \<and> set (holders s) \<inter> set (waiters s) = {}"

lemmas limiter_ops = acquire_def try_slot_def wait_timed_out_def wait_cancelled_def
  release_slot_def update_limits_def

lemma length_remove1_int: "r \<in> set xs \<Longrightarrow> int (length (remove1 r xs)) = int (length xs) - 1"
  by (auto simp: length_remove1 of_nat_diff Suc_le_eq dest: length_pos_if_in_set)

lemma counts_right_step: "lim_step s e s' \<Longrightarrow> counts_right s \<Longrightarrow> counts_right s' "
  by (erule lim_stepE)
    (auto simp: counts_right_def limiter_ops length_remove1_int set_remove1_eq max_def
       split: if_splits dest: length_pos_if_in_set notin_set_remove1)

lemma counts_right_run: "lim_run s es s' \<Longrightarrow> counts_right s \<Longrightarrow> counts_right s'"
  by (induction rule: lim_run.induct) (blast intro: counts_right_step)+

text \<open>The bounds, while nobody changes the limits.\<close>

definition within_limits :: "lim_sys \<Rightarrow> bool" where
  "within_limits s \<longleftrightarrow> l_active (lim s) \<le> l_max_active (lim s) \<and> l_queued (lim s) \<le> l_max_queued (lim s)"

definition keeps_limits :: "lim_event \<Rightarrow> bool" where
  "keeps_limits e = (case e of Update _ _ _ \<Rightarrow> False | _ \<Rightarrow> True)"

lemma within_limits_step:
  "lim_step s e s' \<Longrightarrow> keeps_limits e \<Longrightarrow> counts_right s \<Longrightarrow> within_limits s \<Longrightarrow> within_limits s'"
  by (erule lim_stepE)
    (auto simp: within_limits_def keeps_limits_def counts_right_def limiter_ops split: if_splits)

lemma limits_constant:
  "lim_step s e s' \<Longrightarrow> keeps_limits e \<Longrightarrow>
     l_max_active (lim s') = l_max_active (lim s) \<and> l_max_queued (lim s') = l_max_queued (lim s)"
  by (erule lim_stepE) (auto simp: keeps_limits_def limiter_ops split: if_splits)

lemma limits_run:
  "lim_run s es s' \<Longrightarrow> list_all keeps_limits es \<Longrightarrow>
     l_max_active (lim s') = l_max_active (lim s) \<and> l_max_queued (lim s') = l_max_queued (lim s)"
  by (induction rule: lim_run.induct) (auto dest: limits_constant)

lemma within_limits_run:
  "lim_run s es s' \<Longrightarrow> list_all keeps_limits es \<Longrightarrow> counts_right s \<Longrightarrow> within_limits s \<Longrightarrow>
     within_limits s' \<and> l_max_active (lim s') = l_max_active (lim s) \<and> l_max_queued (lim s') = l_max_queued (lim s)"
proof (induction rule: lim_run.induct)
  case (more s e s' es s'')
  then have "within_limits s'" "counts_right s'"
    by (auto intro: within_limits_step counts_right_step)
  with more show ?case using limits_constant [OF more.hyps(1)] by simp
qed simp

definition is_cancel :: "lim_event \<Rightarrow> bool" where
  "is_cancel e = (case e of Cancel _ \<Rightarrow> True | _ \<Rightarrow> False)"

lemma gone_run: "lim_run s es s' \<Longrightarrow> gone s' = gone s + length (filter is_cancel es)"
proof (induction rule: lim_run.induct)
  case (more s e s' es s'')
  from more.hyps(1) have "gone s' = gone s + (if is_cancel e then 1 else 0)"
    by (rule lim_stepE) (auto simp: is_cancel_def)
  with more.IH show ?case by simp
qed simp

text \<open>A slot that is free is taken by a waiter that runs: no lost wake-up.\<close>

lemma wake_enabled:
  "counts_right s \<Longrightarrow> r \<in> set (waiters s) \<Longrightarrow> length (holders s) < l_max_active (lim s) \<Longrightarrow>
     \<exists>s'. lim_step s (Wake r) s' \<and> r \<in> set (holders s')"
  by (auto simp: counts_right_def try_slot_def intro!: exI lim_step.wake)

end
