(* ===== verification/Proxy.thy ===== *)
theory Proxy
  imports Limiter Backend_Client
begin

text \<open>
  The OpenAI-compatible proxy path of \<open>queue_proxy/main.py\<close>: \<open>request_preparation.py\<close> and
  \<open>forward_openai_path\<close> with its authentication, admission, routing, forwarding and the
  \<open>release_once\<close> closure. What the request's environment decides (how the wait for a slot ends,
  what the lifecycle service and the upstream answer) is an argument. The result is the response
  together with the operations on the limiter and the registry in the order they run; those that
  run only when a streamed body ends are kept apart.
\<close>

section \<open>RequestPreparationService\<close>

record http_request =
  rq_path :: string
  rq_method :: string
  rq_headers :: headers
  rq_body :: string

definition header :: "headers \<Rightarrow> string \<Rightarrow> string" where
  "header hs n = (case map_of hs n of None \<Rightarrow> [] | Some v \<Rightarrow> v)"

definition strip_slash :: "string \<Rightarrow> string" where
  "strip_slash s = rstrip_slash (lstrip_slash s)"

definition is_llm_generation_endpoint :: "string \<Rightarrow> bool" where
  "is_llm_generation_endpoint path \<longleftrightarrow>
     strip_slash path \<in> {''chat/completions'', ''responses'', ''completions'', ''embeddings''}"

definition should_stream_response :: "dict \<Rightarrow> bool" where
  "should_stream_response payload \<longleftrightarrow> dget payload ''stream'' = JBool True"

text \<open>\<open>json.loads(body.decode())\<close> is the argument \<open>loads\<close>.\<close>

definition prepare ::
  "policy_registry \<Rightarrow> (string list \<Rightarrow> string list) \<Rightarrow> (string \<Rightarrow> json res) \<Rightarrow> http_request \<Rightarrow>
     (dict option \<times> dict \<times> model_policy option) res" where
  "prepare reg iter loads rq =
     (if py_lower (rq_method rq) \<noteq> ''post'' then Inr (None, [], None)
      else if \<not> contains_text ''application/json'' (header (rq_headers rq) ''content-type'') then Inr (None, [], None)
      else if \<not> is_llm_generation_endpoint (rq_path rq) then Inr (None, [], None)
      else (case loads (rq_body rq) of
          Inl (JSONDecodeError msg) \<Rightarrow> Inl (PolicyError (''Invalid JSON request body: '' @ msg) ''invalid_json'')
        | Inl e \<Rightarrow> Inl e
        | Inr (JDict raw) \<Rightarrow>
            bind_res (validate_orchestration_contract iter (dget raw ''orchestration'')) (\<lambda>_.
            bind_res (apply_orchestration_overrides (resolve_policy reg (extract_model (JDict raw)))
                (dget raw ''orchestration'')) (\<lambda>p.
            bind_res (apply_token_policy raw p) (\<lambda>payload.
            Inr (Some payload, (case dget payload ''_orchestrator'' of JDict m \<Rightarrow> m | _ \<Rightarrow> []), Some p))))
        | Inr _ \<Rightarrow> Inl (PolicyError ''JSON request body must be an object.'' ''invalid_json'')))"

section \<open>Responses\<close>

datatype response =
    ErrorResponse int string string
  | Upstream int bool
  | Streaming int bool
  | Bare int
  | Raised exn

fun policy_error_handler :: "exn \<Rightarrow> response" where
  "policy_error_handler (PolicyError msg kind) = ErrorResponse 400 kind msg"
| "policy_error_handler (TokenBudgetExceeded msg) = ErrorResponse 413 ''token_budget_exceeded'' msg"
| "policy_error_handler e = Raised e"

definition proxy_auth_ok :: "settings \<Rightarrow> headers \<Rightarrow> bool" where
  "proxy_auth_ok st hs \<longleftrightarrow> queue_proxy_api_key st = [] \<or>
     header hs ''authorization'' = ''Bearer '' @ queue_proxy_api_key st"

definition unauthorized :: response where
  "unauthorized = ErrorResponse 401 ''unauthorized'' ''Missing or invalid queue proxy API key.''"

section \<open>forward_openai_path\<close>

datatype slot_result = SlotGranted | SlotFull | SlotTimedOut

text \<open>How the upstream call ends. A buffered call turns an HTTP error into a 502 response inside
  the forwarder; a streamed one raises it.\<close>

datatype upstream_result = UpResponse int | UpHttpError string | UpClientGone | UpRaise exn

datatype proxy_op =
    TakeSlot
  | LeaveSlot
  | Registry registry_call
  | SendUpstream string dict
  | CountRequest int

record forward_result =
  fr_response :: response
  fr_ops :: "proxy_op list"
  fr_at_end :: "proxy_op list"

definition answered :: "response \<Rightarrow> proxy_op list \<Rightarrow> forward_result" where
  "answered r ops = \<lparr>fr_response = r, fr_ops = ops, fr_at_end = []\<rparr>"

definition release_once :: "settings \<Rightarrow> string option \<Rightarrow> int option \<Rightarrow> proxy_op list" where
  "release_once st inst status = map Registry (release_backend st inst) @ [LeaveSlot] @
     (case status of None \<Rightarrow> [] | Some c \<Rightarrow> [CountRequest c])"

text \<open>The three \<open>except\<close> clauses.\<close>

definition forward_failed ::
  "settings \<Rightarrow> string option \<Rightarrow> proxy_op list \<Rightarrow> exn \<Rightarrow> forward_result" where
  "forward_failed st inst ops e =
     (if is_http_error e then answered
        (ErrorResponse 502 ''upstream_request_failed'' ''Upstream LLM gateway request failed.'')
        (ops @ release_once st inst (Some 502))
      else if e = ClientDisconnectedError then answered (Bare 499) (ops @ release_once st inst (Some 499))
      else answered (Raised e) (ops @ release_once st inst None))"

definition clean_payload :: "dict \<Rightarrow> string option \<Rightarrow> model_policy \<Rightarrow> dict" where
  "clean_payload payload inst p = (let d = strip_internal_fields payload in
     if inst \<noteq> None \<and> dhas d ''model'' then dset ''model'' (JStr (backend_model p)) d else d)"

definition output_capped :: "dict \<Rightarrow> bool" where
  "output_capped metadata = truthy (dget metadata ''output_tokens_capped'')"

definition forward_admitted ::
  "settings \<Rightarrow> model_policy \<Rightarrow> dict \<Rightarrow> dict \<Rightarrow> string \<Rightarrow> registry_replies \<Rightarrow> upstream_result \<Rightarrow> forward_result" where
  "forward_admitted st p payload metadata path rep up =
     (let orch = (case dget payload ''orchestration'' of JDict d \<Rightarrow> d | _ \<Rightarrow> []) in
      case resolve_backend st rep (public_name p) orch of
        (Inl e, calls) \<Rightarrow> forward_failed st None (TakeSlot # map Registry calls) e
      | (Inr (None, _), calls) \<Rightarrow> answered
          (ErrorResponse 503 ''no_ready_backend'' ''No ready backend instance is available for this model.'')
          (TakeSlot # map Registry calls @ [LeaveSlot])
      | (Inr (Some url, inst), calls) \<Rightarrow>
          (let body = clean_payload payload inst p;
               ops = TakeSlot # map Registry calls @ [SendUpstream (upstream_url url path) body] in
           if should_stream_response body then
             (case up of
                UpResponse c \<Rightarrow> \<lparr>fr_response = Streaming c (output_capped metadata), fr_ops = ops,
                   fr_at_end = release_once st inst (Some c)\<rparr>
              | UpHttpError e \<Rightarrow> forward_failed st inst ops (HTTPError e)
              | UpClientGone \<Rightarrow> forward_failed st inst ops ClientDisconnectedError
              | UpRaise e \<Rightarrow> forward_failed st inst ops e)
           else
             (case up of
                UpResponse c \<Rightarrow> answered (Upstream c (output_capped metadata)) (ops @ release_once st inst (Some c))
              | UpHttpError e \<Rightarrow> answered
                  (ErrorResponse 502 ''upstream_request_failed'' ''Upstream LLM gateway request failed.'')
                  (ops @ release_once st inst (Some 502))
              | UpClientGone \<Rightarrow> forward_failed st inst ops ClientDisconnectedError
              | UpRaise e \<Rightarrow> forward_failed st inst ops e)))"

definition forward_without_limiter :: "settings \<Rightarrow> http_request \<Rightarrow> upstream_result \<Rightarrow> response" where
  "forward_without_limiter st rq up = (case up of
       UpResponse c \<Rightarrow> Upstream c False
     | UpHttpError _ \<Rightarrow> ErrorResponse 502 ''upstream_request_failed'' ''Upstream LLM gateway request failed.''
     | UpClientGone \<Rightarrow> Raised ClientDisconnectedError
     | UpRaise e \<Rightarrow> Raised e)"

text \<open>The limiter the request is admitted by: that of the policy's public name, with the limits of
  the policy after the request's own overrides.\<close>

definition admission_limits :: "model_policy \<Rightarrow> limiters \<Rightarrow> limiters" where
  "admission_limits p ls = get_or_create (public_name p) (max_active_requests p) (max_queued_requests p)
     (queue_timeout_seconds p) ls"

definition forward_openai_path ::
  "settings \<Rightarrow> policy_registry \<Rightarrow> (string list \<Rightarrow> string list) \<Rightarrow> (string \<Rightarrow> json res) \<Rightarrow>
     slot_result \<Rightarrow> registry_replies \<Rightarrow> upstream_result \<Rightarrow> http_request \<Rightarrow> limiters \<Rightarrow>
     forward_result \<times> limiters" where
  "forward_openai_path st reg iter loads slot rep up rq ls =
     (if \<not> proxy_auth_ok st (rq_headers rq) then (answered unauthorized [], ls)
      else (case prepare reg iter loads rq of
          Inl e \<Rightarrow> (answered (policy_error_handler e) [], ls)
        | Inr (None, _, _) \<Rightarrow> (answered (forward_without_limiter st rq up) [], ls)
        | Inr (Some payload, metadata, effective) \<Rightarrow>
            (let p = (case effective of Some p \<Rightarrow> p
                | None \<Rightarrow> resolve_policy reg (extract_model (JDict payload)));
                 ls' = admission_limits p ls in
             case slot of
               SlotFull \<Rightarrow> (answered
                 (ErrorResponse 429 ''queue_full'' ''Too many queued requests for this model.'') [], ls')
             | SlotTimedOut \<Rightarrow> (answered
                 (ErrorResponse 429 ''queue_timeout'' ''Timed out waiting for an available model request slot.'') [], ls')
             | SlotGranted \<Rightarrow> (forward_admitted st p payload metadata (rq_path rq) rep up, ls'))))"

section \<open>Slots and leases are given back\<close>

definition registry_calls :: "proxy_op list \<Rightarrow> registry_call list" where
  "registry_calls ops = concat (map (\<lambda>x. case x of Registry c \<Rightarrow> [c] | _ \<Rightarrow> []) ops)"

definition slot_takes :: "proxy_op list \<Rightarrow> nat" where "slot_takes ops = length (filter ((=) TakeSlot) ops)"

definition slot_leaves :: "proxy_op list \<Rightarrow> nat" where "slot_leaves ops = length (filter ((=) LeaveSlot) ops)"

definition granted :: "registry_replies \<Rightarrow> registry_call list \<Rightarrow> string list" where
  "granted rep calls = (if client_lease (r_lease rep) = Inr () then leases calls else [])"

lemma registry_calls_simps [simp]:
  "registry_calls [] = []" "registry_calls (TakeSlot # ops) = registry_calls ops"
  "registry_calls (LeaveSlot # ops) = registry_calls ops"
  "registry_calls (SendUpstream u d # ops) = registry_calls ops"
  "registry_calls (CountRequest n # ops) = registry_calls ops"
  "registry_calls (Registry c # ops) = c # registry_calls ops"
  "registry_calls (as @ bs) = registry_calls as @ registry_calls bs"
  "registry_calls (map Registry cs) = cs"
  by (simp_all add: registry_calls_def, induction cs) simp_all

lemma slot_simps [simp]:
  "slot_takes [] = 0" "slot_takes (x # ops) = (if x = TakeSlot then 1 else 0) + slot_takes ops"
  "slot_takes (as @ bs) = slot_takes as + slot_takes bs"
  "slot_takes (map Registry cs) = 0"
  "slot_leaves [] = 0" "slot_leaves (x # ops) = (if x = LeaveSlot then 1 else 0) + slot_leaves ops"
  "slot_leaves (as @ bs) = slot_leaves as + slot_leaves bs"
  "slot_leaves (map Registry cs) = 0"
  by (simp_all add: slot_takes_def slot_leaves_def filter_empty_conv)

lemma release_once_simps [simp]:
  "slot_takes (release_once st inst c) = 0" "slot_leaves (release_once st inst c) = 1"
  "registry_calls (release_once st inst c) = release_backend st inst"
  by (simp_all add: release_once_def split: option.splits)

lemma release_backend_simps [simp]:
  "leases (release_backend st inst) = []"
  "registry_client_configured st \<Longrightarrow> releases (release_backend st (Some i)) = [i]"
  "release_backend st None = []"
  by (simp_all add: release_backend_def split: option.splits)

definition balanced :: "registry_replies \<Rightarrow> proxy_op list \<Rightarrow> bool" where
  "balanced rep ops \<longleftrightarrow> slot_takes ops = slot_leaves ops \<and>
     releases (registry_calls ops) = granted rep (registry_calls ops)"

lemma forward_failed_ops:
  "fr_ops (forward_failed st inst ops e) @ fr_at_end (forward_failed st inst ops e) =
     ops @ release_once st inst (if is_http_error e then Some 502 else if e = ClientDisconnectedError then Some 499 else None)"
  by (simp add: forward_failed_def answered_def)

lemma forward_admitted_ops:
  fixes st p payload metadata path rep up
  defines "r \<equiv> forward_admitted st p payload metadata path rep up"
  shows "\<exists>inst c send calls. (send = [] \<or> (\<exists>u d. send = [SendUpstream u d])) \<and>
     fr_ops r @ fr_at_end r = TakeSlot # map Registry calls @ send @ release_once st inst c \<and>
     (case inst of None \<Rightarrow> \<exists>res. fst (resolve_backend st rep (public_name p)
          (case dget payload ''orchestration'' of JDict d \<Rightarrow> d | _ \<Rightarrow> [])) = res \<and> (\<forall>url i. res \<noteq> Inr (url, Some i))
      | Some i \<Rightarrow> \<exists>url. fst (resolve_backend st rep (public_name p)
          (case dget payload ''orchestration'' of JDict d \<Rightarrow> d | _ \<Rightarrow> [])) = Inr (url, Some i)) \<and>
     calls = snd (resolve_backend st rep (public_name p)
          (case dget payload ''orchestration'' of JDict d \<Rightarrow> d | _ \<Rightarrow> []))"
proof -
  let ?o = "case dget payload ''orchestration'' of JDict d \<Rightarrow> d | _ \<Rightarrow> []"
  obtain res calls where rb: "resolve_backend st rep (public_name p) ?o = (res, calls)" by fastforce
  have leave: "[LeaveSlot] = release_once st None None" by (simp add: release_once_def)
  show ?thesis
  proof (cases res)
    case (Inl e)
    then show ?thesis
      unfolding r_def forward_admitted_def rb Let_def
      by (intro exI [of _ None] exI [of _ "if is_http_error e then Some 502 else if e = ClientDisconnectedError then Some 499 else None"]
            exI [of _ "[]"] exI [of _ calls]) (simp add: forward_failed_ops)
  next
    case (Inr ui)
    obtain url inst where ui: "ui = (url, inst)" by fastforce
    show ?thesis
    proof (cases url)
      case None
      have "inst = None"
      proof (rule ccontr)
        assume "inst \<noteq> None"
        then obtain i where "inst = Some i" by blast
        with rb Inr ui None have "resolve_backend st rep (public_name p) ?o = (Inr (None, Some i), calls)" by simp
        from resolve_backend_leased [OF this] show False by simp
      qed
      then show ?thesis
        using Inr ui None
        unfolding r_def forward_admitted_def rb Let_def
        by (intro exI [of _ None] exI [of _ "[]"] exI [of _ calls])
          (auto simp: answered_def leave)
    next
      case (Some u)
      let ?b = "clean_payload payload inst p"
      have "\<exists>c. fr_ops r @ fr_at_end r =
          TakeSlot # map Registry calls @ [SendUpstream (upstream_url u path) ?b] @ release_once st inst c"
        using Inr ui Some
        unfolding r_def forward_admitted_def rb Let_def
        by (cases "should_stream_response ?b"; cases up) (auto simp: forward_failed_ops answered_def)
      then obtain c where "fr_ops r @ fr_at_end r =
          TakeSlot # map Registry calls @ [SendUpstream (upstream_url u path) ?b] @ release_once st inst c" ..
      then show ?thesis
        using Inr ui Some rb
        by (intro exI [of _ inst] exI [of _ c] exI [of _ "[SendUpstream (upstream_url u path) ?b]"]
              exI [of _ calls]) (auto split: option.splits)
    qed
  qed
qed

lemma balanced_Nil: "balanced rep []"
  by (simp add: balanced_def granted_def)

lemma forward_admitted_balanced:
  "balanced rep (fr_ops (forward_admitted st p payload metadata path rep up) @
     fr_at_end (forward_admitted st p payload metadata path rep up))"
proof -
  let ?o = "case dget payload ''orchestration'' of JDict d \<Rightarrow> d | _ \<Rightarrow> []"
  let ?ops = "fr_ops (forward_admitted st p payload metadata path rep up) @
     fr_at_end (forward_admitted st p payload metadata path rep up)"
  obtain inst c send calls where send: "send = [] \<or> (\<exists>u d. send = [SendUpstream u d])"
    and ops: "?ops = TakeSlot # map Registry calls @ send @ release_once st inst c"
    and inst: "case inst of None \<Rightarrow> \<exists>res. fst (resolve_backend st rep (public_name p) ?o) = res \<and> (\<forall>url i. res \<noteq> Inr (url, Some i))
      | Some i \<Rightarrow> \<exists>url. fst (resolve_backend st rep (public_name p) ?o) = Inr (url, Some i)"
    and calls: "calls = snd (resolve_backend st rep (public_name p) ?o)"
    using forward_admitted_ops [of st p payload metadata path rep up]
    by (elim exE conjE) (rule that; assumption)
  show ?thesis
  proof (cases inst)
    case None
    with inst calls have "resolve_backend st rep (public_name p) ?o =
        (fst (resolve_backend st rep (public_name p) ?o), calls)"
      "\<forall>url i. fst (resolve_backend st rep (public_name p) ?o) \<noteq> Inr (url, Some i)" by auto
    from resolve_backend_not_leased [OF this] show ?thesis
      using send None unfolding ops by (auto simp: balanced_def granted_def)
  next
    case (Some i)
    with inst obtain url where "fst (resolve_backend st rep (public_name p) ?o) = Inr (url, Some i)" by auto
    with calls have "resolve_backend st rep (public_name p) ?o = (Inr (url, Some i), calls)"
      by (simp only: prod_eq_iff fst_conv snd_conv simp_thms)
    from resolve_backend_leased [OF this] show ?thesis
      using send Some unfolding ops by (auto simp: balanced_def granted_def)
  qed
qed

lemma forward_openai_path_cases:
  assumes "forward_openai_path st reg iter loads slot rep up rq ls = (r, ls')"
  obtains (none) "fr_ops r = []" "fr_at_end r = []"
  | (admitted) payload metadata p where "slot = SlotGranted"
      "r = forward_admitted st p payload metadata (rq_path rq) rep up" "ls' = admission_limits p ls"
      "\<exists>e. prepare reg iter loads rq = Inr (Some payload, metadata, e)"
proof -
  show thesis
  proof (cases "proxy_auth_ok st (rq_headers rq)")
    case False
    then show thesis using assms none by (auto simp: forward_openai_path_def answered_def)
  next
    case auth: True
    show thesis
    proof (cases "prepare reg iter loads rq")
      case (Inl e)
      then show thesis using assms none auth by (auto simp: forward_openai_path_def answered_def)
    next
      case (Inr x)
      obtain po metadata e where x: "x = (po, metadata, e)" by (cases x)
      show thesis
      proof (cases po)
        case None
        then show thesis using assms none auth Inr x by (auto simp: forward_openai_path_def answered_def)
      next
        case (Some payload)
        show thesis
        proof (cases slot)
          case SlotGranted
          then show thesis
            using assms auth Inr x Some by (intro admitted) (auto simp: forward_openai_path_def Let_def)
        qed (use assms none auth Inr x Some in \<open>auto simp: forward_openai_path_def answered_def Let_def\<close>)
      qed
    qed
  qed
qed

lemma forward_openai_path_balanced:
  assumes "forward_openai_path st reg iter loads slot rep up rq ls = (r, ls')"
  shows "balanced rep (fr_ops r @ fr_at_end r)"
  using assms
  by (cases rule: forward_openai_path_cases) (simp_all add: balanced_Nil forward_admitted_balanced)

end
