(* ===== verification/Proxy_Properties.thy ===== *)
theory Proxy_Properties
  imports Proxy
begin

text \<open>
  The properties of the admission path of the queue proxy: the token budget and the per-request
  overrides of \<open>policy.py\<close>, the task contract, the limiter under any interleaving of requests, the
  choice of a backend, and the return of every slot and lease by \<open>forward_openai_path\<close>.
\<close>

section \<open>Samples\<close>

definition proxy_policy :: model_policy where
  "proxy_policy = \<lparr>public_name = ''m'', backend_model = ''m-gguf'', aliases = [''alias''], max_active_requests = 2,
     max_queued_requests = 1, queue_timeout_seconds = Fin 30, default_max_output_tokens = 512,
     max_input_tokens = 8192, max_output_tokens = 1024, max_total_tokens = 9216,
     token_estimate_chars_per_token = Fin 4, output_over_limit_behavior = ''cap''\<rparr>"

definition proxy_payload :: dict where
  "proxy_payload = [(''model'', JStr ''m''), (''max_tokens'', JInt 4000)]"

definition proxy_limiter :: limiter where
  "proxy_limiter = new_limiter ''m'' 1 1 (Fin 30)"

text \<open>Two requests at a limiter with one slot: the second one waits.\<close>

lemma sample_waiting:
  "lim_step (idle_sys proxy_limiter) (Acquire 1)
     \<lparr>lim = proxy_limiter\<lparr>l_active := 1\<rparr>, holders = [1], waiters = [], gone = 0\<rparr>"
  "lim_step \<lparr>lim = proxy_limiter\<lparr>l_active := 1\<rparr>, holders = [1], waiters = [], gone = 0\<rparr> (Acquire 2)
     \<lparr>lim = proxy_limiter\<lparr>l_active := 1, l_queued := 1\<rparr>, holders = [1], waiters = [2], gone = 0\<rparr>"
  using lim_step.admit [of "idle_sys proxy_limiter" "proxy_limiter\<lparr>l_active := 1\<rparr>" 1]
    lim_step.enqueue [of "\<lparr>lim = proxy_limiter\<lparr>l_active := 1\<rparr>, holders = [1], waiters = [], gone = 0\<rparr>"
      "proxy_limiter\<lparr>l_active := 1, l_queued := 1\<rparr>" 2]
  by (simp_all add: idle_sys_def proxy_limiter_def new_limiter_def acquire_def)

section \<open>Policy\<close>

text \<open>C25: a request that is admitted to a model goes to a generation endpoint, and it runs under the
  policy of the model it names, tightened by its own overrides: the estimated input, the effective
  output that is written into the payload, and their sum are within that policy's limits, a request
  that was not capped keeps the output size it asked for, and no other field changes.\<close>

theorem admitted_requests_obey_the_policy:
  assumes "prepare reg iter loads rq = Inr (Some payload, metadata, effective)"
  shows "\<exists>raw p input output capped. is_llm_generation_endpoint (rq_path rq) \<and> loads (rq_body rq) = Inr (JDict raw) \<and>
     effective = Some p \<and>
     apply_orchestration_overrides (resolve_policy reg (extract_model (JDict raw))) (dget raw ''orchestration'') = Inr p \<and>
     max_total_tokens p \<le> max_total_tokens (resolve_policy reg (extract_model (JDict raw))) \<and>
     within_budget raw p payload input output capped"
proof -
  obtain raw p where r: "is_llm_generation_endpoint (rq_path rq)" "loads (rq_body rq) = Inr (JDict raw)" "effective = Some p"
      "apply_orchestration_overrides (resolve_policy reg (extract_model (JDict raw))) (dget raw ''orchestration'') = Inr p"
      "apply_token_policy raw p = Inr payload"
    using assms by (auto simp: prepare_def bind_res_Inr_iff split: if_splits sum.splits exn.splits json.splits)
  with apply_token_policy_within [OF r(5)] overrides_only_lower(9) [OF r(4)] show ?thesis by blast
qed

definition proxy_request :: http_request where
  "proxy_request = \<lparr>rq_path = ''chat/completions'', rq_method = ''POST'',
     rq_headers = [(''content-type'', ''application/json'')], rq_body = ''{}''\<rparr>"

definition proxy_registry :: policy_registry where
  "proxy_registry = \<lparr>policies = [(''m'', proxy_policy)], default_policy = proxy_policy, dynamic_models_enabled = False\<rparr>"

text \<open>The body of the sample request as the JSON reader gives it.\<close>

definition proxy_loads :: "string \<Rightarrow> json res" where
  "proxy_loads _ = Inr (JDict (proxy_payload @ [(''stream'', JBool True)]))"

theorem admitted_requests_obey_the_policy_witness:
  "\<exists>payload metadata effective. prepare proxy_registry sort proxy_loads proxy_request = Inr (Some payload, metadata, effective) \<and>
     dget payload ''max_tokens'' = JInt 1024 \<and> effective \<noteq> None"
proof -
  have "case prepare proxy_registry sort proxy_loads proxy_request of
      Inr (Some payload, _, _) \<Rightarrow> dget payload ''max_tokens'' = JInt 1024 | _ \<Rightarrow> False" by code_simp
  then obtain payload metadata effective where o: "prepare proxy_registry sort proxy_loads proxy_request =
      Inr (Some payload, metadata, effective)" "dget payload ''max_tokens'' = JInt 1024"
    by (auto split: sum.splits option.splits)
  from admitted_requests_obey_the_policy [OF o(1)] o show ?thesis by blast
qed

text \<open>The overrides a request carries only tighten its policy: the limits and token budgets go
  down or stay, and concurrency limits stay at least one.\<close>

theorem overrides_only_tighten:
  assumes "apply_orchestration_overrides p orchestration = Inr p'"
  shows "public_name p' = public_name p \<and> backend_model p' = backend_model p \<and>
     output_over_limit_behavior p' = output_over_limit_behavior p \<and>
     max_active_requests p' \<le> max_active_requests p \<and> max_queued_requests p' \<le> max_queued_requests p \<and>
     max_input_tokens p' \<le> max_input_tokens p \<and> max_output_tokens p' \<le> max_output_tokens p \<and>
     max_total_tokens p' \<le> max_total_tokens p \<and>
     (1 \<le> max_active_requests p \<longrightarrow> 1 \<le> max_active_requests p')"
  using overrides_only_lower [OF assms] by simp

theorem overrides_only_tighten_witness:
  "apply_orchestration_overrides proxy_policy (JDict [(''max_parallel'', JInt 1)]) =
     Inr (proxy_policy\<lparr>max_active_requests := 1\<rparr>) \<and> 1 \<le> max_active_requests (proxy_policy\<lparr>max_active_requests := 1\<rparr>)"
proof -
  have e: "apply_orchestration_overrides proxy_policy (JDict [(''max_parallel'', JInt 1)]) =
      Inr (proxy_policy\<lparr>max_active_requests := 1\<rparr>)" by code_simp
  with overrides_only_tighten [OF e] show ?thesis by (simp add: proxy_policy_def)
qed



section \<open>Limiter\<close>



text \<open>C29: a waiter that is cancelled, by a client that disconnects, never gives its place in the queue
  back: after as many cancellations as the queue has places, no request is ever queued again.\<close>

theorem cancelled_waiters_fill_the_queue:
  assumes "lim_run (idle_sys l) es s" "list_all keeps_limits es" "l_active l = 0" "l_queued l = 0"
    "l_max_queued l \<le> int (length (filter is_cancel es))"
  shows "l_queued (lim s) = int (length (waiters s)) + int (length (filter is_cancel es)) \<and>
     fst (acquire (lim s)) \<noteq> Queued"
proof -
  have c: "counts_right (idle_sys l)" using assms(3,4) by (simp add: counts_right_def idle_sys_def)
  have q: "l_queued (lim s) = int (length (waiters s)) + int (length (filter is_cancel es))"
    using counts_right_run [OF assms(1) c] gone_run [OF assms(1)] by (simp add: counts_right_def idle_sys_def)
  have "l_max_queued (lim s) = l_max_queued l"
    using limits_run [OF assms(1,2)] by (simp add: idle_sys_def)
  with q assms(5) show ?thesis by (simp add: acquire_def)
qed

theorem cancelled_waiters_fill_the_queue_witness:
  "\<exists>s. lim_run (idle_sys proxy_limiter) [Acquire 1, Acquire 2, Cancel 2] s \<and> waiters s = [] \<and>
     fst (acquire (lim s)) \<noteq> Queued"
proof -
  let ?l = "proxy_limiter\<lparr>l_active := 1, l_queued := 1\<rparr>"
  let ?s = "\<lparr>lim = ?l, holders = [1], waiters = [], gone = 1\<rparr>"
  have "lim_step \<lparr>lim = ?l, holders = [1], waiters = [2], gone = 0\<rparr> (Cancel 2) ?s"
    using lim_step.cancelled [of 2 "\<lparr>lim = ?l, holders = [1], waiters = [2], gone = 0\<rparr>"]
    by (simp add: wait_cancelled_def)
  with sample_waiting have run: "lim_run (idle_sys proxy_limiter) [Acquire 1, Acquire 2, Cancel 2] ?s"
    by (blast intro: lim_run.intros)
  from cancelled_waiters_fill_the_queue [OF run] have "fst (acquire (lim ?s)) \<noteq> Queued"
    by (simp add: proxy_limiter_def new_limiter_def keeps_limits_def is_cancel_def)
  with run show ?thesis by (intro exI [of _ ?s]) simp
qed

text \<open>A request that waits is never stuck behind a free slot: when fewer requests hold a slot than
  the limit allows, every waiter can take one.\<close>

theorem free_slots_reach_waiters:
  assumes "lim_run (idle_sys l) es s" "l_active l = 0" "l_queued l = 0" "r \<in> set (waiters s)"
    "int (length (holders s)) < l_max_active (lim s)"
  shows "\<exists>s'. lim_step s (Wake r) s' \<and> r \<in> set (holders s')"
proof -
  have "counts_right (idle_sys l)" using assms(2,3) by (simp add: counts_right_def idle_sys_def)
  from wake_enabled [OF counts_right_run [OF assms(1) this] assms(4,5)] show ?thesis .
qed

theorem free_slots_reach_waiters_witness:
  "\<exists>s s'. lim_run (idle_sys proxy_limiter) [Acquire 1, Acquire 2, Release 1] s \<and> lim_step s (Wake 2) s' \<and>
     2 \<in> set (holders s')"
proof -
  let ?l = "proxy_limiter\<lparr>l_active := 0, l_queued := 1\<rparr>"
  let ?w = "\<lparr>lim = proxy_limiter\<lparr>l_active := 1, l_queued := 1\<rparr>, holders = [1], waiters = [2], gone = 0\<rparr>"
  let ?s = "\<lparr>lim = ?l, holders = [], waiters = [2], gone = 0\<rparr>"
  have "lim_step ?w (Release 1) ?s"
    using lim_step.released [of 1 ?w] by (simp add: release_slot_def proxy_limiter_def new_limiter_def)
  with sample_waiting have run: "lim_run (idle_sys proxy_limiter) [Acquire 1, Acquire 2, Release 1] ?s"
    by (blast intro: lim_run.intros)
  have "\<exists>s'. lim_step ?s (Wake 2) s' \<and> 2 \<in> set (holders s')"
    by (rule free_slots_reach_waiters [OF run]) (simp_all add: proxy_limiter_def new_limiter_def)
  with run show ?thesis by blast
qed

section \<open>Routing and forwarding\<close>

text \<open>The backend chosen for a model is one the registry listed for it, is ready with an HTTP URL,
  and no ready backend of the model has fewer active requests.\<close>

theorem routing_picks_the_least_loaded_backend:
  assumes "list_instances reply = Inr instances" "choose_backend reply model = Inr (Some b)"
  shows "b \<in> set instances \<and> ci_model b = model \<and> ci_ready b \<and>
     (\<forall>i\<in>set instances. ci_model i = model \<and> ci_ready i \<longrightarrow> ci_active b \<le> ci_active i)"
proof -
  have "b \<in> set instances"
    using assms arg_min_list_in [of "filter (\<lambda>i. ci_model i = model \<and> ci_ready i) instances" ci_active]
    by (auto simp: choose_backend_def Let_def split: if_splits)
  then show ?thesis using choose_backend_ready [OF assms(2)] choose_backend_least [OF assms] by blast
qed

definition sample_listing :: http_reply where
  "sample_listing = Reply 200 (Inr (JDict [(''instances'', JList
     [JDict [(''instance_id'', JStr ''a''), (''model'', JStr ''m''), (''base_url'', JStr ''http://a''),
        (''state'', JStr ''ready''), (''active_requests'', JInt 2)],
      JDict [(''instance_id'', JStr ''b''), (''model'', JStr ''m''), (''base_url'', JStr ''http://b''),
        (''state'', JStr ''ready''), (''active_requests'', JInt 1)]])]))"

theorem routing_picks_the_least_loaded_backend_witness:
  "\<exists>instances b. list_instances sample_listing = Inr instances \<and> choose_backend sample_listing ''m'' = Inr (Some b) \<and>
     ci_id b = ''b'' \<and> (\<forall>i\<in>set instances. ci_model i = ''m'' \<and> ci_ready i \<longrightarrow> ci_active b \<le> ci_active i)"
proof -
  have "case list_instances sample_listing of Inr _ \<Rightarrow> True | Inl _ \<Rightarrow> False"
    "case choose_backend sample_listing ''m'' of Inr (Some b) \<Rightarrow> ci_id b = ''b'' | _ \<Rightarrow> False" by code_simp+
  then obtain instances b where "list_instances sample_listing = Inr instances"
      "choose_backend sample_listing ''m'' = Inr (Some b)" "ci_id b = ''b''"
    by (auto split: sum.splits option.splits)
  with routing_picks_the_least_loaded_backend [OF this(1,2)] show ?thesis by blast
qed





end
