(* ===== verification/Lifecycle_Models.thy ===== *)
theory Lifecycle_Models
  imports Context_Plan Py_Float
begin

text \<open>
  \<open>lifecycle/models.py\<close>: the context plan the queue proxy sends, GPU states, model profiles, backend
  instances and placement decisions, with the readers and writers of their JSON forms. A field
  the code copies from a JSON value without converting it keeps the type \<open>json\<close>.
\<close>

section \<open>Readers\<close>

definition optional_int :: "json \<Rightarrow> int option res" where
  "optional_int v = (if is_blank v then Inr None else bind_res (py_int v) (\<lambda>n. Inr (Some n)))"

definition or_int :: "int option \<Rightarrow> int \<Rightarrow> int" where
  "or_int x d = (case x of None \<Rightarrow> d | Some n \<Rightarrow> if n = 0 then d else n)"

definition iterate_texts :: "json \<Rightarrow> string list res" where
  "iterate_texts v = (case v of
       JList xs \<Rightarrow> Inr (map py_str xs)
     | JStr s \<Rightarrow> Inr (map (\<lambda>c. [c]) s)
     | JDict d \<Rightarrow> Inr (map fst d)
     | _ \<Rightarrow> Inl TypeError)"

text \<open>\<open>dict(v or {})\<close>.\<close>

definition dict_or_empty :: "json \<Rightarrow> dict res" where
  "dict_or_empty v = (if \<not> truthy v then Inr [] else
     case v of
       JDict d \<Rightarrow> Inr d
     | JStr _ \<Rightarrow> Inl (ValueError ''dictionary update sequence element #0 has length 1; 2 is required'')
     | _ \<Rightarrow> Inl TypeError)"

definition text_default :: "json \<Rightarrow> string \<Rightarrow> string" where
  "text_default v d = py_str (py_or v (JStr d))"

section \<open>ContextPlan\<close>

record context_plan =
  cp_queued_tasks :: int
  cp_max_required :: int
  cp_recommended_length :: "int option"
  cp_requested_parallel :: int
  cp_recommended_parallel :: "int option"
  cp_total_slot :: int
  cp_cap :: "int option"
  cp_oversized :: "string list"
  cp_reload_required :: bool
  cp_task_contexts :: "dict list"

definition json_items :: "json \<Rightarrow> json list" where
  "json_items v = (case v of JList xs \<Rightarrow> xs | _ \<Rightarrow> [])"

definition only_dicts :: "json list \<Rightarrow> dict list" where
  "only_dicts xs = concat (map (\<lambda>x. case x of JDict d \<Rightarrow> [d] | _ \<Rightarrow> []) xs)"

definition context_plan_from_dict :: "dict \<Rightarrow> context_plan res" where
  "context_plan_from_dict d =
     bind_res (optional_int (dget d ''queued_tasks'')) (\<lambda>queued.
     bind_res (optional_int (dget d ''max_required_context_tokens'')) (\<lambda>max_required.
     bind_res (optional_int (dget d ''recommended_lms_context_length'')) (\<lambda>length.
     bind_res (optional_int (dget d ''requested_parallel'')) (\<lambda>requested.
     bind_res (optional_int (dget d ''recommended_lms_parallel'')) (\<lambda>parallel.
     bind_res (optional_int (dget d ''total_slot_context_tokens'')) (\<lambda>total.
     bind_res (optional_int (dget d ''context_cap_tokens'')) (\<lambda>cap.
     Inr \<lparr>cp_queued_tasks = or_int queued 0, cp_max_required = or_int max_required 0,
          cp_recommended_length = length, cp_requested_parallel = or_int requested 1,
          cp_recommended_parallel = parallel, cp_total_slot = or_int total 0, cp_cap = cap,
          cp_oversized = map py_str (json_items (dget_or d ''oversized_tasks'' (JList []))),
          cp_reload_required = truthy (dget_or d ''reload_required'' (JBool False)),
          cp_task_contexts = only_dicts (json_items (dget_or d ''task_contexts'' (JList [])))\<rparr>)))))))"

definition context_plan_to_dict :: "context_plan \<Rightarrow> dict" where
  "context_plan_to_dict p =
     [(''queued_tasks'', JInt (cp_queued_tasks p)),
      (''max_required_context_tokens'', JInt (cp_max_required p)),
      (''recommended_lms_context_length'', opt_int (cp_recommended_length p)),
      (''requested_parallel'', JInt (cp_requested_parallel p)),
      (''recommended_lms_parallel'', opt_int (cp_recommended_parallel p)),
      (''total_slot_context_tokens'', JInt (cp_total_slot p)),
      (''context_cap_tokens'', opt_int (cp_cap p)),
      (''oversized_tasks'', JList (map JStr (cp_oversized p))),
      (''reload_required'', JBool (cp_reload_required p)),
      (''task_contexts'', JList (map JDict (cp_task_contexts p)))]"

section \<open>GPUs and profiles\<close>

record gpu_state =
  g_id :: string
  g_index :: int
  g_name :: string
  g_total_mb :: int
  g_used_mb :: int
  g_free_mb :: int

record volume_mount =
  vm_host_path :: string
  vm_container_path :: string
  vm_mode :: string

record environment_variable =
  ev_name :: string
  ev_value :: string

record model_profile =
  p_public_name :: string
  p_backend_model :: string
  p_runtime :: string
  p_artifact :: "string option"
  p_runtime_image :: "string option"
  p_host_port_start :: int
  p_container_port :: int
  p_public_host :: string
  p_base_url :: "string option"
  p_docker_extra_args :: "string list"
  p_runtime_extra_args :: "string list"
  p_volume_mounts :: "volume_mount list"
  p_environment :: "environment_variable list"
  p_healthcheck_path :: string
  p_startup_timeout_seconds :: flt
  p_healthcheck_interval_seconds :: flt
  p_warmup_enabled :: bool
  p_warmup_prompt :: string
  p_warmup_max_tokens :: int
  p_estimated_vram_mb :: int
  p_safety_margin_mb :: int
  p_min_replicas :: int
  p_max_replicas :: int
  p_idle_ttl_seconds :: int
  p_load_strategy :: string
  p_lms_binary :: string
  p_lms_gpu :: "string option"
  p_lms_context_length :: "int option"
  p_lms_parallel :: "int option"
  p_lms_ttl_seconds :: "int option"
  p_preferred_gpus :: "string list"
  p_reload_min_dwell_seconds :: int
  p_reload_allow_bucket_only :: bool

section \<open>BackendInstance\<close>

record backend_instance =
  bi_id :: string
  bi_model :: string
  bi_backend_model :: string
  bi_runtime :: string
  bi_base_url :: string
  bi_gpu_ids :: "string list"
  bi_state :: json
  bi_reserved_vram_mb :: int
  bi_host_port :: "int option"
  bi_container_name :: json
  bi_runtime_command :: "string list"
  bi_active_requests :: int
  bi_failure_reason :: json
  bi_created_at :: string
  bi_updated_at :: string
  bi_last_used_at :: json
  bi_dry_run :: bool
  bi_metadata :: dict

definition instance_to_dict :: "backend_instance \<Rightarrow> dict" where
  "instance_to_dict b =
     [(''instance_id'', JStr (bi_id b)),
      (''model'', JStr (bi_model b)),
      (''backend_model'', JStr (bi_backend_model b)),
      (''runtime'', JStr (bi_runtime b)),
      (''base_url'', JStr (bi_base_url b)),
      (''gpu_ids'', JList (map JStr (bi_gpu_ids b))),
      (''state'', bi_state b),
      (''reserved_vram_mb'', JInt (bi_reserved_vram_mb b)),
      (''host_port'', opt_int (bi_host_port b)),
      (''container_name'', bi_container_name b),
      (''runtime_command'', JList (map JStr (bi_runtime_command b))),
      (''active_requests'', JInt (bi_active_requests b)),
      (''failure_reason'', bi_failure_reason b),
      (''created_at'', JStr (bi_created_at b)),
      (''updated_at'', JStr (bi_updated_at b)),
      (''last_used_at'', bi_last_used_at b),
      (''dry_run'', JBool (bi_dry_run b)),
      (''metadata'', JDict (bi_metadata b))]"

definition required_key :: "dict \<Rightarrow> string \<Rightarrow> json res" where
  "required_key d k = (case map_of d k of None \<Rightarrow> Inl (KeyError k) | Some v \<Rightarrow> Inr v)"

text \<open>The two time stamps are the \<open>now_iso()\<close> of a missing \<open>created_at\<close> and \<open>updated_at\<close>.\<close>

definition instance_from_dict :: "string \<Rightarrow> string \<Rightarrow> dict \<Rightarrow> backend_instance res" where
  "instance_from_dict now1 now2 d =
     bind_res (required_key d ''instance_id'') (\<lambda>iid.
     bind_res (required_key d ''model'') (\<lambda>model.
     bind_res (iterate_texts (dget_or d ''gpu_ids'' (JList []))) (\<lambda>gpus.
     bind_res (py_int (dget_or d ''reserved_vram_mb'' (JInt 0))) (\<lambda>reserved.
     bind_res (optional_int (dget d ''host_port'')) (\<lambda>port.
     bind_res (iterate_texts (dget_or d ''runtime_command'' (JList []))) (\<lambda>cmd.
     bind_res (py_int (dget_or d ''active_requests'' (JInt 0))) (\<lambda>active.
     bind_res (dict_or_empty (dget d ''metadata'')) (\<lambda>meta.
     Inr \<lparr>bi_id = py_str iid,
          bi_model = py_str model,
          bi_backend_model = py_str (py_or (dget d ''backend_model'') model),
          bi_runtime = text_default (dget d ''runtime'') ''external'',
          bi_base_url = text_default (dget d ''base_url'') [],
          bi_gpu_ids = gpus,
          bi_state = dget_or d ''state'' (JStr ''ready''),
          bi_reserved_vram_mb = reserved,
          bi_host_port = port,
          bi_container_name = dget d ''container_name'',
          bi_runtime_command = cmd,
          bi_active_requests = active,
          bi_failure_reason = dget d ''failure_reason'',
          bi_created_at = text_default (dget d ''created_at'') now1,
          bi_updated_at = text_default (dget d ''updated_at'') now2,
          bi_last_used_at = dget d ''last_used_at'',
          bi_dry_run = truthy (dget_or d ''dry_run'' (JBool True)),
          bi_metadata = meta\<rparr>))))))))"

section \<open>PlacementDecision\<close>

record placement =
  pd_model :: string
  pd_action :: string
  pd_gpu_id :: "string option"
  pd_reason :: string
  pd_required_mb :: int
  pd_available_mb :: "int option"
  pd_instance_id :: "string option"
  pd_lms_context_length :: "int option"
  pd_lms_parallel :: "int option"
  pd_current_lms_context_length :: "int option"
  pd_current_lms_parallel :: "int option"
  pd_context_plan :: "dict option"

definition decision_to_dict :: "placement \<Rightarrow> dict" where
  "decision_to_dict p =
     [(''model'', JStr (pd_model p)),
      (''action'', JStr (pd_action p)),
      (''gpu_id'', opt_str (pd_gpu_id p)),
      (''reason'', JStr (pd_reason p)),
      (''required_vram_mb'', JInt (pd_required_mb p)),
      (''available_vram_mb'', opt_int (pd_available_mb p)),
      (''instance_id'', opt_str (pd_instance_id p)),
      (''lms_context_length'', opt_int (pd_lms_context_length p)),
      (''lms_parallel'', opt_int (pd_lms_parallel p)),
      (''current_lms_context_length'', opt_int (pd_current_lms_context_length p)),
      (''current_lms_parallel'', opt_int (pd_current_lms_parallel p)),
      (''context_plan'', opt_dict (pd_context_plan p))]"

text \<open>\<open>parse_iso\<close>: unlike \<open>parse_iso_datetime\<close> it keeps a naive time naive.\<close>

definition parse_iso :: "string \<Rightarrow> (int \<times> int option) res" where
  "parse_iso v = (case from_isoformat (replace_Z v) of
       None \<Rightarrow> Inl (ValueError ''Invalid isoformat string'') | Some p \<Rightarrow> Inr p)"

section \<open>Round trips\<close>

lemma optional_int_opt_int [simp]: "optional_int (opt_int x) = Inr x"
  by (simp add: optional_int_def opt_int_def split: option.splits)

lemma optional_int_JInt [simp]: "optional_int (JInt n) = Inr (Some n)"
  by (simp add: optional_int_def)

lemma or_int_same [simp]: "or_int (Some n) 0 = n"
  by (simp add: or_int_def)

lemma dget_or_Cons [simp]: "dget_or ((k, v) # d) k' w = (if k' = k then v else dget_or d k' w)"
  by (simp add: dget_or_def)

lemma dget_or_Nil [simp]: "dget_or [] k w = w"
  by (simp add: dget_or_def)

lemma only_dicts_map [simp]: "only_dicts (map JDict ds) = ds"
  by (induction ds) (simp_all add: only_dicts_def)

lemma map_py_str_JStr [simp]: "map (py_str \<circ> JStr) ss = ss"
  by (induction ss) simp_all

lemma context_plan_round_trip:
  assumes "cp_requested_parallel p \<noteq> 0"
  shows "context_plan_from_dict (context_plan_to_dict p) = Inr p"
  using assms
  by (simp add: context_plan_from_dict_def context_plan_to_dict_def json_items_def or_int_def)

definition wf_instance :: "backend_instance \<Rightarrow> bool" where
  "wf_instance b \<longleftrightarrow> bi_backend_model b \<noteq> [] \<and> bi_runtime b \<noteq> [] \<and> bi_created_at b \<noteq> [] \<and> bi_updated_at b \<noteq> []"

lemma text_default_JStr [simp]: "s \<noteq> [] \<Longrightarrow> text_default (JStr s) d = s"
  by (simp add: text_default_def py_or_def)

lemma text_default_empty [simp]: "text_default (JStr s) [] = s"
  by (simp add: text_default_def py_or_def)

lemma iterate_texts_map [simp]: "iterate_texts (JList (map JStr ss)) = Inr ss"
  by (simp add: iterate_texts_def)

lemma dict_or_empty_JDict [simp]: "dict_or_empty (JDict d) = Inr d"
  by (simp add: dict_or_empty_def)

lemma instance_round_trip:
  assumes "wf_instance b"
  shows "instance_from_dict now1 now2 (instance_to_dict b) = Inr b"
  using assms
  by (simp add: instance_from_dict_def instance_to_dict_def wf_instance_def required_key_def py_or_def)

text \<open>The plan the queue proxy computes is the plan the lifecycle service reads.\<close>

lemma plan_received:
  assumes "context_plan_for_model tasks = Inr plan"
  shows "\<exists>p. context_plan_from_dict plan = Inr p \<and>
     cp_queued_tasks p = int (length tasks) \<and>
     dget plan ''max_required_context_tokens'' = JInt (cp_max_required p) \<and>
     dget plan ''recommended_lms_context_length'' = opt_int (cp_recommended_length p) \<and>
     dget plan ''requested_parallel'' = JInt (cp_requested_parallel p) \<and>
     dget plan ''recommended_lms_parallel'' = opt_int (cp_recommended_parallel p) \<and>
     dget plan ''context_cap_tokens'' = opt_int (cp_cap p) \<and>
     cp_recommended_length p \<noteq> None \<and> cp_recommended_parallel p \<noteq> None \<and>
     set (cp_oversized p) = t_job_id ` {t\<in>set tasks. oversized_task (cp_cap p) t} \<and>
     \<not> cp_reload_required p \<and> length (cp_task_contexts p) = length tasks"
proof -
  from assms obtain ps caps where
    ps: "map_res requested_parallel_for_task tasks = Inr ps"
    and caps: "map_res context_cap_for_task tasks = Inr caps"
    by (auto simp: context_plan_for_model_def bind_res_Inr_iff Let_def)
  have "list_all2 (\<lambda>x y. requested_parallel_for_task x = Inr y) tasks ps"
    using ps by (simp add: map_res_Inr_iff)
  then have "\<forall>p\<in>set ps. 1 \<le> p"
    by (auto simp: list_all2_conv_all_nth in_set_conv_nth) (metis requested_parallel_pos)
  then have one: "1 \<le> max_default 1 ps"
    using max_default_in [of ps 1] by (cases "ps = []") auto
  have ctx: "only_dicts (map task_context_entry tasks) = map (\<lambda>t. case task_context_entry t of JDict d \<Rightarrow> d) tasks"
    by (induction tasks) (simp_all add: only_dicts_def task_context_entry_def)
  let ?cap = "min_or_none (List.map_filter id caps)"
  let ?max = "max_default 0 (map t_required_context_tokens tasks)"
  let ?len = "capped ?cap (context_bucket ?max)"
  let ?par = "max 1 (min (int (length tasks)) (max_default 1 ps))"
  have some: "opt_int (Some n) = JInt n" for n by (simp add: opt_int_def)
  have texts: "map py_str (map (JStr \<circ> t_job_id) ts) = map t_job_id ts" for ts by simp
  have plan: "context_plan_for_model tasks = Inr
       [(''queued_tasks'', JInt (int (length tasks))),
        (''max_required_context_tokens'', JInt ?max),
        (''recommended_lms_context_length'', JInt ?len),
        (''requested_parallel'', JInt (max_default 1 ps)),
        (''recommended_lms_parallel'', JInt ?par),
        (''total_slot_context_tokens'', JInt (?len * ?par)),
        (''context_cap_tokens'', opt_int ?cap),
        (''oversized_tasks'', JList (map (JStr \<circ> t_job_id) (filter (oversized_task ?cap) tasks))),
        (''reload_required'', JBool False),
        (''task_contexts'', JList (map task_context_entry tasks))]"
    by (simp add: context_plan_for_model_def ps caps Let_def)
  have "or_int (Some n) 0 = n" for n by simp
  with one show ?thesis
    using assms plan
    by (intro exI [of _ "\<lparr>cp_queued_tasks = int (length tasks), cp_max_required = ?max,
          cp_recommended_length = Some ?len, cp_requested_parallel = max_default 1 ps,
          cp_recommended_parallel = Some ?par, cp_total_slot = ?len * ?par, cp_cap = ?cap,
          cp_oversized = map t_job_id (filter (oversized_task ?cap) tasks), cp_reload_required = False,
          cp_task_contexts = only_dicts (map task_context_entry tasks)\<rparr>"])
      (auto simp: context_plan_from_dict_def json_items_def or_int_def some texts ctx simp del: map_map)
qed

end
