(* ===== verification/Lifecycle_Config.thy ===== *)
theory Lifecycle_Config
  imports Policy Lifecycle_Models
begin

text \<open>
  \<open>lifecycle/config.py\<close>: the model profiles of the lifecycle service, read from the configuration
  that \<open>load_orchestrator_config\<close> validated, and the profile of a dynamic model, whose settings are
  layered: built-in defaults, the \<open>dynamic_models\<close> section, the overrides of the request.
\<close>

section \<open>Readers\<close>

definition int_of_flt :: "flt \<Rightarrow> int res" where
  "int_of_flt x = (case x of
       Fin q \<Rightarrow> Inr (rat_trunc q)
     | FInf _ \<Rightarrow> Inl OverflowError
     | FNaN \<Rightarrow> Inl (ValueError ''cannot convert float NaN to integer''))"

definition vram_mb :: "json \<Rightarrow> int res" where
  "vram_mb v = (if v = JNull then Inr 0
     else bind_res (py_float v) (\<lambda>x. int_of_flt (fmul x (Fin 1024))))"

definition optional_str :: "json \<Rightarrow> string option" where
  "optional_str v = (if v = JNull then None else if py_str v = [] then None else Some (py_str v))"

definition string_tuple :: "json \<Rightarrow> string list" where
  "string_tuple v = (case v of JNull \<Rightarrow> [] | JList xs \<Rightarrow> map py_str xs | _ \<Rightarrow> [py_str v])"

definition volume_mount_of :: "dict \<Rightarrow> volume_mount option" where
  "volume_mount_of item =
     (case (optional_str (py_or (dget item ''host_path'') (dget item ''host'')),
            optional_str (py_or (dget item ''container_path'') (dget item ''container''))) of
        (Some host, Some container) \<Rightarrow>
          Some \<lparr>vm_host_path = host, vm_container_path = container,
                vm_mode = text_default (dget item ''mode'') ''ro''\<rparr>
      | _ \<Rightarrow> None)"

definition volume_mounts :: "json \<Rightarrow> volume_mount list" where
  "volume_mounts v = List.map_filter volume_mount_of (only_dicts (json_items v))"

definition environment_variables :: "json \<Rightarrow> environment_variable list" where
  "environment_variables v = (case v of
       JDict d \<Rightarrow> map (\<lambda>(name, raw). \<lparr>ev_name = name, ev_value = py_str raw\<rparr>) d
     | _ \<Rightarrow> [])"

section \<open>Profiles\<close>

text \<open>\<open>lifecycle_data.get(k, model_data.get(k, default))\<close>.\<close>

abbreviation layered :: "dict \<Rightarrow> dict \<Rightarrow> string \<Rightarrow> json \<Rightarrow> json" where
  "layered life model k v \<equiv> dget_or life k (dget_or model k v)"

text \<open>\<open>x or {}\<close> where a mapping is needed: \<open>.get\<close> on another truthy value raises AttributeError,
  unpacking it with two stars raises TypeError.\<close>

definition mapping_or_empty :: "exn \<Rightarrow> json \<Rightarrow> dict res" where
  "mapping_or_empty e v = (if \<not> truthy v then Inr [] else case v of JDict d \<Rightarrow> Inr d | _ \<Rightarrow> Inl e)"

definition model_profile_from_data :: "string \<Rightarrow> dict \<Rightarrow> dict \<Rightarrow> model_profile res" where
  "model_profile_from_data key config defaults =
     (let md = dmerge defaults config in
     bind_res (mapping_or_empty AttributeError (dget md ''lifecycle'')) (\<lambda>ld.
     let name = py_str (py_or (dget md ''public_name'') (JStr key)) in
     bind_res (vram_mb (layered ld md ''estimated_vram_gb'' (JInt 0))) (\<lambda>estimated.
     bind_res (vram_mb (layered ld md ''safety_margin_gb'' (JInt 1))) (\<lambda>margin.
     bind_res (iterate_texts (dget_or ld ''preferred_gpus'' (JList [JStr ''auto'']))) (\<lambda>gpus.
     bind_res (py_int (dget_or ld ''host_port_start'' (JInt 8100))) (\<lambda>host_port.
     bind_res (py_int (dget_or ld ''container_port'' (JInt 8000))) (\<lambda>container_port.
     bind_res (py_float (dget_or ld ''startup_timeout_seconds'' (JInt 120))) (\<lambda>startup.
     bind_res (py_float (dget_or ld ''healthcheck_interval_seconds'' (JInt 2))) (\<lambda>interval.
     bind_res (py_int (dget_or ld ''warmup_max_tokens'' (JInt 8))) (\<lambda>warmup_tokens.
     bind_res (py_int (dget_or ld ''min_replicas'' (JInt 0))) (\<lambda>min_replicas.
     bind_res (py_int (dget_or ld ''max_replicas'' (JInt 1))) (\<lambda>max_replicas.
     bind_res (py_int (dget_or ld ''idle_ttl_seconds'' (JInt 3600))) (\<lambda>idle.
     bind_res (optional_int (layered ld md ''lms_context_length'' JNull)) (\<lambda>context.
     bind_res (optional_int (layered ld md ''lms_parallel'' JNull)) (\<lambda>parallel.
     bind_res (optional_int (layered ld md ''lms_ttl_seconds'' JNull)) (\<lambda>ttl.
     bind_res (py_int (layered ld md ''reload_min_dwell_seconds'' (JInt 300))) (\<lambda>dwell.
     Inr \<lparr>p_public_name = name,
          p_backend_model = py_str (py_or (dget md ''backend_model'') (JStr name)),
          p_runtime = py_str (layered ld md ''runtime'' (JStr ''external'')),
          p_artifact = optional_str (layered ld md ''artifact'' JNull),
          p_runtime_image = optional_str (layered ld md ''runtime_image'' JNull),
          p_host_port_start = host_port,
          p_container_port = container_port,
          p_public_host = py_str (dget_or ld ''public_host'' (JStr ''host.docker.internal'')),
          p_base_url = optional_str (layered ld md ''base_url'' JNull),
          p_docker_extra_args = string_tuple (dget_or ld ''docker_extra_args'' (JList [])),
          p_runtime_extra_args = string_tuple (dget_or ld ''runtime_extra_args'' (JList [])),
          p_volume_mounts = volume_mounts (dget_or ld ''volumes'' (JList [])),
          p_environment = environment_variables (dget_or ld ''environment'' (JDict [])),
          p_healthcheck_path = py_str (dget_or ld ''healthcheck_path'' (JStr ''/v1/models'')),
          p_startup_timeout_seconds = startup,
          p_healthcheck_interval_seconds = interval,
          p_warmup_enabled = truthy (dget_or ld ''warmup_enabled'' (JBool True)),
          p_warmup_prompt = py_str (dget_or ld ''warmup_prompt'' (JStr ''Return exactly: ok'')),
          p_warmup_max_tokens = warmup_tokens,
          p_estimated_vram_mb = estimated,
          p_safety_margin_mb = margin,
          p_min_replicas = min_replicas,
          p_max_replicas = max_replicas,
          p_idle_ttl_seconds = idle,
          p_load_strategy = py_str (layered ld md ''load_strategy'' (JStr ''none'')),
          p_lms_binary = py_str (layered ld md ''lms_binary'' (JStr ''lms'')),
          p_lms_gpu = optional_str (layered ld md ''lms_gpu'' JNull),
          p_lms_context_length = context,
          p_lms_parallel = parallel,
          p_lms_ttl_seconds = ttl,
          p_preferred_gpus = gpus,
          p_reload_min_dwell_seconds = dwell,
          p_reload_allow_bucket_only =
            truthy (layered ld md ''reload_allow_bucket_only'' (JBool False))\<rparr>)))))))))))))))))"

fun load_profiles ::
  "dict \<Rightarrow> (string \<times> dict option) list \<Rightarrow> (string \<times> model_profile) list \<Rightarrow> (string \<times> model_profile) list res" where
  "load_profiles defaults [] acc = Inr acc"
| "load_profiles defaults ((key, cfg) # rest) acc =
     bind_res (model_profile_from_data key (case cfg of None \<Rightarrow> [] | Some d \<Rightarrow> d) defaults) (\<lambda>p.
     load_profiles defaults rest (AList.update (p_public_name p) p acc))"

definition load_model_profiles :: "orchestrator_config \<Rightarrow> (string \<times> model_profile) list res" where
  "load_model_profiles cfg = load_profiles (cfg_defaults cfg) (cfg_models cfg) []"

definition dynamic_lifecycle_defaults :: dict where
  "dynamic_lifecycle_defaults =
     [(''runtime'', JStr ''lmstudio''),
      (''base_url'', JStr ''http://host.docker.internal:1234/v1''),
      (''estimated_vram_gb'', JInt 8),
      (''safety_margin_gb'', JInt 1),
      (''min_replicas'', JInt 0),
      (''max_replicas'', JInt 1),
      (''idle_ttl_seconds'', JInt 900),
      (''preferred_gpus'', JList [JStr ''auto'']),
      (''load_strategy'', JStr ''cli-if-available''),
      (''lms_binary'', JStr ''lms'')]"

definition load_dynamic_model_profile ::
  "orchestrator_config \<Rightarrow> string \<Rightarrow> dict \<Rightarrow> model_profile option res" where
  "load_dynamic_model_profile cfg model overrides =
     (let dyn = cfg_dynamic_models cfg in
      if \<not> truthy (dget_or dyn ''enabled'' (JBool False)) then Inr None
      else
       let base = dset ''backend_model'' (JStr model) (dset ''public_name'' (JStr model) (dmerge dyn overrides)) in
       bind_res (mapping_or_empty TypeError (dget dyn ''lifecycle'')) (\<lambda>life.
       bind_res (mapping_or_empty TypeError (dget overrides ''lifecycle'')) (\<lambda>over.
       bind_res (model_profile_from_data model
           (dset ''lifecycle'' (JDict (dmerge (dmerge dynamic_lifecycle_defaults life) over)) base)
           (cfg_defaults cfg)) (\<lambda>p. Inr (Some p)))))"

section \<open>Facts\<close>

lemma load_profiles_keys:
  "load_profiles defaults ms acc = Inr ps \<Longrightarrow> (\<forall>(k, p)\<in>set acc. p_public_name p = k) \<Longrightarrow> distinct (map fst acc) \<Longrightarrow>
     (\<forall>(k, p)\<in>set ps. p_public_name p = k) \<and> distinct (map fst ps)"
proof (induction defaults ms acc arbitrary: ps rule: load_profiles.induct)
  case (2 defaults key cfg rest acc)
  from "2.prems"(1) obtain p where
    p: "model_profile_from_data key (case cfg of None \<Rightarrow> [] | Some d \<Rightarrow> d) defaults = Inr p"
      "load_profiles defaults rest (AList.update (p_public_name p) p acc) = Inr ps"
    by (auto simp: bind_res_Inr_iff)
  have "set (AList.update (p_public_name p) p acc) \<subseteq> insert (p_public_name p, p) (set acc)"
    by (induction acc) (auto split: if_splits)
  with "2.prems"(2) have "\<forall>(k, q)\<in>set (AList.update (p_public_name p) p acc). p_public_name q = k" by auto
  moreover have "distinct (map fst (AList.update (p_public_name p) p acc))"
    using "2.prems"(3) by (rule distinct_update)
  ultimately show ?case by (rule "2.IH" [OF p])
qed simp

lemma vram_mb_whole:
  assumes "0 < n" "n < 2 ^ 43"
  shows "vram_mb (JInt n) = Inr (n * 1024)"
proof -
  have a: "fl (of_int n) = Fin (of_int n)" by (rule fl_of_int_exact) (use assms in simp_all)
  have b: "fl (of_int (n * 1024)) = Fin (of_int (n * 1024))" by (rule fl_of_int_exact) (use assms in simp_all)
  then have "fl (of_int n * 1024) = Fin (of_int n * 1024)" by simp
  with a assms show ?thesis
    by (simp add: vram_mb_def int_of_flt_def rat_trunc_def) (metis floor_of_int of_int_mult of_int_numeral)
qed

text \<open>The settings of a dynamic model: the request's overrides win over the configured ones, and
  these over the built-in defaults.\<close>

lemma dynamic_layers:
  assumes "dict_wf life" "dict_wf over"
  shows "dget_or (dmerge (dmerge dynamic_lifecycle_defaults life) over) k v =
    (if dhas over k then dget over k else if dhas life k then dget life k
     else dget_or dynamic_lifecycle_defaults k v)"
  using assms by (auto simp: dget_or_def dget_def dhas_def map_of_dmerge map_add_def split: option.splits)

lemma dict_wf_dset: "dict_wf d \<Longrightarrow> dict_wf (dset k v d)"
  unfolding dict_wf_def by (rule distinct_update)

lemma dict_wf_dmerge: "dict_wf a \<Longrightarrow> dict_wf (dmerge a b)"
  by (induction b arbitrary: a) (auto simp: dmerge_def dict_wf_dset)

lemma dynamic_profile_names:
  assumes "load_dynamic_model_profile cfg model overrides = Inr (Some p)" "model \<noteq> []"
    "dict_wf (cfg_dynamic_models cfg)"
  shows "truthy (dget_or (cfg_dynamic_models cfg) ''enabled'' (JBool False)) \<and>
     p_public_name p = model \<and> p_backend_model p = model"
proof -
  let ?dyn = "cfg_dynamic_models cfg"
  have en: "truthy (dget_or ?dyn ''enabled'' (JBool False))"
    by (rule ccontr) (use assms(1) in \<open>simp add: load_dynamic_model_profile_def\<close>)
  with assms(1) obtain life where
    p: "model_profile_from_data model (dset ''lifecycle'' (JDict life) (dset ''backend_model'' (JStr model)
          (dset ''public_name'' (JStr model) (dmerge ?dyn overrides)))) (cfg_defaults cfg) = Inr p"
    by (auto simp: load_dynamic_model_profile_def Let_def bind_res_Inr_iff)
  have wf: "dict_wf (dset ''lifecycle'' (JDict life) (dset ''backend_model'' (JStr model)
          (dset ''public_name'' (JStr model) (dmerge ?dyn overrides))))"
    by (intro dict_wf_dset dict_wf_dmerge assms(3))
  show ?thesis
    using p en assms(2) by (auto simp: model_profile_from_data_def Let_def bind_res_Inr_iff dget_dmerge [OF wf] py_or_def)
qed

end
