(* ===== verification/Lifecycle_Registry.thy ===== *)
theory Lifecycle_Registry
  imports Lifecycle_Models
begin

text \<open>
  \<open>lifecycle/registry.py\<close> and \<open>lifecycle/registry_store.py\<close>: the registry of backend instances,
  every operation of which ends by writing the whole registry to its file. The file holds the
  JSON value that reads back from what was written; None is a file that does not exist. States
  are compared as strings, as the service writes them.
\<close>

section \<open>State\<close>

record registry =
  rg_instances :: "(string \<times> backend_instance) list"
  rg_file :: "json option"

definition REGISTRY_ACTIVE_STATES :: "string list" where
  "REGISTRY_ACTIVE_STATES = [''starting'', ''warming'', ''ready'', ''draining'', ''stopping'']"

definition RESERVED_STATES :: "string list" where
  "RESERVED_STATES = REGISTRY_ACTIVE_STATES @ [''external'']"

definition READY_STATES :: "string list" where "READY_STATES = [''ready'']"

definition in_states :: "backend_instance \<Rightarrow> string list \<Rightarrow> bool" where
  "in_states b S \<longleftrightarrow> (case bi_state b of JStr s \<Rightarrow> s \<in> set S | _ \<Rightarrow> False)"

section \<open>Loading and saving\<close>

definition registry_list :: "registry \<Rightarrow> backend_instance list" where
  "registry_list r = map snd (rg_instances r)"

definition registry_payload :: "registry \<Rightarrow> json" where
  "registry_payload r = JDict [(''instances'', JList (map (JDict \<circ> instance_to_dict) (registry_list r)))]"

definition save_registry :: "registry \<Rightarrow> registry" where
  "save_registry r = r\<lparr>rg_file := Some (registry_payload r)\<rparr>"

fun load_instances ::
  "(nat \<Rightarrow> string \<times> string) \<Rightarrow> nat \<Rightarrow> json list \<Rightarrow> (string \<times> backend_instance) list \<Rightarrow>
     (string \<times> backend_instance) list res" where
  "load_instances now n [] acc = Inr acc"
| "load_instances now n (item # items) acc = (case item of
     JDict d \<Rightarrow> bind_res (required_key d ''instance_id'') (\<lambda>iid.
       bind_res (instance_from_dict (fst (now n)) (snd (now n)) d) (\<lambda>b.
       load_instances now (Suc n) items (AList.update (py_str iid) b acc)))
   | _ \<Rightarrow> load_instances now (Suc n) items acc)"

definition load_registry :: "(nat \<Rightarrow> string \<times> string) \<Rightarrow> json option \<Rightarrow> registry res" where
  "load_registry now file = (case file of
       None \<Rightarrow> Inr \<lparr>rg_instances = [], rg_file = file\<rparr>
     | Some (JDict payload) \<Rightarrow> (case dget_or payload ''instances'' (JList []) of
           JList items \<Rightarrow> bind_res (load_instances now 0 items []) (\<lambda>is.
             Inr \<lparr>rg_instances = is, rg_file = file\<rparr>)
         | JStr _ \<Rightarrow> Inr \<lparr>rg_instances = [], rg_file = file\<rparr>
         | JDict _ \<Rightarrow> Inr \<lparr>rg_instances = [], rg_file = file\<rparr>
         | _ \<Rightarrow> Inl TypeError)
     | Some _ \<Rightarrow> Inl AttributeError)"

section \<open>Reading\<close>

definition registry_get :: "registry \<Rightarrow> string \<Rightarrow> backend_instance res" where
  "registry_get r i = (case map_of (rg_instances r) i of None \<Rightarrow> Inl (KeyError i) | Some b \<Rightarrow> Inr b)"

definition active_for_model :: "registry \<Rightarrow> string \<Rightarrow> backend_instance list" where
  "active_for_model r model = filter (\<lambda>b. bi_model b = model \<and> in_states b REGISTRY_ACTIVE_STATES) (registry_list r)"

definition ready_for_model :: "registry \<Rightarrow> string \<Rightarrow> backend_instance list" where
  "ready_for_model r model = filter (\<lambda>b. bi_model b = model \<and> in_states b READY_STATES) (registry_list r)"

definition reserve_gpus :: "backend_instance \<Rightarrow> (string \<times> int) list \<Rightarrow> (string \<times> int) list" where
  "reserve_gpus b m = (if in_states b RESERVED_STATES
     then fold (\<lambda>g. count_add g (bi_reserved_vram_mb b)) (bi_gpu_ids b) m else m)"

definition reserved_vram_by_gpu :: "registry \<Rightarrow> (string \<times> int) list" where
  "reserved_vram_by_gpu r = fold reserve_gpus (registry_list r) []"

function free_port :: "int list \<Rightarrow> int \<Rightarrow> int" where
  "free_port used p = (if p \<in> set used then free_port used (p + 1) else p)"
  by pat_completeness auto
termination
proof (relation "measure (\<lambda>(used, p). card {q \<in> set used. p \<le> q})")
  fix used :: "int list" and p :: int
  assume "p \<in> set used"
  then have "{q \<in> set used. p + 1 \<le> q} \<subset> {q \<in> set used. p \<le> q}" by force
  then show "((used, p + 1), used, p) \<in> measure (\<lambda>(used, p). card {q \<in> set used. p \<le> q})"
    by (simp add: psubset_card_mono)
qed simp

declare free_port.simps [simp del]

definition next_host_port :: "registry \<Rightarrow> int \<Rightarrow> int" where
  "next_host_port r start = free_port (List.map_filter bi_host_port (registry_list r)) start"

section \<open>Writing\<close>

definition registry_upsert :: "string \<Rightarrow> bool \<Rightarrow> backend_instance \<Rightarrow> registry \<Rightarrow> registry \<times> backend_instance" where
  "registry_upsert now touch b r =
     (let b = (if touch then b\<lparr>bi_updated_at := now\<rparr> else b) in
      (save_registry (r\<lparr>rg_instances := AList.update (bi_id b) b (rg_instances r)\<rparr>), b))"

definition modify_instance ::
  "(backend_instance \<Rightarrow> backend_instance) \<Rightarrow> string \<Rightarrow> registry \<Rightarrow> (registry \<times> backend_instance) res" where
  "modify_instance f i r = (case map_of (rg_instances r) i of
       None \<Rightarrow> Inl (KeyError i)
     | Some b \<Rightarrow> Inr (save_registry (r\<lparr>rg_instances := AList.update i (f b) (rg_instances r)\<rparr>), f b))"

definition mark_state :: "string \<Rightarrow> string \<Rightarrow> string \<Rightarrow> registry \<Rightarrow> (registry \<times> backend_instance) res" where
  "mark_state now i state r =
     modify_instance (\<lambda>b. b\<lparr>bi_state := JStr state, bi_updated_at := now\<rparr>) i r"

definition mark_failed :: "string \<Rightarrow> string \<Rightarrow> string \<Rightarrow> registry \<Rightarrow> (registry \<times> backend_instance) res" where
  "mark_failed now i reason r =
     modify_instance (\<lambda>b. b\<lparr>bi_state := JStr ''failed'', bi_failure_reason := JStr reason, bi_updated_at := now\<rparr>) i r"

definition adjusted :: "string \<Rightarrow> int \<Rightarrow> backend_instance \<Rightarrow> backend_instance" where
  "adjusted now delta b = (let b = b\<lparr>bi_active_requests := max 0 (bi_active_requests b + delta), bi_updated_at := now\<rparr>
     in if delta > 0 then b\<lparr>bi_last_used_at := JStr now\<rparr> else b)"

definition adjust_active_requests :: "string \<Rightarrow> string \<Rightarrow> int \<Rightarrow> registry \<Rightarrow> (registry \<times> backend_instance) res" where
  "adjust_active_requests now i delta r = modify_instance (adjusted now delta) i r"

definition registry_remove :: "string \<Rightarrow> registry \<Rightarrow> registry" where
  "registry_remove i r = save_registry (r\<lparr>rg_instances := AList.delete i (rg_instances r)\<rparr>)"

section \<open>Invariant\<close>

definition registry_inv :: "registry \<Rightarrow> bool" where
  "registry_inv r \<longleftrightarrow> distinct (map fst (rg_instances r)) \<and>
     (\<forall>(i, b) \<in> set (rg_instances r). bi_id b = i \<and> wf_instance b \<and> 0 \<le> bi_active_requests b) \<and>
     rg_file r = Some (registry_payload r)"

lemma registry_invD:
  assumes "registry_inv r" "map_of (rg_instances r) i = Some b"
  shows "bi_id b = i" "wf_instance b" "0 \<le> bi_active_requests b"
  using assms by (auto simp: registry_inv_def dest!: map_of_SomeD)

lemma set_update_subset: "set (AList.update k v xs) \<subseteq> insert (k, v) (set xs)"
  by (induction xs) (auto split: if_splits)

lemma registry_payload_save [simp]: "registry_payload (save_registry r) = registry_payload r"
  by (simp add: save_registry_def registry_payload_def registry_list_def)

lemma save_registry_simps [simp]:
  "rg_instances (save_registry r) = rg_instances r"
  "rg_file (save_registry r) = Some (registry_payload r)"
  by (simp_all add: save_registry_def)

lemma registry_inv_update:
  assumes "registry_inv r" "bi_id b = i" "wf_instance b" "0 \<le> bi_active_requests b"
  shows "registry_inv (save_registry (r\<lparr>rg_instances := AList.update i b (rg_instances r)\<rparr>))"
  using assms set_update_subset [of i b "rg_instances r"]
  by (fastforce simp: registry_inv_def distinct_update simp del: registry_payload_save
      intro: registry_payload_save [symmetric])

lemma registry_inv_remove: "registry_inv r \<Longrightarrow> registry_inv (registry_remove i r)"
  using distinct_delete [of "rg_instances r" i]
  by (auto simp: registry_inv_def registry_remove_def) (auto simp: AList.delete_eq)

lemma modify_instance_inv:
  assumes "registry_inv r" "modify_instance f i r = Inr (r', b')"
    "\<And>b. bi_id (f b) = bi_id b" "\<And>b. wf_instance b \<Longrightarrow> wf_instance (f b)"
    "\<And>b. 0 \<le> bi_active_requests b \<Longrightarrow> 0 \<le> bi_active_requests (f b)"
  shows "registry_inv r'"
proof -
  from assms(2) obtain b where b: "map_of (rg_instances r) i = Some b"
      "r' = save_registry (r\<lparr>rg_instances := AList.update i (f b) (rg_instances r)\<rparr>)"
    by (auto simp: modify_instance_def split: option.splits)
  show ?thesis
    unfolding b(2)
    by (rule registry_inv_update [OF assms(1)])
      (use assms(3-5) registry_invD [OF assms(1) b(1)] in simp_all)
qed

lemma adjusted_simps [simp]:
  "bi_id (adjusted now d b) = bi_id b" "bi_model (adjusted now d b) = bi_model b"
  "bi_state (adjusted now d b) = bi_state b" "bi_gpu_ids (adjusted now d b) = bi_gpu_ids b"
  "bi_reserved_vram_mb (adjusted now d b) = bi_reserved_vram_mb b"
  "bi_active_requests (adjusted now d b) = max 0 (bi_active_requests b + d)"
  "wf_instance b \<Longrightarrow> now \<noteq> [] \<Longrightarrow> wf_instance (adjusted now d b)"
  by (simp_all add: adjusted_def Let_def wf_instance_def)

lemma registry_ops_inv:
  assumes "registry_inv r" "now \<noteq> []"
  shows "wf_instance b \<Longrightarrow> 0 \<le> bi_active_requests b \<Longrightarrow> registry_inv (fst (registry_upsert now touch b r))"
    and "mark_state now i s r = Inr (r1, b1) \<Longrightarrow> registry_inv r1"
    and "mark_failed now i s r = Inr (r2, b2) \<Longrightarrow> registry_inv r2"
    and "adjust_active_requests now i d r = Inr (r3, b3) \<Longrightarrow> registry_inv r3"
    and "registry_inv (registry_remove i r)"
proof -
  show "wf_instance b \<Longrightarrow> 0 \<le> bi_active_requests b \<Longrightarrow> registry_inv (fst (registry_upsert now touch b r))"
    using assms by (auto simp: registry_upsert_def Let_def wf_instance_def intro!: registry_inv_update)
  show "mark_state now i s r = Inr (r1, b1) \<Longrightarrow> registry_inv r1"
    unfolding mark_state_def by (erule modify_instance_inv [OF assms(1)]) (use assms(2) in \<open>simp_all add: wf_instance_def\<close>)
  show "mark_failed now i s r = Inr (r2, b2) \<Longrightarrow> registry_inv r2"
    unfolding mark_failed_def by (erule modify_instance_inv [OF assms(1)]) (use assms(2) in \<open>simp_all add: wf_instance_def\<close>)
  show "adjust_active_requests now i d r = Inr (r3, b3) \<Longrightarrow> registry_inv r3"
    unfolding adjust_active_requests_def
    by (erule modify_instance_inv [OF assms(1)]) (use assms(2) in simp_all)
  show "registry_inv (registry_remove i r)" using assms(1) by (rule registry_inv_remove)
qed

section \<open>Restart\<close>

lemma load_instances_saved:
  assumes "\<forall>(i, b) \<in> set ps. bi_id b = i \<and> wf_instance b" "distinct (map fst (acc @ ps))"
  shows "load_instances now n (map (JDict \<circ> instance_to_dict) (map snd ps)) acc = Inr (acc @ ps)"
  using assms
proof (induction ps arbitrary: n acc)
  case (Cons p ps)
  obtain i b where p: "p = (i, b)" by fastforce
  have key: "required_key (instance_to_dict b) ''instance_id'' = Inr (JStr (bi_id b))"
    by (simp add: required_key_def instance_to_dict_def)
  have new: "i \<notin> fst ` set acc" using Cons.prems(2) p by auto
  have app: "AList.update k v xs = xs @ [(k, v)]" if "k \<notin> fst ` set xs" for k v and xs :: "('k \<times> 'v) list"
    using that by (induction xs) auto
  have "load_instances now (Suc n) (map (JDict \<circ> instance_to_dict) (map snd ps)) (acc @ [p]) = Inr ((acc @ [p]) @ ps)"
    by (rule Cons.IH) (use Cons.prems in auto)
  then show ?case
    using Cons.prems(1) new app [of i acc b]
    by (simp add: p key instance_round_trip o_def)
qed simp

lemma registry_restart:
  assumes "registry_inv r"
  shows "load_registry now (rg_file r) = Inr r"
proof -
  have "load_instances now 0 (map (JDict \<circ> instance_to_dict) (map snd (rg_instances r))) [] = Inr ([] @ rg_instances r)"
    using assms by (intro load_instances_saved) (auto simp: registry_inv_def)
  then show ?thesis
    using assms by (simp add: load_registry_def registry_inv_def registry_payload_def registry_list_def)
qed

section \<open>Ports and reservations\<close>

lemma free_port_spec: "start \<le> free_port used start \<and> free_port used start \<notin> set used \<and>
    (\<forall>p. start \<le> p \<and> p < free_port used start \<longrightarrow> p \<in> set used)"
proof (induction used start rule: free_port.induct)
  case (1 used p)
  show ?case
  proof (cases "p \<in> set used")
    case True
    then have "free_port used p = free_port used (p + 1)" by (subst free_port.simps) simp
    then show ?thesis using "1.IH" [OF True] True by (metis order_le_less zle_add1_eq_le add1_zle_eq)
  next
    case False
    then have "free_port used p = p" by (subst free_port.simps) simp
    with False show ?thesis by (auto simp: not_less)
  qed
qed

lemma in_used_ports: "p \<in> set (List.map_filter bi_host_port bs) \<longleftrightarrow> (\<exists>b\<in>set bs. bi_host_port b = Some p)"
  by (induction bs) (auto simp: List.map_filter_simps split: option.splits)

definition reserved_mb :: "registry \<Rightarrow> string \<Rightarrow> int" where
  "reserved_mb r g = (\<Sum>b\<leftarrow>registry_list r. if in_states b RESERVED_STATES
     then int (count_list (bi_gpu_ids b) g) * bi_reserved_vram_mb b else 0)"

lemma count_get_fold_const: "count_get (fold (\<lambda>g. count_add g n) gs m) k = count_get m k + int (count_list gs k) * n"
  by (induction gs arbitrary: m) (auto simp: algebra_simps)

lemma reserved_vram_by_gpu_get: "count_get (reserved_vram_by_gpu r) g = reserved_mb r g"
proof -
  have "count_get (fold reserve_gpus bs m) g = count_get m g + (\<Sum>b\<leftarrow>bs. if in_states b RESERVED_STATES
     then int (count_list (bi_gpu_ids b) g) * bi_reserved_vram_mb b else 0)" for bs m
    by (induction bs arbitrary: m) (auto simp: reserve_gpus_def count_get_fold_const)
  then show ?thesis by (simp add: reserved_vram_by_gpu_def reserved_mb_def)
qed

end
