(* ===== verification/Lifecycle_Scheduler.thy ===== *)
theory Lifecycle_Scheduler
  imports Lifecycle_Registry
begin

text \<open>
  Placement in the lifecycle service: \<open>lifecycle/scheduler.py\<close> (choice of a GPU, number of
  replicas), \<open>lifecycle/dynamic_policy.py\<close> (which models may be started without being configured,
  with the glob matching of \<open>fnmatch.fnmatchcase\<close>) and the request readers of
  \<open>lifecycle/allocation.py\<close>.
\<close>

section \<open>choose_gpu and desired_replicas\<close>

definition required_vram :: "model_profile \<Rightarrow> int" where
  "required_vram p = p_estimated_vram_mb p + p_safety_margin_mb p"

definition gpu_preferred :: "model_profile \<Rightarrow> gpu_state \<Rightarrow> bool" where
  "gpu_preferred p g \<longleftrightarrow> ''auto'' \<in> set (p_preferred_gpus p) \<or> g_id g \<in> set (p_preferred_gpus p) \<or>
     str_int (g_index g) \<in> set (p_preferred_gpus p)"

definition available_mb :: "registry \<Rightarrow> gpu_state \<Rightarrow> int" where
  "available_mb r g = g_free_mb g - count_get (reserved_vram_by_gpu r) (g_id g)"

definition gpu_candidates :: "model_profile \<Rightarrow> gpu_state list \<Rightarrow> registry \<Rightarrow> (gpu_state \<times> int) list" where
  "gpu_candidates p gpus r = map (\<lambda>g. (g, available_mb r g))
     (filter (\<lambda>g. gpu_preferred p g \<and> available_mb r g \<ge> required_vram p) gpus)"

definition placement_on ::
  "model_profile \<Rightarrow> string \<Rightarrow> string option \<Rightarrow> string \<Rightarrow> int option \<Rightarrow> placement" where
  "placement_on p action gpu reason available =
     \<lparr>pd_model = p_public_name p, pd_action = action, pd_gpu_id = gpu, pd_reason = reason,
      pd_required_mb = required_vram p, pd_available_mb = available, pd_instance_id = None,
      pd_lms_context_length = p_lms_context_length p, pd_lms_parallel = p_lms_parallel p,
      pd_current_lms_context_length = None, pd_current_lms_parallel = None, pd_context_plan = None\<rparr>"

definition choose_gpu :: "model_profile \<Rightarrow> gpu_state list \<Rightarrow> registry \<Rightarrow> placement" where
  "choose_gpu p gpus r =
     (if gpu_candidates p gpus r = [] then
        placement_on p ''noop'' None ''no_gpu_with_enough_vram''
          (if gpus = [] then None else Some (Max (available_mb r ` set gpus)))
      else (case arg_max_list snd (gpu_candidates p gpus r) of (g, available) \<Rightarrow>
        placement_on p ''start'' (Some (g_id g)) ''vram_available'' (Some available)))"

definition desired_replicas :: "model_profile \<Rightarrow> int \<Rightarrow> int \<Rightarrow> int" where
  "desired_replicas p ready queue_length =
     min (p_max_replicas p)
       (max (p_min_replicas p) ready + (if queue_length > 0 then 1 else 0))"

section \<open>Dynamic models\<close>

text \<open>The inside of a bracket expression: ranges and single characters.\<close>

fun class_matches :: "string \<Rightarrow> char \<Rightarrow> bool" where
  "class_matches (x # y # z # cs) c =
     (if y = CHR ''-'' then (x \<le> c \<and> c \<le> z) \<or> class_matches cs c
      else x = c \<or> class_matches (y # z # cs) c)"
| "class_matches (x # cs) c = (x = c \<or> class_matches cs c)"
| "class_matches [] c = False"

text \<open>Splits the pattern after an opening bracket into the class and what follows the closing
  bracket: an exclamation mark and a bracket in first position belong to the class.\<close>

definition split_class :: "string \<Rightarrow> (string \<times> string) option" where
  "split_class p =
     (let (neg, p1) = (case p of c # cs \<Rightarrow> if c = CHR ''!'' then ([c], cs) else ([], p) | [] \<Rightarrow> ([], []));
          (first, p2) = (case p1 of c # cs \<Rightarrow> if c = CHR '']'' then ([c], cs) else ([], p1) | [] \<Rightarrow> ([], []))
      in case dropWhile (\<lambda>c. c \<noteq> CHR '']'') p2 of
           [] \<Rightarrow> None
         | _ # rest \<Rightarrow> Some (neg @ first @ takeWhile (\<lambda>c. c \<noteq> CHR '']'') p2, rest))"

definition class_accepts :: "string \<Rightarrow> char \<Rightarrow> bool" where
  "class_accepts cls c = (case cls of
       x # xs \<Rightarrow> if x = CHR ''!'' then \<not> class_matches xs c else class_matches cls c
     | [] \<Rightarrow> False)"

lemma dropWhile_shorter: "dropWhile P xs = y # ys \<Longrightarrow> length ys < length xs"
  by (induction xs) (auto split: if_splits)

lemma split_class_shorter: "split_class p = Some (cls, rest) \<Longrightarrow> length rest < length p"
  by (auto simp: split_class_def Let_def split: list.splits if_splits dest: dropWhile_shorter)

function fnmatch :: "string \<Rightarrow> string \<Rightarrow> bool" where
  "fnmatch [] s = (s = [])"
| "fnmatch (q # p) s =
     (if q = CHR ''*'' then fnmatch p s \<or> (case s of [] \<Rightarrow> False | _ # s' \<Rightarrow> fnmatch (q # p) s')
      else (case s of
          [] \<Rightarrow> False
        | c # s' \<Rightarrow>
            if q = CHR ''?'' then fnmatch p s'
            else if q = CHR ''['' then
              (case split_class p of
                 None \<Rightarrow> c = q \<and> fnmatch p s'
               | Some (cls, rest) \<Rightarrow> class_accepts cls c \<and> fnmatch rest s')
            else c = q \<and> fnmatch p s'))"
  by pat_completeness auto
termination
  by (relation "measure (\<lambda>(p, s). length p + length s)") (auto dest: split_class_shorter)

declare fnmatch.simps [simp del]

definition pattern_matches :: "string \<Rightarrow> string \<Rightarrow> bool" where
  "pattern_matches v p \<longleftrightarrow> v = p \<or> fnmatch p v"

definition pattern_list :: "dict \<Rightarrow> string list \<Rightarrow> string list" where
  "pattern_list config ks = concat (map (\<lambda>k. case dget config k of
       JList xs \<Rightarrow> map py_str xs
     | v \<Rightarrow> if is_blank v then [] else [py_str v]) ks)"

definition dynamic_model_allowed :: "string \<Rightarrow> dict \<Rightarrow> bool" where
  "dynamic_model_allowed model config =
     (if \<not> truthy (dget_or config ''enabled'' (JBool False)) then False
      else if list_ex (pattern_matches model)
          (pattern_list config [''denied_models'', ''deny_models'', ''denied_model_patterns'']) then False
      else (let allowed = pattern_list config [''allowed_models'', ''allow_models'', ''allowed_model_patterns''] in
        allowed = [] \<or> list_ex (pattern_matches model) allowed))"

section \<open>Requests\<close>

definition queue_lengths_from_payload :: "dict \<Rightarrow> (string \<times> int) list res" where
  "queue_lengths_from_payload payload = (case dget_or payload ''queue_lengths'' (JDict []) of
       JDict d \<Rightarrow> map_res (\<lambda>(m, v). bind_res (py_int v) (\<lambda>n. Inr (m, n))) d
     | _ \<Rightarrow> Inr [])"

fun context_plans_loop :: "dict \<Rightarrow> (string \<times> context_plan) list res" where
  "context_plans_loop [] = Inr []"
| "context_plans_loop ((m, v) # d) = (case v of
     JDict raw \<Rightarrow> bind_res (context_plan_from_dict raw) (\<lambda>p.
       bind_res (context_plans_loop d) (\<lambda>ps. Inr ((m, p) # ps)))
   | _ \<Rightarrow> context_plans_loop d)"

definition context_plans_from_payload :: "dict \<Rightarrow> (string \<times> context_plan) list res" where
  "context_plans_from_payload payload = (case dget_or payload ''context_plans'' (JDict []) of
       JDict d \<Rightarrow> context_plans_loop d
     | _ \<Rightarrow> Inr [])"

definition nonzero :: "int option \<Rightarrow> bool" where
  "nonzero x \<longleftrightarrow> x \<noteq> None \<and> x \<noteq> Some 0"

definition profile_with_context_plan :: "model_profile \<Rightarrow> context_plan option \<Rightarrow> model_profile" where
  "profile_with_context_plan p plan = (case plan of
       None \<Rightarrow> p
     | Some cp \<Rightarrow>
         if cp_queued_tasks cp \<le> 0 then p
         else p\<lparr>p_lms_context_length :=
                  (if nonzero (cp_recommended_length cp) then cp_recommended_length cp else p_lms_context_length p),
                p_lms_parallel :=
                  (if nonzero (cp_recommended_parallel cp) then cp_recommended_parallel cp else p_lms_parallel p)\<rparr>)"

definition ALLOCATION_KEYS :: "string list" where
  "ALLOCATION_KEYS = [''runtime'', ''base_url'', ''estimated_vram_gb'', ''safety_margin_gb'', ''preferred_gpus'',
     ''idle_ttl_seconds'', ''min_replicas'', ''max_replicas'', ''warmup_enabled'', ''warmup_prompt'',
     ''warmup_max_tokens'', ''startup_timeout_seconds'', ''load_strategy'', ''lms_gpu'', ''lms_context_length'',
     ''lms_parallel'', ''lms_ttl_seconds'']"

definition allocation_overrides :: "dict \<Rightarrow> dict" where
  "allocation_overrides payload =
     (let orch = (case dget payload ''orchestration'' of JDict d \<Rightarrow> d | _ \<Rightarrow> []);
          lc = [(k, dget orch k). k \<leftarrow> ALLOCATION_KEYS, dhas orch k];
          lc = (if dhas orch ''max_parallel'' \<and> \<not> dhas lc ''lms_parallel''
                then dset ''lms_parallel'' (dget orch ''max_parallel'') lc else lc);
          lc = (if dhas orch ''gpu'' \<and> \<not> dhas lc ''preferred_gpus''
                then dset ''preferred_gpus'' (case dget orch ''gpu'' of JList xs \<Rightarrow> JList xs | v \<Rightarrow> JList [v]) lc
                else lc)
      in if lc = [] then [] else [(''lifecycle'', JDict lc)])"

definition allocation_has_vram_override :: "dict \<Rightarrow> bool" where
  "allocation_has_vram_override payload = (case dget payload ''orchestration'' of
       JDict d \<Rightarrow> dhas d ''estimated_vram_gb'' | _ \<Rightarrow> False)"

section \<open>Facts\<close>

lemma choose_gpu_start:
  assumes "pd_action (choose_gpu p gpus r) = ''start''"
  shows "\<exists>g\<in>set gpus. pd_gpu_id (choose_gpu p gpus r) = Some (g_id g) \<and> gpu_preferred p g \<and>
     reserved_mb r (g_id g) + required_vram p \<le> g_free_mb g \<and>
     pd_available_mb (choose_gpu p gpus r) = Some (g_free_mb g - reserved_mb r (g_id g)) \<and>
     (\<forall>h\<in>set gpus. gpu_preferred p h \<longrightarrow>
        g_free_mb h - reserved_mb r (g_id h) \<le> g_free_mb g - reserved_mb r (g_id g))"
proof -
  have ne: "gpu_candidates p gpus r \<noteq> []"
    using assms by (auto simp: choose_gpu_def placement_on_def)
  obtain g a where ga: "arg_max_list snd (gpu_candidates p gpus r) = (g, a)" by fastforce
  have mem: "(g, a) \<in> set (gpu_candidates p gpus r)" using arg_max_list_in [OF ne, of snd] ga by simp
  then have g: "g \<in> set gpus" "gpu_preferred p g" "a = available_mb r g" "required_vram p \<le> a"
    by (auto simp: gpu_candidates_def)
  have av: "available_mb r h = g_free_mb h - reserved_mb r (g_id h)" for h
    by (simp add: available_mb_def reserved_vram_by_gpu_get)
  have best: "available_mb r h \<le> a" if "h \<in> set gpus" "gpu_preferred p h" for h
  proof (cases "required_vram p \<le> available_mb r h")
    case True
    with that have "(h, available_mb r h) \<in> set (gpu_candidates p gpus r)" by (auto simp: gpu_candidates_def)
    from arg_max_list_ge [OF this, of snd] show ?thesis by (simp add: ga)
  next
    case False
    with g(4) show ?thesis by simp
  qed
  have c: "choose_gpu p gpus r = placement_on p ''start'' (Some (g_id g)) ''vram_available'' (Some a)"
    using ne ga by (simp add: choose_gpu_def)
  show ?thesis
  proof (rule bexI [OF _ g(1)], intro conjI ballI impI)
    show "reserved_mb r (g_id g) + required_vram p \<le> g_free_mb g" using g(3,4) av [of g] by simp
    show "g_free_mb h - reserved_mb r (g_id h) \<le> g_free_mb g - reserved_mb r (g_id g)"
      if "h \<in> set gpus" "gpu_preferred p h" for h
      using best [OF that] g(3) by (simp add: av)
  qed (use g av in \<open>simp_all add: c placement_on_def\<close>)
qed

lemma choose_gpu_noop:
  "pd_action (choose_gpu p gpus r) \<noteq> ''start'' \<longleftrightarrow>
     (\<forall>g\<in>set gpus. gpu_preferred p g \<longrightarrow> g_free_mb g < reserved_mb r (g_id g) + required_vram p)"
proof -
  have "pd_action (choose_gpu p gpus r) \<noteq> ''start'' \<longleftrightarrow> gpu_candidates p gpus r = []"
    by (simp add: choose_gpu_def placement_on_def split: prod.splits)
  also have "\<dots> \<longleftrightarrow> (\<forall>g\<in>set gpus. gpu_preferred p g \<longrightarrow> \<not> available_mb r g \<ge> required_vram p)"
    by (auto simp: gpu_candidates_def filter_empty_conv)
  finally show ?thesis
    by (simp add: available_mb_def reserved_vram_by_gpu_get not_le diff_less_eq add.commute)
qed

lemma desired_replicas_bounds:
  "desired_replicas p ready n \<le> p_max_replicas p"
  "p_min_replicas p \<le> p_max_replicas p \<Longrightarrow> p_min_replicas p \<le> desired_replicas p ready n"
  "ready \<le> p_max_replicas p \<Longrightarrow> ready \<le> desired_replicas p ready n"
  "desired_replicas p ready n \<le> max (p_min_replicas p) ready + 1"
  by (auto simp: desired_replicas_def)

lemma fnmatch_star: "fnmatch ''*'' s"
  by (induction s) (subst fnmatch.simps, simp add: fnmatch.simps(1))+

lemma fnmatch_literal:
  "(\<And>c. c \<in> set p \<Longrightarrow> c \<notin> {CHR ''*'', CHR ''?'', CHR ''[''}) \<Longrightarrow> fnmatch p s \<longleftrightarrow> s = p"
proof (induction p arbitrary: s)
  case Nil
  then show ?case by (simp add: fnmatch.simps)
next
  case (Cons q p)
  then show ?case by (subst fnmatch.simps) (auto split: list.splits)
qed

lemma fnmatch_prefix_star:
  "(\<And>c. c \<in> set p \<Longrightarrow> c \<notin> {CHR ''*'', CHR ''?'', CHR ''[''}) \<Longrightarrow> fnmatch (p @ ''*'') s \<longleftrightarrow> starts_with s p"
proof (induction p arbitrary: s)
  case Nil
  then show ?case by (simp add: fnmatch_star starts_with_def)
next
  case (Cons q p)
  then show ?case by (simp add: fnmatch.simps(2) starts_with_def split: list.splits)
qed

end
