(* ===== verification/Lifecycle_Cleanup.thy ===== *)
theory Lifecycle_Cleanup
  imports Lifecycle_Scheduler
begin

text \<open>
  \<open>lifecycle/cleanup.py\<close>: the service that stops idle backends and purges stale registry entries.
  The callback \<open>stop_instance\<close> and the profile resolver are arguments, as in the code; the clock
  is an argument too.
\<close>

section \<open>Idle time\<close>

text \<open>\<open>last_used_at or updated_at or created_at\<close>.\<close>

definition idle_reference :: "backend_instance \<Rightarrow> json" where
  "idle_reference b = py_or (py_or (bi_last_used_at b) (JStr (bi_updated_at b))) (JStr (bi_created_at b))"

text \<open>The difference of an aware and a naive time raises; \<open>total_seconds\<close> is one rounded division.\<close>

definition idle_seconds :: "int \<Rightarrow> backend_instance \<Rightarrow> flt res" where
  "idle_seconds now b = (case idle_reference b of
       JStr s \<Rightarrow> bind_res (parse_iso s) (\<lambda>(t, off). case off of
           None \<Rightarrow> Inl TypeError
         | Some o' \<Rightarrow> Inr (fmax (Fin 0) (fl (of_int (now - (t - o')) / 1000000))))
     | _ \<Rightarrow> Inl AttributeError)"

definition idle_ttl_seconds_for :: "backend_instance \<Rightarrow> model_profile \<Rightarrow> int res" where
  "idle_ttl_seconds_for b p = (let raw = dget (bi_metadata b) ''idle_ttl_seconds'' in
     if is_blank raw then Inr (p_idle_ttl_seconds p) else py_int raw)"

definition registry_cleanup_ttl_seconds :: "dict \<Rightarrow> int res" where
  "registry_cleanup_ttl_seconds config = py_int (dget_or config ''registry_cleanup_ttl_seconds'' (JInt 3600))"

section \<open>Stopping idle instances\<close>

definition idle_candidate :: "int \<Rightarrow> model_profile \<Rightarrow> backend_instance \<Rightarrow> bool res" where
  "idle_candidate now p b = (if bi_active_requests b \<noteq> 0 then Inr False
     else bind_res (idle_seconds now b) (\<lambda>idle.
          bind_res (idle_ttl_seconds_for b p) (\<lambda>ttl. Inr (flt_le (Fin (of_int ttl)) idle))))"

fun filter_by :: "('a \<Rightarrow> bool res) \<Rightarrow> 'a list \<Rightarrow> 'a list res" where
  "filter_by f [] = Inr []"
| "filter_by f (x # xs) = bind_res (f x) (\<lambda>b. bind_res (filter_by f xs) (\<lambda>ys. Inr (if b then x # ys else ys)))"

text \<open>The instances of one profile that are to be stopped: the idle ones, longest unused first, and
  no more than leave the minimum of replicas ready.\<close>

definition idle_to_stop :: "int \<Rightarrow> model_profile \<Rightarrow> registry \<Rightarrow> backend_instance list res" where
  "idle_to_stop now p r =
     (let ready = ready_for_model r (p_public_name p) in
      bind_res (filter_by (idle_candidate now p) ready) (\<lambda>candidates.
      Inr (take (nat (max 0 (int (length ready) - p_min_replicas p)))
        (sort_key (\<lambda>b. py_str (idle_reference b)) candidates))))"

text \<open>The callback may raise; what it did to the registry until then stays.\<close>

type_synonym stopper = "model_profile \<Rightarrow> backend_instance \<Rightarrow> registry \<Rightarrow> registry \<times> dict res"

fun stop_each :: "stopper \<Rightarrow> model_profile \<Rightarrow> backend_instance list \<Rightarrow> registry \<Rightarrow> registry \<times> dict list res" where
  "stop_each stop p [] r = (r, Inr [])"
| "stop_each stop p (b # bs) r = (case stop p b r of
     (r', Inl e) \<Rightarrow> (r', Inl e)
   | (r', Inr d) \<Rightarrow> (case stop_each stop p bs r' of (r'', ds) \<Rightarrow> (r'', bind_res ds (\<lambda>ds. Inr (d # ds)))))"

fun stop_idle_instances ::
  "stopper \<Rightarrow> int \<Rightarrow> model_profile list \<Rightarrow> (string \<times> int) list \<Rightarrow> registry \<Rightarrow> registry \<times> dict list res" where
  "stop_idle_instances stop now [] lengths r = (r, Inr [])"
| "stop_idle_instances stop now (p # ps) lengths r =
     (if count_get lengths (p_public_name p) > 0 then stop_idle_instances stop now ps lengths r
      else (case idle_to_stop now p r of
          Inl e \<Rightarrow> (r, Inl e)
        | Inr bs \<Rightarrow> (case stop_each stop p bs r of
              (r', Inl e) \<Rightarrow> (r', Inl e)
            | (r', Inr ds) \<Rightarrow> (case stop_idle_instances stop now ps lengths r' of
                (r'', es) \<Rightarrow> (r'', bind_res es (\<lambda>es. Inr (ds @ es)))))))"

section \<open>Purging\<close>

definition stale_candidate :: "int \<Rightarrow> int \<Rightarrow> backend_instance \<Rightarrow> bool res" where
  "stale_candidate now ttl b =
     (if bi_runtime b \<noteq> ''lmstudio'' \<or> \<not> in_states b [''stopped'', ''failed''] then Inr False
      else bind_res (idle_seconds now b) (\<lambda>idle. Inr (\<not> flt_less idle (Fin (of_int ttl)))))"

fun purge_loop :: "int \<Rightarrow> int \<Rightarrow> backend_instance list \<Rightarrow> registry \<Rightarrow> registry \<times> dict list res" where
  "purge_loop now ttl [] r = (r, Inr [])"
| "purge_loop now ttl (b # bs) r = (case stale_candidate now ttl b of
     Inl e \<Rightarrow> (r, Inl e)
   | Inr stale \<Rightarrow>
       if stale then (case purge_loop now ttl bs (registry_remove (bi_id b) r) of
           (r', ds) \<Rightarrow> (r', bind_res ds (\<lambda>ds. Inr (instance_to_dict b # ds))))
       else purge_loop now ttl bs r)"

definition purge_stale_instances :: "int \<Rightarrow> int \<Rightarrow> registry \<Rightarrow> registry \<times> dict list res" where
  "purge_stale_instances now ttl r = (if ttl < 0 then (r, Inr []) else purge_loop now ttl (registry_list r) r)"

section \<open>cleanup\<close>

text \<open>Ready instances of models that are not configured get the profile the resolver finds.\<close>

fun cleanup_profiles ::
  "(string \<Rightarrow> model_profile option res) \<Rightarrow> backend_instance list \<Rightarrow> (string \<times> model_profile) list \<Rightarrow>
     (string \<times> model_profile) list res" where
  "cleanup_profiles resolver [] ps = Inr ps"
| "cleanup_profiles resolver (b # bs) ps =
     (if map_of ps (bi_model b) = None \<and> in_states b [''ready''] then
        bind_res (resolver (bi_model b)) (\<lambda>found.
        cleanup_profiles resolver bs (case found of None \<Rightarrow> ps | Some p \<Rightarrow> AList.update (p_public_name p) p ps))
      else cleanup_profiles resolver bs ps)"

definition cleanup ::
  "stopper \<Rightarrow> int \<Rightarrow> (string \<times> model_profile) list \<Rightarrow> (string \<times> int) list \<Rightarrow> dict \<Rightarrow>
     (string \<Rightarrow> model_profile option res) \<Rightarrow> registry \<Rightarrow> registry \<times> dict res" where
  "cleanup stop now profiles lengths config resolver r = (case cleanup_profiles resolver (registry_list r) profiles of
     Inl e \<Rightarrow> (r, Inl e)
   | Inr ps \<Rightarrow>
     (case stop_idle_instances stop now (map snd ps) lengths r of
        (r1, Inl e) \<Rightarrow> (r1, Inl e)
      | (r1, Inr stopped) \<Rightarrow> (case registry_cleanup_ttl_seconds config of
          Inl e \<Rightarrow> (r1, Inl e)
        | Inr ttl \<Rightarrow> (case purge_stale_instances now ttl r1 of
            (r2, Inl e) \<Rightarrow> (r2, Inl e)
          | (r2, Inr removed) \<Rightarrow> (r2, Inr
              [(''stopped_instances'', JList (map JDict stopped)),
               (''removed_instances'', JList (map JDict removed)),
               (''remaining_instances'', JList (map (JDict \<circ> instance_to_dict) (registry_list r2)))])))))"

section \<open>Facts\<close>

lemma filter_by_Inr:
  "filter_by f xs = Inr ys \<Longrightarrow> ys = filter (\<lambda>x. f x = Inr True) xs \<and> (\<forall>x\<in>set xs. \<exists>b. f x = Inr b)"
  by (induction xs arbitrary: ys) (auto simp: bind_res_Inr_iff)

lemma idle_to_stop_spec:
  assumes "idle_to_stop now p r = Inr bs"
  shows "b \<in> set bs \<Longrightarrow> b \<in> set (ready_for_model r (p_public_name p)) \<and> bi_active_requests b = 0 \<and>
      (\<exists>idle ttl. idle_seconds now b = Inr idle \<and> idle_ttl_seconds_for b p = Inr ttl \<and> flt_le (Fin (of_int ttl)) idle)"
    and "int (length bs) \<le> max 0 (int (length (ready_for_model r (p_public_name p))) - p_min_replicas p)"
proof -
  let ?ready = "ready_for_model r (p_public_name p)"
  let ?n = "nat (max 0 (int (length ?ready) - p_min_replicas p))"
  let ?cs = "filter (\<lambda>b. idle_candidate now p b = Inr True) ?ready"
  have bs: "bs = take ?n (sort_key (\<lambda>b. py_str (idle_reference b)) ?cs)"
    using assms by (auto simp: idle_to_stop_def Let_def bind_res_Inr_iff dest: filter_by_Inr)
  then have "set bs \<subseteq> set ?cs" by (metis set_sort set_take_subset)
  then show "b \<in> set bs \<Longrightarrow> b \<in> set ?ready \<and> bi_active_requests b = 0 \<and>
      (\<exists>idle ttl. idle_seconds now b = Inr idle \<and> idle_ttl_seconds_for b p = Inr ttl \<and> flt_le (Fin (of_int ttl)) idle)"
    by (auto simp: idle_candidate_def bind_res_Inr_iff split: if_splits)
  show "int (length bs) \<le> max 0 (int (length ?ready) - p_min_replicas p)"
    unfolding bs by simp
qed

section \<open>The contract of the callback\<close>

text \<open>How many replicas of a model are ready, and by which identifiers.\<close>

definition ready_ids :: "registry \<Rightarrow> string \<Rightarrow> string set" where
  "ready_ids r m = {i. \<exists>b. map_of (rg_instances r) i = Some b \<and> bi_model b = m \<and> in_states b READY_STATES}"

lemma ready_ids_alt: "registry_inv r \<Longrightarrow> ready_ids r m = bi_id ` set (ready_for_model r m)"
proof (rule set_eqI)
  fix i
  assume inv: "registry_inv r"
  have "i \<in> ready_ids r m \<longleftrightarrow> (\<exists>b. (i, b) \<in> set (rg_instances r) \<and> bi_model b = m \<and> in_states b READY_STATES)"
    using inv by (simp add: ready_ids_def registry_inv_def map_of_eq_Some_iff)
  also have "\<dots> \<longleftrightarrow> (\<exists>p\<in>set (rg_instances r). bi_id (snd p) = i \<and> bi_model (snd p) = m \<and> in_states (snd p) READY_STATES)"
  proof -
    have key: "\<And>j b. (j, b) \<in> set (rg_instances r) \<Longrightarrow> bi_id b = j"
      using inv by (auto simp: registry_inv_def)
    show ?thesis
    proof
      assume "\<exists>b. (i, b) \<in> set (rg_instances r) \<and> bi_model b = m \<and> in_states b READY_STATES"
      then show "\<exists>p\<in>set (rg_instances r). bi_id (snd p) = i \<and> bi_model (snd p) = m \<and> in_states (snd p) READY_STATES"
        using key by (metis snd_conv)
    next
      assume "\<exists>p\<in>set (rg_instances r). bi_id (snd p) = i \<and> bi_model (snd p) = m \<and> in_states (snd p) READY_STATES"
      then obtain j b where "(j, b) \<in> set (rg_instances r)" "bi_id b = i" "bi_model b = m" "in_states b READY_STATES"
        by (metis prod.collapse)
      with key show "\<exists>b. (i, b) \<in> set (rg_instances r) \<and> bi_model b = m \<and> in_states b READY_STATES" by metis
    qed
  qed
  also have "\<dots> \<longleftrightarrow> i \<in> bi_id ` set (ready_for_model r m)"
    by (auto simp: ready_for_model_def registry_list_def)
  finally show "i \<in> ready_ids r m \<longleftrightarrow> i \<in> bi_id ` set (ready_for_model r m)" .
qed

lemma card_ready_ids: "registry_inv r \<Longrightarrow> card (ready_ids r m) = length (ready_for_model r m)"
proof -
  assume inv: "registry_inv r"
  have "map bi_id (registry_list r) = map fst (rg_instances r)"
    using inv by (auto simp: registry_inv_def registry_list_def)
  then have "distinct (map bi_id (registry_list r))" using inv by (simp add: registry_inv_def)
  then have "distinct (map bi_id (ready_for_model r m))"
    unfolding ready_for_model_def by (rule distinct_map_filter)
  then have "card (set (map bi_id (ready_for_model r m))) = length (map bi_id (ready_for_model r m))"
    by (rule distinct_card)
  then show ?thesis by (simp add: ready_ids_alt [OF inv])
qed

lemma finite_ready_ids: "finite (ready_ids r m)"
proof -
  have "ready_ids r m \<subseteq> dom (map_of (rg_instances r))" by (auto simp: ready_ids_def)
  then show ?thesis by (rule finite_subset) (rule finite_dom_map_of)
qed

text \<open>A stopper changes the instance it is given and no other, and keeps the registry well-formed.\<close>

locale instance_stopper =
  fixes stop :: stopper
  assumes stop_inv: "registry_inv r \<Longrightarrow> registry_inv (fst (stop p b r))"
    and stop_others: "i \<noteq> bi_id b \<Longrightarrow> map_of (rg_instances (fst (stop p b r))) i = map_of (rg_instances r) i"
begin

lemma stop_each_inv: "registry_inv r \<Longrightarrow> registry_inv (fst (stop_each stop p bs r))"
proof (induction bs arbitrary: r)
  case (Cons b bs)
  obtain r' d where s: "stop p b r = (r', d)" by fastforce
  have "registry_inv r'" using stop_inv [OF Cons.prems, of p b] s by simp
  then show ?case using Cons.IH [of r'] s by (auto split: sum.splits prod.splits)
qed simp

lemma stop_each_others:
  "i \<notin> bi_id ` set bs \<Longrightarrow> map_of (rg_instances (fst (stop_each stop p bs r))) i = map_of (rg_instances r) i"
proof (induction bs arbitrary: r)
  case (Cons b bs)
  obtain r' d where s: "stop p b r = (r', d)" by fastforce
  have "map_of (rg_instances r') i = map_of (rg_instances r) i"
    using stop_others [of i b p r] Cons.prems s by auto
  then show ?case using Cons.IH [of r'] Cons.prems s by (auto split: sum.splits prod.splits)
qed simp

lemma stop_each_ready: "ready_ids r m - bi_id ` set bs \<subseteq> ready_ids (fst (stop_each stop p bs r)) m"
  using stop_each_others [of _ bs p r] by (auto simp: ready_ids_def)

lemma stop_idle_inv: "registry_inv r \<Longrightarrow> registry_inv (fst (stop_idle_instances stop now ps lengths r))"
proof (induction ps arbitrary: r)
  case (Cons p ps)
  show ?case
  proof (cases "count_get lengths (p_public_name p) > 0")
    case True
    then show ?thesis using Cons by simp
  next
    case False
    show ?thesis
    proof (cases "idle_to_stop now p r")
      case (Inl e)
      then show ?thesis using False Cons.prems by simp
    next
      case (Inr bs)
      obtain r' d where s: "stop_each stop p bs r = (r', d)" by fastforce
      have "registry_inv r'" using stop_each_inv [OF Cons.prems, of p bs] s by simp
      then show ?thesis using Cons.IH [of r'] False Inr s by (auto split: sum.splits prod.splits)
    qed
  qed
qed simp

text \<open>A busy instance is never stopped.\<close>

lemma stop_idle_busy:
  "registry_inv r \<Longrightarrow> map_of (rg_instances r) i = Some b \<Longrightarrow> bi_active_requests b \<noteq> 0 \<Longrightarrow>
     map_of (rg_instances (fst (stop_idle_instances stop now ps lengths r))) i = Some b"
proof (induction ps arbitrary: r)
  case (Cons p ps)
  show ?case
  proof (cases "count_get lengths (p_public_name p) > 0")
    case True
    then show ?thesis using Cons by simp
  next
    case False
    show ?thesis
    proof (cases "idle_to_stop now p r")
      case (Inl e)
      then show ?thesis using False Cons.prems by simp
    next
      case (Inr bs)
      have new: "i \<notin> bi_id ` set bs"
      proof
        assume "i \<in> bi_id ` set bs"
        then obtain c where c: "c \<in> set bs" "bi_id c = i" by auto
        then have "c \<in> set (ready_for_model r (p_public_name p))" and idle: "bi_active_requests c = 0"
          using idle_to_stop_spec(1) [OF Inr] by blast+
        then obtain j where "(j, c) \<in> set (rg_instances r)"
          by (auto simp: ready_for_model_def registry_list_def)
        with Cons.prems(1) c(2) have "map_of (rg_instances r) i = Some c"
          by (auto simp: registry_inv_def intro: map_of_is_SomeI)
        with Cons.prems(2,3) idle show False by simp
      qed
      obtain r' d where s: "stop_each stop p bs r = (r', d)" by fastforce
      have "registry_inv r'" using stop_each_inv [OF Cons.prems(1), of p bs] s by simp
      moreover have "map_of (rg_instances r') i = Some b"
        using stop_each_others [OF new, of p r] Cons.prems(2) s by simp
      ultimately show ?thesis
        using Cons.IH [of r'] Cons.prems(3) False Inr s by (auto split: sum.splits prod.splits)
    qed
  qed
qed simp

text \<open>Cleaning up leaves at least the configured minimum of replicas ready.\<close>

lemma stop_idle_keeps_minimum:
  "registry_inv r \<Longrightarrow> \<forall>p\<in>set ps. p_public_name p = m \<longrightarrow> int k \<le> p_min_replicas p \<Longrightarrow>
     k \<le> card (ready_ids r m) \<Longrightarrow>
     k \<le> card (ready_ids (fst (stop_idle_instances stop now ps lengths r)) m)"
proof (induction ps arbitrary: r)
  case (Cons p ps)
  show ?case
  proof (cases "count_get lengths (p_public_name p) > 0")
    case True
    then show ?thesis using Cons by simp
  next
    case False
    show ?thesis
    proof (cases "idle_to_stop now p r")
      case (Inl e)
      then show ?thesis using False Cons.prems by simp
    next
      case (Inr bs)
      obtain r' d where s: "stop_each stop p bs r = (r', d)" by fastforce
      have inv: "registry_inv r'" using stop_each_inv [OF Cons.prems(1), of p bs] s by simp
      have sub: "ready_ids r m - bi_id ` set bs \<subseteq> ready_ids r' m"
        using stop_each_ready [of r m bs p] s by simp
      have "k \<le> card (ready_ids r' m)"
      proof (cases "p_public_name p = m")
        case True
        have "card (bi_id ` set bs) \<le> length bs"
          by (metis card_image_le card_length finite_set le_trans)
        then have "int (card (bi_id ` set bs)) \<le> max 0 (int (card (ready_ids r m)) - p_min_replicas p)"
          using idle_to_stop_spec(2) [OF Inr] card_ready_ids [OF Cons.prems(1)] True by simp
        moreover have "int k \<le> p_min_replicas p" using Cons.prems(2) True by simp
        ultimately have "k + card (bi_id ` set bs) \<le> card (ready_ids r m)"
          using Cons.prems(3) by linarith
        moreover have "card (ready_ids r m) - card (bi_id ` set bs) \<le> card (ready_ids r m - bi_id ` set bs)"
          by (rule diff_card_le_card_Diff) simp
        moreover have "card (ready_ids r m - bi_id ` set bs) \<le> card (ready_ids r' m)"
          by (rule card_mono [OF finite_ready_ids sub])
        ultimately show ?thesis by linarith
      next
        case False
        have "ready_ids r m \<inter> bi_id ` set bs = {}"
        proof -
          have "bi_id c \<notin> ready_ids r m" if "c \<in> set bs" for c
          proof
            assume "bi_id c \<in> ready_ids r m"
            then obtain b where b: "map_of (rg_instances r) (bi_id c) = Some b" "bi_model b = m"
              by (auto simp: ready_ids_def)
            have "c \<in> set (ready_for_model r (p_public_name p))"
              using idle_to_stop_spec(1) [OF Inr that] by blast
            then obtain j where j: "(j, c) \<in> set (rg_instances r)" "bi_model c = p_public_name p"
              by (auto simp: ready_for_model_def registry_list_def)
            then have "map_of (rg_instances r) (bi_id c) = Some c"
              using Cons.prems(1) by (auto simp: registry_inv_def intro: map_of_is_SomeI)
            with b j(2) False show False by simp
          qed
          then show ?thesis by blast
        qed
        then have "ready_ids r m \<subseteq> ready_ids r' m" using sub by blast
        with Cons.prems(3) show ?thesis by (meson card_mono finite_ready_ids le_trans)
      qed
      then show ?thesis
        using Cons.IH [OF inv] Cons.prems(2) False Inr s by (auto split: sum.splits prod.splits)
    qed
  qed
qed simp

end

end
