(* ===== verification/Lifecycle_Runtime.thy ===== *)
theory Lifecycle_Runtime
  imports Lifecycle_Cleanup Backend_Client
begin

text \<open>
  \<open>lifecycle/adapters.py\<close> and \<open>lifecycle/runtime.py\<close>: the command lines of the runtimes, the three
  adapters, and the start, initialisation and stop of a backend instance. What a subprocess or an
  HTTP call answers is an argument (None when a command succeeds); \<open>sha1\<close> is an argument, and the
  clock readings are.
\<close>

section \<open>Commands\<close>

definition container_name :: "string \<Rightarrow> string" where
  "container_name i = py_lower (replace_char (CHR ''/'') ''-'' (replace_char (CHR ''_'') ''-'' (''llm-'' @ i)))"

definition docker_volume_args :: "model_profile \<Rightarrow> string list" where
  "docker_volume_args p = concat (map (\<lambda>m.
     [''-v'', vm_host_path m @ '':'' @ vm_container_path m @ '':'' @ vm_mode m]) (p_volume_mounts p))"

definition docker_environment_args :: "model_profile \<Rightarrow> string list" where
  "docker_environment_args p = concat (map (\<lambda>e. [''-e'', ev_name e @ ''='' @ ev_value e]) (p_environment p))"

definition backslash :: char where "backslash = char_of (92 :: nat)"

definition is_separator :: "char \<Rightarrow> bool" where "is_separator c \<longleftrightarrow> c = CHR ''/'' \<or> c = backslash"

definition rstrip_separators :: "string \<Rightarrow> string" where
  "rstrip_separators s = rev (dropWhile is_separator (rev s))"

fun mounted_path :: "string \<Rightarrow> volume_mount list \<Rightarrow> string" where
  "mounted_path artifact [] = artifact"
| "mounted_path artifact (m # ms) =
     (let h = rstrip_separators (vm_host_path m); a = rstrip_separators artifact in
      if a = h then vm_container_path m
      else if starts_with a (h @ ''/'') \<or> starts_with a (h @ [backslash]) then
        rstrip_slash (vm_container_path m) @ ''/'' @
          replace_char backslash ''/'' (dropWhile is_separator (drop (length h) a))
      else mounted_path artifact ms)"

definition container_model_path :: "model_profile \<Rightarrow> string" where
  "container_model_path p = (case p_artifact p of
       None \<Rightarrow> p_backend_model p
     | Some a \<Rightarrow> if a = [] then p_backend_model p else mounted_path a (p_volume_mounts p))"

definition docker_vllm_command :: "model_profile \<Rightarrow> int \<Rightarrow> int \<Rightarrow> string \<Rightarrow> string \<Rightarrow> string list" where
  "docker_vllm_command p gpu_index host_port instance_id docker =
     [docker, ''run'', ''-d'', ''--name'', container_name instance_id, ''--gpus'', ''device='' @ str_int gpu_index,
      ''-p'', str_int host_port @ '':'' @ str_int (p_container_port p)] @
     docker_volume_args p @ docker_environment_args p @ p_docker_extra_args p @
     [str_or (p_runtime_image p) ''vllm/vllm-openai:latest'', ''--model'', container_model_path p,
      ''--served-model-name'', p_backend_model p, ''--host'', ''0.0.0.0'',
      ''--port'', str_int (p_container_port p)] @ p_runtime_extra_args p"

definition opt_arg :: "string \<Rightarrow> int option \<Rightarrow> string list" where
  "opt_arg flag x = (case x of None \<Rightarrow> [] | Some n \<Rightarrow> [flag, str_int n])"

definition lmstudio_load_command :: "model_profile \<Rightarrow> string list" where
  "lmstudio_load_command p =
     [p_lms_binary p, ''load'', p_backend_model p, ''--identifier'', p_backend_model p, ''--yes''] @
     (case p_lms_gpu p of None \<Rightarrow> [] | Some g \<Rightarrow> if g = [] then [] else [''--gpu'', g]) @
     opt_arg ''--context-length'' (p_lms_context_length p) @
     opt_arg ''--parallel'' (p_lms_parallel p) @
     opt_arg ''--ttl'' (p_lms_ttl_seconds p)"

definition lmstudio_estimate_command :: "model_profile \<Rightarrow> string list" where
  "lmstudio_estimate_command p = lmstudio_load_command p @ [''--estimate-only'']"

definition lmstudio_unload_command :: "string \<Rightarrow> string \<Rightarrow> string list" where
  "lmstudio_unload_command binary identifier = [binary, ''unload'', identifier]"

definition lmstudio_identifier_already_exists :: "string \<Rightarrow> string \<Rightarrow> bool" where
  "lmstudio_identifier_already_exists out err \<longleftrightarrow>
     (let output = py_lower (out @ newline @ err) in
      contains_text ''identifier'' output \<and> contains_text ''already exists'' output)"

section \<open>Adapters\<close>

text \<open>A subprocess: the exception \<open>subprocess.run(..., check=True)\<close> raises, if any.\<close>

type_synonym shell = "string list \<Rightarrow> exn option"

datatype adapter = DryRun | ExternalOpenAI | DockerVllm string

definition adapter_for :: "model_profile \<Rightarrow> bool \<Rightarrow> string \<Rightarrow> adapter" where
  "adapter_for p dry docker =
     (if dry then DryRun
      else if p_runtime p \<in> {''external'', ''lmstudio'', ''openai-compatible''} then ExternalOpenAI
      else if p_runtime p = ''vllm'' then DockerVllm docker
      else DryRun)"

definition maybe_load_lmstudio :: "shell \<Rightarrow> model_profile \<Rightarrow> (string list \<times> bool) res" where
  "maybe_load_lmstudio run p =
     (let strategy = py_lower (p_load_strategy p); command = lmstudio_load_command p in
      if strategy \<in> {''none'', ''api'', ''external''} then
        Inr ([''external-openai'', (case p_base_url p of None \<Rightarrow> [] | Some u \<Rightarrow> u)], False)
      else (case run command of
          None \<Rightarrow> Inr (command, True)
        | Some (CalledProcessError out err) \<Rightarrow>
            if lmstudio_identifier_already_exists out err then Inr (''lmstudio-preexisting'' # command, False)
            else Inl (CalledProcessError out err)
        | Some FileNotFoundError \<Rightarrow>
            if strategy \<in> {''cli-if-available'', ''if-available'', ''auto''}
            then Inr (''lmstudio-cli-unavailable'' # command, False)
            else Inl FileNotFoundError
        | Some e \<Rightarrow> Inl e))"

definition new_instance ::
  "string \<Rightarrow> model_profile \<Rightarrow> string \<Rightarrow> int \<Rightarrow> string \<Rightarrow> int \<Rightarrow> string \<Rightarrow> string \<Rightarrow> json \<Rightarrow> string list \<Rightarrow> bool \<Rightarrow> dict \<Rightarrow>
     backend_instance" where
  "new_instance now p gpu_id host_port instance_id reserved base_url state container command dry meta =
     \<lparr>bi_id = instance_id, bi_model = p_public_name p, bi_backend_model = p_backend_model p,
      bi_runtime = p_runtime p, bi_base_url = base_url, bi_gpu_ids = [gpu_id], bi_state = JStr state,
      bi_reserved_vram_mb = reserved, bi_host_port = Some host_port, bi_container_name = container,
      bi_runtime_command = command, bi_active_requests = 0, bi_failure_reason = JNull,
      bi_created_at = now, bi_updated_at = now, bi_last_used_at = JNull, bi_dry_run = dry, bi_metadata = meta\<rparr>"

definition dry_run_url :: "model_profile \<Rightarrow> string \<Rightarrow> string" where
  "dry_run_url p instance_id = ''dry-run://'' @ p_public_name p @ ''/'' @ instance_id"

definition vllm_url :: "model_profile \<Rightarrow> int \<Rightarrow> string" where
  "vllm_url p host_port = ''http://'' @ p_public_host p @ '':'' @ str_int host_port @ ''/v1''"

definition adapter_start ::
  "shell \<Rightarrow> string \<Rightarrow> adapter \<Rightarrow> model_profile \<Rightarrow> string \<Rightarrow> int \<Rightarrow> int \<Rightarrow> string \<Rightarrow> int \<Rightarrow> backend_instance res" where
  "adapter_start run now a p gpu_id gpu_index host_port instance_id reserved = (case a of
       DryRun \<Rightarrow> Inr (new_instance now p gpu_id host_port instance_id reserved (dry_run_url p instance_id) ''ready''
         (JStr (container_name instance_id))
         (if p_runtime p = ''vllm'' then docker_vllm_command p gpu_index host_port instance_id ''docker''
          else [''dry-run'', p_runtime p, p_backend_model p]) True [])
     | DockerVllm docker \<Rightarrow>
         (let command = docker_vllm_command p gpu_index host_port instance_id docker in
          case run command of
            Some e \<Rightarrow> Inl e
          | None \<Rightarrow> Inr (new_instance now p gpu_id host_port instance_id reserved (vllm_url p host_port)
              ''starting'' (JStr (container_name instance_id)) command False []))
     | ExternalOpenAI \<Rightarrow> (case p_base_url p of
           None \<Rightarrow> Inl (ValueError (''Model '' @ p_public_name p @ '' uses runtime '' @ p_runtime p @
             '' but has no lifecycle.base_url''))
         | Some url \<Rightarrow>
             if url = [] then Inl (ValueError (''Model '' @ p_public_name p @ '' uses runtime '' @ p_runtime p @
               '' but has no lifecycle.base_url''))
             else bind_res (if p_runtime p = ''lmstudio'' then maybe_load_lmstudio run p
                 else Inr ([''external-openai'', url], False)) (\<lambda>(command, loaded).
               Inr (new_instance now p gpu_id host_port instance_id reserved url ''starting'' JNull command False
                 [(''lmstudio_loaded_with_lms'', JBool loaded), (''lms_binary'', JStr (p_lms_binary p))]))))"

definition adapter_stop :: "shell \<Rightarrow> adapter \<Rightarrow> backend_instance \<Rightarrow> exn option" where
  "adapter_stop run a b = (case a of
       DryRun \<Rightarrow> None
     | DockerVllm docker \<Rightarrow>
         if \<not> truthy (bi_container_name b) then None else run [docker, ''stop'', py_str (bi_container_name b)]
     | ExternalOpenAI \<Rightarrow>
         if bi_runtime b \<noteq> ''lmstudio'' then None
         else if \<not> truthy (dget (bi_metadata b) ''lmstudio_loaded_with_lms'') then None
         else run (lmstudio_unload_command
           (py_str (py_or (dget (bi_metadata b) ''lms_binary'')
              (JStr (case bi_runtime_command b of [] \<Rightarrow> ''lms'' | c # _ \<Rightarrow> c)))) (bi_backend_model b)))"

section \<open>Starting\<close>

definition instance_id_for :: "(string \<Rightarrow> string) \<Rightarrow> string \<Rightarrow> string \<Rightarrow> string \<Rightarrow> string" where
  "instance_id_for sha1 model gpu_id seed =
     replace_char (CHR '':'') ''-'' (replace_char (CHR ''/'') ''-'' model) @ ''-'' @ gpu_id @ ''-'' @
     take 8 (sha1 (model @ '':'' @ gpu_id @ '':'' @ seed))"

definition shape_metadata :: "model_profile \<Rightarrow> dict" where
  "shape_metadata p =
     [(''idle_ttl_seconds'', JInt (p_idle_ttl_seconds p)),
      (''estimated_vram_mb'', JInt (p_estimated_vram_mb p)),
      (''safety_margin_mb'', JInt (p_safety_margin_mb p)),
      (''lms_context_length'', opt_int (p_lms_context_length p)),
      (''lms_parallel'', opt_int (p_lms_parallel p)),
      (''lms_gpu'', opt_str (p_lms_gpu p)),
      (''lms_ttl_seconds'', opt_int (p_lms_ttl_seconds p))]"

definition start_instance ::
  "shell \<Rightarrow> (string \<Rightarrow> string) \<Rightarrow> bool \<Rightarrow> string \<Rightarrow> string \<Rightarrow> string \<Rightarrow> model_profile \<Rightarrow> dict \<Rightarrow>
     (string \<times> gpu_state) list \<Rightarrow> registry \<Rightarrow> backend_instance res" where
  "start_instance run sha1 dry docker seed now p decision gpus r =
     bind_res (required_key decision ''gpu_id'') (\<lambda>raw_gpu.
     let gpu_id = py_str raw_gpu in
     case map_of gpus gpu_id of
       None \<Rightarrow> Inl (KeyError gpu_id)
     | Some gpu \<Rightarrow>
         (let instance_id = instance_id_for sha1 (p_public_name p) gpu_id seed;
              host_port = next_host_port r (p_host_port_start p) in
          bind_res (required_key decision ''required_vram_mb'') (\<lambda>raw_mb.
          bind_res (py_int raw_mb) (\<lambda>reserved.
          bind_res (adapter_start run now (adapter_for p dry docker) p gpu_id (g_index gpu) host_port
              instance_id reserved) (\<lambda>b.
          let b = (if bi_dry_run b then b\<lparr>bi_base_url := dry_run_url p instance_id\<rparr>
                   else if p_runtime p = ''vllm'' then b\<lparr>bi_base_url := vllm_url p host_port\<rparr> else b)
          in Inr (b\<lparr>bi_metadata := dmerge (bi_metadata b) (shape_metadata p)\<rparr>))))))"

section \<open>Initialising\<close>

definition should_verify_before_start :: "model_profile \<Rightarrow> bool" where
  "should_verify_before_start p \<longleftrightarrow> p_runtime p \<noteq> ''lmstudio'' \<or>
     py_lower (p_load_strategy p) \<in> {''none'', ''api'', ''external''}"

text \<open>The answers to the health checks made before the deadline, in order.\<close>

fun wait_for_health :: "http_reply list \<Rightarrow> exn option \<Rightarrow> unit res" where
  "wait_for_health [] last_error = Inl (case last_error of Some e \<Rightarrow> e | None \<Rightarrow> TimeoutError)"
| "wait_for_health (Failed e # polls) last_error = wait_for_health polls (Some (HTTPError e))"
| "wait_for_health (Reply code body # polls) last_error =
     (if 200 \<le> code \<and> code < 300 then Inr () else wait_for_health polls last_error)"

definition model_ids_from_openai_payload :: "json \<Rightarrow> string list res" where
  "model_ids_from_openai_payload payload = (case payload of
       JDict d \<Rightarrow> (case dget_or d ''data'' (JList []) of
           JList xs \<Rightarrow> Inr (concat (map (\<lambda>x. case x of
               JDict i \<Rightarrow> if dget i ''id'' \<noteq> JNull then [py_str (dget i ''id'')] else [] | _ \<Rightarrow> []) xs))
         | _ \<Rightarrow> Inr [])
     | _ \<Rightarrow> Inl AttributeError)"

definition verify_model_available :: "http_reply \<Rightarrow> model_profile \<Rightarrow> unit res" where
  "verify_model_available reply p =
     (if p_runtime p \<notin> {''lmstudio'', ''openai-compatible'', ''external''} then Inr ()
      else (case p_base_url p of
          None \<Rightarrow> Inl (ValueError (''Model '' @ p_public_name p @ '' has no base_url.''))
        | Some url \<Rightarrow>
            if url = [] then Inl (ValueError (''Model '' @ p_public_name p @ '' has no base_url.''))
            else bind_res (client_post_json reply) (\<lambda>body.
              bind_res (model_ids_from_openai_payload body) (\<lambda>ids.
              if p_backend_model p \<notin> set ids then
                Inl (LookupError (''Model '' @ p_backend_model p @ '' is not visible at '' @ url @ ''.''))
              else Inr ()))))"

record init_env =
  ie_health :: "http_reply list"
  ie_verify :: http_reply
  ie_warmup :: http_reply
  ie_now1 :: string
  ie_now2 :: string
  ie_now_failed :: string

definition initialize_steps :: "init_env \<Rightarrow> model_profile \<Rightarrow> backend_instance \<Rightarrow> registry \<Rightarrow> registry \<times> backend_instance res" where
  "initialize_steps env p b r =
     (case bind_res (wait_for_health (ie_health env) None) (\<lambda>_.
           if \<not> should_verify_before_start p then verify_model_available (ie_verify env) p else Inr ()) of
        Inl e \<Rightarrow> (r, Inl e)
      | Inr _ \<Rightarrow> (case mark_state (ie_now1 env) (bi_id b) ''warming'' r of
          Inl e \<Rightarrow> (r, Inl e)
        | Inr (r1, _) \<Rightarrow>
            (case (if p_warmup_enabled p then bind_res (raise_for_status (ie_warmup env)) (\<lambda>_. Inr ()) else Inr ()) of
               Inl e \<Rightarrow> (r1, Inl e)
             | Inr _ \<Rightarrow> (case mark_state (ie_now2 env) (bi_id b) ''ready'' r1 of
                 Inl e \<Rightarrow> (r1, Inl e)
               | Inr (r2, b2) \<Rightarrow> (r2, Inr b2)))))"

text \<open>On any exception the adapter is told to stop, whatever that raises is suppressed, and the
  instance is marked failed.\<close>

definition initialize_instance ::
  "init_env \<Rightarrow> model_profile \<Rightarrow> backend_instance \<Rightarrow> registry \<Rightarrow> registry \<times> backend_instance res" where
  "initialize_instance env p b r =
     (if bi_dry_run b then (case mark_state (ie_now1 env) (bi_id b) ''ready'' r of
          Inl e \<Rightarrow> (r, Inl e) | Inr (r', b') \<Rightarrow> (r', Inr b'))
      else (case initialize_steps env p b r of
          (r', Inr b') \<Rightarrow> (r', Inr b')
        | (r', Inl e) \<Rightarrow> (case mark_failed (ie_now_failed env) (bi_id b) (exn_name e) r' of
              Inl e' \<Rightarrow> (r', Inl e') | Inr (r'', b'') \<Rightarrow> (r'', Inr b''))))"

section \<open>Stopping\<close>

definition stop_instance ::
  "shell \<Rightarrow> bool \<Rightarrow> string \<Rightarrow> string \<Rightarrow> string \<Rightarrow> stopper" where
  "stop_instance run dry docker now1 now2 p b r =
     (case mark_state now1 (bi_id b) ''draining'' r of
        Inl e \<Rightarrow> (r, Inl e)
      | Inr (r1, _) \<Rightarrow>
          (case adapter_stop run (adapter_for p (bi_dry_run b \<or> dry) docker) b of
             None \<Rightarrow> (case mark_state now2 (bi_id b) ''stopped'' r1 of
                 Inl e \<Rightarrow> (r1, Inl e) | Inr (r2, b2) \<Rightarrow> (r2, Inr (instance_to_dict b2)))
           | Some e \<Rightarrow> (case mark_failed now2 (bi_id b) (exn_name e) r1 of
                 Inl e' \<Rightarrow> (r1, Inl e') | Inr (r2, b2) \<Rightarrow> (r2, Inr (instance_to_dict b2)))))"

section \<open>Facts\<close>

lemma modify_instance_others:
  "modify_instance f i r = Inr (r', b) \<Longrightarrow> j \<noteq> i \<Longrightarrow> map_of (rg_instances r') j = map_of (rg_instances r) j"
  by (auto simp: modify_instance_def update_conv' split: option.splits)

lemma modify_instance_own:
  "modify_instance f i r = Inr (r', b') \<Longrightarrow>
     \<exists>b. map_of (rg_instances r) i = Some b \<and> b' = f b \<and> map_of (rg_instances r') i = Some (f b)"
  by (auto simp: modify_instance_def update_conv' split: option.splits)

lemmas mark_defs = mark_state_def mark_failed_def

lemma stop_instance_inv:
  assumes "now1 \<noteq> []" "now2 \<noteq> []" "registry_inv r"
  shows "registry_inv (fst (stop_instance run dry docker now1 now2 p b r))"
proof (cases "mark_state now1 (bi_id b) ''draining'' r")
  case (Inl e)
  then show ?thesis using assms(3) by (simp add: stop_instance_def)
next
  case (Inr x)
  obtain r1 b1 where x: "x = (r1, b1)" by fastforce
  have r1: "registry_inv r1" using registry_ops_inv(2) [OF assms(3,1)] Inr x by simp
  show ?thesis
    using registry_ops_inv(2,3) [OF r1 assms(2)] r1 Inr x
    by (auto simp: stop_instance_def split: option.splits sum.splits)
qed

lemma stop_instance_others:
  assumes "i \<noteq> bi_id b"
  shows "map_of (rg_instances (fst (stop_instance run dry docker now1 now2 p b r))) i = map_of (rg_instances r) i"
proof (cases "mark_state now1 (bi_id b) ''draining'' r")
  case (Inl e)
  then show ?thesis by (simp add: stop_instance_def)
next
  case (Inr x)
  obtain r1 b1 where x: "x = (r1, b1)" by fastforce
  have r1: "map_of (rg_instances r1) i = map_of (rg_instances r) i"
    using Inr x assms unfolding mark_defs by (auto dest: modify_instance_others)
  show ?thesis
    using r1 Inr x assms
    by (auto simp: stop_instance_def mark_defs split: option.splits sum.splits dest: modify_instance_others)
qed

text \<open>A stop always leaves the instance stopped or failed, never ready.\<close>

lemma stop_instance_state:
  assumes "map_of (rg_instances r) (bi_id b) = Some b0"
  shows "\<exists>b1. map_of (rg_instances (fst (stop_instance run dry docker now1 now2 p b r))) (bi_id b) = Some b1 \<and>
     (bi_state b1 = JStr ''stopped'' \<and> adapter_stop run (adapter_for p (bi_dry_run b \<or> dry) docker) b = None \<or>
      bi_state b1 = JStr ''failed'' \<and> adapter_stop run (adapter_for p (bi_dry_run b \<or> dry) docker) b \<noteq> None) \<and>
     snd (stop_instance run dry docker now1 now2 p b r) = Inr (instance_to_dict b1)"
  using assms
  by (auto simp: stop_instance_def mark_defs modify_instance_def update_conv' split: option.splits)

interpretation runtime_stopper: instance_stopper "stop_instance run dry docker (iso_format t1) (iso_format t2)"
  for run dry docker t1 t2
  by unfold_locales (erule stop_instance_inv [OF iso_format_not_Nil iso_format_not_Nil], rule stop_instance_others)

lemma new_instance_simps [simp]:
  "bi_model (new_instance now p g hp i r u st c cmd d m) = p_public_name p"
  "bi_active_requests (new_instance now p g hp i r u st c cmd d m) = 0"
  "bi_host_port (new_instance now p g hp i r u st c cmd d m) = Some hp"
  "bi_gpu_ids (new_instance now p g hp i r u st c cmd d m) = [g]"
  "bi_reserved_vram_mb (new_instance now p g hp i r u st c cmd d m) = r"
  "bi_id (new_instance now p g hp i r u st c cmd d m) = i"
  by (simp_all add: new_instance_def)

lemma adapter_start_spec:
  "adapter_start run now a p g gi hp i reserved = Inr b \<Longrightarrow>
     bi_model b = p_public_name p \<and> bi_active_requests b = 0 \<and> bi_host_port b = Some hp \<and>
     bi_gpu_ids b = [g] \<and> bi_reserved_vram_mb b = reserved \<and> bi_id b = i"
  by (cases a) (auto simp: adapter_start_def bind_res_Inr_iff Let_def split: option.splits if_splits)

lemma start_instance_spec:
  assumes "start_instance run sha1 dry docker seed now p decision gpus r = Inr b"
  shows "bi_model b = p_public_name p \<and> bi_active_requests b = 0 \<and>
     bi_host_port b = Some (next_host_port r (p_host_port_start p)) \<and>
     (\<exists>gpu_id raw_mb. bi_gpu_ids b = [gpu_id] \<and> map_of gpus gpu_id \<noteq> None \<and>
        map_of decision ''required_vram_mb'' = Some raw_mb \<and> py_int raw_mb = Inr (bi_reserved_vram_mb b))"
proof -
  obtain raw_gpu where g: "required_key decision ''gpu_id'' = Inr raw_gpu"
    using assms by (auto simp: start_instance_def bind_res_Inr_iff)
  obtain gpu where gpu: "map_of gpus (py_str raw_gpu) = Some gpu"
    using assms g by (auto simp: start_instance_def Let_def split: option.splits)
  let ?id = "instance_id_for sha1 (p_public_name p) (py_str raw_gpu) seed"
  let ?port = "next_host_port r (p_host_port_start p)"
  obtain raw_mb reserved b0 where mb: "required_key decision ''required_vram_mb'' = Inr raw_mb"
      "py_int raw_mb = Inr reserved"
      "adapter_start run now (adapter_for p dry docker) p (py_str raw_gpu) (g_index gpu) ?port ?id reserved = Inr b0"
    using assms g gpu by (auto simp: start_instance_def Let_def bind_res_Inr_iff)
  have raw: "map_of decision ''required_vram_mb'' = Some raw_mb"
    using mb(1) by (simp add: required_key_def split: option.splits)
  have same: "bi_model b = bi_model b0" "bi_active_requests b = bi_active_requests b0" "bi_host_port b = bi_host_port b0"
      "bi_gpu_ids b = bi_gpu_ids b0" "bi_reserved_vram_mb b = bi_reserved_vram_mb b0"
    using assms g gpu mb by (auto simp: start_instance_def Let_def)
  from adapter_start_spec [OF mb(3)] gpu mb(2) raw show ?thesis unfolding same by auto
qed

end
