(* ===== verification/Lifecycle_Lmstudio.thy ===== *)
theory Lifecycle_Lmstudio
  imports Lifecycle_Config Lifecycle_Scheduler Lifecycle_Runtime
begin

text \<open>
  \<open>lifecycle/lmstudio.py\<close> with the reader of \<open>lifecycle/allocation.py\<close> and the estimate of
  \<open>lifecycle/adapters.py\<close> that rest on it: what the LM Studio command line says about the models it
  knows and has loaded. What a command prints and how it fails, and \<open>json.loads\<close> on it, are
  arguments.
\<close>

section \<open>Readers\<close>

fun optional_string_from_keys :: "dict \<Rightarrow> string list \<Rightarrow> string option" where
  "optional_string_from_keys d [] = None"
| "optional_string_from_keys d (k # ks) =
     (if is_blank (dget d k) then optional_string_from_keys d ks
      else Some (case dget d k of JList xs \<Rightarrow> join '','' (map py_str xs) | v \<Rightarrow> py_str v))"

definition string_from_keys :: "dict \<Rightarrow> string list \<Rightarrow> string" where
  "string_from_keys d ks = (case optional_string_from_keys d ks of None \<Rightarrow> [] | Some s \<Rightarrow> s)"

definition nbsp :: char where "nbsp = char_of (160 :: nat)"

text \<open>The first run of digits of a text.\<close>

definition first_number :: "string \<Rightarrow> int option" where
  "first_number s = (case takeWhile is_digit (dropWhile (\<lambda>c. \<not> is_digit c) s) of
       [] \<Rightarrow> None
     | ds \<Rightarrow> map_option int (parse_digits 0 False ds))"

definition lms_optional_int :: "json \<Rightarrow> int option res" where
  "lms_optional_int v = (if is_blank v then Inr None else
     case v of
       JBool b \<Rightarrow> Inr (Some (if b then 1 else 0))
     | JInt n \<Rightarrow> Inr (Some n)
     | JFloat _ _ \<Rightarrow> bind_res (py_int v) (\<lambda>n. Inr (Some n))
     | JInf _ \<Rightarrow> bind_res (py_int v) (\<lambda>n. Inr (Some n))
     | JNaN \<Rightarrow> bind_res (py_int v) (\<lambda>n. Inr (Some n))
     | _ \<Rightarrow> Inr (first_number (filter (\<lambda>c. c \<noteq> nbsp \<and> c \<noteq> CHR '' '') (py_str v))))"

fun int_from_keys :: "dict \<Rightarrow> string list \<Rightarrow> int option res" where
  "int_from_keys d [] = Inr None"
| "int_from_keys d (k # ks) = bind_res (lms_optional_int (dget d k)) (\<lambda>parsed.
     case parsed of None \<Rightarrow> int_from_keys d ks | Some n \<Rightarrow> Inr (Some n))"

section \<open>Loaded models\<close>

record lmstudio_load =
  ld_identifier :: string
  ld_model_key :: string
  ld_status :: "string option"
  ld_context_length :: "int option"
  ld_parallel :: "int option"
  ld_gpu :: "string option"
  ld_ttl_seconds :: "int option"
  ld_raw :: dict

definition load_to_dict :: "lmstudio_load \<Rightarrow> dict" where
  "load_to_dict l =
     [(''identifier'', JStr (ld_identifier l)), (''model_key'', JStr (ld_model_key l)),
      (''status'', opt_str (ld_status l)), (''context_length'', opt_int (ld_context_length l)),
      (''parallel'', opt_int (ld_parallel l)), (''gpu'', opt_str (ld_gpu l)),
      (''ttl_seconds'', opt_int (ld_ttl_seconds l)), (''raw'', JDict (ld_raw l))]"

definition parse_load :: "dict \<Rightarrow> lmstudio_load option res" where
  "parse_load item =
     (let identifier = string_from_keys item [''identifier'', ''id'', ''modelIdentifier'', ''modelKey'', ''model''];
          model_key = string_from_keys item
            [''modelKey'', ''model'', ''selectedVariant'', ''indexedModelIdentifier'', ''identifier'']
      in if identifier = [] \<and> model_key = [] then Inr None
      else
       bind_res (int_from_keys item [''contextLength'', ''context_length'', ''maxContextLength'', ''context'']) (\<lambda>context.
       bind_res (int_from_keys item [''parallel'', ''parallelism'', ''maxPredictions'', ''predictions'']) (\<lambda>parallel.
       bind_res (int_from_keys item [''ttlSeconds'', ''ttl'', ''ttl_seconds'']) (\<lambda>ttl.
       Inr (Some \<lparr>ld_identifier = (if identifier = [] then model_key else identifier),
          ld_model_key = (if model_key = [] then identifier else model_key),
          ld_status = optional_string_from_keys item [''status'', ''state''],
          ld_context_length = context, ld_parallel = parallel,
          ld_gpu = optional_string_from_keys item [''gpu'', ''gpuOffload'', ''device'', ''devices''],
          ld_ttl_seconds = ttl, ld_raw = item\<rparr>)))))"

definition load_items :: "json \<Rightarrow> json list res" where
  "load_items payload = (case payload of
       JList xs \<Rightarrow> Inr xs
     | JDict d \<Rightarrow>
         (case py_or (py_or (py_or (dget d ''models'') (dget d ''loadedModels'')) (dget d ''data'')) (JList []) of
            JList xs \<Rightarrow> Inr xs
          | JStr s \<Rightarrow> Inr (map (\<lambda>c. JStr [c]) s)
          | JDict e \<Rightarrow> Inr (map (JStr \<circ> fst) e)
          | _ \<Rightarrow> Inl TypeError)
     | _ \<Rightarrow> Inr [])"

definition parse_loaded_models :: "json \<Rightarrow> lmstudio_load list res" where
  "parse_loaded_models payload =
     bind_res (load_items payload) (\<lambda>items.
     bind_res (map_res parse_load (only_dicts items)) (\<lambda>loads.
     Inr (List.map_filter id loads)))"

section \<open>Commands\<close>

text \<open>The exceptions of \<open>subprocess.run\<close> the readers catch.\<close>

fun lms_unavailable :: "exn \<Rightarrow> bool" where
  "lms_unavailable FileNotFoundError = True"
| "lms_unavailable (CalledProcessError _ _) = True"
| "lms_unavailable TimeoutExpired = True"
| "lms_unavailable _ = False"

text \<open>The JSON a command printed; None stands for a failure the caller answers with an empty result.\<close>

definition lms_json :: "(string \<Rightarrow> json res) \<Rightarrow> string res \<Rightarrow> json option res" where
  "lms_json loads run = (case run of
       Inl e \<Rightarrow> if lms_unavailable e then Inr None else Inl e
     | Inr out \<Rightarrow> (case loads (if out = [] then ''[]'' else out) of
           Inl (JSONDecodeError m) \<Rightarrow> Inr None
         | Inl e \<Rightarrow> Inl e
         | Inr v \<Rightarrow> Inr (Some v)))"

definition loaded_models :: "(string \<Rightarrow> json res) \<Rightarrow> string res \<Rightarrow> lmstudio_load list res" where
  "loaded_models loads run = bind_res (lms_json loads run) (\<lambda>v.
     case v of None \<Rightarrow> Inr [] | Some payload \<Rightarrow> parse_loaded_models payload)"

definition load_names :: "lmstudio_load \<Rightarrow> string list" where
  "load_names l = [ld_identifier l, ld_model_key l] @
     [py_str (dget (ld_raw l) k). k \<leftarrow> [''model'', ''modelKey'', ''selectedVariant'', ''indexedModelIdentifier''],
        dget (ld_raw l) k \<noteq> JNull]"

definition inspect_loaded_model :: "string \<Rightarrow> lmstudio_load list \<Rightarrow> lmstudio_load option" where
  "inspect_loaded_model model loads = find (\<lambda>l. model \<in> set (load_names l)) loads"

definition metadata_names :: "dict \<Rightarrow> string list" where
  "metadata_names item =
     [text_default (dget item ''modelKey'') [], text_default (dget item ''selectedVariant'') [],
      text_default (dget item ''indexedModelIdentifier'') []] @
     (case dget item ''variants'' of JList xs \<Rightarrow> map py_str xs | _ \<Rightarrow> [])"

definition metadata_for_model :: "(string \<Rightarrow> json res) \<Rightarrow> string \<Rightarrow> string res \<Rightarrow> dict res" where
  "metadata_for_model loads model run = bind_res (lms_json loads run) (\<lambda>v.
     case v of
       Some (JList items) \<Rightarrow> Inr (case find (\<lambda>item. model \<in> set (metadata_names item)) (only_dicts items) of
           None \<Rightarrow> [] | Some item \<Rightarrow> item)
     | _ \<Rightarrow> Inr [])"

section \<open>Memory estimates\<close>

definition flt_ceil :: "flt \<Rightarrow> int res" where
  "flt_ceil x = (case x of
       Fin q \<Rightarrow> Inr \<lceil>q\<rceil>
     | FInf _ \<Rightarrow> Inl OverflowError
     | FNaN \<Rightarrow> Inl (ValueError ''cannot convert float NaN to integer''))"

text \<open>\<open>n / m\<close> on integers: the quotient rounded once, too large a quotient raises.\<close>

definition int_div :: "int \<Rightarrow> int \<Rightarrow> flt res" where
  "int_div n m = (case fl (of_int n / of_int m) of Fin q \<Rightarrow> Inr (Fin q) | _ \<Rightarrow> Inl OverflowError)"

definition estimate_vram_mb :: "dict \<Rightarrow> int \<Rightarrow> int res" where
  "estimate_vram_mb metadata fallback =
     (let raw = dget metadata ''sizeBytes'' in
      if is_blank raw then Inr fallback
      else
       bind_res (py_float raw) (\<lambda>bytes.
       bind_res (fdiv bytes (Fin 1048576)) (\<lambda>mb.
       bind_res (flt_ceil mb) (\<lambda>size_mb.
       bind_res (py_int (py_or (dget metadata ''maxContextLength'') (JInt 0))) (\<lambda>context.
       bind_res (bind_res (int_div context 4096) flt_ceil) (\<lambda>blocks.
       bind_res (bind_res (py_float (JInt size_mb)) (\<lambda>x. flt_ceil (fmul x (fl (115 / 100))))) (\<lambda>weights.
       Inr (weights + min 4096 (max 512 (blocks * 64))))))))))"

text \<open>The pattern of \<open>parse_estimated_gpu_memory_mb\<close> at the start of a text: the digits and the unit.\<close>

definition memory_match :: "string \<Rightarrow> (string \<times> string) option" where
  "memory_match s =
     (let head = ''Estimated GPU Memory:'';
          rest = dropWhile py_space (drop (length head) s);
          number = takeWhile (\<lambda>c. is_digit c \<or> c = CHR ''.'' \<or> c = CHR '','') rest;
          unit = py_lower (dropWhile py_space (drop (length number) rest))
      in if py_lower (take (length head) s) \<noteq> py_lower head \<or> number = [] then None
         else if starts_with unit ''gib'' \<or> starts_with unit ''mib'' then Some (number, take 3 unit)
         else if starts_with unit ''gb'' \<or> starts_with unit ''mb'' then Some (number, take 2 unit)
         else None)"

fun memory_search :: "string \<Rightarrow> (string \<times> string) option" where
  "memory_search [] = None"
| "memory_search (c # cs) = (case memory_match (c # cs) of None \<Rightarrow> memory_search cs | Some m \<Rightarrow> Some m)"

definition parse_estimated_gpu_memory_mb :: "string \<Rightarrow> int option res" where
  "parse_estimated_gpu_memory_mb output =
     (case memory_search (replace_char nbsp '' '' output) of
        None \<Rightarrow> Inr None
      | Some (number, unit) \<Rightarrow>
          bind_res (py_float (JStr (replace_char (CHR '','') ''.'' number))) (\<lambda>x.
          bind_res (flt_ceil (if unit \<in> {''gib'', ''gb''} then fmul x (Fin 1024) else x)) (\<lambda>n. Inr (Some n))))"

text \<open>\<open>estimate_lmstudio_load_vram_mb\<close> on what the estimate command printed, or how it failed.\<close>

definition estimate_lmstudio_load_vram_mb :: "string res \<Rightarrow> int option res" where
  "estimate_lmstudio_load_vram_mb run = bind_res run parse_estimated_gpu_memory_mb"

definition compact_metadata :: "dict \<Rightarrow> dict" where
  "compact_metadata metadata = [(k, dget metadata k).
     k \<leftarrow> [''type'', ''modelKey'', ''displayName'', ''path'', ''sizeBytes'', ''paramsString'', ''architecture'',
       ''quantization'', ''maxContextLength'', ''vision'', ''trainedForToolUse'', ''selectedVariant''],
     dhas metadata k]"

section \<open>Profiles\<close>

text \<open>\<open>listing\<close> is \<open>metadata_for_model\<close> as the caller runs it: model, binary.\<close>

definition enrich_profile_from_lmstudio_metadata ::
  "(string \<Rightarrow> string \<Rightarrow> dict res) \<Rightarrow> model_profile \<Rightarrow> dict \<Rightarrow> dict \<Rightarrow> (model_profile \<times> dict) res" where
  "enrich_profile_from_lmstudio_metadata listing p dyn payload =
     (if p_runtime p \<noteq> ''lmstudio'' \<or> allocation_has_vram_override payload \<or>
         \<not> truthy (dget_or dyn ''auto_vram_from_lms'' (JBool True)) then Inr (p, [])
      else bind_res (listing (p_backend_model p) (text_default (dget dyn ''lms_binary'') (p_lms_binary p))) (\<lambda>metadata.
        if metadata = [] then Inr (p, [])
        else bind_res (estimate_vram_mb metadata (p_estimated_vram_mb p)) (\<lambda>estimated.
          if estimated \<le> 0 then Inr (p, [(''lmstudio_metadata'', JDict metadata)])
          else Inr (p\<lparr>p_estimated_vram_mb := estimated\<rparr>,
            [(''lmstudio_metadata'', JDict (compact_metadata metadata)),
             (''auto_estimated_vram_mb'', JInt estimated)]))))"

text \<open>\<open>profile_with_lmstudio_estimate\<close> of the controller: any failure keeps the configured size.
  \<open>run\<close> is \<open>subprocess.run\<close> on a command line.\<close>

definition profile_with_lmstudio_estimate :: "(string list \<Rightarrow> string res) \<Rightarrow> model_profile \<Rightarrow> model_profile" where
  "profile_with_lmstudio_estimate run p =
     (if p_runtime p \<noteq> ''lmstudio'' then p
      else case estimate_lmstudio_load_vram_mb (run (lmstudio_estimate_command p)) of
        Inr (Some n) \<Rightarrow> if n = 0 then p else p\<lparr>p_estimated_vram_mb := n\<rparr>
      | _ \<Rightarrow> p)"

section \<open>Facts\<close>

lemma estimate_keeps_profile:
  "p_public_name (profile_with_lmstudio_estimate run p) = p_public_name p"
  "p_backend_model (profile_with_lmstudio_estimate run p) = p_backend_model p"
  "p_runtime (profile_with_lmstudio_estimate run p) = p_runtime p"
  "p_lms_context_length (profile_with_lmstudio_estimate run p) = p_lms_context_length p"
  "p_lms_parallel (profile_with_lmstudio_estimate run p) = p_lms_parallel p"
  "p_safety_margin_mb (profile_with_lmstudio_estimate run p) = p_safety_margin_mb p"
  "p_min_replicas (profile_with_lmstudio_estimate run p) = p_min_replicas p"
  "p_max_replicas (profile_with_lmstudio_estimate run p) = p_max_replicas p"
  "p_preferred_gpus (profile_with_lmstudio_estimate run p) = p_preferred_gpus p"
  by (simp_all add: profile_with_lmstudio_estimate_def split: sum.splits option.splits)

lemma memory_search_examples:
  "memory_search ''estimated gpu memory:  1,5 GiB'' = Some (''1,5'', ''gib'')"
  "memory_search ''Model: x Estimated GPU Memory: 900.5MB'' = Some (''900.5'', ''mb'')"
  "memory_search ''Estimated GPU Memory: unknown'' = None"
  by code_simp+

end
