(* ===== verification/Lifecycle_Planner.thy ===== *)
theory Lifecycle_Planner
  imports Lifecycle_Lmstudio
begin

text \<open>
  The planning half of \<open>lifecycle/controller.py\<close>: how far a running backend is from the shape the
  queued tasks ask for, when a reload is worth it, the plan of every configured model, and the
  explanation of a plan. What the LM Studio command line answers and the clock are in
  \<open>planner_env\<close>: \<open>pe_loads\<close> answers \<open>loaded_models\<close> for a backend and a binary.
\<close>

record planner_env =
  pe_run :: "string list \<Rightarrow> string res"
  pe_loads :: "backend_instance \<Rightarrow> string \<Rightarrow> lmstudio_load list res"
  pe_stamps :: "backend_instance \<Rightarrow> string \<times> string \<times> string"
  pe_now :: int

section \<open>The live shape of a backend\<close>

definition lms_context_length_from_instance :: "backend_instance \<Rightarrow> int option res" where
  "lms_context_length_from_instance b = optional_int (dget (bi_metadata b) ''lms_context_length'')"

definition lms_parallel_from_instance :: "backend_instance \<Rightarrow> int option res" where
  "lms_parallel_from_instance b = optional_int (dget (bi_metadata b) ''lms_parallel'')"

definition dset_opt :: "string \<Rightarrow> ('a \<Rightarrow> json) \<Rightarrow> 'a option \<Rightarrow> dict \<Rightarrow> dict" where
  "dset_opt k f x d = (case x of None \<Rightarrow> d | Some v \<Rightarrow> dset k (f v) d)"

definition loaded_metadata :: "string \<Rightarrow> lmstudio_load \<Rightarrow> dict \<Rightarrow> dict" where
  "loaded_metadata stamp l m =
     (let m = dset ''live_lmstudio_load'' (JDict (load_to_dict l)) m;
          m = dset ''live_lmstudio_reconciled_at'' (JStr stamp) m;
          m = dset ''lmstudio_identifier'' (JStr (ld_identifier l)) m;
          m = dset ''lmstudio_ownership''
                (JStr (if truthy (dget m ''lmstudio_loaded_with_lms'') then ''owned'' else ''external'')) m
      in dset_opt ''lms_ttl_seconds'' JInt (ld_ttl_seconds l)
          (dset_opt ''lms_gpu'' JStr (ld_gpu l)
          (dset_opt ''lms_parallel'' JInt (ld_parallel l)
          (dset_opt ''lms_context_length'' JInt (ld_context_length l) m))))"

text \<open>The stamps are the clock readings of \<open>from_dict\<close> and of the reconciliation.\<close>

definition instance_with_lmstudio_load ::
  "string \<times> string \<times> string \<Rightarrow> backend_instance \<Rightarrow> lmstudio_load \<Rightarrow> backend_instance res" where
  "instance_with_lmstudio_load stamps b l = (case stamps of (n1, n2, n3) \<Rightarrow>
     bind_res (instance_from_dict n1 n2 (instance_to_dict b)) (\<lambda>c.
     Inr (c\<lparr>bi_metadata := loaded_metadata n3 l (bi_metadata c)\<rparr>)))"

definition instance_with_live_lmstudio_shape ::
  "planner_env \<Rightarrow> model_profile \<Rightarrow> backend_instance \<Rightarrow> backend_instance res" where
  "instance_with_live_lmstudio_shape env p b =
     (if p_runtime p \<noteq> ''lmstudio'' then Inr b
      else case pe_loads env b (text_default (dget (bi_metadata b) ''lms_binary'') (p_lms_binary p)) of
        Inl _ \<Rightarrow> Inr b
      | Inr loads \<Rightarrow> (case inspect_loaded_model (bi_backend_model b) loads of
            None \<Rightarrow> Inr b
          | Some l \<Rightarrow> instance_with_lmstudio_load (pe_stamps env b) b l))"

section \<open>Reload decisions\<close>

record reload_assessment =
  ra_needed :: bool
  ra_hard_context_mismatch :: bool
  ra_reload_reason :: "string option"
  ra_noop_reason :: "string option"

definition assessment :: "bool \<Rightarrow> bool \<Rightarrow> string option \<Rightarrow> string option \<Rightarrow> reload_assessment" where
  "assessment needed hard reload noop =
     \<lparr>ra_needed = needed, ra_hard_context_mismatch = hard, ra_reload_reason = reload, ra_noop_reason = noop\<rparr>"

text \<open>\<open>x is not None and x < y\<close>.\<close>

definition below :: "int option \<Rightarrow> int \<Rightarrow> bool" where
  "below x y \<longleftrightarrow> (case x of None \<Rightarrow> False | Some n \<Rightarrow> n < y)"

definition assess_shape ::
  "int option \<Rightarrow> int option \<Rightarrow> model_profile \<Rightarrow> context_plan \<Rightarrow> reload_assessment" where
  "assess_shape context parallel p plan =
     (let dc = p_lms_context_length p; dp = p_lms_parallel p; required = cp_max_required plan in
      if nonzero dc \<and> context = None then assessment True True (Some ''backend_context_unknown'') None
      else if nonzero dp \<and> parallel = None then assessment True False (Some ''backend_parallel_unknown'') None
      else if required > 0 \<and> below context required
        then assessment True True (Some ''backend_context_too_small_for_task'') None
      else if nonzero dc \<and> below context (the dc) \<and> \<not> p_reload_allow_bucket_only p
        then assessment False False None (Some ''current_context_satisfies_required_tokens'')
      else if nonzero dc \<and> below context (the dc)
        then assessment True False (Some ''backend_context_below_desired_bucket'') None
      else if nonzero dp \<and> below parallel (the dp)
        then assessment True False (Some ''backend_parallel_too_small'') None
      else assessment False False None None)"

definition assess_reload_need :: "backend_instance \<Rightarrow> model_profile \<Rightarrow> context_plan \<Rightarrow> reload_assessment res" where
  "assess_reload_need b p plan =
     bind_res (lms_context_length_from_instance b) (\<lambda>context.
     bind_res (lms_parallel_from_instance b) (\<lambda>parallel.
     Inr (assess_shape context parallel p plan)))"

text \<open>A naive \<open>created_at\<close> is read in the local zone, which is UTC in the service's container.\<close>

definition reload_dwell_satisfied :: "int \<Rightarrow> model_profile \<Rightarrow> backend_instance \<Rightarrow> bool" where
  "reload_dwell_satisfied now p b = (p_reload_min_dwell_seconds p \<le> 0 \<or>
     (case parse_iso (bi_created_at b) of
        Inl _ \<Rightarrow> True
      | Inr t \<Rightarrow> \<not> (0 \<le> to_utc t \<and> to_utc t < max_instant) \<or>
          flt_le (Fin (of_int (p_reload_min_dwell_seconds p))) (fl (of_int (now - to_utc t) / 1000000))))"

definition first_gpu :: "backend_instance \<Rightarrow> string option" where
  "first_gpu b = (case bi_gpu_ids b of [] \<Rightarrow> None | g # _ \<Rightarrow> Some g)"

definition shape_decision ::
  "string \<Rightarrow> string \<Rightarrow> model_profile \<Rightarrow> backend_instance \<Rightarrow> context_plan \<Rightarrow> placement res" where
  "shape_decision action reason p b plan =
     bind_res (lms_context_length_from_instance b) (\<lambda>context.
     bind_res (lms_parallel_from_instance b) (\<lambda>parallel.
     Inr ((placement_on p action (first_gpu b) reason None)
       \<lparr>pd_instance_id := Some (bi_id b), pd_current_lms_context_length := context,
        pd_current_lms_parallel := parallel, pd_context_plan := Some (context_plan_to_dict plan)\<rparr>)))"

definition noop_shape_decision ::
  "model_profile \<Rightarrow> backend_instance \<Rightarrow> context_plan \<Rightarrow> reload_assessment \<Rightarrow> placement res" where
  "noop_shape_decision p b plan a =
     shape_decision ''noop'' (str_or (ra_noop_reason a) ''desired_replicas_satisfied'') p b plan"

fun reload_decision :: "int \<Rightarrow> model_profile \<Rightarrow> backend_instance list \<Rightarrow> context_plan \<Rightarrow> placement option res" where
  "reload_decision now p [] plan = Inr None"
| "reload_decision now p (b # bs) plan =
     (if \<not> in_states b [''ready'', ''draining''] then reload_decision now p bs plan
      else bind_res (assess_reload_need b p plan) (\<lambda>a.
        if \<not> ra_needed a then
          (if ra_noop_reason a = None then reload_decision now p bs plan
           else bind_res (noop_shape_decision p b plan a) (\<lambda>d. Inr (Some d)))
        else if \<not> ra_hard_context_mismatch a \<and> \<not> reload_dwell_satisfied now p b then
          bind_res (noop_shape_decision p b plan (a\<lparr>ra_noop_reason := Some ''reload_hysteresis_min_dwell''\<rparr>))
            (\<lambda>d. Inr (Some d))
        else bind_res (shape_decision ''reload''
            (str_or (ra_reload_reason a) ''backend_shape_mismatch'') p b plan) (\<lambda>d. Inr (Some d))))"

definition reload_decision_for_context_plan ::
  "int \<Rightarrow> model_profile \<Rightarrow> backend_instance list \<Rightarrow> context_plan option \<Rightarrow> placement option res" where
  "reload_decision_for_context_plan now p bs plan = (case plan of
       None \<Rightarrow> Inr None
     | Some cp \<Rightarrow> if p_runtime p \<noteq> ''lmstudio'' then Inr None else reload_decision now p bs cp)"

definition reject_oversized_decision :: "model_profile \<Rightarrow> context_plan \<Rightarrow> placement" where
  "reject_oversized_decision p plan =
     (placement_on p ''reject_oversized'' None ''context_plan_has_oversized_tasks'' None)
       \<lparr>pd_context_plan := Some (context_plan_to_dict plan)\<rparr>"

definition backend_satisfies_profile_shape :: "backend_instance \<Rightarrow> model_profile \<Rightarrow> bool res" where
  "backend_satisfies_profile_shape b p =
     bind_res (if nonzero (p_lms_context_length p)
       then bind_res (lms_context_length_from_instance b) (\<lambda>c. Inr (c \<noteq> None \<and> \<not> below c (the (p_lms_context_length p))))
       else Inr True) (\<lambda>ok.
     if \<not> ok then Inr False
     else if nonzero (p_lms_parallel p)
       then bind_res (lms_parallel_from_instance b) (\<lambda>c. Inr (c \<noteq> None \<and> \<not> below c (the (p_lms_parallel p))))
       else Inr True)"

section \<open>The plan\<close>

definition desired_backend_shape :: "model_profile \<Rightarrow> dict" where
  "desired_backend_shape p =
     [(''runtime'', JStr (p_runtime p)),
      (''lms_context_length'', opt_int (p_lms_context_length p)),
      (''lms_parallel'', opt_int (p_lms_parallel p)),
      (''lms_gpu'', opt_str (p_lms_gpu p)),
      (''required_vram_mb'', JInt (required_vram p)),
      (''estimated_vram_mb'', JInt (p_estimated_vram_mb p)),
      (''safety_margin_mb'', JInt (p_safety_margin_mb p))]"

record model_plan =
  mp_model :: string
  mp_ready :: int
  mp_active :: int
  mp_desired :: int
  mp_shape :: dict
  mp_context_plan :: "dict option"
  mp_decisions :: "placement list"

definition effective_profile :: "planner_env \<Rightarrow> model_profile \<Rightarrow> context_plan option \<Rightarrow> model_profile" where
  "effective_profile env p plan = profile_with_lmstudio_estimate (pe_run env) (profile_with_context_plan p plan)"

definition queue_length_for :: "model_profile \<Rightarrow> (string \<times> int) list \<Rightarrow> context_plan option \<Rightarrow> int" where
  "queue_length_for p lengths plan =
     max (count_get lengths (p_public_name p)) (case plan of None \<Rightarrow> 0 | Some cp \<Rightarrow> cp_queued_tasks cp)"

definition satisfied_decision :: "model_profile \<Rightarrow> context_plan option \<Rightarrow> placement" where
  "satisfied_decision p plan = (placement_on p ''noop'' None ''desired_replicas_satisfied'' None)
     \<lparr>pd_context_plan := map_option context_plan_to_dict plan\<rparr>"

text \<open>One replica at most is started per plan: \<open>missing\<close> is 0 or 1.\<close>

definition model_decisions ::
  "planner_env \<Rightarrow> gpu_state list \<Rightarrow> registry \<Rightarrow> model_profile \<Rightarrow> context_plan option \<Rightarrow>
     backend_instance list \<Rightarrow> int \<Rightarrow> int \<Rightarrow> placement list res" where
  "model_decisions env gpus r p plan active queue_length desired =
     (let missing = desired > int (length active);
          oversized = (case plan of None \<Rightarrow> False | Some cp \<Rightarrow> cp_oversized cp \<noteq> [])
      in bind_res
       (if oversized then Inr [reject_oversized_decision p (the plan)]
        else if missing then Inr [choose_gpu p gpus r]
        else if queue_length > 0 then
          bind_res (reload_decision_for_context_plan (pe_now env) p active plan) (\<lambda>d.
          Inr (case d of None \<Rightarrow> [] | Some d \<Rightarrow> [d]))
        else Inr []) (\<lambda>ds.
      Inr (if ds = [] \<and> desired = int (length active) then [satisfied_decision p plan] else ds)))"

definition plan_model ::
  "planner_env \<Rightarrow> gpu_state list \<Rightarrow> registry \<Rightarrow> (string \<times> int) list \<Rightarrow> (string \<times> context_plan) list \<Rightarrow>
     model_profile \<Rightarrow> model_plan res" where
  "plan_model env gpus r lengths plans p =
     (let plan = map_of plans (p_public_name p);
          q = effective_profile env p plan;
          ready = int (length (ready_for_model r (p_public_name p)));
          queue_length = queue_length_for p lengths plan;
          desired = desired_replicas q ready queue_length
      in bind_res (map_res (instance_with_live_lmstudio_shape env q) (active_for_model r (p_public_name p))) (\<lambda>active.
         bind_res (model_decisions env gpus r q plan active queue_length desired) (\<lambda>ds.
         Inr \<lparr>mp_model = p_public_name p, mp_ready = ready, mp_active = int (length active), mp_desired = desired,
              mp_shape = desired_backend_shape q, mp_context_plan = map_option context_plan_to_dict plan,
              mp_decisions = ds\<rparr>)))"

text \<open>\<open>plan\<close>: the GPU inventory's answer is read first; nothing is planned without it.\<close>

definition plan_models ::
  "planner_env \<Rightarrow> gpu_state list res \<Rightarrow> registry \<Rightarrow> (string \<times> model_profile) list \<Rightarrow>
     (string \<times> int) list \<Rightarrow> (string \<times> context_plan) list \<Rightarrow> (nat \<times> model_plan list) res" where
  "plan_models env gpus r profiles lengths plans =
     bind_res gpus (\<lambda>gs.
     bind_res (map_res (plan_model env gs r lengths plans) (map snd profiles)) (\<lambda>ms. Inr (length gs, ms)))"

definition model_plan_to_dict :: "model_plan \<Rightarrow> dict" where
  "model_plan_to_dict m =
     [(''model'', JStr (mp_model m)), (''ready_replicas'', JInt (mp_ready m)),
      (''active_replicas'', JInt (mp_active m)), (''desired_replicas'', JInt (mp_desired m)),
      (''desired_backend_shape'', JDict (mp_shape m)), (''context_plan'', opt_dict (mp_context_plan m)),
      (''decisions'', JList (map (JDict \<circ> decision_to_dict) (mp_decisions m)))]"

definition plan_payload :: "bool \<Rightarrow> nat \<times> model_plan list \<Rightarrow> dict" where
  "plan_payload dry plan =
     [(''dry_run'', JBool dry), (''gpu_count'', JInt (int (fst plan))),
      (''models'', JList (map (JDict \<circ> model_plan_to_dict) (snd plan)))]"

section \<open>The explanation of a plan\<close>

definition DECISION_REASON_MESSAGES :: "(string \<times> string) list" where
  "DECISION_REASON_MESSAGES =
     [(''desired_replicas_satisfied'', ''The current active backend count satisfies policy.''),
      (''vram_available'', ''A GPU has enough free memory after current reservations.''),
      (''no_gpu_with_enough_vram'', ''No allowed GPU has enough free memory after current reservations.''),
      (''context_plan_has_oversized_tasks'', ''One or more queued tasks exceed the model context cap.''),
      (''backend_context_too_small_for_task'', ''The live LM Studio context is too small for at least one queued task.''),
      (''backend_context_unknown'', ''Lifecycle cannot read the live LM Studio context length.''),
      (''backend_parallel_unknown'', ''Lifecycle cannot read the live LM Studio parallel slot count.''),
      (''backend_context_below_desired_bucket'', ''The live LM Studio context is below the desired context bucket.''),
      (''backend_parallel_too_small'', ''The live LM Studio parallel slot count is below the desired shape.''),
      (''current_context_satisfies_required_tokens'',
       ''The live context fits the queued tasks, so bucket-only reload is skipped.''),
      (''reload_hysteresis_min_dwell'', ''Reload is delayed by the model profile minimum dwell window.'')]"

definition explain_decision_reason :: "dict \<Rightarrow> dict" where
  "explain_decision_reason d =
     (let reason = text_default (dget d ''reason'') ''unknown'';
          details = fold (\<lambda>k e. if dget d k = JNull then e else dset k (dget d k) e)
            [''action'', ''gpu_id'', ''instance_id'', ''required_vram_mb'', ''available_vram_mb'', ''lms_context_length'',
             ''lms_parallel'', ''current_lms_context_length'', ''current_lms_parallel'']
            [(''type'', JStr reason),
             (''message'', JStr (case map_of DECISION_REASON_MESSAGES reason of
                None \<Rightarrow> ''See raw lifecycle decision.'' | Some m \<Rightarrow> m))]
      in case dget d ''context_plan'' of
           JDict plan \<Rightarrow> if truthy (dget plan ''oversized_tasks'')
             then dset ''oversized_tasks'' (dget plan ''oversized_tasks'') details else details
         | _ \<Rightarrow> details)"

definition next_action :: "string \<Rightarrow> string \<Rightarrow> (string \<times> json) list \<Rightarrow> dict" where
  "next_action kind message extra = [(''type'', JStr kind), (''message'', JStr message)] @ extra"

definition explain_next_action :: "dict \<Rightarrow> dict" where
  "explain_next_action d =
     (let action = text_default (dget d ''action'') ''noop'';
          reason = text_default (dget d ''reason'') []
      in if action = ''start'' then
           next_action ''start_backend'' ''Lifecycle can place and start a backend for this queue.''
             [(''gpu_id'', dget d ''gpu_id'')]
         else if action = ''reload'' then
           next_action ''drain_and_reload''
             ''Lifecycle should drain the backend and reload it with the planned LM Studio shape.''
             [(''instance_id'', dget d ''instance_id'')]
         else if action = ''reject_oversized'' then
           next_action ''reject_or_split_tasks'' ''At least one task is larger than the model context cap.'' []
         else if reason = ''no_gpu_with_enough_vram'' then
           next_action ''wait_for_gpu_capacity''
             ''Free or add GPU memory, reduce the requested shape, or wait for cleanup.'' []
         else if reason = ''reload_hysteresis_min_dwell'' then
           next_action ''wait_for_reload_dwell''
             ''Keep using the current load until the minimum dwell window allows reload.'' []
         else next_action ''none'' ''No lifecycle action is required right now.'' [])"

definition explain_status :: "int \<Rightarrow> int \<Rightarrow> dict list \<Rightarrow> int \<Rightarrow> string" where
  "explain_status ready active decisions queue_length =
     (let d = (case decisions of [] \<Rightarrow> [] | d # _ \<Rightarrow> d);
          action = text_default (dget d ''action'') [];
          reason = text_default (dget d ''reason'') []
      in if action = ''reject_oversized'' then ''blocked_oversized_task''
         else if reason = ''no_gpu_with_enough_vram'' then ''waiting_for_gpu''
         else if action = ''start'' then ''starting_backend''
         else if action = ''reload'' then ''reload_required''
         else if queue_length > 0 \<and> ready > 0 then
           (if reason = ''reload_hysteresis_min_dwell'' then ''capacity_degraded'' else ''ready'')
         else if queue_length > 0 then ''waiting_for_capacity''
         else if active > 0 then ''idle_ready''
         else ''idle'')"

definition WAITING_STATUSES :: "string list" where
  "WAITING_STATUSES = [''blocked_oversized_task'', ''waiting_for_gpu'', ''starting_backend'', ''reload_required'',
     ''waiting_for_capacity'']"

text \<open>\<open>int(v or 0)\<close>.\<close>

definition int_or_zero :: "json \<Rightarrow> int res" where
  "int_or_zero v = py_int (py_or v (JInt 0))"

definition explain_model_plan :: "dict \<Rightarrow> int \<Rightarrow> dict res" where
  "explain_model_plan m queue_length =
     bind_res (int_or_zero (dget m ''ready_replicas'')) (\<lambda>ready.
     bind_res (int_or_zero (dget m ''active_replicas'')) (\<lambda>active.
     bind_res (int_or_zero (dget m ''desired_replicas'')) (\<lambda>desired.
     let decisions = only_dicts (json_items (dget_or m ''decisions'' (JList [])));
         status = explain_status ready active decisions queue_length
     in Inr
      [(''model'', JStr (text_default (dget m ''model'') [])),
       (''status'', JStr status),
       (''waiting'', JBool (status \<in> set WAITING_STATUSES)),
       (''queue_length'', JInt queue_length),
       (''ready_replicas'', JInt ready),
       (''active_replicas'', JInt active),
       (''desired_replicas'', JInt desired),
       (''desired_backend_shape'', dget m ''desired_backend_shape''),
       (''context_plan'', dget m ''context_plan''),
       (''reasons'', JList (map (JDict \<circ> explain_decision_reason) decisions)),
       (''next_actions'', JList (map (JDict \<circ> explain_next_action) decisions))])))"

definition summarize_plan_explanations :: "dict list \<Rightarrow> dict" where
  "summarize_plan_explanations es =
     [(''models'', JInt (int (length es))),
      (''waiting_models'', JList [dget e ''model''. e \<leftarrow> es, truthy (dget e ''waiting'')]),
      (''blocked_models'', JList [dget e ''model''. e \<leftarrow> es,
         starts_with (py_str (dget_or e ''status'' (JStr []))) ''blocked''])]"

definition explain_plan ::
  "bool \<Rightarrow> nat \<times> model_plan list \<Rightarrow> (string \<times> int) list \<Rightarrow> (string \<times> context_plan) list \<Rightarrow> dict res" where
  "explain_plan dry plan lengths plans =
     bind_res (map_res (\<lambda>m.
        bind_res (int_or_zero (case dget m ''context_plan'' of JDict cp \<Rightarrow> dget cp ''queued_tasks'' | _ \<Rightarrow> JNull)) (\<lambda>queued.
        explain_model_plan m (max (count_get lengths (text_default (dget m ''model'') [])) queued)))
       (map model_plan_to_dict (snd plan))) (\<lambda>es.
     Inr [(''dry_run'', JBool dry), (''gpu_count'', JInt (int (fst plan))),
          (''planning_inputs'', JDict
            [(''queue_lengths'', JDict (map (\<lambda>(m, n). (m, JInt n)) lengths)),
             (''context_plans'', JDict (map (\<lambda>(m, p). (m, JDict (context_plan_to_dict p))) plans))]),
          (''explanations'', JList (map JDict es)),
          (''plan'', JDict (plan_payload dry plan)),
          (''summary'', JDict (summarize_plan_explanations es))])"

section \<open>Facts\<close>

lemma with_context_plan_keeps [simp]:
  "p_public_name (profile_with_context_plan p plan) = p_public_name p"
  "p_backend_model (profile_with_context_plan p plan) = p_backend_model p"
  "p_runtime (profile_with_context_plan p plan) = p_runtime p"
  "p_max_replicas (profile_with_context_plan p plan) = p_max_replicas p"
  "p_min_replicas (profile_with_context_plan p plan) = p_min_replicas p"
  by (simp_all add: profile_with_context_plan_def split: option.splits)

lemma effective_profile_keeps [simp]:
  "p_public_name (effective_profile env p plan) = p_public_name p"
  "p_backend_model (effective_profile env p plan) = p_backend_model p"
  "p_runtime (effective_profile env p plan) = p_runtime p"
  "p_max_replicas (effective_profile env p plan) = p_max_replicas p"
  "p_min_replicas (effective_profile env p plan) = p_min_replicas p"
  "p_lms_context_length (effective_profile env p plan) = p_lms_context_length (profile_with_context_plan p plan)"
  "p_lms_parallel (effective_profile env p plan) = p_lms_parallel (profile_with_context_plan p plan)"
  by (simp_all add: effective_profile_def estimate_keeps_profile)

lemma placement_on_simps [simp]:
  "pd_action (placement_on p a g r v) = a" "pd_gpu_id (placement_on p a g r v) = g"
  "pd_required_mb (placement_on p a g r v) = required_vram p" "pd_reason (placement_on p a g r v) = r"
  "pd_model (placement_on p a g r v) = p_public_name p"
  by (simp_all add: placement_on_def)

lemma choose_gpu_required [simp]: "pd_required_mb (choose_gpu p gpus r) = required_vram p"
  by (simp add: choose_gpu_def split: prod.splits)

lemma shape_decision_action:
  "shape_decision action reason p b plan = Inr d \<Longrightarrow> pd_action d = action \<and> pd_instance_id d = Some (bi_id b)"
  by (auto simp: shape_decision_def bind_res_Inr_iff)

text \<open>What a backend with a readable shape lacks, as one condition: a mismatch the queued tasks cannot
  be served with, or a difference worth a reload.\<close>

definition too_small :: "int option \<Rightarrow> model_profile \<Rightarrow> context_plan \<Rightarrow> bool" where
  "too_small ctx p plan \<longleftrightarrow>
     nonzero (p_lms_context_length p) \<and> ctx = None \<or> 0 < cp_max_required plan \<and> below ctx (cp_max_required plan)"

definition off_shape :: "int option \<Rightarrow> int option \<Rightarrow> model_profile \<Rightarrow> bool" where
  "off_shape ctx parallel p \<longleftrightarrow>
     nonzero (p_lms_parallel p) \<and> (parallel = None \<or> below parallel (the (p_lms_parallel p))) \<or>
     nonzero (p_lms_context_length p) \<and> below ctx (the (p_lms_context_length p)) \<and> p_reload_allow_bucket_only p"

lemma assess_shape_cases:
  "ra_needed (assess_shape ctx parallel p plan) \<Longrightarrow> too_small ctx p plan \<or> off_shape ctx parallel p"
  "ra_hard_context_mismatch (assess_shape ctx parallel p plan) \<Longrightarrow> too_small ctx p plan"
  "\<not> ra_needed (assess_shape ctx parallel p plan) \<Longrightarrow> \<not> ra_hard_context_mismatch (assess_shape ctx parallel p plan)"
  "\<not> too_small ctx p plan \<Longrightarrow> \<not> off_shape ctx parallel p \<Longrightarrow> \<not> ra_needed (assess_shape ctx parallel p plan)"
  by (simp_all add: assess_shape_def assessment_def too_small_def off_shape_def Let_def split: if_splits)
    (auto simp: below_def split: option.splits)

lemma reload_decision_reload:
  assumes "reload_decision now p bs plan = Inr (Some d)" "pd_action d = ''reload''"
  shows "\<exists>b\<in>set bs. pd_instance_id d = Some (bi_id b) \<and> in_states b [''ready'', ''draining''] \<and>
     (\<exists>ctx parallel. lms_context_length_from_instance b = Inr ctx \<and>
        lms_parallel_from_instance b = Inr parallel \<and>
        (too_small ctx p plan \<or> off_shape ctx parallel p \<and> reload_dwell_satisfied now p b))"
  using assms(1)
proof (induction bs)
  case (Cons b bs)
  show ?case
  proof (cases "in_states b [''ready'', ''draining'']")
    case False
    then show ?thesis using Cons by auto
  next
    case True
    obtain a where a: "assess_reload_need b p plan = Inr a"
      using Cons.prems True by (auto simp: bind_res_Inr_iff)
    then obtain ctx parallel where s: "lms_context_length_from_instance b = Inr ctx"
        "lms_parallel_from_instance b = Inr parallel" "a = assess_shape ctx parallel p plan"
      by (auto simp: assess_reload_need_def bind_res_Inr_iff)
    consider "\<not> ra_needed a" "ra_noop_reason a = None" | "\<not> ra_needed a" "ra_noop_reason a \<noteq> None"
      | "ra_needed a" "\<not> ra_hard_context_mismatch a" "\<not> reload_dwell_satisfied now p b"
      | "ra_needed a" "ra_hard_context_mismatch a \<or> reload_dwell_satisfied now p b"
      by blast
    then show ?thesis
    proof cases
      case 1
      then show ?thesis using Cons True a by auto
    next
      case 2
      then have "pd_action d = ''noop''"
        using Cons.prems True a by (auto simp: bind_res_Inr_iff noop_shape_decision_def dest: shape_decision_action)
      with assms(2) show ?thesis by simp
    next
      case 3
      then have "pd_action d = ''noop''"
        using Cons.prems True a by (auto simp: bind_res_Inr_iff noop_shape_decision_def dest: shape_decision_action)
      with assms(2) show ?thesis by simp
    next
      case 4
      then have "pd_instance_id d = Some (bi_id b)"
        using Cons.prems True a by (auto simp: bind_res_Inr_iff dest: shape_decision_action)
      moreover have "too_small ctx p plan \<or> off_shape ctx parallel p \<and> reload_dwell_satisfied now p b"
        using 4 assess_shape_cases(1,2) [of ctx parallel p plan] s(3) by blast
      ultimately show ?thesis using True s by auto
    qed
  qed
qed simp

text \<open>No backend is touched while every ready one fits the tasks and has the shape.\<close>

lemma reload_decision_satisfied:
  assumes "\<forall>b\<in>set bs. in_states b [''ready'', ''draining''] \<longrightarrow>
      (\<exists>ctx parallel. lms_context_length_from_instance b = Inr ctx \<and>
        lms_parallel_from_instance b = Inr parallel \<and> \<not> too_small ctx p plan \<and> \<not> off_shape ctx parallel p)"
  shows "\<exists>d. reload_decision now p bs plan = Inr d \<and> (\<forall>e. d = Some e \<longrightarrow> pd_action e = ''noop'')"
  using assms
proof (induction bs)
  case (Cons b bs)
  obtain d where d: "reload_decision now p bs plan = Inr d" "\<forall>e. d = Some e \<longrightarrow> pd_action e = ''noop''"
    using Cons by auto
  show ?case
  proof (cases "in_states b [''ready'', ''draining'']")
    case False
    with d show ?thesis by simp
  next
    case True
    then obtain ctx parallel where s: "lms_context_length_from_instance b = Inr ctx"
        "lms_parallel_from_instance b = Inr parallel" "\<not> too_small ctx p plan" "\<not> off_shape ctx parallel p"
      using Cons.prems by auto
    let ?a = "assess_shape ctx parallel p plan"
    have a: "assess_reload_need b p plan = Inr ?a" "\<not> ra_needed ?a"
      using s assess_shape_cases(4) by (simp_all add: assess_reload_need_def)
    show ?thesis
    proof (cases "ra_noop_reason ?a = None")
      case True
      with \<open>in_states b _\<close> a d show ?thesis by simp
    next
      case False
      with \<open>in_states b _\<close> a s(1,2) show ?thesis
        by (auto simp: noop_shape_decision_def shape_decision_def)
    qed
  qed
qed simp

lemma model_decisions_spec:
  assumes "model_decisions env gpus r p plan active queue_length desired = Inr ds"
  shows "length ds \<le> 1"
    and "(\<exists>cp. plan = Some cp \<and> cp_oversized cp \<noteq> []) \<Longrightarrow> ds = [reject_oversized_decision p (the plan)]"
    and "d \<in> set ds \<Longrightarrow> pd_action d = ''start'' \<Longrightarrow> d = choose_gpu p gpus r \<and> int (length active) < desired"
    and "d \<in> set ds \<Longrightarrow> pd_action d = ''reload'' \<Longrightarrow> 0 < queue_length \<and>
       reload_decision_for_context_plan (pe_now env) p active plan = Inr (Some d)"
proof -
  have noop: "pd_action (satisfied_decision p plan) = ''noop''" by (simp add: satisfied_decision_def)
  have rej: "pd_action (reject_oversized_decision p x) = ''reject_oversized''" for x
    by (simp add: reject_oversized_decision_def)
  have ch: "pd_action (choose_gpu p gpus r) \<noteq> ''reload''" by (simp add: choose_gpu_def split: prod.splits)
  have nr: "pd_action e \<noteq> ''start''" if "reload_decision now p bs cp = Inr (Some e)" for now bs cp e
    using that
    by (induction bs)
      (auto simp: bind_res_Inr_iff noop_shape_decision_def dest!: shape_decision_action split: if_splits)
  have nr': "pd_action e \<noteq> ''start''" if "reload_decision_for_context_plan now p bs pl = Inr (Some e)" for now bs pl e
    using that nr by (auto simp: reload_decision_for_context_plan_def split: option.splits if_splits)
  note d = assms [unfolded model_decisions_def Let_def]
  show "length ds \<le> 1" using d by (auto simp: bind_res_Inr_iff split: if_splits option.splits)
  show "(\<exists>cp. plan = Some cp \<and> cp_oversized cp \<noteq> []) \<Longrightarrow> ds = [reject_oversized_decision p (the plan)]"
    using d by (auto simp: bind_res_Inr_iff)
  show "d \<in> set ds \<Longrightarrow> pd_action d = ''start'' \<Longrightarrow> d = choose_gpu p gpus r \<and> int (length active) < desired"
    using d noop rej nr' by (auto simp: bind_res_Inr_iff split: if_splits option.splits)
  show "d \<in> set ds \<Longrightarrow> pd_action d = ''reload'' \<Longrightarrow> 0 < queue_length \<and>
       reload_decision_for_context_plan (pe_now env) p active plan = Inr (Some d)"
    using d noop rej ch by (auto simp: bind_res_Inr_iff split: if_splits option.splits)
qed

end
