(* ===== verification/Lifecycle_Controller.thy ===== *)
theory Lifecycle_Controller
  imports Lifecycle_Planner
begin

text \<open>
  The acting half of \<open>lifecycle/controller.py\<close>, \<open>lifecycle/allocation_service.py\<close> and the handlers of
  \<open>lifecycle/main.py\<close>: the synchronisation with what LM Studio has loaded, reload, reconcile, allocate and
  the leases. An action maps the controller's state to the new state and a result; an exception keeps
  what was done to the state before it. The configuration is read once per operation.
\<close>

section \<open>State and actions\<close>

record controller =
  ct_registry :: registry
  ct_allocations :: "((string \<times> string) \<times> int) list"
  ct_reloads :: "((string \<times> string \<times> string) \<times> int) list"
  ct_live :: "((string \<times> string) \<times> int) list"

type_synonym 'a act = "controller \<Rightarrow> controller \<times> 'a res"

definition lift_res :: "'a res \<Rightarrow> 'a act" where
  "lift_res x c = (c, x)"

definition bind_act :: "'a act \<Rightarrow> ('a \<Rightarrow> 'b act) \<Rightarrow> 'b act" where
  "bind_act m f c = (case m c of (c', Inl e) \<Rightarrow> (c', Inl e) | (c', Inr x) \<Rightarrow> f x c')"

definition with_registry :: "(registry \<Rightarrow> registry \<times> 'a res) \<Rightarrow> 'a act" where
  "with_registry f c = (case f (ct_registry c) of (r, x) \<Rightarrow> (c\<lparr>ct_registry := r\<rparr>, x))"

definition registry_op :: "(registry \<Rightarrow> (registry \<times> 'a) res) \<Rightarrow> 'a act" where
  "registry_op f = with_registry (\<lambda>r. case f r of Inl e \<Rightarrow> (r, Inl e) | Inr (r', x) \<Rightarrow> (r', Inr x))"

definition upsert_act :: "string \<Rightarrow> bool \<Rightarrow> backend_instance \<Rightarrow> backend_instance act" where
  "upsert_act now touch b = registry_op (\<lambda>r. Inr (registry_upsert now touch b r))"

definition record_allocation :: "string \<Rightarrow> string \<Rightarrow> controller \<Rightarrow> controller" where
  "record_allocation model result c =
     c\<lparr>ct_allocations := count_add (model, result) 1 (ct_allocations c)\<rparr>"

definition record_reload_result :: "string \<Rightarrow> dict \<Rightarrow> controller \<Rightarrow> controller" where
  "record_reload_result model result c =
     (let state = text_default (dget result ''state'') ''unknown'';
          reason = text_default (dget result ''reason'') state
      in c\<lparr>ct_reloads := count_add (model, state, reason) 1 (ct_reloads c)\<rparr>)"

definition record_live_reconciliation :: "string \<Rightarrow> string \<Rightarrow> controller \<Rightarrow> controller" where
  "record_live_reconciliation model state c =
     c\<lparr>ct_live := count_add (model, state) 1 (ct_live c)\<rparr>"

text \<open>What one step of an operation gets from outside: clock readings, the answers of \<open>GET /gpus\<close> and
  of the backend that is started.\<close>

record step_env =
  se_gpus :: http_reply
  se_seed :: string
  se_created :: string
  se_upsert :: string
  se_init :: init_env
  se_stop1 :: string
  se_stop2 :: string

record controller_env =
  ce_config :: "orchestrator_config res"
  ce_shell :: shell
  ce_sha1 :: "string \<Rightarrow> string"
  ce_sha256 :: "string \<Rightarrow> string"
  ce_dry_run :: bool
  ce_docker :: string

section \<open>The GPU inventory\<close>

definition iterate_json :: "json \<Rightarrow> json list res" where
  "iterate_json v = (case v of
       JList xs \<Rightarrow> Inr xs
     | JStr s \<Rightarrow> Inr (map (\<lambda>c. JStr [c]) s)
     | JDict d \<Rightarrow> Inr (map (JStr \<circ> fst) d)
     | _ \<Rightarrow> Inl TypeError)"

definition gpu_state_of :: "json \<Rightarrow> gpu_state res" where
  "gpu_state_of item = (case item of
     JDict d \<Rightarrow>
       bind_res (required_key d ''id'') (\<lambda>gid.
       bind_res (bind_res (required_key d ''index'') py_int) (\<lambda>index.
       bind_res (required_key d ''name'') (\<lambda>name.
       bind_res (bind_res (required_key d ''memory_total_mb'') py_int) (\<lambda>total.
       bind_res (bind_res (required_key d ''memory_used_mb'') py_int) (\<lambda>used.
       bind_res (bind_res (required_key d ''memory_free_mb'') py_int) (\<lambda>free.
       Inr \<lparr>g_id = py_str gid, g_index = index, g_name = py_str name, g_total_mb = total,
            g_used_mb = used, g_free_mb = free\<rparr>))))))
   | _ \<Rightarrow> Inl TypeError)"

definition gpu_states :: "http_reply \<Rightarrow> gpu_state list res" where
  "gpu_states reply = bind_res (client_post_json reply) (\<lambda>payload. case payload of
       JDict d \<Rightarrow> bind_res (iterate_json (dget_or d ''gpus'' (JList []))) (map_res gpu_state_of)
     | _ \<Rightarrow> Inl AttributeError)"

definition gpus_by_id :: "gpu_state list \<Rightarrow> (string \<times> gpu_state) list" where
  "gpus_by_id gs = fold (\<lambda>g. AList.update (g_id g) g) gs []"

section \<open>Profiles\<close>

definition profiles :: "controller_env \<Rightarrow> (string \<times> model_profile) list res" where
  "profiles env = bind_res (ce_config env) load_model_profiles"

definition profile_for_model :: "controller_env \<Rightarrow> string \<Rightarrow> model_profile option res" where
  "profile_for_model env model = bind_res (profiles env) (\<lambda>ps. case map_of ps model of
       Some p \<Rightarrow> Inr (Some p)
     | None \<Rightarrow> bind_res (ce_config env) (\<lambda>cfg. load_dynamic_model_profile cfg model []))"

text \<open>\<open>ids\<close> is \<open>list_openai_model_ids\<close> on a base URL.\<close>

definition catalog :: "controller_env \<Rightarrow> (string \<Rightarrow> string list res) \<Rightarrow> dict res" where
  "catalog env ids =
     bind_res (profiles env) (\<lambda>ps.
     bind_res (ce_config env) (\<lambda>cfg.
     let dyn = cfg_dynamic_models cfg; enabled = truthy (dget_or dyn ''enabled'' (JBool False)) in
     bind_res (if \<not> enabled then Inr []
       else bind_res (load_dynamic_model_profile cfg ''__catalog_probe__'' []) (\<lambda>probe.
         case Option.bind probe p_base_url of
           None \<Rightarrow> Inr []
         | Some url \<Rightarrow> if url = [] then Inr [] else ids url)) (\<lambda>models.
     Inr [(''configured_models'', JList (map (\<lambda>p. JDict [(''id'', JStr (p_public_name p)),
            (''backend_model'', JStr (p_backend_model p)), (''runtime'', JStr (p_runtime p))]) (map snd ps))),
          (''dynamic_models_enabled'', JBool enabled),
          (''dynamic_models'', JList (map (\<lambda>m. JDict [(''id'', JStr m),
            (''allowed'', JBool (dynamic_model_allowed m dyn)),
            (''source'', dget_or dyn ''source'' (JStr ''lmstudio''))]) models))])))"

section \<open>What LM Studio has loaded\<close>

definition lmstudio_load_matches_profile :: "lmstudio_load \<Rightarrow> model_profile \<Rightarrow> bool" where
  "lmstudio_load_matches_profile l p \<longleftrightarrow>
     p_backend_model p \<in> set (load_names l) \<or> p_public_name p \<in> set (load_names l)"

definition matching_lmstudio_load :: "backend_instance \<Rightarrow> lmstudio_load list \<Rightarrow> lmstudio_load option" where
  "matching_lmstudio_load b loads =
     (let preferred = text_default (dget (bi_metadata b) ''lmstudio_identifier'') [];
          candidates = [bi_backend_model b, bi_model b] @ (if preferred = [] then [] else [preferred])
      in find (\<lambda>l. ld_identifier l \<in> set candidates \<or> ld_model_key l \<in> set candidates) loads)"

text \<open>\<open>str.isdigit\<close>: also true of the superscripts two, three and one.\<close>

definition isdigit :: "string \<Rightarrow> bool" where
  "isdigit s \<longleftrightarrow> s \<noteq> [] \<and> (\<forall>c\<in>set s. is_digit c \<or> of_char c \<in> {178, 179, 185 :: nat})"

definition gpu_ids_from_lmstudio_load :: "lmstudio_load \<Rightarrow> model_profile \<Rightarrow> string list" where
  "gpu_ids_from_lmstudio_load l p =
     (let raw = py_lower (strip (case ld_gpu l of None \<Rightarrow> [] | Some g \<Rightarrow> g)) in
      if starts_with raw ''gpu'' then [raw]
      else if isdigit raw then [''gpu'' @ raw]
      else take 1 (filter (\<lambda>g. g \<notin> {''auto'', ''max''} \<and> starts_with g ''gpu'') (p_preferred_gpus p)))"

definition id_char :: "char \<Rightarrow> bool" where
  "id_char c \<longleftrightarrow> (let n = (of_char c :: nat) in
     (65 \<le> n \<and> n \<le> 90) \<or> (97 \<le> n \<and> n \<le> 122) \<or> is_digit c \<or> c \<in> {CHR ''_'', CHR ''.'', CHR ''-''})"

text \<open>Every run of characters outside the class becomes one hyphen: \<open>inside\<close> is being in a run.\<close>

fun clean_id :: "bool \<Rightarrow> string \<Rightarrow> string" where
  "clean_id inside [] = []"
| "clean_id inside (c # cs) =
     (if id_char c then c # clean_id False cs
      else if inside then clean_id True cs else CHR ''-'' # clean_id True cs)"

definition strip_hyphens :: "string \<Rightarrow> string" where
  "strip_hyphens s = rev (dropWhile (\<lambda>c. c = CHR ''-'') (rev (dropWhile (\<lambda>c. c = CHR ''-'') s)))"

definition stable_id :: "(string \<Rightarrow> string) \<Rightarrow> string \<Rightarrow> string" where
  "stable_id sha256 v =
     (let cleaned = take 48 (py_lower (strip_hyphens (clean_id False v)))
      in (if cleaned = [] then ''load'' else cleaned) @ ''-'' @ take 10 (sha256 v))"

text \<open>The clock readings of a new external instance: its two default time stamps and those of
  \<open>instance_with_lmstudio_load\<close>; and of its upsert.\<close>

record external_stamps =
  xs_created :: string
  xs_updated :: string
  xs_load :: "string \<times> string \<times> string"
  xs_upsert :: string

definition new_external :: "(string \<Rightarrow> string) \<Rightarrow> external_stamps \<Rightarrow> model_profile \<Rightarrow> lmstudio_load \<Rightarrow> backend_instance" where
  "new_external sha256 x p l =
     \<lparr>bi_id = ''external-lmstudio-'' @ stable_id sha256 (ld_identifier l), bi_model = p_public_name p,
      bi_backend_model = p_backend_model p, bi_runtime = ''lmstudio'',
      bi_base_url = (case p_base_url p of None \<Rightarrow> [] | Some u \<Rightarrow> u),
      bi_gpu_ids = gpu_ids_from_lmstudio_load l p, bi_state = JStr ''external'',
      bi_reserved_vram_mb = required_vram p, bi_host_port = None, bi_container_name = JNull,
      bi_runtime_command = [], bi_active_requests = 0, bi_failure_reason = JNull,
      bi_created_at = xs_created x, bi_updated_at = xs_updated x, bi_last_used_at = JNull, bi_dry_run = False,
      bi_metadata = [(''lmstudio_identifier'', JStr (ld_identifier l)), (''lmstudio_ownership'', JStr ''external''),
        (''lmstudio_loaded_with_lms'', JBool False), (''lms_binary'', JStr (p_lms_binary p))]\<rparr>"

definition external_lmstudio_instance ::
  "(string \<Rightarrow> string) \<Rightarrow> external_stamps \<Rightarrow> model_profile \<Rightarrow> lmstudio_load \<Rightarrow> backend_instance res" where
  "external_lmstudio_instance sha256 x p l = instance_with_lmstudio_load (xs_load x) (new_external sha256 x p l) l"

section \<open>Synchronisation\<close>

text \<open>The loop over the registry's instances: the identifiers matched so far and the dictionaries of
  the updated instances, latest first. \<open>stamps\<close> are the clock readings of a reconciled instance.\<close>

fun sync_known ::
  "(backend_instance \<Rightarrow> string \<times> string \<times> string) \<Rightarrow> model_profile \<Rightarrow> lmstudio_load list \<Rightarrow> backend_instance list \<Rightarrow>
     string list \<Rightarrow> dict list \<Rightarrow> (string list \<times> dict list) act" where
  "sync_known stamps p loads [] matched synced = lift_res (Inr (matched, synced))"
| "sync_known stamps p loads (b # bs) matched synced =
     (if bi_runtime b \<noteq> ''lmstudio'' \<or> bi_model b \<noteq> p_public_name p
      then sync_known stamps p loads bs matched synced
      else case matching_lmstudio_load b loads of
        None \<Rightarrow>
          bind_act (if bi_state b = JStr ''external'' then with_registry (\<lambda>r. (registry_remove (bi_id b) r, Inr ()))
                    else lift_res (Inr ()))
            (\<lambda>_. sync_known stamps p loads bs matched synced)
      | Some l \<Rightarrow>
          bind_act (lift_res (instance_with_lmstudio_load (stamps b) b l)) (\<lambda>u.
          bind_act (upsert_act [] False u) (\<lambda>u.
          sync_known stamps p loads bs (ld_identifier l # matched) (instance_to_dict u # synced))))"

fun sync_external ::
  "(string \<Rightarrow> string) \<Rightarrow> (lmstudio_load \<Rightarrow> external_stamps) \<Rightarrow> model_profile \<Rightarrow> string list \<Rightarrow>
     lmstudio_load list \<Rightarrow> dict list \<Rightarrow> dict list act" where
  "sync_external sha256 stamps p matched [] synced = lift_res (Inr (rev synced))"
| "sync_external sha256 stamps p matched (l # ls) synced =
     (if ld_identifier l \<in> set matched then sync_external sha256 stamps p matched ls synced
      else bind_act (lift_res (external_lmstudio_instance sha256 (stamps l) p l)) (\<lambda>b.
        bind_act (upsert_act (xs_upsert (stamps l)) True b) (\<lambda>b.
        sync_external sha256 stamps p matched ls (instance_to_dict b # synced))))"

definition sync_profile_live_lmstudio_load ::
  "(string \<Rightarrow> string) \<Rightarrow> (backend_instance \<Rightarrow> string \<times> string \<times> string) \<Rightarrow> (lmstudio_load \<Rightarrow> external_stamps) \<Rightarrow>
     model_profile \<Rightarrow> lmstudio_load list \<Rightarrow> dict list act" where
  "sync_profile_live_lmstudio_load sha256 stamps xstamps p loads c =
     (let mine = filter (\<lambda>l. lmstudio_load_matches_profile l p) loads in
      bind_act (sync_known stamps p mine (registry_list (ct_registry c)) [] []) (\<lambda>(matched, synced).
      sync_external sha256 xstamps p matched mine synced) c)"

record sync_env =
  sy_loads :: "string \<Rightarrow> string \<Rightarrow> lmstudio_load list res"
  sy_stamps :: "backend_instance \<Rightarrow> string \<times> string \<times> string"
  sy_new :: "lmstudio_load \<Rightarrow> external_stamps"

text \<open>\<open>sy_loads\<close> answers \<open>loaded_models\<close> for a profile and its binary. The command runs for every
  LM Studio profile, but the first answer for a binary is the one used.\<close>

fun sync_live_lmstudio_state ::
  "(string \<Rightarrow> string) \<Rightarrow> sync_env \<Rightarrow> model_profile list \<Rightarrow> (string \<times> lmstudio_load list) list \<Rightarrow> dict list act" where
  "sync_live_lmstudio_state sha256 env [] cache = lift_res (Inr [])"
| "sync_live_lmstudio_state sha256 env (p # ps) cache =
     (if p_runtime p \<noteq> ''lmstudio'' then sync_live_lmstudio_state sha256 env ps cache
      else bind_act (lift_res (sy_loads env (p_public_name p) (p_lms_binary p))) (\<lambda>fresh.
        let loads = (case map_of cache (p_lms_binary p) of None \<Rightarrow> fresh | Some ls \<Rightarrow> ls) in
        bind_act (sync_profile_live_lmstudio_load sha256 (sy_stamps env) (sy_new env) p loads) (\<lambda>ds.
        bind_act (sync_live_lmstudio_state sha256 env ps ((p_lms_binary p, loads) # cache)) (\<lambda>es.
        lift_res (Inr (ds @ es))))))"

section \<open>Starting and reloading\<close>

definition start_and_initialize ::
  "controller_env \<Rightarrow> step_env \<Rightarrow> model_profile \<Rightarrow> dict \<Rightarrow> gpu_state list \<Rightarrow> (backend_instance \<Rightarrow> backend_instance) \<Rightarrow>
     backend_instance act" where
  "start_and_initialize env se p decision gpus adjust c =
     bind_act (lift_res (start_instance (ce_shell env) (ce_sha1 env) (ce_dry_run env) (ce_docker env) (se_seed se)
         (se_created se) p decision (gpus_by_id gpus) (ct_registry c))) (\<lambda>b.
     bind_act (upsert_act (se_upsert se) True (adjust b)) (\<lambda>b.
     with_registry (initialize_instance (se_init se) p b))) c"

definition reload_instance ::
  "controller_env \<Rightarrow> planner_env \<Rightarrow> step_env \<Rightarrow> model_profile \<Rightarrow> dict \<Rightarrow> gpu_state list \<Rightarrow> dict act" where
  "reload_instance env pe se p decision gpus c =
     (let instance_id = text_default (dget decision ''instance_id'') [] in
      if instance_id = [] then
        (c, Inr [(''state'', JStr ''skipped''), (''reason'', JStr ''missing_instance_id'')])
      else
      bind_act (lift_res (bind_res (registry_get (ct_registry c) instance_id)
          (instance_with_live_lmstudio_shape pe p))) (\<lambda>b.
        if bi_active_requests b > 0 then
          bind_act (if bi_state b = JStr ''draining'' then lift_res (Inr b)
                    else registry_op (mark_state (se_stop1 se) (bi_id b) ''draining'')) (\<lambda>d.
          lift_res (Inr [(''state'', JStr ''draining''), (''reason'', JStr ''active_requests_present''),
            (''instance'', JDict (instance_to_dict d))]))
        else if bi_runtime b = ''lmstudio'' \<and> \<not> bi_dry_run b \<and>
            \<not> truthy (dget (bi_metadata b) ''lmstudio_loaded_with_lms'') then
          lift_res (Inr [(''state'', JStr ''skipped''), (''reason'', JStr ''lmstudio_load_not_owned''),
            (''instance'', JDict (instance_to_dict b))])
        else
          bind_act (with_registry (stop_instance (ce_shell env) (ce_dry_run env) (ce_docker env)
              (se_stop1 se) (se_stop2 se) p b)) (\<lambda>stopped.
          bind_act (start_and_initialize env se p decision gpus (\<lambda>b. b)) (\<lambda>replacement.
          lift_res (Inr [(''state'', JStr ''reloaded''), (''stopped_instance'', JDict stopped),
            (''instance'', JDict (instance_to_dict replacement))])))) c)"

section \<open>reconcile\<close>

text \<open>The decisions of one model, in order: the dictionaries of what was created and of what was
  reloaded. The second number counts the decisions.\<close>

fun apply_decisions ::
  "controller_env \<Rightarrow> planner_env \<Rightarrow> (nat \<Rightarrow> step_env) \<Rightarrow> nat \<Rightarrow> model_profile \<Rightarrow> gpu_state list \<Rightarrow> dict list \<Rightarrow>
     (dict list \<times> dict list) act" where
  "apply_decisions env pe se n p gpus [] = lift_res (Inr ([], []))"
| "apply_decisions env pe se n p gpus (d # ds) =
     (let action = dget d ''action'' in
      if action = JStr ''reload'' then
        bind_act (reload_instance env pe (se n) p d gpus) (\<lambda>result.
        bind_act (\<lambda>c. (record_reload_result (p_public_name p) result c, Inr ())) (\<lambda>_.
        bind_act (apply_decisions env pe se (Suc n) p gpus ds) (\<lambda>(created, reloaded).
        lift_res (Inr (created, result # reloaded)))))
      else if action \<noteq> JStr ''start'' \<or> \<not> truthy (dget d ''gpu_id'') then
        apply_decisions env pe se (Suc n) p gpus ds
      else
        bind_act (start_and_initialize env (se n) p d gpus (\<lambda>b. b)) (\<lambda>b.
        bind_act (apply_decisions env pe se (Suc n) p gpus ds) (\<lambda>(created, reloaded).
        lift_res (Inr (instance_to_dict b # created, reloaded)))))"

record reconcile_env =
  re_planner :: planner_env
  re_sync :: sync_env
  re_now :: int
  re_stop1 :: string
  re_stop2 :: string
  re_gpus :: http_reply
  re_model_gpus :: "nat \<Rightarrow> http_reply"
  re_steps :: "nat \<Rightarrow> nat \<Rightarrow> step_env"

fun apply_plan ::
  "controller_env \<Rightarrow> reconcile_env \<Rightarrow> (string \<times> model_profile) list \<Rightarrow> (string \<times> context_plan) list \<Rightarrow> nat \<Rightarrow>
     model_plan list \<Rightarrow> (dict list \<times> dict list) act" where
  "apply_plan env re ps plans n [] = lift_res (Inr ([], []))"
| "apply_plan env re ps plans n (m # ms) = (case map_of ps (mp_model m) of
     None \<Rightarrow> lift_res (Inl (KeyError (mp_model m)))
   | Some p0 \<Rightarrow>
       (let p = effective_profile (re_planner re) p0 (map_of plans (mp_model m)) in
        bind_act (lift_res (gpu_states (re_model_gpus re n))) (\<lambda>gpus.
        bind_act (apply_decisions env (re_planner re) (re_steps re n) 0 p gpus (map decision_to_dict (mp_decisions m)))
          (\<lambda>(created, reloaded).
        bind_act (apply_plan env re ps plans (Suc n) ms) (\<lambda>(created', reloaded').
        lift_res (Inr (created @ created', reloaded @ reloaded')))))))"

definition reconcile_stopper :: "controller_env \<Rightarrow> reconcile_env \<Rightarrow> stopper" where
  "reconcile_stopper env re =
     stop_instance (ce_shell env) (ce_dry_run env) (ce_docker env) (re_stop1 re) (re_stop2 re)"

definition reconcile ::
  "controller_env \<Rightarrow> reconcile_env \<Rightarrow> (string \<times> int) list \<Rightarrow> (string \<times> context_plan) list \<Rightarrow> dict act" where
  "reconcile env re lengths plans =
     bind_act (lift_res (profiles env)) (\<lambda>ps.
     bind_act (sync_live_lmstudio_state (ce_sha256 env) (re_sync re) (map snd ps) []) (\<lambda>live.
     bind_act (\<lambda>c. (fold (\<lambda>d. record_live_reconciliation (text_default (dget d ''model'') ''unknown'')
         (text_default (dget d ''state'') ''unknown'')) live c, Inr ())) (\<lambda>_.
     bind_act (with_registry (stop_idle_instances (reconcile_stopper env re) (re_now re) (map snd ps) lengths)) (\<lambda>stopped.
     bind_act (\<lambda>c. (c, plan_models (re_planner re) (gpu_states (re_gpus re)) (ct_registry c) ps lengths plans)) (\<lambda>plan.
     bind_act (apply_plan env re ps plans 0 (snd plan)) (\<lambda>(created, reloaded).
     lift_res (Inr (plan_payload (ce_dry_run env) plan @
       [(''created_instances'', JList (map JDict created)),
        (''reloaded_instances'', JList (map JDict reloaded)),
        (''stopped_instances'', JList (map JDict stopped)),
        (''live_lmstudio_reconciled_instances'', JList (map JDict live))]))))))))"

section \<open>allocate\<close>

definition resolve_profile :: "controller_env \<Rightarrow> string \<Rightarrow> dict \<Rightarrow> (string \<times> model_profile) list \<Rightarrow> (model_profile \<times> dict) act" where
  "resolve_profile env model overrides configured = (case map_of configured model of
       Some p \<Rightarrow> lift_res (Inr (p, []))
     | None \<Rightarrow>
         bind_act (lift_res (ce_config env)) (\<lambda>cfg c.
         let dyn = cfg_dynamic_models cfg in
         if \<not> dynamic_model_allowed model dyn then
           (record_allocation model ''denied'' c,
            Inl (PermissionError (''Model '' @ model @ '' is not allowed by dynamic model policy.'')))
         else (case load_dynamic_model_profile cfg model overrides of
             Inl e \<Rightarrow> (c, Inl e)
           | Inr None \<Rightarrow> (record_allocation model ''not_configured'' c,
               Inl (LookupError (''Model '' @ model @ '' is not configured and dynamic models are disabled.'')))
           | Inr (Some p) \<Rightarrow> (c, Inr (p, dyn)))))"

record allocate_env =
  ae_listing :: "string \<Rightarrow> string \<Rightarrow> dict res"
  ae_verify :: http_reply
  ae_step :: step_env

text \<open>The backend of a placement is started and initialised; a failed start is counted.\<close>

definition start_allocated ::
  "controller_env \<Rightarrow> allocate_env \<Rightarrow> model_profile \<Rightarrow> dict \<Rightarrow> placement \<Rightarrow> gpu_state list \<Rightarrow> dict act" where
  "start_allocated env ae p model_metadata decision gpus c =
     (case start_instance (ce_shell env) (ce_sha1 env) (ce_dry_run env) (ce_docker env) (se_seed (ae_step ae))
         (se_created (ae_step ae)) p (decision_to_dict decision) (gpus_by_id gpus) (ct_registry c) of
       Inl e \<Rightarrow> (record_allocation (p_public_name p) ''failed'' c, Inl e)
     | Inr b \<Rightarrow>
         bind_act (upsert_act (se_upsert (ae_step ae)) True (b\<lparr>bi_metadata := dmerge (bi_metadata b) model_metadata\<rparr>)) (\<lambda>b.
         bind_act (with_registry (initialize_instance (se_init (ae_step ae)) p b)) (\<lambda>b c.
         let ready = (bi_state b = JStr ''ready'') in
         (record_allocation (p_public_name p) (if ready then ''created'' else ''failed'') c,
          Inr [(''model'', JStr (p_public_name p)), (''created'', JBool ready),
               (''decision'', JDict (decision_to_dict decision)), (''instance'', JDict (instance_to_dict b))]))) c)"

definition allocate_new ::
  "controller_env \<Rightarrow> allocate_env \<Rightarrow> model_profile \<Rightarrow> dict \<Rightarrow> dict act" where
  "allocate_new env ae p model_metadata =
     bind_act (lift_res (if should_verify_before_start p then verify_model_available (ae_verify ae) p else Inr ())) (\<lambda>_.
     bind_act (lift_res (gpu_states (se_gpus (ae_step ae)))) (\<lambda>gpus c.
     let decision = choose_gpu p gpus (ct_registry c) in
     if pd_action decision \<noteq> ''start'' \<or> pd_gpu_id decision = None \<or> pd_gpu_id decision = Some [] then
       (record_allocation (p_public_name p) ''insufficient_vram'' c,
        Inr [(''model'', JStr (p_public_name p)), (''created'', JBool False),
             (''decision'', JDict (decision_to_dict decision)), (''instance'', JNull)])
     else start_allocated env ae p model_metadata decision gpus c))"

definition allocate :: "controller_env \<Rightarrow> allocate_env \<Rightarrow> dict \<Rightarrow> dict act" where
  "allocate env ae payload c =
     (let model = strip (text_default (dget payload ''model'') []) in
      if model = [] then
        (record_allocation ''unknown'' ''invalid_request'' c,
         Inl (ValueError ''Allocation requires a non-empty model.''))
      else
      bind_act (lift_res (profiles env)) (\<lambda>configured.
      bind_act (resolve_profile env model (allocation_overrides payload) configured) (\<lambda>(p, dyn) c.
      let ready = ready_for_model (ct_registry c) (p_public_name p) in
      if ready \<noteq> [] then
        (record_allocation (p_public_name p) ''reused'' c,
         Inr [(''model'', JStr (p_public_name p)), (''created'', JBool False),
              (''instance'', JDict (instance_to_dict (arg_min_list bi_active_requests ready)))])
      else bind_act (lift_res (enrich_profile_from_lmstudio_metadata (ae_listing ae) p dyn payload)) (\<lambda>(p, meta).
        allocate_new env ae p meta) c)) c)"

section \<open>Handlers\<close>

text \<open>\<open>except LookupError\<close> also catches KeyError, \<open>except ValueError\<close> also JSONDecodeError.\<close>

definition allocate_status :: "dict res \<Rightarrow> int" where
  "allocate_status result = (case result of
       Inl (PermissionError _) \<Rightarrow> 403
     | Inl (LookupError _) \<Rightarrow> 404
     | Inl (KeyError _) \<Rightarrow> 404
     | Inl (ValueError _) \<Rightarrow> 400
     | Inl (JSONDecodeError _) \<Rightarrow> 400
     | Inl _ \<Rightarrow> 500
     | Inr d \<Rightarrow> if dget d ''instance'' = JNull then 409 else 200)"

definition handle_allocate :: "controller_env \<Rightarrow> allocate_env \<Rightarrow> dict \<Rightarrow> controller \<Rightarrow> controller \<times> int" where
  "handle_allocate env ae payload c = (case allocate env ae payload c of (c', x) \<Rightarrow> (c', allocate_status x))"

definition handle_lease :: "string \<Rightarrow> string \<Rightarrow> dict act" where
  "handle_lease now i = bind_act (registry_op (adjust_active_requests now i 1)) (\<lambda>b. lift_res (Inr (instance_to_dict b)))"

definition handle_release :: "string \<Rightarrow> string \<Rightarrow> dict act" where
  "handle_release now i = bind_act (registry_op (adjust_active_requests now i (- 1))) (\<lambda>b. lift_res (Inr (instance_to_dict b)))"

definition handle_reconcile :: "controller_env \<Rightarrow> reconcile_env \<Rightarrow> dict \<Rightarrow> dict act" where
  "handle_reconcile env re payload =
     bind_act (lift_res (queue_lengths_from_payload payload)) (\<lambda>lengths.
     bind_act (lift_res (context_plans_from_payload payload)) (\<lambda>plans.
     reconcile env re lengths plans))"

definition handle_cleanup ::
  "controller_env \<Rightarrow> reconcile_env \<Rightarrow> dict \<Rightarrow> dict act" where
  "handle_cleanup env re payload =
     bind_act (lift_res (queue_lengths_from_payload payload)) (\<lambda>lengths.
     bind_act (lift_res (profiles env)) (\<lambda>ps.
     bind_act (lift_res (ce_config env)) (\<lambda>cfg.
     with_registry (cleanup (reconcile_stopper env re) (re_now re) ps lengths (cfg_dynamic_models cfg)
       (profile_for_model env)))))"

section \<open>Actions that keep the registry well-formed\<close>

text \<open>A judgement about an action: from a well-formed registry it leads to a well-formed registry,
  also when it raises, and a value it returns satisfies the postcondition.\<close>

definition keeps :: "'a act \<Rightarrow> ('a \<Rightarrow> bool) \<Rightarrow> bool" where
  "keeps m Q \<longleftrightarrow> (\<forall>c. registry_inv (ct_registry c) \<longrightarrow>
     registry_inv (ct_registry (fst (m c))) \<and> (\<forall>x. snd (m c) = Inr x \<longrightarrow> Q x))"

lemma keeps_lift: "(\<And>x. v = Inr x \<Longrightarrow> Q x) \<Longrightarrow> keeps (lift_res v) Q"
  by (simp add: keeps_def lift_res_def)

lemma keeps_bind: "keeps m Q \<Longrightarrow> (\<And>x. Q x \<Longrightarrow> keeps (f x) R) \<Longrightarrow> keeps (bind_act m f) R"
  unfolding keeps_def
proof (intro allI impI)
  fix c :: controller
  assume m: "\<forall>c. registry_inv (ct_registry c) \<longrightarrow> registry_inv (ct_registry (fst (m c))) \<and> (\<forall>x. snd (m c) = Inr x \<longrightarrow> Q x)"
    and f: "\<And>x. Q x \<Longrightarrow> \<forall>c. registry_inv (ct_registry c) \<longrightarrow>
        registry_inv (ct_registry (fst (f x c))) \<and> (\<forall>y. snd (f x c) = Inr y \<longrightarrow> R y)"
    and c: "registry_inv (ct_registry c)"
  obtain c' v where mc: "m c = (c', v)" by fastforce
  show "registry_inv (ct_registry (fst (bind_act m f c))) \<and> (\<forall>y. snd (bind_act m f c) = Inr y \<longrightarrow> R y)"
  proof (cases v)
    case (Inl e)
    then show ?thesis using m [rule_format, OF c] mc by (simp add: bind_act_def)
  next
    case (Inr x)
    then have "registry_inv (ct_registry c')" "Q x" using m [rule_format, OF c] mc by simp_all
    then show ?thesis using f [of x] mc Inr by (simp add: bind_act_def)
  qed
qed

lemma keeps_bind_res: "(\<And>x. v = Inr x \<Longrightarrow> keeps (f x) R) \<Longrightarrow> keeps (bind_act (lift_res v) f) R"
  by (rule keeps_bind [where Q = "\<lambda>x. v = Inr x"]) (auto intro: keeps_lift)

lemma keeps_then: "keeps m (\<lambda>_. True) \<Longrightarrow> (\<And>x. keeps (f x) R) \<Longrightarrow> keeps (bind_act m f) R"
  by (rule keeps_bind)

lemma keeps_weaken: "keeps m Q \<Longrightarrow> (\<And>x. Q x \<Longrightarrow> R x) \<Longrightarrow> keeps m R"
  by (auto simp: keeps_def)

lemma keeps_registry:
  assumes "\<And>r. registry_inv r \<Longrightarrow> registry_inv (fst (f r))"
  shows "keeps (with_registry f) (\<lambda>_. True)"
  unfolding keeps_def
proof (intro allI impI conjI)
  fix c :: controller
  assume "registry_inv (ct_registry c)"
  from assms [OF this] show "registry_inv (ct_registry (fst (with_registry f c)))"
    by (cases "f (ct_registry c)") (simp add: with_registry_def)
qed simp

lemma keeps_op:
  assumes "\<And>r r' x. registry_inv r \<Longrightarrow> f r = Inr (r', x) \<Longrightarrow> registry_inv r'"
  shows "keeps (registry_op f) (\<lambda>_. True)"
  unfolding registry_op_def by (rule keeps_registry) (auto split: sum.splits dest: assms)

text \<open>Counters do not touch the registry.\<close>

lemma record_registry [simp]:
  "ct_registry (record_allocation m x c) = ct_registry c"
  "ct_registry (record_reload_result m d c) = ct_registry c"
  "ct_registry (record_live_reconciliation m x c) = ct_registry c"
  by (simp_all add: record_allocation_def record_reload_result_def record_live_reconciliation_def Let_def)

lemma fold_live_registry [simp]:
  "ct_registry (fold (\<lambda>d. record_live_reconciliation (f d) (g d)) ds c) = ct_registry c"
  by (induction ds arbitrary: c) simp_all

definition fine :: "backend_instance \<Rightarrow> bool" where
  "fine b \<longleftrightarrow> wf_instance b \<and> 0 \<le> bi_active_requests b"

definition wf_profile :: "model_profile \<Rightarrow> bool" where
  "wf_profile p \<longleftrightarrow> p_backend_model p \<noteq> [] \<and> p_runtime p \<noteq> []"

lemma wf_profile_effective [simp]: "wf_profile (effective_profile env p plan) = wf_profile p"
  by (simp add: wf_profile_def)

lemma keeps_upsert:
  "fine b \<Longrightarrow> touch \<longrightarrow> now \<noteq> [] \<Longrightarrow> keeps (upsert_act now touch b) (\<lambda>_. True)"
  unfolding upsert_act_def
  by (rule keeps_op) (auto simp: fine_def registry_upsert_def Let_def wf_instance_def intro!: registry_inv_update)

lemma registry_list_fine: "registry_inv r \<Longrightarrow> b \<in> set (registry_list r) \<Longrightarrow> fine b"
  by (auto simp: registry_inv_def registry_list_def fine_def)

lemma with_load_fine:
  "instance_with_lmstudio_load stamps b l = Inr u \<Longrightarrow> fine b \<Longrightarrow>
     u = b\<lparr>bi_metadata := loaded_metadata (snd (snd stamps)) l (bi_metadata b)\<rparr> \<and> fine u"
  by (auto simp: instance_with_lmstudio_load_def fine_def instance_round_trip wf_instance_def split: prod.splits)

definition stamps_ok :: "external_stamps \<Rightarrow> bool" where
  "stamps_ok x \<longleftrightarrow> xs_created x \<noteq> [] \<and> xs_updated x \<noteq> [] \<and> xs_upsert x \<noteq> []"

lemma keeps_sync_known:
  "\<forall>b\<in>set bs. fine b \<Longrightarrow> keeps (sync_known stamps p loads bs matched synced) (\<lambda>_. True)"
proof (induction stamps p loads bs matched synced rule: sync_known.induct)
  case (2 stamps p loads b bs matched synced)
  have none: "keeps (if bi_state b = JStr ''external'' then with_registry (\<lambda>r. (registry_remove (bi_id b) r, Inr ()))
      else lift_res (Inr ())) (\<lambda>_. True)"
    by (auto intro!: keeps_registry keeps_lift registry_inv_remove)
  show ?case
  proof (cases "bi_runtime b \<noteq> ''lmstudio'' \<or> bi_model b \<noteq> p_public_name p")
    case True
    then show ?thesis using 2 by auto
  next
    case False
    show ?thesis
    proof (cases "matching_lmstudio_load b loads")
      case None
      have "keeps (sync_known stamps p loads bs matched synced) (\<lambda>_. True)"
        using "2.IH"(2) [OF False None] "2.prems" by auto
      then show ?thesis using False None none by (auto intro: keeps_bind)
    next
      case (Some l)
      have "keeps (sync_known stamps p loads bs (ld_identifier l # matched) (instance_to_dict u # synced)) (\<lambda>_. True)" for u
        using "2.IH"(3) [OF False Some] "2.prems" by auto
      moreover have "keeps (upsert_act [] False u) (\<lambda>_. True)"
        if "instance_with_lmstudio_load (stamps b) b l = Inr u" for u
        using with_load_fine [OF that] "2.prems" by (auto intro: keeps_upsert)
      ultimately show ?thesis using False Some by (auto intro!: keeps_bind_res intro: keeps_bind)
    qed
  qed
qed (auto intro: keeps_lift)

lemma external_fine:
  "external_lmstudio_instance sha x p l = Inr b \<Longrightarrow> stamps_ok x \<Longrightarrow> wf_profile p \<Longrightarrow> fine b"
  unfolding external_lmstudio_instance_def
  by (drule with_load_fine) (auto simp: fine_def new_external_def wf_instance_def stamps_ok_def wf_profile_def)

lemma keeps_sync_external:
  "\<forall>l. stamps_ok (stamps l) \<Longrightarrow> wf_profile p \<Longrightarrow> keeps (sync_external sha stamps p matched ls synced) (\<lambda>_. True)"
proof (induction sha stamps p matched ls synced rule: sync_external.induct)
  case (2 sha stamps p matched l ls synced)
  show ?case
  proof (cases "ld_identifier l \<in> set matched")
    case True
    then show ?thesis using 2 by simp
  next
    case False
    have "keeps (upsert_act (xs_upsert (stamps l)) True b) (\<lambda>_. True)"
      if "external_lmstudio_instance sha (stamps l) p l = Inr b" for b
      using external_fine [OF that] "2.prems" by (auto intro!: keeps_upsert simp: stamps_ok_def)
    moreover have "keeps (sync_external sha stamps p matched ls (instance_to_dict b # synced)) (\<lambda>_. True)" for b
      using "2.IH"(2) [OF False] "2.prems" by simp
    ultimately show ?thesis using False by (auto intro!: keeps_bind_res intro: keeps_bind)
  qed
qed (auto intro: keeps_lift)

lemma keeps_sync_profile:
  assumes "\<forall>l. stamps_ok (xstamps l)" "wf_profile p"
  shows "keeps (sync_profile_live_lmstudio_load sha stamps xstamps p loads) (\<lambda>_. True)"
proof -
  let ?mine = "filter (\<lambda>l. lmstudio_load_matches_profile l p) loads"
  have "keeps (bind_act (sync_known stamps p ?mine (registry_list (ct_registry c)) [] []) (\<lambda>(matched, synced).
      sync_external sha xstamps p matched ?mine synced)) (\<lambda>_. True)" if "registry_inv (ct_registry c)" for c
    using registry_list_fine [OF that] keeps_sync_external [OF assms]
    by (intro keeps_bind [OF keeps_sync_known]) auto
  then show ?thesis
    unfolding keeps_def sync_profile_live_lmstudio_load_def Let_def by blast
qed

lemma keeps_sync_live:
  assumes "\<forall>l. stamps_ok (sy_new env l)"
  shows "\<forall>p\<in>set ps. wf_profile p \<Longrightarrow> keeps (sync_live_lmstudio_state sha env ps cache) (\<lambda>_. True)"
proof (induction ps arbitrary: cache)
  case (Cons p ps)
  then show ?case
    using keeps_sync_profile [OF assms]
    by (auto simp: Let_def intro!: keeps_bind_res keeps_then keeps_lift)
qed (auto intro: keeps_lift)

text \<open>Starting, reloading and planning.\<close>

definition init_ok :: "init_env \<Rightarrow> bool" where
  "init_ok e \<longleftrightarrow> ie_now1 e \<noteq> [] \<and> ie_now2 e \<noteq> [] \<and> ie_now_failed e \<noteq> []"

definition step_ok :: "step_env \<Rightarrow> bool" where
  "step_ok se \<longleftrightarrow> se_created se \<noteq> [] \<and> se_upsert se \<noteq> [] \<and> se_stop1 se \<noteq> [] \<and> se_stop2 se \<noteq> [] \<and> init_ok (se_init se)"

lemma adapter_start_fine:
  "adapter_start run now a p g gi hp i reserved = Inr b \<Longrightarrow> now \<noteq> [] \<Longrightarrow> wf_profile p \<Longrightarrow> fine b"
  by (cases a)
    (auto simp: adapter_start_def bind_res_Inr_iff Let_def fine_def wf_instance_def new_instance_def wf_profile_def
      split: option.splits if_splits)

lemma start_instance_fine:
  assumes "start_instance run sha1 dry docker seed now p decision gpus r = Inr b" "now \<noteq> []" "wf_profile p"
  shows "fine b"
proof -
  obtain b0 a g gi hp i reserved where s: "adapter_start run now a p g gi hp i reserved = Inr b0"
    and b: "bi_backend_model b = bi_backend_model b0" "bi_runtime b = bi_runtime b0" "bi_created_at b = bi_created_at b0"
      "bi_updated_at b = bi_updated_at b0" "bi_active_requests b = bi_active_requests b0"
    using assms(1) by (auto simp: start_instance_def Let_def bind_res_Inr_iff split: option.splits)
  from adapter_start_fine [OF s assms(2,3)] b show ?thesis by (simp add: fine_def wf_instance_def)
qed

lemma mark_state_inv:
  "registry_inv r \<Longrightarrow> now \<noteq> [] \<Longrightarrow> mark_state now i s r = Inr (r', b) \<Longrightarrow> registry_inv r'"
  by (rule registry_ops_inv(2))

lemma initialize_steps_inv:
  assumes "registry_inv r" "init_ok e"
  shows "registry_inv (fst (initialize_steps e p b r))"
  using assms
  by (auto simp: initialize_steps_def init_ok_def split: sum.splits prod.splits if_splits
      dest: mark_state_inv intro: mark_state_inv)

lemma initialize_instance_inv:
  assumes "registry_inv r" "init_ok e"
  shows "registry_inv (fst (initialize_instance e p b r))"
proof -
  obtain r' v where s: "initialize_steps e p b r = (r', v)" by fastforce
  have r': "registry_inv r'" using initialize_steps_inv [OF assms, of p b] s by simp
  show ?thesis
    using assms r' s registry_ops_inv(2) [OF assms(1), of "ie_now1 e" "bi_id b" "''ready''"]
      registry_ops_inv(3) [OF r', of "ie_now_failed e" "bi_id b"]
    by (auto simp: initialize_instance_def init_ok_def split: sum.splits)
qed

lemma keeps_start:
  assumes "step_ok se" "wf_profile p" "\<And>b. fine b \<Longrightarrow> fine (adjust b)"
  shows "keeps (start_and_initialize env se p decision gpus adjust) (\<lambda>_. True)"
proof -
  have "keeps (bind_act (lift_res (start_instance (ce_shell env) (ce_sha1 env) (ce_dry_run env) (ce_docker env) (se_seed se)
         (se_created se) p decision (gpus_by_id gpus) r)) (\<lambda>b.
     bind_act (upsert_act (se_upsert se) True (adjust b)) (\<lambda>b.
     with_registry (initialize_instance (se_init se) p b)))) (\<lambda>_. True)" for r
    using assms
    by (auto intro!: keeps_bind_res keeps_then keeps_upsert keeps_registry initialize_instance_inv
        dest!: start_instance_fine simp: step_ok_def)
  then show ?thesis unfolding keeps_def start_and_initialize_def by blast
qed

lemma keeps_reload:
  assumes "step_ok se" "wf_profile p"
  shows "keeps (reload_instance env pe se p decision gpus) (\<lambda>_. True)"
proof -
  have "keeps (bind_act (lift_res v) (\<lambda>b.
        if bi_active_requests b > 0 then
          bind_act (if bi_state b = JStr ''draining'' then lift_res (Inr b)
                    else registry_op (mark_state (se_stop1 se) (bi_id b) ''draining'')) (\<lambda>d.
          lift_res (Inr [(''state'', JStr ''draining''), (''reason'', JStr ''active_requests_present''),
            (''instance'', JDict (instance_to_dict d))]))
        else if bi_runtime b = ''lmstudio'' \<and> \<not> bi_dry_run b \<and>
            \<not> truthy (dget (bi_metadata b) ''lmstudio_loaded_with_lms'') then
          lift_res (Inr [(''state'', JStr ''skipped''), (''reason'', JStr ''lmstudio_load_not_owned''),
            (''instance'', JDict (instance_to_dict b))])
        else
          bind_act (with_registry (stop_instance (ce_shell env) (ce_dry_run env) (ce_docker env)
              (se_stop1 se) (se_stop2 se) p b)) (\<lambda>stopped.
          bind_act (start_and_initialize env se p decision gpus (\<lambda>b. b)) (\<lambda>replacement.
          lift_res (Inr [(''state'', JStr ''reloaded''), (''stopped_instance'', JDict stopped),
            (''instance'', JDict (instance_to_dict replacement))]))))) (\<lambda>_. True)" for v
    using assms
    by (auto intro!: keeps_bind_res keeps_then keeps_lift keeps_start keeps_op keeps_registry stop_instance_inv
        intro: mark_state_inv simp: step_ok_def)
  then show ?thesis unfolding keeps_def reload_instance_def Let_def by auto
qed

lemma keeps_decisions:
  assumes "\<forall>n. step_ok (se n)" "wf_profile p"
  shows "keeps (apply_decisions env pe se n p gpus ds) (\<lambda>_. True)"
proof (induction ds arbitrary: n)
  case (Cons d ds)
  have "keeps (\<lambda>c. (record_reload_result m result c, Inr ())) (\<lambda>_. True)" for m result by (simp add: keeps_def)
  then show ?case
    using Cons assms
    by (auto simp: Let_def intro!: keeps_then keeps_lift keeps_reload keeps_start)
qed (auto intro: keeps_lift)

lemma keeps_plan:
  assumes "\<forall>n k. step_ok (re_steps re n k)" "\<forall>p\<in>set (map snd ps). wf_profile p"
  shows "keeps (apply_plan env re ps plans n ms) (\<lambda>_. True)"
proof (induction ms arbitrary: n)
  case (Cons m ms)
  show ?case
  proof (cases "map_of ps (mp_model m)")
    case None
    then show ?thesis by (auto intro: keeps_lift)
  next
    case (Some p)
    then have "wf_profile p" using assms(2) by (force dest: map_of_SomeD)
    then show ?thesis
      using Some Cons assms(1)
      by (auto simp: Let_def intro!: keeps_bind_res keeps_then keeps_lift keeps_decisions)
  qed
qed (auto intro: keeps_lift)

text \<open>The operations of the service. What the configuration has to give: every profile has a runtime and
  a backend model, also the dynamic one an allocation asks for.\<close>

definition profiles_ok :: "controller_env \<Rightarrow> bool" where
  "profiles_ok env \<longleftrightarrow> (\<forall>ps. profiles env = Inr ps \<longrightarrow> (\<forall>p\<in>set (map snd ps). wf_profile p))"

definition payload_model :: "dict \<Rightarrow> string" where
  "payload_model payload = strip (text_default (dget payload ''model'') [])"

definition dynamic_ok :: "controller_env \<Rightarrow> dict \<Rightarrow> bool" where
  "dynamic_ok env payload \<longleftrightarrow> (\<forall>cfg p. ce_config env = Inr cfg \<longrightarrow>
     load_dynamic_model_profile cfg (payload_model payload) (allocation_overrides payload) = Inr (Some p) \<longrightarrow> wf_profile p)"

definition reconcile_ok :: "reconcile_env \<Rightarrow> bool" where
  "reconcile_ok re \<longleftrightarrow> re_stop1 re \<noteq> [] \<and> re_stop2 re \<noteq> [] \<and> (\<forall>l. stamps_ok (sy_new (re_sync re) l)) \<and>
     (\<forall>n k. step_ok (re_steps re n k))"

lemma stop_instance_contract:
  "now1 \<noteq> [] \<Longrightarrow> now2 \<noteq> [] \<Longrightarrow> instance_stopper (stop_instance run dry docker now1 now2)"
  by unfold_locales (erule (2) stop_instance_inv, rule stop_instance_others)

lemma reconcile_stopper_contract: "reconcile_ok re \<Longrightarrow> instance_stopper (reconcile_stopper env re)"
  unfolding reconcile_stopper_def reconcile_ok_def by (rule stop_instance_contract) simp_all

lemma keeps_reconcile:
  assumes "reconcile_ok re" "profiles_ok env"
  shows "keeps (reconcile env re lengths plans) (\<lambda>_. True)"
proof -
  have stop: "keeps (with_registry (stop_idle_instances (reconcile_stopper env re) (re_now re) ps lengths)) (\<lambda>_. True)" for ps
    by (rule keeps_registry) (rule instance_stopper.stop_idle_inv [OF reconcile_stopper_contract [OF assms(1)]])
  have rec: "keeps (\<lambda>c. (fold (\<lambda>d. record_live_reconciliation (text_default (dget d ''model'') ''unknown'')
         (text_default (dget d ''state'') ''unknown'')) live c, Inr ())) (\<lambda>_. True)" for live
    by (simp add: keeps_def)
  have plan: "keeps (\<lambda>c. (c, f (ct_registry c))) (\<lambda>_. True)" for f :: "registry \<Rightarrow> 'a res"
    by (simp add: keeps_def)
  have sync: "keeps (sync_live_lmstudio_state (ce_sha256 env) (re_sync re) (map snd ps) []) (\<lambda>_. True)"
    if "profiles env = Inr ps" for ps
    using assms that by (intro keeps_sync_live) (auto simp: reconcile_ok_def profiles_ok_def)
  have apply_all: "keeps (apply_plan env re ps plans 0 ms) (\<lambda>_. True)" if "profiles env = Inr ps" for ps ms
    using assms that by (intro keeps_plan) (auto simp: reconcile_ok_def profiles_ok_def)
  show ?thesis
    unfolding reconcile_def
    by (intro keeps_bind_res keeps_then keeps_lift sync rec stop plan apply_all TrueI) (simp_all split: prod.split, auto intro!: keeps_then apply_all keeps_lift)
qed

lemma keeps_resolve:
  assumes "\<And>cfg p. ce_config env = Inr cfg \<Longrightarrow> load_dynamic_model_profile cfg model overrides = Inr (Some p) \<Longrightarrow> wf_profile p"
    "\<forall>p\<in>set (map snd ps). wf_profile p"
  shows "keeps (resolve_profile env model overrides ps) (\<lambda>(p, _). wf_profile p)"
proof (cases "map_of ps model")
  case None
  have "keeps (\<lambda>c. let dyn = cfg_dynamic_models cfg in
         if \<not> dynamic_model_allowed model dyn then
           (record_allocation model ''denied'' c,
            Inl (PermissionError (''Model '' @ model @ '' is not allowed by dynamic model policy.'')))
         else (case load_dynamic_model_profile cfg model overrides of
             Inl e \<Rightarrow> (c, Inl e)
           | Inr None \<Rightarrow> (record_allocation model ''not_configured'' c,
               Inl (LookupError (''Model '' @ model @ '' is not configured and dynamic models are disabled.'')))
           | Inr (Some p) \<Rightarrow> (c, Inr (p, dyn)))) (\<lambda>(p, _). wf_profile p)" if "ce_config env = Inr cfg" for cfg
    using assms(1) [OF that] by (auto simp: keeps_def Let_def split: sum.splits option.splits)
  with None show ?thesis unfolding resolve_profile_def by (auto intro: keeps_bind_res)
next
  case (Some p)
  with assms(2) have "wf_profile p" by (force dest: map_of_SomeD)
  with Some show ?thesis by (auto simp: resolve_profile_def intro: keeps_lift)
qed

lemma keeps_start_allocated:
  assumes "step_ok (ae_step ae)" "wf_profile p"
  shows "keeps (start_allocated env ae p metadata decision gpus) (\<lambda>_. True)"
proof -
  have new: "keeps (bind_act (upsert_act (se_upsert (ae_step ae)) True (b\<lparr>bi_metadata := m\<rparr>)) (\<lambda>b.
           bind_act (with_registry (initialize_instance (se_init (ae_step ae)) p b)) (\<lambda>b c.
           let ready = (bi_state b = JStr ''ready'') in
           (record_allocation (p_public_name p) (if ready then ''created'' else ''failed'') c, Inr (f b ready))))) (\<lambda>_. True)"
    if "fine b" for b m and f :: "backend_instance \<Rightarrow> bool \<Rightarrow> dict"
  proof (intro keeps_then)
    show "keeps (upsert_act (se_upsert (ae_step ae)) True (b\<lparr>bi_metadata := m\<rparr>)) (\<lambda>_. True)"
      using that assms(1) by (intro keeps_upsert) (simp_all add: fine_def wf_instance_def step_ok_def)
    show "keeps (with_registry (initialize_instance (se_init (ae_step ae)) p x)) (\<lambda>_. True)" for x
      using assms(1) by (intro keeps_registry initialize_instance_inv) (simp_all add: step_ok_def)
  qed (simp add: keeps_def Let_def)
  show ?thesis
    unfolding keeps_def
  proof (intro allI impI)
    fix c :: controller
    assume c: "registry_inv (ct_registry c)"
    show "registry_inv (ct_registry (fst (start_allocated env ae p metadata decision gpus c))) \<and>
        (\<forall>x. snd (start_allocated env ae p metadata decision gpus c) = Inr x \<longrightarrow> True)"
    proof (cases "start_instance (ce_shell env) (ce_sha1 env) (ce_dry_run env) (ce_docker env) (se_seed (ae_step ae))
         (se_created (ae_step ae)) p (decision_to_dict decision) (gpus_by_id gpus) (ct_registry c)")
      case (Inl e)
      with c show ?thesis by (simp add: start_allocated_def)
    next
      case (Inr b)
      have "fine b" using start_instance_fine [OF Inr] assms by (simp add: step_ok_def)
      from new [OF this, unfolded keeps_def, rule_format, OF c] Inr show ?thesis
        by (simp add: start_allocated_def)
    qed
  qed
qed

lemma keeps_allocate_new:
  assumes "step_ok (ae_step ae)" "wf_profile p"
  shows "keeps (allocate_new env ae p metadata) (\<lambda>_. True)"
  unfolding allocate_new_def
  by (intro keeps_bind_res)
    (use keeps_start_allocated [OF assms, of env metadata] in \<open>simp add: keeps_def Let_def\<close>)

lemma keeps_allocate:
  assumes "step_ok (ae_step ae)" "profiles_ok env" "dynamic_ok env payload"
  shows "keeps (allocate env ae payload) (\<lambda>_. True)"
proof -
  have all_ok: "\<forall>p\<in>set (map snd ps). wf_profile p" if "profiles env = Inr ps" for ps
    using assms(2) that by (simp add: profiles_ok_def)
  have enriched: "wf_profile q"
    if "enrich_profile_from_lmstudio_metadata listing p dyn payload = Inr (q, meta)" "wf_profile p" for listing p dyn q meta
    using that by (auto simp: enrich_profile_from_lmstudio_metadata_def wf_profile_def bind_res_Inr_iff split: if_splits)
  have reuse: "keeps (\<lambda>c. if f (ct_registry c) then (record_allocation m x c, Inr (g c)) else h c) (\<lambda>_. True)"
    if "keeps h (\<lambda>_. True)" for f m x and g :: "controller \<Rightarrow> dict" and h
    using that by (simp add: keeps_def)
  have tail: "keeps (bind_act (lift_res (enrich_profile_from_lmstudio_metadata (ae_listing ae) p dyn payload)) (\<lambda>(p, meta).
        allocate_new env ae p meta)) (\<lambda>_. True)" if "wf_profile p" for p dyn
    using that enriched by (auto intro!: keeps_bind_res keeps_allocate_new assms(1))
  have main: "keeps (bind_act (lift_res (profiles env)) (\<lambda>configured.
      bind_act (resolve_profile env model (allocation_overrides payload) configured) (\<lambda>(p, dyn) c.
      let ready = ready_for_model (ct_registry c) (p_public_name p) in
      if ready \<noteq> [] then
        (record_allocation (p_public_name p) ''reused'' c,
         Inr [(''model'', JStr (p_public_name p)), (''created'', JBool False),
              (''instance'', JDict (instance_to_dict (arg_min_list bi_active_requests ready)))])
      else bind_act (lift_res (enrich_profile_from_lmstudio_metadata (ae_listing ae) p dyn payload)) (\<lambda>(p, meta).
        allocate_new env ae p meta) c))) (\<lambda>_. True)" if "model = payload_model payload" for model
    using reuse [OF tail] assms(3) that
    by (auto intro!: keeps_bind_res keeps_bind [OF keeps_resolve [OF _ all_ok]] simp: Let_def dynamic_ok_def)
  show ?thesis
    unfolding keeps_def
    using main [unfolded keeps_def] by (simp add: allocate_def Let_def payload_model_def)
qed

lemma keeps_handlers:
  assumes "now \<noteq> []"
  shows "keeps (handle_lease now i) (\<lambda>_. True)" and "keeps (handle_release now i) (\<lambda>_. True)"
    and "reconcile_ok re \<Longrightarrow> profiles_ok env \<Longrightarrow> keeps (handle_reconcile env re payload) (\<lambda>_. True)"
proof -
  have adj: "keeps (registry_op (adjust_active_requests now i d)) (\<lambda>_. True)" for d
    by (rule keeps_op) (rule registry_ops_inv(4) [OF _ assms])
  show "keeps (handle_lease now i) (\<lambda>_. True)" "keeps (handle_release now i) (\<lambda>_. True)"
    unfolding handle_lease_def handle_release_def by (auto intro!: keeps_then keeps_lift adj)
  show "reconcile_ok re \<Longrightarrow> profiles_ok env \<Longrightarrow> keeps (handle_reconcile env re payload) (\<lambda>_. True)"
    unfolding handle_reconcile_def by (intro keeps_bind_res keeps_reconcile)
qed

lemma fst_case_pair [simp]: "fst (case p of (r, v) \<Rightarrow> (r, f r v)) = fst p"
  by (cases p) simp

lemma purge_loop_inv: "registry_inv r \<Longrightarrow> registry_inv (fst (purge_loop now ttl bs r))"
proof (induction bs arbitrary: r)
  case (Cons b bs)
  have "registry_inv (fst (purge_loop now ttl bs (registry_remove (bi_id b) r)))"
    by (rule Cons.IH) (rule registry_inv_remove [OF Cons.prems])
  moreover have "registry_inv (fst (purge_loop now ttl bs r))" by (rule Cons.IH [OF Cons.prems])
  ultimately show ?case using Cons.prems by (simp split: sum.split)
qed simp

lemma purge_stale_inv: "registry_inv r \<Longrightarrow> registry_inv (fst (purge_stale_instances now ttl r))"
  by (simp add: purge_stale_instances_def purge_loop_inv)

lemma cleanup_inv:
  assumes "instance_stopper stop" "registry_inv r"
  shows "registry_inv (fst (cleanup stop now ps lengths config resolver r))"
proof (cases "cleanup_profiles resolver (registry_list r) ps")
  case (Inl e)
  with assms(2) show ?thesis by (simp add: cleanup_def)
next
  case (Inr qs)
  obtain r1 v where s: "stop_idle_instances stop now (map snd qs) lengths r = (r1, v)" by fastforce
  have "registry_inv r1" using instance_stopper.stop_idle_inv [OF assms, of now "map snd qs" lengths] s by simp
  then show ?thesis
    using Inr s purge_stale_inv [of r1 now] by (auto simp: cleanup_def split: sum.splits prod.splits) (metis fst_conv)+
qed

lemma keeps_cleanup:
  assumes "reconcile_ok re"
  shows "keeps (handle_cleanup env re payload) (\<lambda>_. True)"
  unfolding handle_cleanup_def
  by (intro keeps_bind_res keeps_registry) (rule cleanup_inv [OF reconcile_stopper_contract [OF assms]])

section \<open>What an initialised backend keeps\<close>

text \<open>The registry holds, under its identifier, an instance with the placement of \<open>b\<close>.\<close>

definition same_placement :: "backend_instance \<Rightarrow> backend_instance \<Rightarrow> bool" where
  "same_placement a b \<longleftrightarrow> bi_id a = bi_id b \<and> bi_model a = bi_model b \<and> bi_gpu_ids a = bi_gpu_ids b \<and>
     bi_reserved_vram_mb a = bi_reserved_vram_mb b \<and> bi_host_port a = bi_host_port b"

definition placed :: "backend_instance \<Rightarrow> registry \<Rightarrow> bool" where
  "placed b r \<longleftrightarrow> (\<exists>a. map_of (rg_instances r) (bi_id b) = Some a \<and> same_placement a b)"

lemma mark_placed:
  assumes "placed b r"
  shows "mark_state now (bi_id b) s r = Inr (r1, b1) \<Longrightarrow>
      placed b r1 \<and> map_of (rg_instances r1) (bi_id b) = Some b1 \<and> same_placement b1 b \<and> bi_state b1 = JStr s"
    and "mark_failed now (bi_id b) s r = Inr (r1, b1) \<Longrightarrow>
      placed b r1 \<and> map_of (rg_instances r1) (bi_id b) = Some b1 \<and> same_placement b1 b"
  using assms
  by (auto simp: placed_def mark_state_def mark_failed_def modify_instance_def same_placement_def update_conv')

lemma initialize_steps_placed:
  assumes "placed b r" "initialize_steps e p b r = (r', v)"
  shows "placed b r' \<and> (\<forall>x. v = Inr x \<longrightarrow> map_of (rg_instances r') (bi_id b) = Some x \<and> same_placement x b)"
proof -
  have m: "placed b r1 \<and> map_of (rg_instances r1) (bi_id b) = Some b1 \<and> same_placement b1 b"
    if "placed b r0" "mark_state now (bi_id b) s r0 = Inr (r1, b1)" for now s r0 r1 b1
    using mark_placed(1) [OF that] by simp
  obtain w where w: "w = bind_res (wait_for_health (ie_health e) None) (\<lambda>_.
           if \<not> should_verify_before_start p then verify_model_available (ie_verify e) p else Inr ())" by simp
  show ?thesis
  proof (cases w)
    case (Inl x)
    then show ?thesis using assms by (auto simp: initialize_steps_def simp flip: w)
  next
    case (Inr x)
    show ?thesis
    proof (cases "mark_state (ie_now1 e) (bi_id b) ''warming'' r")
      case (Inl y)
      then show ?thesis using assms Inr by (auto simp: initialize_steps_def simp flip: w)
    next
      case warm: (Inr y)
      obtain r1 b1 where y: "y = (r1, b1)" by fastforce
      note p1 = m [OF assms(1) warm [unfolded y]]
      show ?thesis
      proof (cases "mark_state (ie_now2 e) (bi_id b) ''ready'' r1")
        case (Inl z)
        then show ?thesis using assms Inr warm y p1
          by (auto simp: initialize_steps_def simp flip: w split: sum.splits if_splits)
      next
        case ready: (Inr z)
        obtain r2 b2 where z: "z = (r2, b2)" by fastforce
        note p2 = m [OF conjunct1 [OF p1] ready [unfolded z]]
        show ?thesis using assms Inr warm y p1 ready z p2
          by (auto simp: initialize_steps_def simp flip: w split: sum.splits if_splits)
      qed
    qed
  qed
qed

lemma initialize_placed:
  assumes "placed b r" "initialize_instance e p b r = (r', Inr b')"
  shows "map_of (rg_instances r') (bi_id b) = Some b' \<and> same_placement b' b"
proof (cases "bi_dry_run b")
  case True
  with assms(2) have "mark_state (ie_now1 e) (bi_id b) ''ready'' r = Inr (r', b')"
    by (cases "mark_state (ie_now1 e) (bi_id b) ''ready'' r") (auto simp: initialize_instance_def)
  from mark_placed(1) [OF assms(1) this] show ?thesis by simp
next
  case False
  obtain r1 v where s: "initialize_steps e p b r = (r1, v)" by fastforce
  note p1 = initialize_steps_placed [OF assms(1) s]
  show ?thesis
  proof (cases v)
    case (Inl x)
    with False s assms(2) have "mark_failed (ie_now_failed e) (bi_id b) (exn_name x) r1 = Inr (r', b')"
      by (cases "mark_failed (ie_now_failed e) (bi_id b) (exn_name x) r1") (auto simp: initialize_instance_def)
    from mark_placed(2) [OF conjunct1 [OF p1] this] show ?thesis by simp
  next
    case (Inr x)
    then show ?thesis using False s assms(2) p1 by (simp add: initialize_instance_def)
  qed
qed

lemma upsert_placed: "placed b (fst (registry_upsert now touch b r))"
  unfolding placed_def registry_upsert_def Let_def
  by (rule exI [of _ "if touch then b\<lparr>bi_updated_at := now\<rparr> else b"])
    (simp add: update_conv' same_placement_def)

end
