(* ===== verification/Lifecycle_Properties.thy ===== *)
theory Lifecycle_Properties
  imports Lifecycle_Controller
begin

text \<open>
  The properties of the lifecycle service: what a plan may contain, when a backend is reloaded, what
  reconciliation, allocation, cleanup and leases do to the registry, and which requests are refused.
\<close>

section \<open>Samples\<close>

definition lc_config :: orchestrator_config where
  "lc_config = \<lparr>cfg_defaults = [], cfg_dynamic_models =
       [(''enabled'', JBool True), (''denied_models'', JList [JStr ''secret*''])],
     cfg_models = [(''m'', None)]\<rparr>"

definition lc_profile :: "string \<Rightarrow> int \<Rightarrow> model_profile" where
  "lc_profile name vram = \<lparr>p_public_name = name, p_backend_model = name, p_runtime = ''vllm'',
     p_artifact = None, p_runtime_image = None, p_host_port_start = 8100, p_container_port = 8000,
     p_public_host = ''host'', p_base_url = None, p_docker_extra_args = [], p_runtime_extra_args = [],
     p_volume_mounts = [], p_environment = [], p_healthcheck_path = ''/v1/models'',
     p_startup_timeout_seconds = Fin 120, p_healthcheck_interval_seconds = Fin 2, p_warmup_enabled = False,
     p_warmup_prompt = [], p_warmup_max_tokens = 8, p_estimated_vram_mb = vram, p_safety_margin_mb = 1024,
     p_min_replicas = 0, p_max_replicas = 1, p_idle_ttl_seconds = 60, p_load_strategy = ''none'',
     p_lms_binary = ''lms'', p_lms_gpu = None, p_lms_context_length = None, p_lms_parallel = None,
     p_lms_ttl_seconds = None, p_preferred_gpus = [''auto''], p_reload_min_dwell_seconds = 300,
     p_reload_allow_bucket_only = False\<rparr>"

definition lc_gpu :: gpu_state where
  "lc_gpu = \<lparr>g_id = ''gpu0'', g_index = 0, g_name = ''card'', g_total_mb = 24000, g_used_mb = 4000,
     g_free_mb = 20000\<rparr>"

definition lc_backend :: "string \<Rightarrow> string \<Rightarrow> string \<Rightarrow> int \<Rightarrow> backend_instance" where
  "lc_backend i model state active = \<lparr>bi_id = i, bi_model = model, bi_backend_model = model,
     bi_runtime = ''vllm'', bi_base_url = ''http://b'', bi_gpu_ids = [''gpu0''], bi_state = JStr state,
     bi_reserved_vram_mb = 9000, bi_host_port = Some 8100, bi_container_name = JNull, bi_runtime_command = [],
     bi_active_requests = active, bi_failure_reason = JNull, bi_created_at = ''2026-01-01T00:00:00+00:00'',
     bi_updated_at = ''2026-01-01T00:00:00+00:00'', bi_last_used_at = JNull, bi_dry_run = False, bi_metadata = []\<rparr>"

definition lc_registry :: "backend_instance list \<Rightarrow> registry" where
  "lc_registry bs = save_registry \<lparr>rg_instances = map (\<lambda>b. (bi_id b, b)) bs, rg_file = None\<rparr>"

definition lc_controller :: "backend_instance list \<Rightarrow> controller" where
  "lc_controller bs =
     \<lparr>ct_registry = lc_registry bs, ct_allocations = [], ct_reloads = [], ct_live = []\<rparr>"

definition lc_planner :: planner_env where
  "lc_planner = \<lparr>pe_run = \<lambda>_. Inl FileNotFoundError, pe_loads = \<lambda>_ _. Inr [],
     pe_stamps = \<lambda>_. (''t'', ''t'', ''t''), pe_now = 0\<rparr>"

definition lc_step :: step_env where
  "lc_step = \<lparr>se_gpus = Failed ''ConnectError'', se_seed = ''s'', se_created = ''t'', se_upsert = ''t'',
     se_init = \<lparr>ie_health = [], ie_verify = Failed ''ConnectError'', ie_warmup = Failed ''ConnectError'',
       ie_now1 = ''t'', ie_now2 = ''t'', ie_now_failed = ''t''\<rparr>, se_stop1 = ''t'', se_stop2 = ''t''\<rparr>"

definition lc_env :: controller_env where
  "lc_env = \<lparr>ce_config = Inr lc_config, ce_shell = \<lambda>_. None, ce_sha1 = \<lambda>_. ''0123456789'',
     ce_sha256 = \<lambda>_. ''0123456789'', ce_dry_run = False, ce_docker = ''docker''\<rparr>"

definition lc_reconcile :: reconcile_env where
  "lc_reconcile = \<lparr>re_planner = lc_planner,
     re_sync = \<lparr>sy_loads = \<lambda>_ _. Inr [], sy_stamps = \<lambda>_. (''t'', ''t'', ''t''),
       sy_new = \<lambda>_. \<lparr>xs_created = ''t'', xs_updated = ''t'', xs_load = (''t'', ''t'', ''t''), xs_upsert = ''t''\<rparr>\<rparr>,
     re_now = 0, re_stop1 = ''t'', re_stop2 = ''t'', re_gpus = Failed ''ConnectError'',
     re_model_gpus = \<lambda>_. Failed ''ConnectError'', re_steps = \<lambda>_ _. lc_step\<rparr>"

definition lc_allocate :: allocate_env where
  "lc_allocate = \<lparr>ae_listing = \<lambda>_ _. Inr [], ae_verify = Failed ''ConnectError'', ae_step = lc_step\<rparr>"

lemma lc_registry_inv:
  "distinct (map bi_id bs) \<Longrightarrow> \<forall>b\<in>set bs. fine b \<Longrightarrow> registry_inv (lc_registry bs)"
  by (auto simp: registry_inv_def lc_registry_def fine_def o_def registry_payload_def registry_list_def)

lemma lc_backend_fine [simp]: "model \<noteq> [] \<Longrightarrow> 0 \<le> active \<Longrightarrow> fine (lc_backend i model state active)"
  by (simp add: lc_backend_def fine_def wf_instance_def)

lemma lc_backend_simps [simp]:
  "bi_id (lc_backend i model state active) = i" "bi_model (lc_backend i model state active) = model"
  "bi_active_requests (lc_backend i model state active) = active"
  "bi_state (lc_backend i model state active) = JStr state"
  by (simp_all add: lc_backend_def)

lemma lc_controller_simps [simp]:
  "ct_registry (lc_controller bs) = lc_registry bs"
  "rg_instances (lc_registry bs) = map (\<lambda>b. (bi_id b, b)) bs"
  "registry_list (lc_registry bs) = bs"
  by (simp_all add: lc_controller_def lc_registry_def registry_list_def o_def)

lemma lc_envs_ok: "step_ok lc_step" "reconcile_ok lc_reconcile" "step_ok (ae_step lc_allocate)"
  by (simp_all add: step_ok_def init_ok_def lc_step_def reconcile_ok_def stamps_ok_def lc_reconcile_def
      lc_allocate_def)

section \<open>Plans\<close>

text \<open>C32: the plan of a model never asks for more replicas than configured and holds at most one decision.
  Tasks beyond the context cap are only rejected. A start is decided only while replicas are missing,
  and on a listed GPU the profile allows whose free memory covers the new reservation after all others.\<close>

theorem plans_are_sound:
  assumes "plan_model env gpus r lengths plans p = Inr m"
  defines "plan \<equiv> map_of plans (p_public_name p)"
  defines "q \<equiv> effective_profile env p plan"
  shows "mp_desired m \<le> p_max_replicas p \<and> length (mp_decisions m) \<le> 1 \<and>
     (\<forall>cp. plan = Some cp \<and> cp_oversized cp \<noteq> [] \<longrightarrow> mp_decisions m = [reject_oversized_decision q cp]) \<and>
     (\<forall>d\<in>set (mp_decisions m). pd_action d = ''start'' \<longrightarrow> mp_active m < mp_desired m \<and>
        (\<exists>g\<in>set gpus. pd_gpu_id d = Some (g_id g) \<and> gpu_preferred q g \<and>
           reserved_mb r (g_id g) + pd_required_mb d \<le> g_free_mb g))"
proof -
  obtain active ds where m: "model_decisions env gpus r q plan active (queue_length_for p lengths plan) (mp_desired m) = Inr ds"
      "mp_decisions m = ds" "mp_active m = int (length active)"
    and desired: "mp_desired m = desired_replicas q (int (length (ready_for_model r (p_public_name p))))
        (queue_length_for p lengths plan)"
    using assms(1) by (auto simp: plan_model_def Let_def bind_res_Inr_iff plan_def q_def)
  note spec = model_decisions_spec [OF m(1)]
  have "mp_desired m \<le> p_max_replicas p"
    using desired_replicas_bounds(1) desired by (metis effective_profile_keeps(4) q_def)
  moreover have "mp_active m < mp_desired m \<and> (\<exists>g\<in>set gpus. pd_gpu_id d = Some (g_id g) \<and> gpu_preferred q g \<and>
      reserved_mb r (g_id g) + pd_required_mb d \<le> g_free_mb g)"
    if "d \<in> set ds" "pd_action d = ''start''" for d
    using spec(3) [OF that] that(2) choose_gpu_start [of q gpus r] m(3) by auto
  ultimately show ?thesis using spec(1,2) m(2) by auto
qed

theorem plans_are_sound_witness:
  "\<exists>m. plan_model lc_planner [lc_gpu] (lc_registry []) [(''m'', 1)] [] (lc_profile ''m'' 8000) = Inr m \<and>
     (\<exists>d. mp_decisions m = [d] \<and> pd_gpu_id d = Some ''gpu0'') \<and> mp_desired m \<le> 1"
proof -
  have "case plan_model lc_planner [lc_gpu] (lc_registry []) [(''m'', 1)] [] (lc_profile ''m'' 8000) of
      Inl _ \<Rightarrow> False | Inr m \<Rightarrow> map pd_gpu_id (mp_decisions m) = [Some ''gpu0'']"
    by code_simp
  then obtain m where m: "plan_model lc_planner [lc_gpu] (lc_registry []) [(''m'', 1)] [] (lc_profile ''m'' 8000) = Inr m"
      "map pd_gpu_id (mp_decisions m) = [Some ''gpu0'']"
    by (auto split: sum.splits)
  then show ?thesis using plans_are_sound [OF m(1)] by (auto simp: lc_profile_def)
qed

text \<open>C33: the models of one plan are placed one by one against the same free memory: two models that each
  fit on the only GPU are both started on it, also when they do not fit together.\<close>

theorem one_plan_overcommits_a_gpu:
  assumes "g_free_mb g < reserved_mb r (g_id g) + required_vram p1 + required_vram p2"
    "reserved_mb r (g_id g) + required_vram p1 \<le> g_free_mb g" "reserved_mb r (g_id g) + required_vram p2 \<le> g_free_mb g"
    "gpu_preferred p1 g" "gpu_preferred p2 g" "p_runtime p1 \<noteq> ''lmstudio''" "p_runtime p2 \<noteq> ''lmstudio''"
    "active_for_model r (p_public_name p1) = []" "active_for_model r (p_public_name p2) = []"
    "1 \<le> p_max_replicas p1" "1 \<le> p_max_replicas p2"
    "0 < count_get lengths (p_public_name p1)" "0 < count_get lengths (p_public_name p2)"
  shows "\<exists>m1 m2. plan_models env (Inr [g]) r [(k1, p1), (k2, p2)] lengths [] = Inr (1, [m1, m2]) \<and>
     map pd_gpu_id (mp_decisions m1 @ mp_decisions m2) = [Some (g_id g), Some (g_id g)] \<and>
     map pd_action (mp_decisions m1 @ mp_decisions m2) = [''start'', ''start''] \<and>
     g_free_mb g < reserved_mb r (g_id g) + (\<Sum>d\<leftarrow>mp_decisions m1 @ mp_decisions m2. pd_required_mb d)"
proof -
  have one: "\<exists>m. plan_model env [g] r lengths [] p = Inr m \<and> mp_decisions m = [choose_gpu p [g] r] \<and>
      pd_action (choose_gpu p [g] r) = ''start'' \<and> pd_gpu_id (choose_gpu p [g] r) = Some (g_id g)"
    if "reserved_mb r (g_id g) + required_vram p \<le> g_free_mb g" "gpu_preferred p g" "p_runtime p \<noteq> ''lmstudio''"
      "active_for_model r (p_public_name p) = []" "1 \<le> p_max_replicas p" "0 < count_get lengths (p_public_name p)" for p
  proof -
    have eff: "effective_profile env p None = p"
      using that(3) by (simp add: effective_profile_def profile_with_context_plan_def profile_with_lmstudio_estimate_def)
    have start: "pd_action (choose_gpu p [g] r) = ''start''"
      using that(1,2) choose_gpu_noop [of p "[g]" r] by auto
    then have "pd_gpu_id (choose_gpu p [g] r) = Some (g_id g)" using choose_gpu_start [of p "[g]" r] by auto
    moreover have "0 < desired_replicas p n k" if "0 < k" "0 \<le> n" for n k
      using that \<open>1 \<le> p_max_replicas p\<close> by (simp add: desired_replicas_def)
    ultimately show ?thesis
      using that start by (simp add: plan_model_def eff model_decisions_def queue_length_for_def Let_def)
  qed
  obtain m1 m2 where m: "plan_model env [g] r lengths [] p1 = Inr m1" "mp_decisions m1 = [choose_gpu p1 [g] r]"
      "plan_model env [g] r lengths [] p2 = Inr m2" "mp_decisions m2 = [choose_gpu p2 [g] r]"
      "pd_action (choose_gpu p1 [g] r) = ''start''" "pd_gpu_id (choose_gpu p1 [g] r) = Some (g_id g)"
      "pd_action (choose_gpu p2 [g] r) = ''start''" "pd_gpu_id (choose_gpu p2 [g] r) = Some (g_id g)"
    using one [of p1] one [of p2] assms(2-13) by auto
  then show ?thesis using assms(1) by (simp add: plan_models_def)
qed

theorem one_plan_overcommits_a_gpu_witness:
  "\<exists>m1 m2. plan_models lc_planner (Inr [lc_gpu]) (lc_registry [])
       [(''a'', lc_profile ''a'' 12000), (''b'', lc_profile ''b'' 12000)] [(''a'', 1), (''b'', 1)] [] = Inr (1, [m1, m2]) \<and>
     20000 < (\<Sum>d\<leftarrow>mp_decisions m1 @ mp_decisions m2. pd_required_mb d)"
proof -
  have "active_for_model (lc_registry []) n = []" for n by (simp add: active_for_model_def)
  moreover have "reserved_mb (lc_registry []) g = 0" for g by (simp add: reserved_mb_def)
  ultimately show ?thesis
    using one_plan_overcommits_a_gpu [of lc_gpu "lc_registry []" "lc_profile ''a'' 12000" "lc_profile ''b'' 12000"
        "[(''a'', 1), (''b'', 1)]" lc_planner "''a''" "''b''"]
    by (auto simp: lc_gpu_def lc_profile_def required_vram_def gpu_preferred_def count_get_def)
qed

text \<open>C34: a backend is proposed for reload only when it is ready or draining and its recorded shape cannot
  serve the queued tasks (unknown or smaller than the largest task needs), or falls short of the planned
  shape and has been up for the configured dwell time.\<close>

theorem reloads_are_justified:
  assumes "reload_decision_for_context_plan now p bs plan = Inr (Some d)" "pd_action d = ''reload''"
  shows "\<exists>cp b. plan = Some cp \<and> p_runtime p = ''lmstudio'' \<and> b \<in> set bs \<and> pd_instance_id d = Some (bi_id b) \<and>
     in_states b [''ready'', ''draining''] \<and>
     (\<exists>context parallel. lms_context_length_from_instance b = Inr context \<and>
        lms_parallel_from_instance b = Inr parallel \<and>
        (nonzero (p_lms_context_length p) \<and> context = None \<or>
         0 < cp_max_required cp \<and> below context (cp_max_required cp) \<or>
         reload_dwell_satisfied now p b \<and>
         (nonzero (p_lms_parallel p) \<and> (parallel = None \<or> below parallel (the (p_lms_parallel p))) \<or>
          nonzero (p_lms_context_length p) \<and> below context (the (p_lms_context_length p)) \<and> p_reload_allow_bucket_only p)))"
proof -
  obtain cp where cp: "plan = Some cp" "p_runtime p = ''lmstudio''" "reload_decision now p bs cp = Inr (Some d)"
    using assms(1) by (auto simp: reload_decision_for_context_plan_def split: option.splits if_splits)
  from reload_decision_reload [OF cp(3) assms(2)] cp(1,2) show ?thesis
    unfolding too_small_def off_shape_def by blast
qed

definition lc_context_plan :: context_plan where
  "lc_context_plan = \<lparr>cp_queued_tasks = 1, cp_max_required = 9000, cp_recommended_length = Some 16384,
     cp_requested_parallel = 1, cp_recommended_parallel = Some 1, cp_total_slot = 16384, cp_cap = None,
     cp_oversized = [], cp_reload_required = False, cp_task_contexts = []\<rparr>"

theorem reloads_are_justified_witness:
  "\<exists>d b. reload_decision_for_context_plan 0 (lc_profile ''m'' 8000\<lparr>p_runtime := ''lmstudio''\<rparr>)
       [lc_backend ''b'' ''m'' ''ready'' 0\<lparr>bi_metadata := [(''lms_context_length'', JInt 4096)]\<rparr>]
       (Some lc_context_plan) = Inr (Some d) \<and> pd_instance_id d = Some ''b'' \<and>
     lms_context_length_from_instance b = Inr (Some 4096)"
proof -
  let ?p = "lc_profile ''m'' 8000\<lparr>p_runtime := ''lmstudio''\<rparr>"
  let ?b = "lc_backend ''b'' ''m'' ''ready'' 0\<lparr>bi_metadata := [(''lms_context_length'', JInt 4096)]\<rparr>"
  have "case reload_decision_for_context_plan 0 ?p [?b] (Some lc_context_plan) of
      Inr (Some d) \<Rightarrow> pd_action d = ''reload'' | _ \<Rightarrow> False"
    by code_simp
  then obtain d where d: "reload_decision_for_context_plan 0 ?p [?b] (Some lc_context_plan) = Inr (Some d)"
      "pd_action d = ''reload''"
    by (auto split: sum.splits option.splits)
  from reloads_are_justified [OF d] d(1) show ?thesis
    by (auto intro!: exI [of _ ?b] simp: lms_context_length_from_instance_def)
qed

section \<open>The registry\<close>

lemma lc_profiles_ok [simp]: "profiles_ok lc_env"
proof -
  have "p_backend_model p \<noteq> [] \<and> p_runtime p \<noteq> []" if "model_profile_from_data ''m'' [] [] = Inr p" for p
    using that by (auto simp: model_profile_from_data_def Let_def bind_res_Inr_iff dmerge_def py_or_def mapping_or_empty_def)
  moreover have "\<forall>x\<in>set (AList.update k v []). snd x = v" for k :: string and v :: model_profile by simp
  ultimately show ?thesis
    by (auto simp: profiles_ok_def profiles_def load_model_profiles_def lc_env_def lc_config_def bind_res_Inr_iff
        wf_profile_def)
qed

lemma lc_dynamic_ok: "dynamic_ok (lc_env\<lparr>ce_config := Inr (lc_config\<lparr>cfg_dynamic_models := []\<rparr>)\<rparr>) payload"
  by (simp add: dynamic_ok_def load_dynamic_model_profile_def)



text \<open>A restarted service reads back exactly the registry it had.\<close>

theorem registry_survives_a_restart:
  assumes "registry_inv r"
  shows "load_registry now (rg_file r) = Inr r"
  using assms by (rule registry_restart)

theorem registry_survives_a_restart_witness:
  "load_registry (\<lambda>_. (''t'', ''t'')) (rg_file (lc_registry [lc_backend ''a'' ''m'' ''ready'' 2, lc_backend ''b'' ''m'' ''failed'' 0])) =
     Inr (lc_registry [lc_backend ''a'' ''m'' ''ready'' 2, lc_backend ''b'' ''m'' ''failed'' 0])"
  by (rule registry_survives_a_restart) (simp add: lc_registry_inv)

text \<open>A sequence of leases (True) and releases (False) of one instance, and what it adds up to.\<close>

fun lease_all :: "string \<Rightarrow> string \<Rightarrow> bool list \<Rightarrow> controller \<Rightarrow> controller" where
  "lease_all now i [] c = c"
| "lease_all now i (b # bs) c = lease_all now i bs (fst ((if b then handle_lease now i else handle_release now i) c))"

definition net :: "bool list \<Rightarrow> int" where
  "net bs = (\<Sum>b\<leftarrow>bs. if b then 1 else - 1)"

lemma net_simps [simp]: "net [] = 0" "net (b # bs) = (if b then 1 else - 1) + net bs"
  by (simp_all add: net_def)

lemma handle_lease_effect:
  assumes "map_of (rg_instances (ct_registry c)) i = Some b"
  shows "map_of (rg_instances (ct_registry (fst ((if l then handle_lease now i else handle_release now i) c)))) =
     (map_of (rg_instances (ct_registry c)))(i \<mapsto> adjusted now (if l then 1 else - 1) b)"
  using assms
  by (simp add: handle_lease_def handle_release_def bind_act_def registry_op_def with_registry_def lift_res_def
      adjust_active_requests_def modify_instance_def update_conv')

text \<open>As long as no more leases are released than are held, the active requests of an instance are what
  it had plus the leases taken less the leases released, and no other instance changes.\<close>

theorem leases_count_requests:
  assumes "map_of (rg_instances (ct_registry c)) i = Some b"
    "\<forall>k \<le> length bs. 0 \<le> bi_active_requests b + net (take k bs)"
  shows "\<exists>b'. map_of (rg_instances (ct_registry (lease_all now i bs c))) =
       (map_of (rg_instances (ct_registry c)))(i \<mapsto> b') \<and>
     bi_active_requests b' = bi_active_requests b + net bs \<and> bi_state b' = bi_state b \<and> bi_model b' = bi_model b"
  using assms
proof (induction bs arbitrary: c b)
  case Nil
  then show ?case by (intro exI [of _ b]) (auto simp: fun_upd_idem)
next
  case (Cons l bs)
  let ?c = "fst ((if l then handle_lease now i else handle_release now i) c)"
  let ?b = "adjusted now (if l then 1 else - 1) b"
  have eff: "map_of (rg_instances (ct_registry ?c)) = (map_of (rg_instances (ct_registry c)))(i \<mapsto> ?b)"
    by (rule handle_lease_effect [OF Cons.prems(1)])
  have "0 \<le> bi_active_requests b + net (take 1 (l # bs))" using Cons.prems(2) [rule_format, of 1] by simp
  then have act: "bi_active_requests ?b = bi_active_requests b + (if l then 1 else - 1)" by (auto split: if_splits)
  have "\<forall>k \<le> length bs. 0 \<le> bi_active_requests ?b + net (take k bs)"
  proof (intro allI impI)
    fix k assume "k \<le> length bs"
    then show "0 \<le> bi_active_requests ?b + net (take k bs)"
      using Cons.prems(2) [rule_format, of "Suc k"] act by simp
  qed
  moreover have "map_of (rg_instances (ct_registry ?c)) i = Some ?b" by (simp only: eff fun_upd_same)
  ultimately obtain b' where b': "map_of (rg_instances (ct_registry (lease_all now i bs ?c))) =
       (map_of (rg_instances (ct_registry ?c)))(i \<mapsto> b')"
     "bi_active_requests b' = bi_active_requests ?b + net bs" "bi_state b' = bi_state ?b" "bi_model b' = bi_model ?b"
    using Cons.IH [of ?c ?b] by (elim meta_impE exE conjE)
  have "map_of (rg_instances (ct_registry (lease_all now i (l # bs) c))) = (map_of (rg_instances (ct_registry c)))(i \<mapsto> b')"
    by (simp only: lease_all.simps b'(1) eff fun_upd_upd)
  moreover have "bi_active_requests b' = bi_active_requests b + net (l # bs)" using b'(2) act by simp
  ultimately show ?case using b'(3,4) by (intro exI [of _ b']) (simp del: lease_all.simps)
qed

theorem leases_count_requests_witness:
  "\<exists>b'. map_of (rg_instances (ct_registry (lease_all ''t'' ''b'' [True, True, False]
       (lc_controller [lc_backend ''b'' ''m'' ''ready'' 0])))) ''b'' = Some b' \<and> bi_active_requests b' = 1"
proof -
  have "\<forall>k \<le> length [True, True, False]. 0 \<le> (0 :: int) + net (take k [True, True, False])"
    by (auto simp: le_Suc_eq numeral_2_eq_2 numeral_3_eq_3)
  then show ?thesis
    using leases_count_requests [of "lc_controller [lc_backend ''b'' ''m'' ''ready'' 0]" "''b''"
        "lc_backend ''b'' ''m'' ''ready'' 0" "[True, True, False]" "''t''"]
    by auto
qed

section \<open>Cleanup\<close>

lemma purge_keeps:
  "\<forall>c\<in>set bs. bi_id c = i \<longrightarrow> c = b \<Longrightarrow> \<not> in_states b [''stopped'', ''failed''] \<Longrightarrow>
     map_of (rg_instances (fst (purge_loop now ttl bs r))) i = map_of (rg_instances r) i"
proof (induction bs arbitrary: r)
  case (Cons c bs)
  have "map_of (rg_instances (registry_remove (bi_id c) r)) i = map_of (rg_instances r) i"
    if "stale_candidate now ttl c = Inr True"
  proof -
    have "in_states c [''stopped'', ''failed'']" using that by (auto simp: stale_candidate_def split: if_splits)
    with Cons.prems have "bi_id c \<noteq> i" by auto
    then show ?thesis by (simp add: registry_remove_def delete_conv')
  qed
  then show ?case using Cons by (simp split: sum.split)
qed simp

lemma purge_stale_keeps:
  assumes "registry_inv r" "map_of (rg_instances r) i = Some b" "in_states b READY_STATES"
  shows "map_of (rg_instances (fst (purge_stale_instances now ttl r))) i = Some b"
proof -
  have "c = b" if "c \<in> set (registry_list r)" "bi_id c = i" for c
  proof -
    obtain j where j: "(j, c) \<in> set (rg_instances r)" using \<open>c \<in> _\<close> by (auto simp: registry_list_def)
    with assms(1) that(2) have "map_of (rg_instances r) i = Some c"
      by (auto simp: registry_inv_def intro: map_of_is_SomeI)
    with assms(2) show ?thesis by simp
  qed
  moreover have "\<not> in_states b [''stopped'', ''failed'']"
    using assms(3) by (auto simp: in_states_def READY_STATES_def split: json.splits)
  ultimately show ?thesis
    using assms(2) purge_keeps [of "registry_list r" i b now ttl r] by (auto simp: purge_stale_instances_def)
qed

text \<open>C40: a cleanup never stops or drops a ready backend that serves requests, and of every model it leaves
  ready at least the configured minimum of replicas that were ready.\<close>

theorem cleanup_spares_needed_backends:
  fixes env now lengths config
  assumes "registry_inv r" "reconcile_ok re" "cleanup_profiles resolver (registry_list r) ps = Inr qs"
  defines "r' \<equiv> fst (cleanup (reconcile_stopper env re) now ps lengths config resolver r)"
  shows "(map_of (rg_instances r) i = Some b \<and> in_states b READY_STATES \<and> bi_active_requests b \<noteq> 0 \<longrightarrow>
       map_of (rg_instances r') i = Some b) \<and>
     ((\<forall>p\<in>set (map snd qs). p_public_name p = m \<longrightarrow> int k \<le> p_min_replicas p) \<and> k \<le> card (ready_ids r m) \<longrightarrow>
       k \<le> card (ready_ids r' m))"
proof -
  let ?stop = "reconcile_stopper env re"
  have contract: "instance_stopper ?stop" by (rule reconcile_stopper_contract [OF assms(2)])
  obtain r1 v where s: "stop_idle_instances ?stop now (map snd qs) lengths r = (r1, v)" by fastforce
  have inv: "registry_inv r1" using instance_stopper.stop_idle_inv [OF contract assms(1), of now "map snd qs" lengths] s by simp
  have r': "r' = r1 \<or> (\<exists>ttl. r' = fst (purge_stale_instances now ttl r1))"
    using assms(3) s by (auto simp: r'_def cleanup_def split: sum.splits prod.splits) (metis fst_conv)+
  then have keep: "map_of (rg_instances r') j = Some c" if "map_of (rg_instances r1) j = Some c" "in_states c READY_STATES" for j c
    using purge_stale_keeps [OF inv that] that(1) by auto
  then have sub: "ready_ids r1 m \<subseteq> ready_ids r' m" by (auto simp: ready_ids_def)
  have "map_of (rg_instances r') i = Some b"
    if "map_of (rg_instances r) i = Some b" "in_states b READY_STATES" "bi_active_requests b \<noteq> 0"
    using instance_stopper.stop_idle_busy [OF contract assms(1) that(1,3), of now "map snd qs" lengths] s keep that(2) by simp
  moreover have "k \<le> card (ready_ids r' m)"
    if "\<forall>p\<in>set (map snd qs). p_public_name p = m \<longrightarrow> int k \<le> p_min_replicas p" "k \<le> card (ready_ids r m)"
    using instance_stopper.stop_idle_keeps_minimum [OF contract assms(1) that, of now lengths] s
      card_mono [OF finite_ready_ids sub] by simp
  ultimately show ?thesis by blast
qed

theorem cleanup_spares_needed_backends_witness:
  "map_of (rg_instances (fst (cleanup (reconcile_stopper lc_env lc_reconcile) (10 ^ 17) [(''m'', lc_profile ''m'' 8000)] []
       [] (\<lambda>_. Inr None) (lc_registry [lc_backend ''b'' ''m'' ''ready'' 1])))) ''b'' = Some (lc_backend ''b'' ''m'' ''ready'' 1)"
proof -
  have "registry_inv (lc_registry [lc_backend ''b'' ''m'' ''ready'' 1])" by (simp add: lc_registry_inv)
  then show ?thesis
    using cleanup_spares_needed_backends [of "lc_registry [lc_backend ''b'' ''m'' ''ready'' 1]" lc_reconcile "\<lambda>_. Inr None"
        "[(''m'', lc_profile ''m'' 8000)]" "[(''m'', lc_profile ''m'' 8000)]" "''b''" "lc_backend ''b'' ''m'' ''ready'' 1"]
    by (auto simp: lc_envs_ok in_states_def READY_STATES_def)
qed

section \<open>Allocation and reload\<close>

text \<open>An allocation for a configured model with ready backends starts nothing: it answers with the ready
  backend that has the fewest active requests.\<close>

theorem allocations_reuse_ready_backends:
  assumes "profiles env = Inr ps" "map_of ps (payload_model payload) = Some p" "payload_model payload \<noteq> []"
    "ready_for_model (ct_registry c) (p_public_name p) \<noteq> []"
  shows "\<exists>b\<in>set (ready_for_model (ct_registry c) (p_public_name p)).
     (\<forall>a\<in>set (ready_for_model (ct_registry c) (p_public_name p)). bi_active_requests b \<le> bi_active_requests a) \<and>
     allocate env ae payload c = (record_allocation (p_public_name p) ''reused'' c,
       Inr [(''model'', JStr (p_public_name p)), (''created'', JBool False), (''instance'', JDict (instance_to_dict b))])"
proof -
  let ?ready = "ready_for_model (ct_registry c) (p_public_name p)"
  have a: "allocate env ae payload c = (record_allocation (p_public_name p) ''reused'' c,
       Inr [(''model'', JStr (p_public_name p)), (''created'', JBool False),
            (''instance'', JDict (instance_to_dict (arg_min_list bi_active_requests ?ready)))])"
    using assms
    by (simp add: allocate_def payload_model_def bind_act_def lift_res_def resolve_profile_def Let_def)
  show ?thesis
    by (intro bexI [of _ "arg_min_list bi_active_requests ?ready"] conjI ballI arg_min_list_in a assms(4))
      (simp add: arg_min_list_le)
qed

lemma lc_profile_loaded: "\<exists>p. profiles lc_env = Inr [(''m'', p)] \<and> p_public_name p = ''m''"
proof -
  have "fl 2 = Fin 2" "fl 120 = Fin 120" using fl_of_int_exact [of 2] fl_of_int_exact [of 120] by simp_all
  moreover have "fl 0 = Fin 0" by (simp add: fl_def)
  then have "vram_mb (JInt 0) = Inr 0" by (simp add: vram_mb_def int_of_flt_def rat_trunc_def)
  moreover have "vram_mb (JInt 1) = Inr 1024" using vram_mb_whole [of 1] by simp
  ultimately show ?thesis
    by (simp add: profiles_def lc_env_def lc_config_def load_model_profiles_def model_profile_from_data_def
        mapping_or_empty_def Let_def py_or_def dmerge_def iterate_texts_def optional_int_def)
qed

theorem allocations_reuse_ready_backends_witness:
  "\<exists>b c. allocate lc_env lc_allocate [(''model'', JStr '' m '')]
       (lc_controller [lc_backend ''a'' ''m'' ''ready'' 3, lc_backend ''b'' ''m'' ''ready'' 1]) =
     (c, Inr [(''model'', JStr ''m''), (''created'', JBool False), (''instance'', JDict (instance_to_dict b))]) \<and>
     bi_active_requests b \<le> 1"
proof -
  let ?c = "lc_controller [lc_backend ''a'' ''m'' ''ready'' 3, lc_backend ''b'' ''m'' ''ready'' 1]"
  obtain p where p: "profiles lc_env = Inr [(''m'', p)]" "p_public_name p = ''m''" using lc_profile_loaded by blast
  have m: "payload_model [(''model'', JStr '' m '')] = ''m''" by code_simp
  have ready: "ready_for_model (ct_registry ?c) ''m'' = [lc_backend ''a'' ''m'' ''ready'' 3, lc_backend ''b'' ''m'' ''ready'' 1]"
    by (simp add: ready_for_model_def in_states_def READY_STATES_def)
  show ?thesis
    using allocations_reuse_ready_backends [OF p(1), of "[(''model'', JStr '' m '')]" p ?c lc_allocate] p(2) m ready
    by auto
qed

text \<open>A model that is not configured is never started when dynamic models are off or one of its denied
  patterns matches, whatever is allowed: the request is refused with 403 and the registry stays as it is.\<close>

theorem denied_models_are_refused:
  assumes "profiles env = Inr ps" "ce_config env = Inr cfg" "payload_model payload \<noteq> []"
    "map_of ps (payload_model payload) = None"
    "\<not> truthy (dget_or (cfg_dynamic_models cfg) ''enabled'' (JBool False)) \<or>
     (\<exists>pattern\<in>set (pattern_list (cfg_dynamic_models cfg) [''denied_models'', ''deny_models'', ''denied_model_patterns'']).
        fnmatch pattern (payload_model payload))"
  shows "handle_allocate env ae payload c = (record_allocation (payload_model payload) ''denied'' c, 403) \<and>
     ct_registry (fst (handle_allocate env ae payload c)) = ct_registry c"
proof -
  have "\<not> dynamic_model_allowed (payload_model payload) (cfg_dynamic_models cfg)"
    using assms(5) by (auto simp: dynamic_model_allowed_def list_ex_iff pattern_matches_def)
  then show ?thesis
    using assms(1-4)
    by (simp add: handle_allocate_def allocate_def payload_model_def bind_act_def lift_res_def resolve_profile_def
        Let_def allocate_status_def)
qed

theorem denied_models_are_refused_witness:
  "snd (handle_allocate lc_env lc_allocate [(''model'', JStr ''secret-7b'')] (lc_controller [])) = 403"
proof -
  obtain p where p: "profiles lc_env = Inr [(''m'', p)]" using lc_profile_loaded by blast
  have m: "payload_model [(''model'', JStr ''secret-7b'')] = ''secret-7b''" by code_simp
  have "fnmatch ''secret*'' ''secret-7b''" by code_simp
  moreover have "''secret*'' \<in> set (pattern_list (cfg_dynamic_models lc_config) [''denied_models'', ''deny_models'', ''denied_model_patterns''])"
    by code_simp
  moreover have "ce_config lc_env = Inr lc_config" by (simp add: lc_env_def)
  ultimately have "handle_allocate lc_env lc_allocate [(''model'', JStr ''secret-7b'')] (lc_controller []) =
      (record_allocation ''secret-7b'' ''denied'' (lc_controller []), 403)"
    using denied_models_are_refused [OF p, of lc_config "[(''model'', JStr ''secret-7b'')]" lc_allocate "lc_controller []"] m
    by auto
  then show ?thesis by simp
qed

text \<open>A reload never interrupts a backend that serves requests: the backend is only marked draining, it
  keeps its requests, nothing is stopped or started and no other instance changes.\<close>

theorem busy_backends_are_drained:
  assumes "registry_inv (ct_registry c)" "text_default (dget decision ''instance_id'') [] = i" "i \<noteq> []"
    "map_of (rg_instances (ct_registry c)) i = Some b" "0 < bi_active_requests b"
    "reload_instance env pe se p decision gpus c = (c', Inr result)"
  shows "dget result ''state'' = JStr ''draining'' \<and>
     (\<exists>b'. map_of (rg_instances (ct_registry c')) = (map_of (rg_instances (ct_registry c)))(i \<mapsto> b') \<and>
        bi_state b' = JStr ''draining'' \<and> bi_active_requests b' = bi_active_requests b \<and>
        bi_base_url b' = bi_base_url b \<and> bi_gpu_ids b' = bi_gpu_ids b)"
proof -
  have id: "bi_id b = i" and fine: "fine b"
    using registry_invD [OF assms(1,4)] by (simp_all add: fine_def)
  obtain u where u: "instance_with_live_lmstudio_shape pe p b = Inr u"
    using assms(2-4,6) by (cases "instance_with_live_lmstudio_shape pe p b")
      (simp_all add: reload_instance_def Let_def bind_act_def lift_res_def registry_get_def)
  have same: "bi_id u = i \<and> bi_state u = bi_state b \<and> bi_active_requests u = bi_active_requests b"
    using u id fine
    by (auto simp: instance_with_live_lmstudio_shape_def split: if_splits sum.splits option.splits dest!: with_load_fine)
  show ?thesis
  proof (cases "bi_state b = JStr ''draining''")
    case True
    then have "c' = c \<and> dget result ''state'' = JStr ''draining''"
      using assms u same by (auto simp: reload_instance_def Let_def bind_act_def lift_res_def registry_get_def)
    with True assms(4) show ?thesis by (auto intro!: exI [of _ b])
  next
    case False
    then have "registry_op (mark_state (se_stop1 se) i ''draining'') c = (c', Inr (b\<lparr>bi_state := JStr ''draining'', bi_updated_at := se_stop1 se\<rparr>)) \<and>
        dget result ''state'' = JStr ''draining''"
      using assms u same
      by (auto simp: reload_instance_def Let_def bind_act_def lift_res_def registry_get_def registry_op_def with_registry_def
          mark_state_def modify_instance_def)
    then show ?thesis
      using assms(4) by (auto simp: registry_op_def with_registry_def mark_state_def modify_instance_def update_conv')
  qed
qed

theorem busy_backends_are_drained_witness:
  "\<exists>c' result. reload_instance lc_env lc_planner lc_step (lc_profile ''m'' 8000) [(''instance_id'', JStr ''b'')] []
       (lc_controller [lc_backend ''b'' ''m'' ''ready'' 2]) = (c', Inr result) \<and> dget result ''state'' = JStr ''draining''"
proof -
  let ?c = "lc_controller [lc_backend ''b'' ''m'' ''ready'' 2]"
  obtain c' v where r: "reload_instance lc_env lc_planner lc_step (lc_profile ''m'' 8000) [(''instance_id'', JStr ''b'')] [] ?c = (c', v)"
    by fastforce
  then obtain result where "v = Inr result"
    by (auto simp: reload_instance_def Let_def bind_act_def lift_res_def registry_get_def text_default_def py_or_def
        instance_with_live_lmstudio_shape_def lc_profile_def registry_op_def with_registry_def mark_state_def modify_instance_def)
  with r have r: "reload_instance lc_env lc_planner lc_step (lc_profile ''m'' 8000) [(''instance_id'', JStr ''b'')] [] ?c = (c', Inr result)"
    by simp
  have "registry_inv (ct_registry ?c)" by (simp add: lc_registry_inv)
  from busy_backends_are_drained [OF this _ _ _ _ r, of "''b''" "lc_backend ''b'' ''m'' ''ready'' 2"] r
  show ?thesis by (auto simp: text_default_def py_or_def)
qed

lemma start_instance_gpu:
  assumes "start_instance run sha1 dry docker seed now p decision gpus r = Inr b"
    "map_of decision ''gpu_id'' = Some v" "map_of decision ''required_vram_mb'' = Some (JInt n)"
  shows "bi_gpu_ids b = [py_str v] \<and> bi_reserved_vram_mb b = n"
proof -
  from assms obtain a g gi hp i b0 where s: "adapter_start run now a p (py_str v) gi hp i n = Inr b0"
    and b: "bi_gpu_ids b = bi_gpu_ids b0" "bi_reserved_vram_mb b = bi_reserved_vram_mb b0"
    by (auto simp: start_instance_def Let_def bind_res_Inr_iff required_key_def split: option.splits)
  from adapter_start_spec [OF s] b show ?thesis by simp
qed

lemma start_allocated_created:
  assumes "start_allocated env ae p metadata decision gpus c = (c', Inr d)" "dget d ''created'' = JBool True"
    "pd_gpu_id decision = Some gid"
  shows "\<exists>b. bi_gpu_ids b = [gid] \<and> bi_reserved_vram_mb b = pd_required_mb decision \<and>
     bi_host_port b = Some (next_host_port (ct_registry c) (p_host_port_start p)) \<and> bi_model b = p_public_name p \<and>
     map_of (rg_instances (ct_registry c')) (bi_id b) = Some b \<and> bi_state b = JStr ''ready'' \<and>
     dget d ''instance'' = JDict (instance_to_dict b)"
proof -
  obtain b0 where b0: "start_instance (ce_shell env) (ce_sha1 env) (ce_dry_run env) (ce_docker env) (se_seed (ae_step ae))
         (se_created (ae_step ae)) p (decision_to_dict decision) (gpus_by_id gpus) (ct_registry c) = Inr b0"
    using assms(1) by (auto simp: start_allocated_def split: sum.splits)
  have gpu: "bi_gpu_ids b0 = [gid] \<and> bi_reserved_vram_mb b0 = pd_required_mb decision"
    using start_instance_gpu [OF b0, of "JStr gid" "pd_required_mb decision"] assms(3)
    by (simp add: decision_to_dict_def opt_str_def)
  let ?b = "b0\<lparr>bi_metadata := dmerge (bi_metadata b0) metadata\<rparr>"
  obtain r1 b1 where u: "registry_upsert (se_upsert (ae_step ae)) True ?b (ct_registry c) = (r1, b1)" by fastforce
  have id1: "b1 = ?b\<lparr>bi_updated_at := se_upsert (ae_step ae)\<rparr>" using u by (simp add: registry_upsert_def Let_def)
  have "placed b1 r1" using upsert_placed [of ?b "se_upsert (ae_step ae)" True "ct_registry c"] u id1
    by (simp add: placed_def same_placement_def)
  obtain r2 v where i: "initialize_instance (se_init (ae_step ae)) p b1 r1 = (r2, v)" by fastforce
  obtain b2 where v: "v = Inr b2" and b2: "bi_state b2 = JStr ''ready''" "dget d ''instance'' = JDict (instance_to_dict b2)"
      "ct_registry c' = r2"
    using assms(1,2) b0 u i
    by (cases v) (auto simp: start_allocated_def bind_act_def upsert_act_def registry_op_def with_registry_def Let_def)
  have "map_of (rg_instances r2) (bi_id b1) = Some b2 \<and> same_placement b2 b1"
    using initialize_placed [OF \<open>placed b1 r1\<close>] i v by simp
  then show ?thesis
    using gpu start_instance_spec [OF b0] b2 id1 by (intro exI [of _ b2]) (auto simp: same_placement_def)
qed

text \<open>An allocation that reports a created backend has started it on a listed GPU whose free memory
  covers its reservation after all earlier ones, under a port no other instance has, and the registry
  holds it as ready.\<close>

theorem created_backends_fit_their_gpu:
  assumes "allocate env ae payload c = (c', Inr d)" "dget d ''created'' = JBool True"
  shows "\<exists>gpus g b. gpu_states (se_gpus (ae_step ae)) = Inr gpus \<and> g \<in> set gpus \<and> bi_gpu_ids b = [g_id g] \<and>
     reserved_mb (ct_registry c) (g_id g) + bi_reserved_vram_mb b \<le> g_free_mb g \<and>
     (\<forall>a\<in>set (registry_list (ct_registry c)). bi_host_port b \<noteq> None \<and> bi_host_port a \<noteq> bi_host_port b) \<and>
     map_of (rg_instances (ct_registry c')) (bi_id b) = Some b \<and> bi_state b = JStr ''ready'' \<and>
     dget d ''instance'' = JDict (instance_to_dict b)"
proof -
  obtain p metadata where n: "allocate_new env ae p metadata c = (c', Inr d)"
  proof -
    obtain ps where ps: "profiles env = Inr ps"
      using assms(1) by (auto simp: allocate_def Let_def bind_act_def lift_res_def split: sum.splits if_splits)
    obtain c1 v where v: "resolve_profile env (payload_model payload) (allocation_overrides payload) ps c = (c1, v)" by fastforce
    obtain p dyn where p: "v = Inr (p, dyn)"
      using assms(1) ps v by (cases v) (auto simp: allocate_def Let_def bind_act_def lift_res_def payload_model_def split: if_splits)
    then have c1: "c1 = c"
      using v by (auto simp: resolve_profile_def bind_act_def lift_res_def Let_def split: option.splits sum.splits if_splits)
    have none: "ready_for_model (ct_registry c) (p_public_name p) = []"
      using assms ps v p c1 by (auto simp: allocate_def Let_def bind_act_def lift_res_def payload_model_def split: if_splits)
    obtain q meta where "enrich_profile_from_lmstudio_metadata (ae_listing ae) p dyn payload = Inr (q, meta)"
      using assms(1) ps v p c1 none
      by (cases "enrich_profile_from_lmstudio_metadata (ae_listing ae) p dyn payload")
        (auto simp: allocate_def Let_def bind_act_def lift_res_def payload_model_def split: if_splits)
    with assms(1) ps v p c1 none have "allocate_new env ae q meta c = (c', Inr d)"
      by (auto simp: allocate_def Let_def bind_act_def lift_res_def payload_model_def split: if_splits)
    then show thesis by (rule that)
  qed
  obtain gpus where gpus: "gpu_states (se_gpus (ae_step ae)) = Inr gpus"
    using n by (auto simp: allocate_new_def bind_act_def lift_res_def split: sum.splits)
  let ?d = "choose_gpu p gpus (ct_registry c)"
  have s: "pd_action ?d = ''start'' \<and> start_allocated env ae p metadata ?d gpus c = (c', Inr d)"
    using n assms(2) gpus by (auto simp: allocate_new_def bind_act_def lift_res_def Let_def split: sum.splits if_splits)
  then obtain g where g: "g \<in> set gpus" "pd_gpu_id ?d = Some (g_id g)"
      "reserved_mb (ct_registry c) (g_id g) + required_vram p \<le> g_free_mb g"
    using choose_gpu_start by blast
  obtain b where b: "bi_gpu_ids b = [g_id g]" "bi_reserved_vram_mb b = required_vram p"
     "bi_host_port b = Some (next_host_port (ct_registry c) (p_host_port_start p))"
     "map_of (rg_instances (ct_registry c')) (bi_id b) = Some b" "bi_state b = JStr ''ready''"
     "dget d ''instance'' = JDict (instance_to_dict b)"
    using start_allocated_created [OF conjunct2 [OF s] assms(2) g(2)] by auto
  have "bi_host_port a \<noteq> bi_host_port b" if "a \<in> set (registry_list (ct_registry c))" for a
    using that b(3) free_port_spec [of "p_host_port_start p" "List.map_filter bi_host_port (registry_list (ct_registry c))"]
    by (auto simp: next_host_port_def in_used_ports)
  with gpus g b show ?thesis
    by (intro exI [of _ gpus] exI [of _ g] exI [of _ b] conjI ballI) simp_all
qed

definition lc_vllm :: model_profile where
  "lc_vllm = (lc_profile ''m'' 0)\<lparr>p_public_host := ''host.docker.internal'', p_warmup_enabled := True,
     p_warmup_prompt := ''Return exactly: ok'', p_idle_ttl_seconds := 3600\<rparr>"

definition lc_gpus :: http_reply where
  "lc_gpus = Reply 200 (Inr (JDict [(''gpus'', JList [JDict
     [(''id'', JStr ''gpu0''), (''index'', JInt 0), (''name'', JStr ''card''), (''memory_total_mb'', JInt 24000),
      (''memory_used_mb'', JInt 4000), (''memory_free_mb'', JInt 20000)]])]))"

lemma lc_vllm_loaded:
  "profiles (lc_env\<lparr>ce_dry_run := True, ce_config := Inr (lc_config\<lparr>cfg_models := [(''m'', Some [(''runtime'', JStr ''vllm'')])]\<rparr>)\<rparr>) =
     Inr [(''m'', lc_vllm)]"
proof -
  have "fl 2 = Fin 2" "fl 120 = Fin 120" using fl_of_int_exact [of 2] fl_of_int_exact [of 120] by simp_all
  moreover have "fl 0 = Fin 0" by (simp add: fl_def)
  then have "vram_mb (JInt 0) = Inr 0" by (simp add: vram_mb_def int_of_flt_def rat_trunc_def)
  moreover have "vram_mb (JInt 1) = Inr 1024" using vram_mb_whole [of 1] by simp
  ultimately show ?thesis
    by (simp add: profiles_def lc_config_def load_model_profiles_def model_profile_from_data_def lc_vllm_def lc_profile_def
        mapping_or_empty_def Let_def py_or_def dmerge_def iterate_texts_def optional_int_def optional_str_def
        string_tuple_def volume_mounts_def environment_variables_def json_items_def only_dicts_def List.map_filter_def)
qed

theorem created_backends_fit_their_gpu_witness:
  "\<exists>b c d. allocate (lc_env\<lparr>ce_dry_run := True, ce_config := Inr (lc_config\<lparr>cfg_models := [(''m'', Some [(''runtime'', JStr ''vllm'')])]\<rparr>)\<rparr>)
       (lc_allocate\<lparr>ae_step := lc_step\<lparr>se_gpus := lc_gpus\<rparr>\<rparr>) [(''model'', JStr ''m'')] (lc_controller []) = (c, Inr d) \<and>
     map_of (rg_instances (ct_registry c)) (bi_id b) = Some b \<and> bi_reserved_vram_mb b \<le> 20000"
proof -
  let ?env = "lc_env\<lparr>ce_dry_run := True, ce_config := Inr (lc_config\<lparr>cfg_models := [(''m'', Some [(''runtime'', JStr ''vllm'')])]\<rparr>)\<rparr>"
  let ?ae = "lc_allocate\<lparr>ae_step := lc_step\<lparr>se_gpus := lc_gpus\<rparr>\<rparr>"
  have "p_public_name lc_vllm = ''m''" "p_runtime lc_vllm = ''vllm''" by (simp_all add: lc_vllm_def lc_profile_def)
  moreover have "strip ''m'' = ''m''" by code_simp
  ultimately have a: "allocate ?env ?ae [(''model'', JStr ''m'')] (lc_controller []) = allocate_new ?env ?ae lc_vllm [] (lc_controller [])"
    by (simp add: allocate_def Let_def bind_act_def lift_res_def resolve_profile_def lc_vllm_loaded ready_for_model_def
        enrich_profile_from_lmstudio_metadata_def text_default_def py_or_def)
  have gpus: "gpu_states lc_gpus = Inr [lc_gpu]" by code_simp
  have gid: "g_id lc_gpu = ''gpu0''" by (simp add: lc_gpu_def)
  have choice: "choose_gpu lc_vllm [lc_gpu] (lc_registry []) = placement_on lc_vllm ''start'' (Some ''gpu0'') ''vram_available'' (Some 20000)"
    by code_simp
  have "case snd (allocate_new ?env ?ae lc_vllm [] (lc_controller [])) of Inl _ \<Rightarrow> False | Inr d \<Rightarrow> dget d ''created'' = JBool True"
    using \<open>p_runtime lc_vllm = ''vllm''\<close>
    by (simp add: allocate_new_def bind_act_def lift_res_def should_verify_before_start_def verify_model_available_def gpus choice
        Let_def start_allocated_def start_instance_def required_key_def decision_to_dict_def opt_str_def gpus_by_id_def
        adapter_start_def adapter_for_def new_instance_def upsert_act_def registry_op_def with_registry_def registry_upsert_def
        initialize_instance_def mark_state_def modify_instance_def update_conv' gid lc_env_def lc_allocate_def lc_step_def)
  then obtain c d where d: "allocate ?env ?ae [(''model'', JStr ''m'')] (lc_controller []) = (c, Inr d)" "dget d ''created'' = JBool True"
    using a by (auto split: sum.splits) (metis prod.collapse)
  obtain gpus g b where b: "gpu_states (se_gpus (ae_step ?ae)) = Inr gpus" "g \<in> set gpus"
      "reserved_mb (ct_registry (lc_controller [])) (g_id g) + bi_reserved_vram_mb b \<le> g_free_mb g"
      "map_of (rg_instances (ct_registry c)) (bi_id b) = Some b"
    using created_backends_fit_their_gpu [OF d] by auto
  have "bi_reserved_vram_mb b \<le> 20000" using b(1-3) gpus by (auto simp: lc_gpu_def reserved_mb_def)
  with d b(4) show ?thesis by blast
qed

end
