(* ===== verification/Postgres_Store.thy ===== *)
theory Postgres_Store
  imports Task_Contract Py_Calendar "HOL-Library.Option_ord"
begin

text \<open>
  \<open>PostgresTaskStore\<close> of \<open>queue_proxy/postgres_task_store.py\<close>: the table \<open>llmo_tasks\<close> as a list of
  rows, every statement as a function on it, the conversion of a row to a \<open>StoredTask\<close>, the schema
  version, and the selection of a store by \<open>build_task_store\<close>. A statement runs in a transaction
  of its own that is rolled back when it raises; where the conversion of the returned row comes
  after the commit, the new database is returned together with the exception.

  What belongs to the server and its session is an argument, the record \<open>session\<close>: how a
  TIMESTAMPTZ is shown and read, the collation of the texts, which texts and JSON values the
  column types take and what a JSONB column gives back. That the server accepts the statements
  (it has to infer a type for the parameter of \<open>%s IS NULL\<close>) is taken for granted.
\<close>

section \<open>Column types\<close>

text \<open>A TIMESTAMPTZ is an instant; ORDER BY, MIN and MAX compare instants.\<close>

datatype timestamptz = Timestamptz (instant: int)

instantiation timestamptz :: linorder
begin

definition less_eq_timestamptz :: "timestamptz \<Rightarrow> timestamptz \<Rightarrow> bool" where
  "a \<le> b \<longleftrightarrow> instant a \<le> instant b"

definition less_timestamptz :: "timestamptz \<Rightarrow> timestamptz \<Rightarrow> bool" where
  "a < b \<longleftrightarrow> instant a < instant b"

instance
  by standard (auto simp: less_eq_timestamptz_def less_timestamptz_def intro: timestamptz.expand)

end

record session =
  pg_show :: "timestamptz \<Rightarrow> string"
  pg_read :: "string \<Rightarrow> timestamptz option"
  pg_collation :: "string \<Rightarrow> string"
  pg_text :: "string \<Rightarrow> bool"
  pg_jsonb :: "json \<Rightarrow> json option"
  pg_loads :: "string \<Rightarrow> json res"

definition read_timestamp :: "session \<Rightarrow> string \<Rightarrow> timestamptz res" where
  "read_timestamp env s = (case pg_read env s of None \<Rightarrow> Inl DatabaseError | Some t \<Rightarrow> Inr t)"

definition read_jsonb :: "session \<Rightarrow> dict \<Rightarrow> json res" where
  "read_jsonb env d = (case pg_jsonb env (JDict d) of None \<Rightarrow> Inl DatabaseError | Some v \<Rightarrow> Inr v)"

definition read_int4 :: "int \<Rightarrow> int res" where
  "read_int4 n = (if - 2147483648 \<le> n \<and> n \<le> 2147483647 then Inr n else Inl DatabaseError)"

definition check_texts :: "session \<Rightarrow> string list \<Rightarrow> unit res" where
  "check_texts env ss = (if list_all (pg_text env) ss then Inr () else Inl DatabaseError)"

section \<open>The tables\<close>

record task_row =
  c_task_id :: string
  c_tenant :: string
  c_project :: string
  c_service :: string
  c_task :: string
  c_job_id :: string
  c_idempotency_key :: string
  c_priority :: string
  c_model :: string
  c_endpoint :: string
  c_estimated_input_tokens :: int
  c_max_output_tokens :: int
  c_required_context_tokens :: int
  c_state :: string
  c_payload_json :: json
  c_orchestration_json :: json
  c_artifacts_json :: json
  c_labels_json :: json
  c_created_at :: timestamptz
  c_updated_at :: timestamptz
  c_attempt_count :: int
  c_started_at :: "timestamptz option"
  c_finished_at :: "timestamptz option"
  c_next_attempt_at :: "timestamptz option"
  c_result_json :: "json option"
  c_error_json :: "json option"

record database =
  schema_metadata :: "(string \<times> string) list"
  task_rows :: "task_row list"

section \<open>stored_task_from_row\<close>

definition json_value :: "session \<Rightarrow> json \<Rightarrow> json \<Rightarrow> json res" where
  "json_value env v dflt = (case v of
       JNull \<Rightarrow> Inr dflt
     | JStr s \<Rightarrow> pg_loads env s
     | _ \<Rightarrow> Inr v)"

definition iso_value :: "session \<Rightarrow> timestamptz option \<Rightarrow> json" where
  "iso_value env t = opt_str (map_option (pg_show env) t)"

definition sql_json :: "json option \<Rightarrow> json" where
  "sql_json v = (case v of None \<Rightarrow> JNull | Some j \<Rightarrow> j)"

text \<open>\<open>from_record\<close> calls \<open>now_iso()\<close> only for a missing time, which a NOT NULL column never is; the
  two texts it would use are an argument.\<close>

definition stored_task_from_row :: "session \<Rightarrow> string \<times> string \<Rightarrow> task_row \<Rightarrow> stored_task res" where
  "stored_task_from_row env now r =
     bind_res (json_value env (c_payload_json r) (JDict [])) (\<lambda>payload.
     bind_res (json_value env (c_orchestration_json r) (JDict [])) (\<lambda>orchestration.
     bind_res (json_value env (c_artifacts_json r) (JDict [])) (\<lambda>artifacts.
     bind_res (json_value env (c_labels_json r) (JDict [])) (\<lambda>labels.
     bind_res (json_value env (sql_json (c_result_json r)) JNull) (\<lambda>result.
     bind_res (json_value env (sql_json (c_error_json r)) JNull) (\<lambda>error.
     from_record (fst now) (snd now)
       [(''task_id'', JStr (c_task_id r)),
        (''tenant'', JStr (c_tenant r)),
        (''project'', JStr (c_project r)),
        (''service'', JStr (c_service r)),
        (''task'', JStr (c_task r)),
        (''job_id'', JStr (c_job_id r)),
        (''idempotency_key'', JStr (c_idempotency_key r)),
        (''priority'', JStr (c_priority r)),
        (''model'', JStr (c_model r)),
        (''endpoint'', JStr (c_endpoint r)),
        (''estimated_input_tokens'', JInt (c_estimated_input_tokens r)),
        (''max_output_tokens'', JInt (c_max_output_tokens r)),
        (''required_context_tokens'', JInt (c_required_context_tokens r)),
        (''state'', py_or (JStr (c_state r)) (JStr ''queued'')),
        (''payload'', payload),
        (''orchestration'', orchestration),
        (''artifacts'', artifacts),
        (''labels'', labels),
        (''created_at'', iso_value env (Some (c_created_at r))),
        (''updated_at'', iso_value env (Some (c_updated_at r))),
        (''attempt_count'', JInt (c_attempt_count r)),
        (''started_at'', iso_value env (c_started_at r)),
        (''finished_at'', iso_value env (c_finished_at r)),
        (''next_attempt_at'', iso_value env (c_next_attempt_at r)),
        (''result'', result),
        (''error'', error)]))))))"

text \<open>\<open>stored_task_from_row(row) if row is not None else None\<close>.\<close>

definition optional_row :: "session \<Rightarrow> string \<times> string \<Rightarrow> task_row option \<Rightarrow> stored_task option res" where
  "optional_row env now r = (case r of
       None \<Rightarrow> Inr None
     | Some x \<Rightarrow> bind_res (stored_task_from_row env now x) (\<lambda>t. Inr (Some t)))"

section \<open>Submission\<close>

definition pg_key :: "task_row \<Rightarrow> string \<times> string" where
  "pg_key r = (c_tenant r, c_idempotency_key r)"

text \<open>The row an INSERT builds; every value is converted before the conflict is looked for.\<close>

definition new_row :: "session \<Rightarrow> string \<Rightarrow> string \<Rightarrow> queue_task \<Rightarrow> task_row res" where
  "new_row env uuid now q =
     bind_res (check_texts env [''task_'' @ uuid, t_tenant q, t_project q, t_service q, t_task q, t_job_id q,
        t_idempotency_key q, t_priority q, t_model q, t_endpoint q]) (\<lambda>_.
     bind_res (read_int4 (t_estimated_input_tokens q)) (\<lambda>estimated.
     bind_res (read_int4 (t_max_output_tokens q)) (\<lambda>output.
     bind_res (read_int4 (t_required_context_tokens q)) (\<lambda>required.
     bind_res (read_jsonb env (t_payload q)) (\<lambda>payload.
     bind_res (read_jsonb env (t_orchestration q)) (\<lambda>orchestration.
     bind_res (read_jsonb env (t_artifacts q)) (\<lambda>artifacts.
     bind_res (read_jsonb env (t_labels q)) (\<lambda>labels.
     bind_res (read_timestamp env now) (\<lambda>instant_now.
     Inr \<lparr>c_task_id = ''task_'' @ uuid, c_tenant = t_tenant q, c_project = t_project q,
       c_service = t_service q, c_task = t_task q, c_job_id = t_job_id q,
       c_idempotency_key = t_idempotency_key q, c_priority = t_priority q, c_model = t_model q,
       c_endpoint = t_endpoint q, c_estimated_input_tokens = estimated, c_max_output_tokens = output,
       c_required_context_tokens = required, c_state = ''queued'', c_payload_json = payload,
       c_orchestration_json = orchestration, c_artifacts_json = artifacts, c_labels_json = labels,
       c_created_at = instant_now, c_updated_at = instant_now, c_attempt_count = 0, c_started_at = None,
       c_finished_at = None, c_next_attempt_at = None, c_result_json = None, c_error_json = None\<rparr>)))))))))"

text \<open>\<open>ON CONFLICT (tenant, idempotency_key) DO NOTHING\<close> returns no row; a task identifier already
  in the table violates the primary key.\<close>

definition insert_task ::
  "session \<Rightarrow> string \<times> string \<Rightarrow> string \<Rightarrow> string \<Rightarrow> queue_task \<Rightarrow> task_row list \<Rightarrow>
     (task_row list \<times> stored_task option) res" where
  "insert_task env clock uuid now q rows =
     bind_res (new_row env uuid now q) (\<lambda>r.
     if list_ex (\<lambda>x. pg_key x = pg_key r) rows then Inr (rows, None)
     else if list_ex (\<lambda>x. c_task_id x = c_task_id r) rows then Inl DatabaseError
     else bind_res (stored_task_from_row env clock r) (\<lambda>t. Inr (rows @ [r], Some t)))"

fun pg_submit_loop ::
  "session \<Rightarrow> string \<times> string \<Rightarrow> (nat \<Rightarrow> string \<times> string) \<Rightarrow> nat \<Rightarrow> queue_task list \<Rightarrow> task_row list \<Rightarrow>
     (task_row list \<times> stored_task list \<times> stored_task list) res" where
  "pg_submit_loop env clock supply i [] rows = Inr (rows, [], [])"
| "pg_submit_loop env clock supply i (q # qs) rows =
     bind_res (insert_task env clock (fst (supply i)) (snd (supply i)) q rows) (\<lambda>(rows', stored). case stored of
       Some t \<Rightarrow> bind_res (pg_submit_loop env clock supply (Suc i) qs rows')
         (\<lambda>(rows'', acc, reu). Inr (rows'', t # acc, reu))
     | None \<Rightarrow> bind_res (optional_row env clock (List.find (\<lambda>x. pg_key x = (t_tenant q, t_idempotency_key q)) rows'))
         (\<lambda>known. bind_res (pg_submit_loop env clock supply (Suc i) qs rows')
         (\<lambda>(rows'', acc, reu). Inr (rows'', acc, (case known of None \<Rightarrow> reu | Some t \<Rightarrow> t # reu)))))"

definition pg_submit_many ::
  "session \<Rightarrow> string \<times> string \<Rightarrow> (nat \<Rightarrow> string \<times> string) \<Rightarrow> queue_task list \<Rightarrow> database \<Rightarrow>
     (database \<times> stored_task list \<times> stored_task list) res" where
  "pg_submit_many env clock supply qs db =
     bind_res (pg_submit_loop env clock supply 0 qs (task_rows db)) (\<lambda>(rows, acc, reu).
     Inr (db\<lparr>task_rows := rows\<rparr>, acc, reu))"

section \<open>Queries\<close>

definition group_count :: "('a \<Rightarrow> 'k) \<Rightarrow> 'a list \<Rightarrow> ('k \<times> int) list" where
  "group_count key xs = map (\<lambda>k. (k, int (length (filter (\<lambda>x. key x = k) xs)))) (remdups (map key xs))"

definition pg_queue_lengths :: "database \<Rightarrow> (string \<times> int) list" where
  "pg_queue_lengths db = group_count c_model (filter (\<lambda>r. c_state r \<in> ACTIVE_STATES) (task_rows db))"

definition pg_context_plans :: "session \<Rightarrow> string \<times> string \<Rightarrow> database \<Rightarrow> (string \<times> dict) list res" where
  "pg_context_plans env clock db =
     bind_res (map_res (stored_task_from_row env clock)
       (sort_key (\<lambda>r. (pg_collation env (c_model r), c_created_at r, pg_collation env (c_task_id r)))
         (filter (\<lambda>r. c_state r \<in> ACTIVE_STATES) (task_rows db)))) (\<lambda>ts.
     plans_per_model (group_by t_model ts))"

definition pg_task_counts_by_state ::
  "database \<Rightarrow> ((string \<times> string \<times> string \<times> string \<times> string \<times> string) \<times> int) list" where
  "pg_task_counts_by_state db =
     group_count (\<lambda>r. (c_tenant r, c_project r, c_service r, c_task r, c_model r, c_state r)) (task_rows db)"

definition pg_get_task :: "session \<Rightarrow> string \<times> string \<Rightarrow> string \<Rightarrow> string \<Rightarrow> database \<Rightarrow> stored_task option res" where
  "pg_get_task env clock tenant i db =
     bind_res (check_texts env [tenant, i]) (\<lambda>_.
     optional_row env clock (List.find (\<lambda>r. c_tenant r = tenant \<and> c_task_id r = i) (task_rows db)))"

definition pg_list_tasks ::
  "session \<Rightarrow> string \<times> string \<Rightarrow> string \<Rightarrow> string option \<Rightarrow> string option \<Rightarrow> int \<Rightarrow> database \<Rightarrow> stored_task list res" where
  "pg_list_tasks env clock tenant state model limit db =
     bind_res (check_texts env ([tenant] @ (case state of None \<Rightarrow> [] | Some s \<Rightarrow> [s]) @
        (case model of None \<Rightarrow> [] | Some m \<Rightarrow> [m]))) (\<lambda>_.
     if 9223372036854775807 < max 1 limit then Inl DatabaseError
     else map_res (stored_task_from_row env clock) (take (nat (max 1 limit))
       (sort_key (\<lambda>r. (c_created_at r, pg_collation env (c_task_id r)))
         (filter (\<lambda>r. c_tenant r = tenant \<and> (state = None \<or> Some (c_state r) = state) \<and>
            (model = None \<or> Some (c_model r) = model)) (task_rows db)))))"

section \<open>Claiming\<close>

definition runnable :: "string option \<Rightarrow> timestamptz \<Rightarrow> task_row \<Rightarrow> bool" where
  "runnable model now r \<longleftrightarrow> c_state r \<in> CLAIMABLE_STATES \<and> (model = None \<or> Some (c_model r) = model) \<and>
     (case c_next_attempt_at r of None \<Rightarrow> True | Some d \<Rightarrow> d \<le> now)"

definition group_columns :: "task_row \<Rightarrow> string list" where
  "group_columns r = [c_tenant r, c_project r, c_service r, c_task r, c_priority r, c_model r]"

record group_score =
  gs_columns :: "string list"
  gs_oldest_runnable_at :: timestamptz
  gs_last_claimed_at :: "timestamptz option"

definition last_claimed_at :: "task_row list \<Rightarrow> string list \<Rightarrow> timestamptz option" where
  "last_claimed_at rows g =
     (let served = filter (\<lambda>r. group_columns r = g \<and> 0 < c_attempt_count r) rows in
      if served = [] then None else Some (Max (set (map c_updated_at served))))"

definition group_scores :: "task_row list \<Rightarrow> task_row list \<Rightarrow> group_score list" where
  "group_scores candidates rows = map (\<lambda>g.
     \<lparr>gs_columns = g,
      gs_oldest_runnable_at = Min (set (map c_created_at (filter (\<lambda>r. group_columns r = g) candidates))),
      gs_last_claimed_at = last_claimed_at rows g\<rparr>) (remdups (map group_columns candidates))"

text \<open>\<open>ORDER BY ... LIMIT 1\<close>.\<close>

definition first_by :: "('a \<Rightarrow> 'k :: linorder) \<Rightarrow> 'a list \<Rightarrow> 'a option" where
  "first_by key xs = (case sort_key key xs of [] \<Rightarrow> None | x # _ \<Rightarrow> Some x)"

text \<open>\<open>NULLS FIRST\<close> is the order of the type \<open>option\<close>.\<close>

definition group_order ::
  "session \<Rightarrow> group_score \<Rightarrow> bool \<times> timestamptz option \<times> timestamptz \<times> string list" where
  "group_order env g = (gs_last_claimed_at g \<noteq> None, gs_last_claimed_at g, gs_oldest_runnable_at g,
     map (pg_collation env) (gs_columns g))"

text \<open>The rows locked by other transactions are skipped when the task is picked, after the group
  has been chosen.\<close>

definition next_task :: "session \<Rightarrow> string set \<Rightarrow> string option \<Rightarrow> timestamptz \<Rightarrow> task_row list \<Rightarrow> task_row option" where
  "next_task env locked model now rows =
     (let candidates = filter (runnable model now) rows in
      case first_by (group_order env) (group_scores candidates rows) of
        None \<Rightarrow> None
      | Some g \<Rightarrow> first_by (\<lambda>r. (c_created_at r, pg_collation env (c_task_id r)))
          (filter (\<lambda>r. group_columns r = gs_columns g \<and> c_task_id r \<notin> locked) candidates))"

definition claimed_row :: "timestamptz \<Rightarrow> task_row \<Rightarrow> task_row res" where
  "claimed_row now r = bind_res (read_int4 (c_attempt_count r + 1)) (\<lambda>attempts.
     Inr (r\<lparr>c_state := ''running'', c_started_at := Some (case c_started_at r of None \<Rightarrow> now | Some t \<Rightarrow> t),
       c_attempt_count := attempts, c_next_attempt_at := None, c_updated_at := now\<rparr>))"

text \<open>\<open>UPDATE ... WHERE p RETURNING\<close> on at most one row: the new rows and the row returned.\<close>

definition update_row ::
  "(task_row \<Rightarrow> bool) \<Rightarrow> (task_row \<Rightarrow> task_row) \<Rightarrow> database \<Rightarrow> database \<times> task_row option" where
  "update_row p f db = (db\<lparr>task_rows := map (\<lambda>r. if p r then f r else r) (task_rows db)\<rparr>,
     map_option f (List.find p (task_rows db)))"

definition pg_claim_next ::
  "session \<Rightarrow> string \<times> string \<Rightarrow> string set \<Rightarrow> string \<Rightarrow> string option \<Rightarrow> database \<Rightarrow> database \<times> stored_task option res" where
  "pg_claim_next env clock locked now model db =
     (case bind_res (check_texts env (case model of None \<Rightarrow> [] | Some m \<Rightarrow> [m])) (\<lambda>_.
           bind_res (read_timestamp env now) (\<lambda>instant_now.
           case next_task env locked model instant_now (task_rows db) of
             None \<Rightarrow> Inr (db, None)
           | Some r \<Rightarrow> bind_res (claimed_row instant_now r) (\<lambda>r'.
               Inr (update_row (\<lambda>x. c_task_id x = c_task_id r) (\<lambda>_. r') db)))) of
        Inl e \<Rightarrow> (db, Inl e)
      | Inr (db', row) \<Rightarrow> (db', optional_row env clock row))"

section \<open>Recording\<close>

text \<open>\<open>if row is None: raise KeyError(task_id)\<close> after the commit.\<close>

definition returned_task ::
  "session \<Rightarrow> string \<times> string \<Rightarrow> string \<Rightarrow> database \<times> task_row option \<Rightarrow> database \<times> stored_task res" where
  "returned_task env clock i p = (case p of
       (db, None) \<Rightarrow> (db, Inl (KeyError i))
     | (db, Some r) \<Rightarrow> (db, stored_task_from_row env clock r))"

definition pg_record ::
  "session \<Rightarrow> string \<times> string \<Rightarrow> string \<Rightarrow> string \<Rightarrow> (timestamptz \<Rightarrow> (task_row \<Rightarrow> task_row) res) \<Rightarrow> database \<Rightarrow>
     database \<times> stored_task res" where
  "pg_record env clock i now change db =
     (case bind_res (check_texts env [i]) (\<lambda>_. bind_res (read_timestamp env now) change) of
        Inl e \<Rightarrow> (db, Inl e)
      | Inr f \<Rightarrow> returned_task env clock i (update_row (\<lambda>r. c_task_id r = i) f db))"

definition pg_record_result ::
  "session \<Rightarrow> string \<times> string \<Rightarrow> string \<Rightarrow> string \<Rightarrow> dict \<Rightarrow> database \<Rightarrow> database \<times> stored_task res" where
  "pg_record_result env clock now i d db = pg_record env clock i now (\<lambda>instant_now.
     bind_res (read_jsonb env d) (\<lambda>v.
     Inr (\<lambda>r. r\<lparr>c_state := ''succeeded'', c_result_json := Some v, c_error_json := None,
       c_next_attempt_at := None, c_finished_at := Some instant_now, c_updated_at := instant_now\<rparr>))) db"

definition pg_record_error ::
  "session \<Rightarrow> string \<times> string \<Rightarrow> string \<Rightarrow> string \<Rightarrow> dict \<Rightarrow> database \<Rightarrow> database \<times> stored_task res" where
  "pg_record_error env clock now i d db = pg_record env clock i now (\<lambda>instant_now.
     bind_res (read_jsonb env d) (\<lambda>v.
     Inr (\<lambda>r. r\<lparr>c_state := ''failed'', c_error_json := Some v, c_next_attempt_at := None,
       c_finished_at := Some instant_now, c_updated_at := instant_now\<rparr>))) db"

definition pg_record_retry ::
  "session \<Rightarrow> string \<times> string \<Rightarrow> string \<Rightarrow> string \<Rightarrow> dict \<Rightarrow> string \<Rightarrow> database \<Rightarrow> database \<times> stored_task res" where
  "pg_record_retry env clock now i d next_at db = pg_record env clock i now (\<lambda>instant_now.
     bind_res (read_jsonb env d) (\<lambda>v.
     bind_res (read_timestamp env next_at) (\<lambda>next.
     Inr (\<lambda>r. r\<lparr>c_state := ''queued'', c_error_json := Some v, c_next_attempt_at := Some next,
       c_updated_at := instant_now\<rparr>)))) db"

definition pg_cancel_task ::
  "session \<Rightarrow> string \<times> string \<Rightarrow> string \<Rightarrow> string \<Rightarrow> string \<Rightarrow> database \<Rightarrow> database \<times> stored_task option res" where
  "pg_cancel_task env clock now tenant i db =
     (case bind_res (check_texts env [tenant, i]) (\<lambda>_. read_timestamp env now) of
        Inl e \<Rightarrow> (db, Inl e)
      | Inr instant_now \<Rightarrow>
          (case update_row (\<lambda>r. c_tenant r = tenant \<and> c_task_id r = i \<and> c_state r \<notin> terminal_states)
              (\<lambda>r. r\<lparr>c_state := ''cancelled'', c_finished_at := Some (case c_finished_at r of None \<Rightarrow> instant_now | Some t \<Rightarrow> t),
                 c_next_attempt_at := None, c_updated_at := instant_now\<rparr>) db of
             (db', Some r) \<Rightarrow> (db', optional_row env clock (Some r))
           | (db', None) \<Rightarrow>
               (db', optional_row env clock
                  (List.find (\<lambda>r. c_tenant r = tenant \<and> c_task_id r = i) (task_rows db')))))"

section \<open>The schema\<close>

definition TASK_STORE_SCHEMA_KEY :: string where "TASK_STORE_SCHEMA_KEY = ''task_store_schema_version''"

definition TASK_STORE_SCHEMA_VERSION :: int where "TASK_STORE_SCHEMA_VERSION = 2"

definition read_schema_version :: "database \<Rightarrow> int option res" where
  "read_schema_version db = (case map_of (schema_metadata db) TASK_STORE_SCHEMA_KEY of
       None \<Rightarrow> Inr None
     | Some v \<Rightarrow> (case py_int (JStr v) of
           Inr n \<Rightarrow> Inr (Some n)
         | Inl _ \<Rightarrow> Inl (RuntimeError (''Invalid Postgres task store schema version: '' @ repr_str v @ ''.''))))"

definition write_schema_version :: "int \<Rightarrow> database \<Rightarrow> database" where
  "write_schema_version version db =
     db\<lparr>schema_metadata := AList.update TASK_STORE_SCHEMA_KEY (str_int version) (schema_metadata db)\<rparr>"

text \<open>The tables, columns and indexes are created only where they are missing, so they do not show
  in the state.\<close>

definition ensure_schema :: "database \<Rightarrow> database res" where
  "ensure_schema db = bind_res (read_schema_version db) (\<lambda>current.
     case current of
       Some v \<Rightarrow> if TASK_STORE_SCHEMA_VERSION < v
         then Inl (RuntimeError (''Postgres task store schema is newer than this code: database='' @ str_int v @
           '', code='' @ str_int TASK_STORE_SCHEMA_VERSION @ ''.''))
         else Inr (write_schema_version TASK_STORE_SCHEMA_VERSION db)
     | None \<Rightarrow> Inr (write_schema_version TASK_STORE_SCHEMA_VERSION db))"

definition open_postgres_store :: "string \<Rightarrow> bool \<Rightarrow> database \<Rightarrow> database res" where
  "open_postgres_store dsn ensure db =
     (if dsn = [] then Inl (ValueError ''PostgresTaskStore requires a DSN.'')
      else if ensure then ensure_schema db else Inr db)"

section \<open>build_task_store\<close>

datatype store_choice = PostgresStore string | JsonFileStore string | InMemoryStore

definition build_task_store :: "string option \<Rightarrow> string option \<Rightarrow> string option \<Rightarrow> store_choice" where
  "build_task_store path backend dsn =
     (let selected_backend = py_lower (strip (case backend of None \<Rightarrow> [] | Some b \<Rightarrow> b));
          given = (\<lambda>x. x \<noteq> None \<and> x \<noteq> Some []) in
      if selected_backend \<in> {''postgres'', ''postgresql''} \<or> given dsn
      then PostgresStore (if given dsn then the dsn else if given path then the path else [])
      else if given path then JsonFileStore (the path)
      else InMemoryStore)"

end
