(* ===== verification/Postgres_Refinement.thy ===== *)
theory Postgres_Refinement
  imports Postgres_Store
begin

text \<open>
  The PostgreSQL store implements the in-memory store: a table represents a store when its rows,
  read as tasks, are the tasks of the store, and every statement then agrees with the method of
  \<open>InMemoryTaskStore\<close>. The session shows times in UTC and compares texts by code points.
\<close>

section \<open>Rows as tasks\<close>

definition dict_of :: "json \<Rightarrow> dict" where
  "dict_of v = (case v of JDict d \<Rightarrow> d | _ \<Rightarrow> [])"

definition iso_text_of :: "timestamptz \<Rightarrow> string" where
  "iso_text_of t = iso_format (instant t)"

definition task_of_row :: "task_row \<Rightarrow> stored_task" where
  "task_of_row r = \<lparr>t_tenant = c_tenant r, t_project = c_project r, t_service = c_service r, t_task = c_task r,
     t_job_id = c_job_id r, t_idempotency_key = c_idempotency_key r, t_priority = c_priority r,
     t_model = c_model r, t_endpoint = c_endpoint r, t_estimated_input_tokens = c_estimated_input_tokens r,
     t_max_output_tokens = c_max_output_tokens r, t_required_context_tokens = c_required_context_tokens r,
     t_payload = dict_of (c_payload_json r), t_orchestration = dict_of (c_orchestration_json r),
     t_artifacts = dict_of (c_artifacts_json r), t_labels = dict_of (c_labels_json r),
     t_task_id = c_task_id r, t_state = c_state r, t_created_at = iso_text_of (c_created_at r),
     t_updated_at = iso_text_of (c_updated_at r), t_attempt_count = c_attempt_count r,
     t_started_at = map_option iso_text_of (c_started_at r),
     t_finished_at = map_option iso_text_of (c_finished_at r),
     t_next_attempt_at = map_option iso_text_of (c_next_attempt_at r),
     t_result = map_option dict_of (c_result_json r), t_error = map_option dict_of (c_error_json r)\<rparr>"

definition in_calendar :: "timestamptz \<Rightarrow> bool" where
  "in_calendar t \<longleftrightarrow> 0 \<le> instant t \<and> instant t < max_instant"

definition is_object :: "json \<Rightarrow> bool" where
  "is_object v \<longleftrightarrow> (case v of JDict _ \<Rightarrow> True | _ \<Rightarrow> False)"

definition row_ok :: "task_row \<Rightarrow> bool" where
  "row_ok r \<longleftrightarrow> wf_task (task_of_row r) \<and>
     list_all is_object [c_payload_json r, c_orchestration_json r, c_artifacts_json r, c_labels_json r] \<and>
     pred_option is_object (c_result_json r) \<and> pred_option is_object (c_error_json r) \<and>
     in_calendar (c_created_at r) \<and> in_calendar (c_updated_at r) \<and>
     pred_option in_calendar (c_started_at r) \<and> pred_option in_calendar (c_finished_at r) \<and>
     pred_option in_calendar (c_next_attempt_at r)"

text \<open>The session the refinement is about.\<close>

definition utc_session :: "session \<Rightarrow> bool" where
  "utc_session env \<longleftrightarrow> (\<forall>t. in_calendar t \<longrightarrow>
     pg_show env t = iso_text_of t \<and> pg_read env (iso_text_of t) = Some t) \<and> (\<forall>s. pg_collation env s = s)"

lemma is_objectE: "is_object v \<Longrightarrow> v = JDict (dict_of v)"
  by (cases v) (simp_all add: is_object_def dict_of_def)

lemma json_value_object: "is_object v \<Longrightarrow> json_value env v d = Inr (JDict (dict_of v))"
  by (cases v) (simp_all add: is_object_def dict_of_def json_value_def)

lemma json_value_optional:
  "pred_option is_object v \<Longrightarrow> json_value env (sql_json v) JNull = Inr (opt_dict (map_option dict_of v))"
  by (cases v) (simp_all add: sql_json_def opt_dict_def json_value_object, simp add: json_value_def)

lemma iso_value_shown:
  "utc_session env \<Longrightarrow> pred_option in_calendar t \<Longrightarrow> iso_value env t = opt_str (map_option iso_text_of t)"
  by (cases t) (simp_all add: iso_value_def utc_session_def)

lemma stored_task_from_row_ok:
  assumes "utc_session env" "row_ok r"
  shows "stored_task_from_row env now r = Inr (task_of_row r)"
proof -
  have state: "py_or (JStr (c_state r)) (JStr ''queued'') = JStr (c_state r)"
    using assms(2) by (simp add: row_ok_def wf_task_def task_of_row_def clean_string_def py_or_def)
  have "stored_task_from_row env now r = from_record (fst now) (snd now) (to_record (task_of_row r))"
    unfolding stored_task_from_row_def to_record_def state using assms
    by (simp add: row_ok_def json_value_object json_value_optional iso_value_shown)
      (simp add: task_of_row_def opt_str_def)
  then show ?thesis using assms(2) by (simp add: from_to_record row_ok_def)
qed

lemma task_of_row_simps [simp]:
  "t_tenant (task_of_row r) = c_tenant r" "t_task_id (task_of_row r) = c_task_id r"
  "t_model (task_of_row r) = c_model r" "t_state (task_of_row r) = c_state r"
  "t_attempt_count (task_of_row r) = c_attempt_count r"
  "t_created_at (task_of_row r) = iso_text_of (c_created_at r)"
  "t_updated_at (task_of_row r) = iso_text_of (c_updated_at r)"
  "t_next_attempt_at (task_of_row r) = map_option iso_text_of (c_next_attempt_at r)"
  "t_finished_at (task_of_row r) = map_option iso_text_of (c_finished_at r)"
  "fairness_group_key (task_of_row r) = group_columns r"
  "idem_key (task_of_row r) = pg_key r"
  by (simp_all add: task_of_row_def fairness_group_key_def group_columns_def idem_key_def pg_key_def)

lemma iso_text_of_le: "in_calendar a \<Longrightarrow> in_calendar b \<Longrightarrow> iso_text_of a \<le> iso_text_of b \<longleftrightarrow> a \<le> b"
  by (simp add: iso_text_of_def in_calendar_def iso_format_le_iff less_eq_timestamptz_def)

lemma iso_text_of_eq: "in_calendar a \<Longrightarrow> in_calendar b \<Longrightarrow> iso_text_of a = iso_text_of b \<longleftrightarrow> a = b"
  using iso_text_of_le [of a b] iso_text_of_le [of b a] by (auto simp: order_eq_iff)

lemma iso_text_of_less: "in_calendar a \<Longrightarrow> in_calendar b \<Longrightarrow> iso_text_of a < iso_text_of b \<longleftrightarrow> a < b"
  using iso_text_of_le [of b a] by (auto simp: not_le [symmetric])

lemma parse_iso_text_of: "in_calendar t \<Longrightarrow> parse_iso_datetime (iso_text_of t) = Inr (instant t)"
  by (simp add: iso_text_of_def in_calendar_def parse_iso_format)

section \<open>The same task is claimed\<close>

lemma claimable_runnable:
  assumes "row_ok r"
  shows "is_task_claimable (task_of_row r) (instant now) m = Inr (runnable m now r)"
  using assms
  by (auto simp: is_task_claimable_def runnable_def row_ok_def parse_iso_text_of less_eq_timestamptz_def
      split: option.splits)

lemma sort_key_hd:
  assumes "xs \<noteq> []"
  shows "\<exists>x ys. sort_key f xs = x # ys \<and> x \<in> set xs \<and> (\<forall>y\<in>set xs. f x \<le> f y)"
proof -
  obtain x ys where s: "sort_key f xs = x # ys"
    using assms by (cases "sort_key f xs") (metis length_0_conv length_sort, blast)
  have "sorted (map f (x # ys))" "set (x # ys) = set xs" unfolding s [symmetric] by simp_all
  with s show ?thesis by (intro exI [of _ x] exI [of _ ys]) auto
qed

lemma first_by_None [simp]: "first_by f xs = None \<longleftrightarrow> xs = []"
  by (cases "sort_key f xs") (auto simp: first_by_def simp flip: length_0_conv [of xs] length_sort [of f xs]
      split: list.splits)

lemma first_by_Nil [simp]: "first_by f [] = None"
  by (simp add: first_by_def)

lemma first_by_Some: "first_by f xs = Some x \<Longrightarrow> x \<in> set xs \<and> (\<forall>y\<in>set xs. f x \<le> f y)"
  using sort_key_hd [of xs f] by (cases "xs = []") (auto simp: first_by_def)

text \<open>Two orders that agree on a set and separate its elements have the same least element.\<close>

lemma least_unique:
  fixes f :: "'a \<Rightarrow> 'b :: linorder" and g :: "'a \<Rightarrow> 'c :: linorder"
  assumes "x \<in> S" "\<forall>z\<in>S. f x \<le> f z" "y \<in> S" "\<forall>z\<in>S. g y \<le> g z"
    and "f x \<le> f y \<longleftrightarrow> g x \<le> g y" "inj_on g S"
  shows "x = y"
proof -
  have "g x \<le> g y" "g y \<le> g x" using assms by auto
  then show ?thesis using assms(1,3,6) by (auto dest: inj_onD)
qed

text \<open>The two ranks of a group: the latest claim and the oldest candidate.\<close>

lemma last_claimed_agrees:
  assumes "\<forall>r\<in>set rows. row_ok r"
  shows "map_of (last_claimed_by_group (map task_of_row rows)) g = map_option iso_text_of (last_claimed_at rows g)"
proof (cases "map_of (last_claimed_by_group (map task_of_row rows)) g")
  case None
  then have "\<forall>r\<in>set rows. group_columns r = g \<longrightarrow> c_attempt_count r \<le> 0"
    by (fastforce simp: last_claimed_by_group_None)
  then have "filter (\<lambda>r. group_columns r = g \<and> 0 < c_attempt_count r) rows = []"
    by (auto simp: filter_empty_conv)
  with None show ?thesis by (simp add: last_claimed_at_def Let_def)
next
  case (Some u)
  define served where "served = filter (\<lambda>r. group_columns r = g \<and> 0 < c_attempt_count r) rows"
  from last_claimed_by_group_source [OF Some] obtain r where
    r: "r \<in> set rows" "c_attempt_count r \<ge> 1" "group_columns r = g" "iso_text_of (c_updated_at r) = u"
    by auto
  have max: "c_updated_at x \<le> c_updated_at r" if "x \<in> set served" for x
  proof -
    have x: "x \<in> set rows" "group_columns x = g" "c_attempt_count x \<ge> 1" using that by (auto simp: served_def)
    then have "iso_text_of (c_updated_at x) \<le> u"
      using last_claimed_by_group_bound [of "task_of_row x" "map task_of_row rows"] Some by auto
    then show ?thesis using x(1) r(1,4) assms by (auto simp: iso_text_of_le row_ok_def)
  qed
  have "r \<in> set served" using r by (simp add: served_def)
  then have "Max (set (map c_updated_at served)) = c_updated_at r" "served \<noteq> []"
    using max by (auto intro!: Max_eqI)
  then have "last_claimed_at rows g = Some (c_updated_at r)"
    by (simp add: last_claimed_at_def Let_def flip: served_def)
  with Some r(4) show ?thesis by simp
qed

lemma last_claimed_in_calendar:
  assumes "\<forall>r\<in>set rows. row_ok r" "last_claimed_at rows g = Some u"
  shows "in_calendar u"
proof -
  define served where "served = filter (\<lambda>r. group_columns r = g \<and> 0 < c_attempt_count r) rows"
  have "u = Max (set (map c_updated_at served))" "served \<noteq> []"
    using assms(2) by (auto simp: last_claimed_at_def Let_def served_def split: if_splits)
  then have "u \<in> set (map c_updated_at served)" by (metis Max_in finite_set map_is_Nil_conv set_empty)
  then show ?thesis using assms(1) by (auto simp: served_def row_ok_def)
qed

definition oldest_at :: "task_row list \<Rightarrow> string list \<Rightarrow> timestamptz" where
  "oldest_at candidates g = Min (set (map c_created_at (filter (\<lambda>r. group_columns r = g) candidates)))"

lemma oldest_agrees:
  assumes "\<forall>r\<in>set cs. row_ok r" "\<exists>r\<in>set cs. group_columns r = g"
  shows "t_created_at (arg_min_list t_created_at (map task_of_row (filter (\<lambda>r. group_columns r = g) cs))) =
      iso_text_of (oldest_at cs g)" and "in_calendar (oldest_at cs g)"
proof -
  define xs where "xs = filter (\<lambda>r. group_columns r = g) cs"
  have ne: "xs \<noteq> []" using assms(2) by (auto simp: xs_def filter_empty_conv)
  have "arg_min_list t_created_at (map task_of_row xs) \<in> set (map task_of_row xs)"
    using ne by (intro arg_min_list_in) simp
  then obtain r where r: "r \<in> set xs" "arg_min_list t_created_at (map task_of_row xs) = task_of_row r" by auto
  have "c_created_at r \<le> c_created_at x" if "x \<in> set xs" for x
  proof -
    have "t_created_at (task_of_row r) \<le> t_created_at (task_of_row x)"
      using arg_min_list_le [of "task_of_row x" "map task_of_row xs" t_created_at] that r(2) by simp
    then show ?thesis using that r(1) assms(1) by (auto simp: xs_def iso_text_of_le row_ok_def)
  qed
  then have min: "oldest_at cs g = c_created_at r"
    unfolding oldest_at_def using r(1) by (intro Min_eqI) (auto simp: xs_def)
  then show "t_created_at (arg_min_list t_created_at (map task_of_row (filter (\<lambda>r. group_columns r = g) cs))) =
      iso_text_of (oldest_at cs g)"
    using r(2) by (simp add: xs_def)
  show "in_calendar (oldest_at cs g)" using min r(1) assms(1) by (auto simp: xs_def row_ok_def)
qed

text \<open>The rank of a group in SQL and in Python order the groups alike.\<close>

definition sql_rank :: "task_row list \<Rightarrow> task_row list \<Rightarrow> string list \<Rightarrow> bool \<times> timestamptz option \<times> timestamptz \<times> string list" where
  "sql_rank cs rows g = (last_claimed_at rows g \<noteq> None, last_claimed_at rows g, oldest_at cs g, g)"

lemma rank_agrees:
  assumes rows: "\<forall>r\<in>set rows. row_ok r" and cs: "\<forall>r\<in>set cs. row_ok r"
    and g: "g \<in> group_columns ` set cs" and h: "h \<in> group_columns ` set cs"
  defines "rank \<equiv> group_sort_key (group_by fairness_group_key (map task_of_row cs))
      (last_claimed_by_group (map task_of_row rows))"
  shows "rank g \<le> rank h \<longleftrightarrow> sql_rank cs rows g \<le> sql_rank cs rows h"
proof -
  have rank: "rank k = (last_claimed_at rows k \<noteq> None,
      (case last_claimed_at rows k of None \<Rightarrow> [] | Some u \<Rightarrow> iso_text_of u), iso_text_of (oldest_at cs k), k)"
    if "k \<in> group_columns ` set cs" for k
  proof -
    have "map_of (group_by fairness_group_key (map task_of_row cs)) k =
        Some (map task_of_row (filter (\<lambda>r. group_columns r = k) cs))"
      using that by (auto simp: map_of_group_by filter_map o_def)
    then show ?thesis
      using that oldest_agrees(1) [OF cs, of k] last_claimed_agrees [OF rows, of k]
      by (auto simp: rank_def group_sort_key_def split: option.splits)
  qed
  have cal: "in_calendar (oldest_at cs g)" "in_calendar (oldest_at cs h)"
    using g h oldest_agrees(2) [OF cs] by auto
  have last: "last_claimed_at rows k = Some u \<Longrightarrow> in_calendar u" for k u
    using last_claimed_in_calendar [OF rows] .
  show ?thesis
    unfolding rank [OF g] rank [OF h] sql_rank_def
    using iso_text_of_le [OF cal] iso_text_of_less [OF cal] last [of g] last [of h]
    by (cases "last_claimed_at rows g"; cases "last_claimed_at rows h")
      (auto simp: less_eq_prod_def less_prod_def iso_text_of_le iso_text_of_less iso_text_of_eq)
qed

lemma group_scores_agree:
  assumes "utc_session env"
  shows "s \<in> set (group_scores cs rows) \<Longrightarrow> group_order env s = sql_rank cs rows (gs_columns s)"
    and "gs_columns ` set (group_scores cs rows) = group_columns ` set cs"
  using assms
  by (auto simp: group_scores_def group_order_def sql_rank_def oldest_at_def utc_session_def image_image
      intro!: map_idI)

lemma group_scores_Nil [simp]: "group_scores [] rows = []" "group_scores cs rows = [] \<longleftrightarrow> cs = []"
  by (simp_all add: group_scores_def)

text \<open>With no row locked, the query takes the task \<open>choose_fair_task\<close> chooses.\<close>

lemma next_task_agrees:
  fixes model :: "string option" and now :: timestamptz
  assumes env: "utc_session env" and rows: "\<forall>r\<in>set rows. row_ok r" and dist: "distinct (map c_task_id rows)"
  defines "cs \<equiv> filter (runnable model now) rows"
  assumes ne: "cs \<noteq> []"
  obtains r where "next_task env {} model now rows = Some r" "r \<in> set cs"
    "task_of_row r = choose_fair_task (map task_of_row cs) (map task_of_row rows)"
proof -
  have cs: "\<forall>r\<in>set cs. row_ok r" using rows by (simp add: cs_def)
  let ?rank = "group_sort_key (group_by fairness_group_key (map task_of_row cs))
      (last_claimed_by_group (map task_of_row rows))"
  note spec = choose_fair_task_spec [where cs = "map task_of_row cs" and everything = "map task_of_row rows"]
  obtain c where c: "c \<in> set cs" "task_of_row c = choose_fair_task (map task_of_row cs) (map task_of_row rows)"
    using spec(1) ne by auto
  obtain s where s: "first_by (group_order env) (group_scores cs rows) = Some s"
    using ne by (cases "first_by (group_order env) (group_scores cs rows)") auto
  note first = first_by_Some [OF s]
  have sel: "gs_columns s \<in> group_columns ` set cs" using first unfolding group_scores_agree(2) [OF env, symmetric, of cs rows] by simp
  have "\<forall>g\<in>group_columns ` set cs. sql_rank cs rows (gs_columns s) \<le> sql_rank cs rows g"
  proof
    fix g assume "g \<in> group_columns ` set cs"
    then obtain s' where "s' \<in> set (group_scores cs rows)" "gs_columns s' = g"
      unfolding group_scores_agree(2) [OF env, symmetric, of cs rows] by blast
    then show "sql_rank cs rows (gs_columns s) \<le> sql_rank cs rows g"
      using first group_scores_agree(1) [OF env] by metis
  qed
  moreover have "\<forall>g\<in>group_columns ` set cs. ?rank (group_columns c) \<le> ?rank g"
    using spec(2) ne c(2) by (auto simp flip: task_of_row_simps(10))
  moreover have "inj_on (sql_rank cs rows) (group_columns ` set cs)"
    by (auto simp: inj_on_def sql_rank_def)
  ultimately have group: "group_columns c = gs_columns s"
    using least_unique [of "group_columns c" "group_columns ` set cs" ?rank "gs_columns s" "sql_rank cs rows"]
      sel c(1) rank_agrees [OF rows cs, of "group_columns c" "gs_columns s"] by auto
  define xs where "xs = filter (\<lambda>r. group_columns r = gs_columns s \<and> c_task_id r \<notin> {}) cs"
  have nxt: "next_task env {} model now rows =
      first_by (\<lambda>r. (c_created_at r, pg_collation env (c_task_id r))) xs"
    unfolding next_task_def Let_def xs_def by (simp add: s flip: cs_def)
  have "c \<in> set xs" using c(1) group by (simp add: xs_def)
  then obtain r where r: "next_task env {} model now rows = Some r"
    unfolding nxt by (cases "first_by (\<lambda>r. (c_created_at r, pg_collation env (c_task_id r))) xs") auto
  have least: "r \<in> set xs" "\<forall>y\<in>set xs. (c_created_at r, c_task_id r) \<le> (c_created_at y, c_task_id y)"
    using first_by_Some [OF r [unfolded nxt]] env by (auto simp: utc_session_def)
  have "c = r"
  proof (rule least_unique)
    show "c \<in> set xs" "r \<in> set xs" by fact+
    show "\<forall>y\<in>set xs. (c_created_at r, c_task_id r) \<le> (c_created_at y, c_task_id y)" by fact
    show "\<forall>y\<in>set xs. (iso_text_of (c_created_at c), c_task_id c) \<le> (iso_text_of (c_created_at y), c_task_id y)"
      using spec(3) ne c(2) group by (auto simp: xs_def simp flip: task_of_row_simps(2,6,10))
    have "in_calendar (c_created_at c)" "in_calendar (c_created_at r)"
      using cs c(1) least(1) by (auto simp: xs_def row_ok_def)
    then show "((iso_text_of (c_created_at c), c_task_id c) \<le> (iso_text_of (c_created_at r), c_task_id r)) =
        ((c_created_at c, c_task_id c) \<le> (c_created_at r, c_task_id r))"
      by (auto simp: less_eq_prod_def iso_text_of_le iso_text_of_less iso_text_of_eq)
    have "set xs \<subseteq> set rows" by (auto simp: xs_def cs_def)
    then show "inj_on (\<lambda>y. (c_created_at y, c_task_id y)) (set xs)"
      using dist by (auto simp: inj_on_def distinct_map dest: subsetD)
  qed
  with r c show thesis by (intro that) auto
qed

end
