(* ===== verification/Postgres_Simulation.thy ===== *)
theory Postgres_Simulation
  imports Postgres_Refinement
begin

text \<open>
  A table that represents a store, and one lemma per operation: the statement answers what the
  method of \<open>InMemoryTaskStore\<close> answers, and its table represents the new store.
\<close>

definition represents :: "database \<Rightarrow> store \<Rightarrow> bool" where
  "represents db s \<longleftrightarrow> all_tasks s = map task_of_row (task_rows db) \<and> (\<forall>r\<in>set (task_rows db). row_ok r) \<and> store_inv s"

lemma representsD:
  assumes "represents db s"
  shows "all_tasks s = map task_of_row (task_rows db)" and "\<forall>r\<in>set (task_rows db). row_ok r" and "store_inv s"
  using assms by (simp_all add: represents_def)

lemma rows_distinct:
  assumes "represents db s"
  shows "distinct (map c_task_id (task_rows db))" and "distinct (map pg_key (task_rows db))"
  using store_distinct [OF representsD(3) [OF assms]] representsD(1) [OF assms] by (simp_all add: o_def)

lemma row_lookup:
  assumes "represents db s" "r \<in> set (task_rows db)"
  shows "lookup s (c_task_id r) = Some (task_of_row r)"
proof -
  have "task_of_row r \<in> set (all_tasks s)" using assms by (simp add: representsD(1))
  then show ?thesis using all_tasks_lookup [OF representsD(3) [OF assms(1)], of "task_of_row r"] by simp
qed

lemma lookup_row:
  assumes "represents db s" "lookup s i = Some t"
  obtains r where "r \<in> set (task_rows db)" "c_task_id r = i" "task_of_row r = t"
proof -
  have "t \<in> set (all_tasks s)" "t_task_id t = i"
    using assms(2) in_all_tasks [OF representsD(3) [OF assms(1)]] store_invD(2) [OF representsD(3) [OF assms(1)]] by auto
  with that show thesis by (auto simp: representsD(1) [OF assms(1)])
qed

lemma find_row:
  assumes "represents db s"
  shows "map_option task_of_row (List.find (\<lambda>r. c_task_id r = i) (task_rows db)) = lookup s i"
proof (cases "List.find (\<lambda>r. c_task_id r = i) (task_rows db)")
  case None
  have "lookup s i \<noteq> Some t" for t
  proof
    assume "lookup s i = Some t"
    then obtain r where "r \<in> set (task_rows db)" "c_task_id r = i" by (rule lookup_row [OF assms])
    with None show False by (auto simp: find_None_iff)
  qed
  with None show ?thesis by (cases "lookup s i") auto
next
  case (Some r)
  then have "r \<in> set (task_rows db)" "c_task_id r = i" by (auto simp: find_Some_iff)
  with row_lookup [OF assms] Some show ?thesis by auto
qed

section \<open>Updating a row\<close>

lemma snd_update: "map_of xs k \<noteq> None \<Longrightarrow> distinct (map fst xs) \<Longrightarrow>
    map snd (AList.update k v xs) = map (\<lambda>p. if fst p = k then v else snd p) xs"
proof (induction xs)
  case (Cons p xs)
  show ?case
  proof (cases "fst p = k")
    case True
    then have "map snd xs = map (\<lambda>q. if fst q = k then v else snd q) xs"
      using Cons.prems(2) by (intro map_cong) (auto simp: image_iff)
    with True show ?thesis by (cases p) auto
  next
    case False
    with Cons show ?thesis by (cases p) auto
  qed
qed simp

lemma all_tasks_put:
  assumes "store_inv s" "lookup s (t_task_id t) \<noteq> None"
  shows "all_tasks (put_task t s) = map (\<lambda>u. if t_task_id u = t_task_id t then t else u) (all_tasks s)"
proof -
  have "t_task_id (snd p) = fst p" if "p \<in> set (tasks_by_id s)" for p
  proof (rule store_invD(2) [OF assms(1)])
    show "lookup s (fst p) = Some (snd p)"
      using that store_invD(1) [OF assms(1)] by (simp add: lookup_def)
  qed
  then show ?thesis
    using assms store_invD(1) [OF assms(1)]
    by (auto simp: all_tasks_def put_task_def lookup_def snd_update)
qed

lemma update_represents:
  assumes rep: "represents db s" and r: "r \<in> set (task_rows db)" "row_ok (f r)"
    and p: "\<forall>x\<in>set (task_rows db). p x \<longleftrightarrow> x = r"
    and g: "task_of_row (f r) = g (task_of_row r)" "keeps_identity g"
  shows "update_row p f db = (fst (update_row p f db), Some (f r))"
    and "represents (fst (update_row p f db)) (put_task (task_of_row (f r)) s)"
proof -
  have look: "lookup s (c_task_id r) = Some (task_of_row r)" using row_lookup [OF rep r(1)] .
  have id: "t_task_id (task_of_row (f r)) = c_task_id r" using g by (simp add: keeps_identity_def)
  obtain x where x: "List.find p (task_rows db) = Some x"
    using r(1) p by (cases "List.find p (task_rows db)") (auto simp: find_None_iff)
  then have "x = r" using p by (auto simp: find_Some_iff)
  with x show "update_row p f db = (fst (update_row p f db), Some (f r))" by (simp add: update_row_def)
  have "all_tasks (put_task (task_of_row (f r)) s) =
      map (\<lambda>u. if t_task_id u = c_task_id r then task_of_row (f r) else u) (map task_of_row (task_rows db))"
    using all_tasks_put [OF representsD(3) [OF rep], of "task_of_row (f r)"] look id representsD(1) [OF rep]
    by simp
  also have "\<dots> = map task_of_row (map (\<lambda>x. if p x then f x else x) (task_rows db))"
  proof -
    have "c_task_id x = c_task_id r \<longleftrightarrow> p x" if "x \<in> set (task_rows db)" for x
      using that r(1) p rows_distinct(1) [OF rep] by (auto simp: distinct_map dest: inj_onD)
    then show ?thesis using p by auto
  qed
  finally have all: "all_tasks (put_task (task_of_row (f r)) s) =
      map task_of_row (task_rows (fst (update_row p f db)))" by (simp add: update_row_def)
  have "store_inv (put_task (task_of_row (f r)) s)"
    unfolding g(1) using put_stored_inv [OF representsD(3) [OF rep] look g(2)] .
  moreover have "\<forall>x\<in>set (task_rows (fst (update_row p f db))). row_ok x"
    using representsD(2) [OF rep] r(2) p by (auto simp: update_row_def)
  ultimately show "represents (fst (update_row p f db)) (put_task (task_of_row (f r)) s)"
    using all by (simp add: represents_def)
qed

lemma update_no_row:
  assumes "\<forall>r\<in>set (task_rows db). \<not> p r"
  shows "update_row p f db = (db, None)"
proof -
  have "map (\<lambda>r. if p r then f r else r) (task_rows db) = task_rows db"
    using assms by (intro map_idI) simp
  with assms show ?thesis by (simp add: update_row_def find_None_iff)
qed

text \<open>The identifier names one row.\<close>

lemma id_names_row: "represents db s \<Longrightarrow> r \<in> set (task_rows db) \<Longrightarrow>
    \<forall>x\<in>set (task_rows db). c_task_id x = c_task_id r \<longleftrightarrow> x = r"
  using rows_distinct(1) by (auto simp: distinct_map dest: inj_onD)

section \<open>Reading\<close>

lemma rows_as_tasks:
  "utc_session env \<Longrightarrow> \<forall>r\<in>set rows. row_ok r \<Longrightarrow> map_res (stored_task_from_row env clock) rows = Inr (map task_of_row rows)"
  by (intro map_res_total) (simp add: stored_task_from_row_ok)

lemma optional_row_ok:
  "utc_session env \<Longrightarrow> pred_option row_ok r \<Longrightarrow> optional_row env clock r = Inr (map_option task_of_row r)"
  by (cases r) (simp_all add: optional_row_def stored_task_from_row_ok)

lemma find_row_ok:
  assumes "represents db s"
  shows "pred_option row_ok (List.find p (task_rows db))"
proof (cases "List.find p (task_rows db)")
  case (Some r)
  then have "r \<in> set (task_rows db)" by (auto simp: find_Some_iff)
  with Some representsD(2) [OF assms] show ?thesis by simp
qed simp

lemma tenant_row:
  assumes "represents db s"
  shows "map_option task_of_row (List.find (\<lambda>r. c_tenant r = tenant \<and> c_task_id r = i) (task_rows db)) = get_task s tenant i"
proof (cases "List.find (\<lambda>r. c_tenant r = tenant \<and> c_task_id r = i) (task_rows db)")
  case None
  have "t_tenant t \<noteq> tenant" if look: "lookup s i = Some t" for t
  proof -
    obtain r where "r \<in> set (task_rows db)" "c_task_id r = i" "task_of_row r = t"
      using assms look by (rule lookup_row)
    with None show ?thesis by (auto simp: find_None_iff)
  qed
  with None show ?thesis by (auto simp: get_task_def split: option.splits)
next
  case (Some r)
  then have "r \<in> set (task_rows db)" "c_task_id r = i" "c_tenant r = tenant" by (auto simp: find_Some_iff)
  with row_lookup [OF assms] Some show ?thesis by (auto simp: get_task_def)
qed

lemma pg_get_task_agrees:
  assumes "utc_session env" "represents db s" "list_all (pg_text env) [tenant, i]"
  shows "pg_get_task env clock tenant i db = Inr (get_task s tenant i)"
  using assms by (simp add: pg_get_task_def check_texts_def optional_row_ok [OF _ find_row_ok] tenant_row)

lemma insort_key_map: "insort_key f (g x) (map g ys) = map g (insort_key (\<lambda>x. f (g x)) x ys)"
  by (induction ys) auto

lemma sort_key_map: "sort_key f (map g xs) = map g (sort_key (\<lambda>x. f (g x)) xs)"
  by (induction xs) (simp_all add: insort_key_map)

text \<open>Orders that agree on a list sort it alike.\<close>

lemma insort_key_cong:
  "\<forall>y\<in>set xs. (f x \<le> f y) = (g x \<le> g y) \<Longrightarrow> insort_key f x xs = insort_key g x xs"
  by (induction xs) auto

lemma sort_key_cong_order:
  fixes f :: "'a \<Rightarrow> 'b :: linorder" and g :: "'a \<Rightarrow> 'c :: linorder"
  assumes "\<forall>x\<in>set xs. \<forall>y\<in>set xs. (f x \<le> f y) = (g x \<le> g y)"
  shows "sort_key f xs = sort_key g xs"
  using assms
proof (induction xs)
  case (Cons x xs)
  then have "sort_key f xs = sort_key g xs" by simp
  moreover have "insort_key f x (sort_key g xs) = insort_key g x (sort_key g xs)"
    using Cons.prems by (intro insort_key_cong) simp
  ultimately show ?case by simp
qed simp

lemma pg_list_tasks_agrees:
  assumes env: "utc_session env" and rep: "represents db s" and limit: "limit \<le> 9223372036854775807"
    and texts: "list_all (pg_text env) [tenant]" "pred_option (pg_text env) state" "pred_option (pg_text env) model"
  shows "pg_list_tasks env clock tenant state model limit db = Inr (list_tasks s tenant state model limit)"
proof -
  define xs where "xs = filter (\<lambda>r. c_tenant r = tenant \<and> (state = None \<or> Some (c_state r) = state) \<and>
      (model = None \<or> Some (c_model r) = model)) (task_rows db)"
  have ok: "\<forall>r\<in>set xs. row_ok r" using representsD(2) [OF rep] by (simp add: xs_def)
  have "sort_key (\<lambda>r. (c_created_at r, pg_collation env (c_task_id r))) xs =
      sort_key (\<lambda>r. (iso_text_of (c_created_at r), c_task_id r)) xs"
    using env ok
    by (intro sort_key_cong_order)
      (auto simp: utc_session_def row_ok_def less_eq_prod_def iso_text_of_le iso_text_of_less iso_text_of_eq)
  then have "map task_of_row (sort_key (\<lambda>r. (c_created_at r, pg_collation env (c_task_id r))) xs) =
      sort_key (\<lambda>t. (t_created_at t, t_task_id t)) (map task_of_row xs)"
    by (simp add: sort_key_map)
  moreover have "map task_of_row xs = filter (\<lambda>t. t_tenant t = tenant \<and> (state = None \<or> Some (t_state t) = state) \<and>
      (model = None \<or> Some (t_model t) = model)) (all_tasks s)"
    by (simp add: xs_def representsD(1) [OF rep] filter_map o_def)
  moreover have "check_texts env ([tenant] @ (case state of None \<Rightarrow> [] | Some s \<Rightarrow> [s]) @
      (case model of None \<Rightarrow> [] | Some m \<Rightarrow> [m])) = Inr ()"
    using texts by (cases state; cases model) (auto simp: check_texts_def)
  moreover have "\<forall>r\<in>set (take n (sort_key f xs)). row_ok r" for n and f :: "task_row \<Rightarrow> timestamptz \<times> string"
    using ok by (auto dest!: in_set_takeD)
  moreover have "\<not> 9223372036854775807 < max 1 limit" using limit by (simp add: max_def)
  ultimately show ?thesis
    unfolding pg_list_tasks_def list_tasks_def
    by (simp add: rows_as_tasks [OF env] take_map [symmetric] flip: xs_def)
qed

section \<open>Claiming\<close>

lemma claimable_candidates:
  assumes "represents db s"
  shows "filter_res (\<lambda>t. is_task_claimable t (instant now) model) (all_tasks s) =
      Inr (map task_of_row (filter (runnable model now) (task_rows db)))"
proof -
  have c: "is_task_claimable (task_of_row r) (instant now) model = Inr (runnable model now r)"
    if "r \<in> set (task_rows db)" for r
    using that representsD(2) [OF assms] by (simp add: claimable_runnable)
  have "filter_res (\<lambda>t. is_task_claimable t (instant now) model) (map task_of_row rows) =
      Inr (map task_of_row (filter (runnable model now) rows))" if "set rows \<subseteq> set (task_rows db)" for rows
    using that by (induction rows) (simp_all add: c)
  then show ?thesis by (simp add: representsD(1) [OF assms])
qed

lemma iso_text_of_not_Nil [simp]: "iso_text_of t \<noteq> []"
  by (simp add: iso_text_of_def)

lemma read_timestamp_iso: "utc_session env \<Longrightarrow> in_calendar t \<Longrightarrow> read_timestamp env (iso_text_of t) = Inr t"
  by (simp add: read_timestamp_def utc_session_def)

lemma claimed_row_ok:
  assumes "row_ok r" "in_calendar now" "c_attempt_count r < 2147483647"
  obtains r' where "claimed_row now r = Inr r'" "row_ok r'" "task_of_row r' = claim_task (iso_text_of now) (task_of_row r)"
proof -
  define r' where "r' = r\<lparr>c_state := ''running'',
      c_started_at := Some (case c_started_at r of None \<Rightarrow> now | Some t \<Rightarrow> t),
      c_attempt_count := c_attempt_count r + 1, c_next_attempt_at := None, c_updated_at := now\<rparr>"
  have "0 \<le> c_attempt_count r" using assms(1) by (simp add: row_ok_def wf_task_def)
  then have "claimed_row now r = Inr r'" using assms(3) by (simp add: claimed_row_def read_int4_def r'_def)
  moreover have t: "task_of_row r' = claim_task (iso_text_of now) (task_of_row r)"
    by (cases "c_started_at r") (simp_all add: task_of_row_def claim_task_def r'_def str_or_def)
  moreover have "wf_task (task_of_row r')"
    using keeps_identity_claim [of "iso_text_of now"] assms(1) by (simp add: t keeps_identity_def row_ok_def)
  then have "row_ok r'" using assms(1,2) by (auto simp: row_ok_def r'_def split: option.splits)
  ultimately show thesis by (intro that [of r'])
qed

lemma pg_claim_agrees:
  assumes env: "utc_session env" and rep: "represents db s" and now: "in_calendar now"
    and counts: "\<forall>r\<in>set (task_rows db). c_attempt_count r < 2147483647" and known_text: "pred_option (pg_text env) model"
  shows "\<exists>s' db' t. claim_next (instant now) model s = Inr (s', t) \<and>
      pg_claim_next env clock {} (iso_text_of now) model db = (db', Inr t) \<and> represents db' s'"
proof -
  define cs where "cs = filter (runnable model now) (task_rows db)"
  have texts: "check_texts env (case model of None \<Rightarrow> [] | Some m \<Rightarrow> [m]) = Inr ()"
    using known_text by (cases model) (simp_all add: check_texts_def)
  show ?thesis
  proof (cases "cs = []")
    case True
    then have "claim_next (instant now) model s = Inr (s, None)"
      by (simp add: claim_next_def claimable_candidates [OF rep] flip: cs_def)
    moreover have "next_task env {} model now (task_rows db) = None"
      using True by (simp add: next_task_def Let_def flip: cs_def)
    then have "pg_claim_next env clock {} (iso_text_of now) model db = (db, Inr None)"
      by (simp add: pg_claim_next_def texts read_timestamp_iso [OF env now] optional_row_def)
    ultimately show ?thesis using rep by blast
  next
    case False
    obtain r where r: "next_task env {} model now (task_rows db) = Some r" "r \<in> set cs"
      "task_of_row r = choose_fair_task (map task_of_row cs) (all_tasks s)"
      using next_task_agrees [OF env representsD(2) [OF rep] rows_distinct(1) [OF rep], of model now] False
      by (auto simp: cs_def representsD(1) [OF rep])
    then have mem: "r \<in> set (task_rows db)" by (simp add: cs_def)
    then obtain r' where r': "claimed_row now r = Inr r'" "row_ok r'"
      "task_of_row r' = claim_task (iso_text_of now) (task_of_row r)"
      using claimed_row_ok [of r now] representsD(2) [OF rep] counts now by metis
    define db' where "db' = fst (update_row (\<lambda>x. c_task_id x = c_task_id r) (\<lambda>_. r') db)"
    note upd = update_represents [OF rep mem, of "\<lambda>_. r'" "\<lambda>x. c_task_id x = c_task_id r", OF r'(2)
        id_names_row [OF rep mem] r'(3) keeps_identity_claim [OF iso_text_of_not_Nil], folded db'_def]
    have "claim_next (instant now) model s = Inr (put_task (task_of_row r') s, Some (task_of_row r'))"
      using False r'(3) r(3)
      by (simp add: claim_next_def claimable_candidates [OF rep] iso_text_of_def Let_def flip: cs_def)
    moreover have "pg_claim_next env clock {} (iso_text_of now) model db = (db', Inr (Some (task_of_row r')))"
      using upd(1) by (simp add: pg_claim_next_def texts read_timestamp_iso [OF env now] r(1) r'(1)
          optional_row_ok [OF env] r'(2))
    ultimately show ?thesis using upd(2) by blast
  qed
qed

section \<open>Recording and cancelling\<close>

lemma pg_record_agrees:
  assumes env: "utc_session env" and rep: "represents db s" and now: "in_calendar now" and known_text: "pg_text env i"
    and change: "change now = Inr f"
    and f: "\<And>r. row_ok r \<Longrightarrow> row_ok (f r) \<and> task_of_row (f r) = g (task_of_row r)" "keeps_identity g"
  shows "\<exists>db'. pg_record env clock i (iso_text_of now) change db =
      (case modify_task g i s of Inl e \<Rightarrow> (db, Inl e) | Inr (s', t) \<Rightarrow> (db', Inr t)) \<and>
      (\<forall>s' t. modify_task g i s = Inr (s', t) \<longrightarrow> represents db' s')"
proof -
  have checks: "check_texts env [i] = Inr ()" using known_text by (simp add: check_texts_def)
  show ?thesis
  proof (cases "lookup s i")
    case None
    then have "update_row (\<lambda>r. c_task_id r = i) f db = (db, None)"
      using row_lookup [OF rep] by (intro update_no_row) auto
    with None show ?thesis
      using checks by (simp add: pg_record_def read_timestamp_iso [OF env now] change returned_task_def modify_task_def)
  next
    case (Some t)
    then obtain r where r: "r \<in> set (task_rows db)" "c_task_id r = i" "task_of_row r = t"
      using rep by (auto elim: lookup_row)
    have ok: "row_ok (f r)" "task_of_row (f r) = g t" using r f(1) representsD(2) [OF rep] by auto
    have names: "\<forall>x\<in>set (task_rows db). c_task_id x = i \<longleftrightarrow> x = r"
      using id_names_row [OF rep r(1)] r(2) by simp
    define db' where "db' = fst (update_row (\<lambda>x. c_task_id x = i) f db)"
    have "update_row (\<lambda>x. c_task_id x = i) f db = (db', Some (f r))" "represents db' (put_task (g t) s)"
      using update_represents [where f = f and g = g, OF rep r(1) ok(1) names] f(2) ok(2) r(3) by (simp_all add: db'_def)
    moreover have "modify_task g i s = Inr (put_task (g t) s, g t)" using Some by (simp add: modify_task_def)
    ultimately show ?thesis
      using checks ok by (simp add: pg_record_def read_timestamp_iso [OF env now] change returned_task_def
          stored_task_from_row_ok [OF env])
  qed
qed

definition cancelled_row :: "timestamptz \<Rightarrow> task_row \<Rightarrow> task_row" where
  "cancelled_row now r = r\<lparr>c_state := ''cancelled'',
     c_finished_at := Some (case c_finished_at r of None \<Rightarrow> now | Some t \<Rightarrow> t),
     c_next_attempt_at := None, c_updated_at := now\<rparr>"

lemma cancelled_row_ok:
  assumes "row_ok r" "in_calendar now" "c_finished_at r = None"
  shows "row_ok (cancelled_row now r)"
    and "task_of_row (cancelled_row now r) = cancelled_task (iso_text_of now) (task_of_row r)"
proof -
  show t: "task_of_row (cancelled_row now r) = cancelled_task (iso_text_of now) (task_of_row r)"
    using assms(3) by (simp add: task_of_row_def cancelled_task_def cancelled_row_def)
  have "wf_task (task_of_row (cancelled_row now r))"
    using keeps_identity_cancel [of "iso_text_of now"] assms(1) by (simp add: t keeps_identity_def row_ok_def)
  then show "row_ok (cancelled_row now r)" using assms by (simp add: row_ok_def cancelled_row_def)
qed

lemma pg_cancel_agrees:
  assumes env: "utc_session env" and rep: "represents db s" and now: "in_calendar now"
    and known_text: "list_all (pg_text env) [tenant, i]"
    and unfinished: "\<forall>r\<in>set (task_rows db). c_state r \<notin> terminal_states \<longrightarrow> c_finished_at r = None"
  shows "\<exists>db'. pg_cancel_task env clock (iso_text_of now) tenant i db =
      (db', Inr (snd (cancel_task (iso_text_of now) tenant i s))) \<and>
      represents db' (fst (cancel_task (iso_text_of now) tenant i s))"
proof -
  let ?p = "\<lambda>r. c_tenant r = tenant \<and> c_task_id r = i \<and> c_state r \<notin> terminal_states"
  let ?f = "\<lambda>r. r\<lparr>c_state := ''cancelled'',
     c_finished_at := Some (case c_finished_at r of None \<Rightarrow> now | Some t \<Rightarrow> t),
     c_next_attempt_at := None, c_updated_at := now\<rparr>"
  have f: "?f = cancelled_row now" by (simp add: fun_eq_iff cancelled_row_def)
  have checks: "bind_res (check_texts env [tenant, i]) (\<lambda>_. read_timestamp env (iso_text_of now)) = Inr now"
    using known_text by (simp add: check_texts_def read_timestamp_iso [OF env now])
  show ?thesis
  proof (cases "\<exists>r\<in>set (task_rows db). ?p r")
    case False
    then have same: "update_row ?p ?f db = (db, None)" by (intro update_no_row) auto
    have "cancel_task (iso_text_of now) tenant i s = (s, get_task s tenant i)"
    proof (cases "get_task s tenant i")
      case (Some t)
      then have t: "lookup s i = Some t" "t_tenant t = tenant" by (auto simp: get_task_def split: option.splits if_splits)
      obtain r where "r \<in> set (task_rows db)" "c_task_id r = i" "task_of_row r = t"
        using rep t(1) by (rule lookup_row)
      with False t(2) have "t_state t \<in> terminal_states" by auto
      with Some show ?thesis by (simp add: cancel_task_def)
    qed (simp add: cancel_task_def)
    then show ?thesis
      using checks rep unfolding pg_cancel_task_def
      by (simp add: same optional_row_ok [OF env find_row_ok [OF rep]] tenant_row [OF rep] split del: if_split)
  next
    case True
    then obtain r where r: "r \<in> set (task_rows db)" "c_tenant r = tenant" "c_task_id r = i" "c_state r \<notin> terminal_states"
      by blast
    have ok: "row_ok (cancelled_row now r)"
      "task_of_row (cancelled_row now r) = cancelled_task (iso_text_of now) (task_of_row r)"
      using cancelled_row_ok [of r now] now representsD(2) [OF rep] unfinished r by auto
    have names: "\<forall>x\<in>set (task_rows db). ?p x \<longleftrightarrow> x = r" using id_names_row [OF rep r(1)] r by auto
    define db' where "db' = fst (update_row ?p ?f db)"
    have upd: "update_row ?p ?f db = (db', Some (cancelled_row now r))"
      "represents db' (put_task (cancelled_task (iso_text_of now) (task_of_row r)) s)"
      using update_represents [where f = "cancelled_row now" and g = "cancelled_task (iso_text_of now)",
          OF rep r(1) ok(1) names ok(2) keeps_identity_cancel [OF iso_text_of_not_Nil]] ok(2)
      by (simp_all add: db'_def f)
    have "get_task s tenant i = Some (task_of_row r)"
      using row_lookup [OF rep r(1)] r by (simp add: get_task_def)
    then have "cancel_task (iso_text_of now) tenant i s =
        (put_task (cancelled_task (iso_text_of now) (task_of_row r)) s, Some (cancelled_task (iso_text_of now) (task_of_row r)))"
      using r(4) by (simp add: cancel_task_def)
    then show ?thesis
      using checks upd ok unfolding pg_cancel_task_def by (simp add: optional_row_ok [OF env])
  qed
qed

section \<open>Submitting\<close>

text \<open>The columns take the fields of a task, and JSONB gives its dictionaries back as they are.\<close>

definition fits_columns :: "session \<Rightarrow> queue_task \<Rightarrow> bool" where
  "fits_columns env q \<longleftrightarrow>
     list_all (pg_text env) [t_tenant q, t_project q, t_service q, t_task q, t_job_id q,
        t_idempotency_key q, t_priority q, t_model q, t_endpoint q] \<and>
     list_all (\<lambda>n. n \<le> 2147483647) [t_estimated_input_tokens q, t_max_output_tokens q, t_required_context_tokens q] \<and>
     list_all (\<lambda>d. pg_jsonb env (JDict d) = Some (JDict d)) [t_payload q, t_orchestration q, t_artifacts q, t_labels q]"

definition text_supply :: "(nat \<Rightarrow> string \<times> timestamptz) \<Rightarrow> nat \<Rightarrow> string \<times> string" where
  "text_supply draws j = (fst (draws j), iso_text_of (snd (draws j)))"

definition memory_supply :: "(nat \<Rightarrow> string \<times> timestamptz) \<Rightarrow> submit_env" where
  "memory_supply draws j = (fst (draws j), iso_text_of (snd (draws j)), iso_text_of (snd (draws j)))"

lemma new_row_ok:
  assumes env: "utc_session env" and q: "wf_queue_task q" "fits_columns env q" and now: "in_calendar now"
    and uuid: "clean_string (''task_'' @ uuid)" "pg_text env (''task_'' @ uuid)"
  obtains r where "new_row env uuid (iso_text_of now) q = Inr r" "row_ok r"
    "task_of_row r = new_stored_task (uuid, iso_text_of now, iso_text_of now) q"
proof -
  define r where "r = \<lparr>c_task_id = ''task_'' @ uuid, c_tenant = t_tenant q, c_project = t_project q,
       c_service = t_service q, c_task = t_task q, c_job_id = t_job_id q,
       c_idempotency_key = t_idempotency_key q, c_priority = t_priority q, c_model = t_model q,
       c_endpoint = t_endpoint q, c_estimated_input_tokens = t_estimated_input_tokens q,
       c_max_output_tokens = t_max_output_tokens q,
       c_required_context_tokens = t_required_context_tokens q, c_state = ''queued'',
       c_payload_json = JDict (t_payload q), c_orchestration_json = JDict (t_orchestration q),
       c_artifacts_json = JDict (t_artifacts q), c_labels_json = JDict (t_labels q),
       c_created_at = now, c_updated_at = now, c_attempt_count = 0, c_started_at = None,
       c_finished_at = None, c_next_attempt_at = None, c_result_json = None, c_error_json = None\<rparr>"
  have "new_row env uuid (iso_text_of now) q = Inr r"
    using q uuid by (simp add: new_row_def fits_columns_def check_texts_def read_int4_def read_jsonb_def
        read_timestamp_iso [OF env now] wf_queue_task_def r_def)
  moreover have t: "task_of_row r = new_stored_task (uuid, iso_text_of now, iso_text_of now) q"
    by (simp add: r_def task_of_row_def new_stored_task_def queue_task.defs stored_task.defs dict_of_def)
  moreover have "wf_task (task_of_row r)" unfolding t using q uuid by (intro new_stored_task_wf) simp_all
  then have "row_ok r" using now by (simp add: row_ok_def is_object_def r_def)
  ultimately show thesis by (intro that [of r])
qed

lemma key_row:
  assumes rep: "represents db s" and known: "map_of (idempotency_index s) k = Some j" "lookup s j = Some t"
  shows "List.find (\<lambda>x. pg_key x = k) (task_rows db) \<noteq> None"
    and "map_option task_of_row (List.find (\<lambda>x. pg_key x = k) (task_rows db)) = Some t"
proof -
  have t: "idem_key t = k" using store_invD(5) [OF representsD(3) [OF rep] known(1)] known(2) by auto
  obtain r where r: "r \<in> set (task_rows db)" "c_task_id r = j" "task_of_row r = t" using rep known(2) by (rule lookup_row)
  then have "pg_key r = k" using t by (metis task_of_row_simps(11))
  with r(1) show some: "List.find (\<lambda>x. pg_key x = k) (task_rows db) \<noteq> None" by (auto simp: find_None_iff)
  then obtain x where x: "List.find (\<lambda>x. pg_key x = k) (task_rows db) = Some x" by blast
  then have "x \<in> set (task_rows db)" "pg_key x = k" by (auto simp: find_Some_iff)
  with r(1) \<open>pg_key r = k\<close> rows_distinct(2) [OF rep] have "x = r" by (auto simp: distinct_map dest: inj_onD)
  with x r(3) show "map_option task_of_row (List.find (\<lambda>x. pg_key x = k) (task_rows db)) = Some t" by simp
qed

lemma insert_represents:
  assumes rep: "represents (db\<lparr>task_rows := rows\<rparr>) s" and r: "row_ok r"
    and new: "map_of (idempotency_index s) (pg_key r) = None" "lookup s (c_task_id r) = None"
  shows "represents (db\<lparr>task_rows := rows @ [r]\<rparr>) (insert_new (task_of_row r) s)"
proof -
  have "c_task_id r \<notin> fst ` set (tasks_by_id s)"
    using new(2) by (simp add: lookup_def map_of_eq_None_iff)
  then have "all_tasks (insert_new (task_of_row r) s) = all_tasks s @ [task_of_row r]"
    by (simp add: all_tasks_def insert_new_def update_new_key)
  moreover have "store_inv (insert_new (task_of_row r) s)"
    using representsD(3) [OF rep] new r by (intro insert_new_inv) (simp_all add: row_ok_def)
  ultimately show ?thesis using representsD(1,2) [OF rep] r by (simp add: represents_def)
qed

lemma pg_submit_loop_agrees:
  assumes env: "utc_session env"
  shows "represents (db\<lparr>task_rows := rows\<rparr>) s \<Longrightarrow> fresh_env (memory_supply draws) i (length qs) s \<Longrightarrow>
    \<forall>q\<in>set qs. wf_queue_task q \<and> fits_columns env q \<Longrightarrow>
    \<forall>j<length qs. in_calendar (snd (draws (i + j))) \<and> pg_text env (''task_'' @ fst (draws (i + j))) \<Longrightarrow>
    \<exists>rows' s' acc reu. submit_loop (memory_supply draws) i qs s = Inr (s', acc, reu) \<and>
      pg_submit_loop env clock (text_supply draws) i qs rows = Inr (rows', acc, reu) \<and>
      represents (db\<lparr>task_rows := rows'\<rparr>) s'"
proof (induction qs arbitrary: i s rows)
  case Nil
  then show ?case by auto
next
  case (Cons q qs)
  note rep = Cons.prems(1)
  have fresh: "fresh_env (memory_supply draws) i (Suc (length qs)) s" using Cons.prems(2) by simp
  have rest: "\<forall>q\<in>set qs. wf_queue_task q \<and> fits_columns env q"
    "\<forall>j<length qs. in_calendar (snd (draws (Suc i + j))) \<and> pg_text env (''task_'' @ fst (draws (Suc i + j)))"
    using Cons.prems(3,4) by auto
  have first: "in_calendar (snd (draws i))" "pg_text env (''task_'' @ fst (draws i))"
    using Cons.prems(4) by force+
  have uuid: "clean_string (''task_'' @ fst (draws i))" "lookup s (''task_'' @ fst (draws i)) = None"
    using fresh unfolding fresh_env_def memory_supply_def by (metis add_0_right fst_conv zero_less_Suc)+
  obtain r where r: "new_row env (fst (draws i)) (iso_text_of (snd (draws i))) q = Inr r" "row_ok r"
    "task_of_row r = new_stored_task (memory_supply draws i) q"
    unfolding memory_supply_def using new_row_ok [OF env _ _ first(1) uuid(1) first(2), of q] Cons.prems(3) by auto
  have key: "pg_key r = idem_key q" "c_task_id r = ''task_'' @ fst (draws i)"
    using r(3) task_of_row_simps(2,11) [of r] by (simp_all add: memory_supply_def)
  have qkey: "(t_tenant q, t_idempotency_key q) = idem_key q" by (simp add: idem_key_def)
  show ?case
  proof (cases "map_of (idempotency_index s) (idem_key q)")
    case (Some j)
    then obtain t where t: "lookup s j = Some t" using store_invD(5) [OF representsD(3) [OF rep]] by blast
    have "List.find (\<lambda>x. pg_key x = idem_key q) rows \<noteq> None"
      using key_row(1) [OF rep Some t] by simp
    then have "list_ex (\<lambda>x. pg_key x = pg_key r) rows" by (auto simp: list_ex_iff find_None_iff key)
    moreover have "optional_row env clock (List.find (\<lambda>x. pg_key x = idem_key q) rows) = Inr (Some t)"
      using optional_row_ok [OF env find_row_ok [OF rep]] key_row(2) [OF rep Some t] by simp
    ultimately show ?thesis
      using Cons.IH [OF rep fresh_env_step(1) [OF fresh] rest] r(1) Some t qkey
      by (auto simp: insert_task_def text_supply_def)
  next
    case None
    have "\<not> list_ex (\<lambda>x. pg_key x = pg_key r) rows"
    proof
      assume "list_ex (\<lambda>x. pg_key x = pg_key r) rows"
      then obtain x where x: "x \<in> set rows" "pg_key x = idem_key q" by (auto simp: list_ex_iff key)
      then have "lookup s (c_task_id x) = Some (task_of_row x)" using row_lookup [OF rep] by simp
      from store_invD(4) [OF representsD(3) [OF rep] this] x(2) None show False by simp
    qed
    moreover have "\<not> list_ex (\<lambda>x. c_task_id x = c_task_id r) rows"
      using row_lookup [OF rep] uuid(2) key(2) by (fastforce simp: list_ex_iff)
    ultimately have ins: "insert_task env clock (fst (draws i)) (iso_text_of (snd (draws i))) q rows =
        Inr (rows @ [r], Some (new_stored_task (memory_supply draws i) q))"
      using r by (simp add: insert_task_def stored_task_from_row_ok [OF env])
    have "represents (db\<lparr>task_rows := rows @ [r]\<rparr>) (insert_new (new_stored_task (memory_supply draws i) q) s)"
      using insert_represents [OF rep r(2)] None uuid(2) key r(3) by simp
    from Cons.IH [OF this fresh_env_step(2) [OF fresh] rest] show ?thesis
      using None ins by (auto simp: text_supply_def Let_def)
  qed
qed

end
