(* ===== verification/Postgres_Properties.thy ===== *)
theory Postgres_Properties
  imports Postgres_Simulation Samples
begin

text \<open>
  The properties of the PostgreSQL task store: any sequence of calls is answered as the in-memory
  store answers it, a claim takes a task no other worker holds, and a database of another version
  of the schema is refused.
\<close>

section \<open>Sequences of calls\<close>

text \<open>The calls that change the store, with the times and identifiers they draw.\<close>

datatype store_call =
    Submit "nat \<Rightarrow> string \<times> timestamptz" "queue_task list"
  | Claim timestamptz "string option"
  | RecordResult timestamptz string dict
  | RecordError timestamptz string dict
  | RecordRetry timestamptz string dict timestamptz
  | Cancel timestamptz string string

datatype answer =
    Batch "stored_task list" "stored_task list"
  | Found "stored_task option"
  | Recorded stored_task

definition recorded :: "(store \<times> stored_task) res \<Rightarrow> store \<Rightarrow> store \<times> answer res" where
  "recorded x s = (case x of Inl e \<Rightarrow> (s, Inl e) | Inr (s', t) \<Rightarrow> (s', Inr (Recorded t)))"

fun memory_call :: "store_call \<Rightarrow> store \<Rightarrow> store \<times> answer res" where
  "memory_call (Submit draws qs) s = (case submit_many (memory_supply draws) qs s of
       Inl e \<Rightarrow> (s, Inl e) | Inr (s', acc, reu) \<Rightarrow> (s', Inr (Batch acc reu)))"
| "memory_call (Claim now model) s = (case claim_next (instant now) model s of
       Inl e \<Rightarrow> (s, Inl e) | Inr (s', t) \<Rightarrow> (s', Inr (Found t)))"
| "memory_call (RecordResult now i d) s = recorded (record_result (iso_text_of now) i d s) s"
| "memory_call (RecordError now i d) s = recorded (record_error (iso_text_of now) i d s) s"
| "memory_call (RecordRetry now i d at_time) s =
     recorded (record_retry (iso_text_of now) i d (iso_text_of at_time) s) s"
| "memory_call (Cancel now tenant i) s =
     (let (s', t) = cancel_task (iso_text_of now) tenant i s in (s', Inr (Found t)))"

definition answered_with :: "('a \<Rightarrow> answer) \<Rightarrow> database \<times> 'a res \<Rightarrow> database \<times> answer res" where
  "answered_with f p = (fst p, bind_res (snd p) (\<lambda>x. Inr (f x)))"

fun postgres_call :: "session \<Rightarrow> string \<times> string \<Rightarrow> store_call \<Rightarrow> database \<Rightarrow> database \<times> answer res" where
  "postgres_call env clock (Submit draws qs) db = (case pg_submit_many env clock (text_supply draws) qs db of
       Inl e \<Rightarrow> (db, Inl e) | Inr (db', acc, reu) \<Rightarrow> (db', Inr (Batch acc reu)))"
| "postgres_call env clock (Claim now model) db =
     answered_with Found (pg_claim_next env clock {} (iso_text_of now) model db)"
| "postgres_call env clock (RecordResult now i d) db =
     answered_with Recorded (pg_record_result env clock (iso_text_of now) i d db)"
| "postgres_call env clock (RecordError now i d) db =
     answered_with Recorded (pg_record_error env clock (iso_text_of now) i d db)"
| "postgres_call env clock (RecordRetry now i d at_time) db =
     answered_with Recorded (pg_record_retry env clock (iso_text_of now) i d (iso_text_of at_time) db)"
| "postgres_call env clock (Cancel now tenant i) db =
     answered_with Found (pg_cancel_task env clock (iso_text_of now) tenant i db)"

text \<open>What a call needs of its arguments and of the store: fresh identifiers, times of the calendar,
  values the columns hold, and for a cancellation that no live task carries a finish time.\<close>

fun call_fits :: "session \<Rightarrow> store \<Rightarrow> store_call \<Rightarrow> bool" where
  "call_fits env s (Submit draws qs) \<longleftrightarrow> fresh_env (memory_supply draws) 0 (length qs) s \<and>
     (\<forall>q\<in>set qs. wf_queue_task q \<and> fits_columns env q) \<and>
     (\<forall>j<length qs. in_calendar (snd (draws j)) \<and> pg_text env (''task_'' @ fst (draws j)))"
| "call_fits env s (Claim now model) \<longleftrightarrow> in_calendar now \<and> pred_option (pg_text env) model \<and>
     (\<forall>t\<in>set (all_tasks s). t_attempt_count t < 2147483647)"
| "call_fits env s (RecordResult now i d) \<longleftrightarrow> in_calendar now \<and> pg_text env i \<and>
     pg_jsonb env (JDict d) = Some (JDict d)"
| "call_fits env s (RecordError now i d) \<longleftrightarrow> in_calendar now \<and> pg_text env i \<and>
     pg_jsonb env (JDict d) = Some (JDict d)"
| "call_fits env s (RecordRetry now i d at_time) \<longleftrightarrow> in_calendar now \<and> pg_text env i \<and>
     pg_jsonb env (JDict d) = Some (JDict d) \<and> in_calendar at_time"
| "call_fits env s (Cancel now tenant i) \<longleftrightarrow> in_calendar now \<and> list_all (pg_text env) [tenant, i] \<and>
     (\<forall>t\<in>set (all_tasks s). t_state t \<notin> terminal_states \<longrightarrow> t_finished_at t = None)"




lemma recorded_agrees:
  assumes env: "utc_session env" and rep: "represents db s" and now: "in_calendar now" and i: "pg_text env i"
    and change: "change now = Inr f"
    and f: "\<And>r. row_ok r \<Longrightarrow> row_ok (f r) \<and> task_of_row (f r) = g (task_of_row r)" "keeps_identity g"
  shows "\<exists>db'. answered_with Recorded (pg_record env clock i (iso_text_of now) change db) =
      (db', snd (recorded (modify_task g i s) s)) \<and> represents db' (fst (recorded (modify_task g i s) s))"
  using pg_record_agrees [where clock = clock and change = change and f = f and g = g, OF env rep now i change f] rep
  by (auto simp: answered_with_def recorded_def split: sum.splits)

lemma row_change:
  assumes "row_ok r" "keeps_identity g" "task_of_row r' = g (task_of_row r)"
    and "wf_task (task_of_row r') \<Longrightarrow> row_ok r'"
  shows "row_ok r' \<and> task_of_row r' = g (task_of_row r)"
  using assms by (simp add: keeps_identity_def row_ok_def)

lemma call_agrees:
  assumes env: "utc_session env" and rep: "represents db s" and fits: "call_fits env s c"
  shows "\<exists>db'. postgres_call env clock c db = (db', snd (memory_call c s)) \<and> represents db' (fst (memory_call c s))"
proof (cases c)
  case (Submit draws qs)
  then have fresh: "fresh_env (memory_supply draws) 0 (length qs) s" using fits by simp
  have same: "represents (db\<lparr>task_rows := task_rows db\<rparr>) s" using rep by simp
  then obtain rows' s' acc reu where "submit_loop (memory_supply draws) 0 qs s = Inr (s', acc, reu)"
    "pg_submit_loop env clock (text_supply draws) 0 qs (task_rows db) = Inr (rows', acc, reu)"
    "represents (db\<lparr>task_rows := rows'\<rparr>) s'"
    using pg_submit_loop_agrees [OF env same fresh, of clock] fits Submit by auto
  then show ?thesis using Submit by (simp add: submit_many_def pg_submit_many_def)
next
  case (Claim now model)
  then have "\<forall>r\<in>set (task_rows db). c_attempt_count r < 2147483647"
    using fits by (simp add: representsD(1) [OF rep])
  from pg_claim_agrees [OF env rep _ this, of now model clock] fits Claim show ?thesis
    by (auto simp: answered_with_def)
next
  case (RecordResult now i d)
  let ?f = "\<lambda>r. r\<lparr>c_state := ''succeeded'', c_result_json := Some (JDict d), c_error_json := None,
     c_next_attempt_at := None, c_finished_at := Some now, c_updated_at := now\<rparr>"
  have k: "keeps_identity (succeed_task (iso_text_of now) d)" by (simp add: keeps_identity_succeed)
  show ?thesis
    unfolding RecordResult postgres_call.simps memory_call.simps pg_record_result_def record_result_def
  proof (rule recorded_agrees [where f = ?f, OF env rep _ _ _ row_change [OF _ k] k])
    show "task_of_row (?f r) = succeed_task (iso_text_of now) d (task_of_row r)" for r
      by (simp add: task_of_row_def succeed_task_def dict_of_def)
  qed (use fits RecordResult in \<open>simp_all add: read_jsonb_def row_ok_def is_object_def\<close>)
next
  case (RecordError now i d)
  let ?f = "\<lambda>r. r\<lparr>c_state := ''failed'', c_error_json := Some (JDict d),
     c_next_attempt_at := None, c_finished_at := Some now, c_updated_at := now\<rparr>"
  have k: "keeps_identity (fail_task (iso_text_of now) d)" by (simp add: keeps_identity_fail)
  show ?thesis
    unfolding RecordError postgres_call.simps memory_call.simps pg_record_error_def record_error_def
  proof (rule recorded_agrees [where f = ?f, OF env rep _ _ _ row_change [OF _ k] k])
    show "task_of_row (?f r) = fail_task (iso_text_of now) d (task_of_row r)" for r
      by (simp add: task_of_row_def fail_task_def dict_of_def)
  qed (use fits RecordError in \<open>simp_all add: read_jsonb_def row_ok_def is_object_def\<close>)
next
  case (RecordRetry now i d at_time)
  let ?f = "\<lambda>r. r\<lparr>c_state := ''queued'', c_error_json := Some (JDict d),
     c_next_attempt_at := Some at_time, c_updated_at := now\<rparr>"
  have k: "keeps_identity (retry_task (iso_text_of now) d (iso_text_of at_time))" by (simp add: keeps_identity_retry)
  show ?thesis
    unfolding RecordRetry postgres_call.simps memory_call.simps pg_record_retry_def record_retry_def
  proof (rule recorded_agrees [where f = ?f, OF env rep _ _ _ row_change [OF _ k] k])
    show "task_of_row (?f r) = retry_task (iso_text_of now) d (iso_text_of at_time) (task_of_row r)" for r
      by (simp add: task_of_row_def retry_task_def dict_of_def)
  qed (use fits RecordRetry in \<open>simp_all add: read_jsonb_def row_ok_def is_object_def read_timestamp_iso [OF env]\<close>)
next
  case (Cancel now tenant i)
  then have "\<forall>r\<in>set (task_rows db). c_state r \<notin> terminal_states \<longrightarrow> c_finished_at r = None"
    using fits by (simp add: representsD(1) [OF rep])
  from pg_cancel_agrees [OF env rep _ _ this, of now tenant i clock] fits Cancel show ?thesis
    by (auto simp: answered_with_def split_beta)
qed



definition plain_session :: session where
  "plain_session = \<lparr>pg_show = iso_text_of,
     pg_read = (\<lambda>s. map_option (\<lambda>p. Timestamptz (to_utc p)) (from_isoformat s)),
     pg_collation = (\<lambda>s. s), pg_text = (\<lambda>s. CHR 0x00 \<notin> set s), pg_jsonb = Some,
     pg_loads = (\<lambda>_. Inl (JSONDecodeError []))\<rparr>"

definition sample_draws :: "nat \<Rightarrow> string \<times> timestamptz" where
  "sample_draws j = (nat_digits j, Timestamptz (to_utc (the (from_isoformat early))))"

definition noon_at :: timestamptz where "noon_at = Timestamptz noon_us"


lemma plain_session_utc: "utc_session plain_session"
  by (simp add: utc_session_def plain_session_def iso_text_of_def in_calendar_def from_isoformat_iso_format
      to_utc_def)

lemma sample_draws_env: "memory_supply sample_draws = sample_env"
proof -
  have "iso_text_of (Timestamptz (to_utc (the (from_isoformat early)))) = early" by code_simp
  then show ?thesis by (simp add: fun_eq_iff memory_supply_def sample_draws_def sample_env_def)
qed

lemma noon_at_text: "iso_text_of noon_at = noon" "in_calendar noon_at"
  by code_simp+

lemma empty_represents: "represents \<lparr>schema_metadata = [], task_rows = []\<rparr> empty_store"
  by (simp add: represents_def empty_store_inv) (simp add: empty_store_def all_tasks_def)

lemma sample_submitted: "submit_many sample_env [q1, q2] empty_store = Inr (sample_store, [task1, task2], [])"
  by code_simp

lemma pred_option_code [code]: "pred_option p None \<longleftrightarrow> True" "pred_option p (Some x) \<longleftrightarrow> p x"
  by simp_all

lemma sample_submit_fits: "call_fits plain_session empty_store (Submit sample_draws [q1, q2])"
proof -
  have "\<forall>q\<in>set [q1, q2]. wf_queue_task q \<and> fits_columns plain_session q" by code_simp
  moreover have "in_calendar (snd (sample_draws j))" for j
    unfolding sample_draws_def by code_simp
  moreover have "pg_text plain_session (''task_'' @ fst (sample_draws 0))"
    "pg_text plain_session (''task_'' @ fst (sample_draws 1))"
    by code_simp+
  ultimately show ?thesis
    using sample_fresh by (simp add: sample_draws_env less_2_cases_iff numeral_2_eq_2 [symmetric] del: One_nat_def)
      (auto simp: less_2_cases_iff)
qed



section \<open>Several workers\<close>

lemma first_by_mem: "first_by f xs = Some x \<Longrightarrow> x \<in> set xs"
  by (rule first_by_Some [THEN conjunct1])

lemma next_task_Some:
  assumes "next_task env locked model now rows = Some r"
  shows "r \<in> set rows" "runnable model now r" "c_task_id r \<notin> locked"
  using assms by (auto simp: next_task_def Let_def split: option.splits dest!: first_by_mem)

definition empty_db :: database where "empty_db = \<lparr>schema_metadata = [], task_rows = []\<rparr>"

definition sample_db :: database where
  "sample_db = (case pg_submit_many plain_session (noon, noon) (text_supply sample_draws) [q1, q2] empty_db of
     Inl _ \<Rightarrow> empty_db | Inr (db, _) \<Rightarrow> db)"

lemma sample_db_represents: "represents sample_db sample_store"
proof -
  have "represents empty_db empty_store" using empty_represents by (simp add: empty_db_def)
  from call_agrees [OF plain_session_utc this sample_submit_fits, of "(noon, noon)"] show ?thesis
    by (auto simp: sample_draws_env sample_submitted sample_db_def split: sum.splits prod.splits)
qed

text \<open>Whatever rows other workers have locked and however the session is set up, a claim that returns a
  task took a runnable row nobody had locked, counted the attempt and marked it running, and left
  every other row as it was.\<close>

theorem claims_are_exclusive:
  assumes "pg_claim_next env clock locked now model db = (db', Inr (Some t))"
  shows "\<exists>r r' now_t. pg_read env now = Some now_t \<and> r \<in> set (task_rows db) \<and> runnable model now_t r \<and>
    c_task_id r \<notin> locked \<and> claimed_row now_t r = Inr r' \<and> stored_task_from_row env clock r' = Inr t \<and>
    task_rows db' = map (\<lambda>x. if c_task_id x = c_task_id r then r' else x) (task_rows db)"
proof -
  obtain now_t where now: "pg_read env now = Some now_t"
    using assms by (cases "pg_read env now")
      (auto simp: pg_claim_next_def read_timestamp_def check_texts_def split: if_splits)
  obtain r where r: "next_task env locked model now_t (task_rows db) = Some r"
    using assms by (cases "next_task env locked model now_t (task_rows db)")
      (auto simp: pg_claim_next_def read_timestamp_def check_texts_def now optional_row_def split: if_splits)
  obtain r' where r': "claimed_row now_t r = Inr r'"
    using assms by (cases "claimed_row now_t r")
      (auto simp: pg_claim_next_def read_timestamp_def check_texts_def now r split: if_splits)
  note mem = next_task_Some [OF r]
  have "update_row (\<lambda>x. c_task_id x = c_task_id r) (\<lambda>_. r') db =
      (db\<lparr>task_rows := map (\<lambda>x. if c_task_id x = c_task_id r then r' else x) (task_rows db)\<rparr>, Some r')"
    using mem(1) by (cases "List.find (\<lambda>x. c_task_id x = c_task_id r) (task_rows db)")
      (auto simp: update_row_def find_None_iff)
  then have "optional_row env clock (Some r') = Inr (Some t)"
    "task_rows db' = map (\<lambda>x. if c_task_id x = c_task_id r then r' else x) (task_rows db)"
    using assms by (auto simp: pg_claim_next_def read_timestamp_def check_texts_def now r r' split: if_splits)
  then show ?thesis using now mem r' by (auto simp: optional_row_def res_iff)
qed

lemma sample_db_claim:
  "\<exists>db'. pg_claim_next plain_session (noon, noon) {} noon None sample_db = (db', Inr (Some running1))"
proof -
  have "\<forall>t\<in>set (all_tasks sample_store). t_attempt_count t < 2147483647" by code_simp
  then have "\<forall>r\<in>set (task_rows sample_db). c_attempt_count r < 2147483647"
    by (simp add: representsD(1) [OF sample_db_represents])
  from pg_claim_agrees [OF plain_session_utc sample_db_represents noon_at_text(2) this, of None "(noon, noon)"]
  show ?thesis by (simp add: noon_at_text) (auto simp: noon_at_def sample_claims)
qed

theorem claims_are_exclusive_witness:
  "\<exists>(db' :: database) r r' now_t. pg_read plain_session noon = Some now_t \<and> r \<in> set (task_rows sample_db) \<and>
    runnable None now_t r \<and> c_task_id r \<notin> {} \<and> claimed_row now_t r = Inr r' \<and>
    stored_task_from_row plain_session (noon, noon) r' = Inr running1 \<and>
    task_rows db' = map (\<lambda>x. if c_task_id x = c_task_id r then r' else x) (task_rows sample_db)"
proof -
  obtain db' where "pg_claim_next plain_session (noon, noon) {} noon None sample_db = (db', Inr (Some running1))"
    using sample_db_claim by blast
  from claims_are_exclusive [OF this] show ?thesis by (rule exI [of _ db'])
qed



section \<open>The schema\<close>

text \<open>The store opens exactly when a data source is named and the database records no schema version
  or an integer of at most 2; the tasks stay as they are, the version becomes 2, and opening the
  database again changes nothing.\<close>

theorem only_known_schemas_are_opened:
  "((\<exists>db'. open_postgres_store dsn True db = Inr db') \<longleftrightarrow> dsn \<noteq> [] \<and>
      (case map_of (schema_metadata db) TASK_STORE_SCHEMA_KEY of None \<Rightarrow> True
       | Some v \<Rightarrow> (\<exists>n. py_int (JStr v) = Inr n \<and> n \<le> 2))) \<and>
   (open_postgres_store dsn True db = Inr db' \<longrightarrow> task_rows db' = task_rows db \<and>
      read_schema_version db' = Inr (Some 2) \<and> open_postgres_store dsn True db' = Inr db')"
proof (intro conjI impI)
  show "(\<exists>db'. open_postgres_store dsn True db = Inr db') \<longleftrightarrow> dsn \<noteq> [] \<and>
      (case map_of (schema_metadata db) TASK_STORE_SCHEMA_KEY of None \<Rightarrow> True
       | Some v \<Rightarrow> (\<exists>n. py_int (JStr v) = Inr n \<and> n \<le> 2))"
    by (auto simp: open_postgres_store_def ensure_schema_def read_schema_version_def
        TASK_STORE_SCHEMA_VERSION_def not_less split: option.splits sum.splits)
  assume o: "open_postgres_store dsn True db = Inr db'"
  then have db': "db' = write_schema_version 2 db" "dsn \<noteq> []"
    by (auto simp: open_postgres_store_def ensure_schema_def res_iff TASK_STORE_SCHEMA_VERSION_def
        split: option.splits if_splits)
  have two: "py_int (JStr (str_int 2)) = Inr 2" by code_simp
  show "task_rows db' = task_rows db" by (simp add: db' write_schema_version_def)
  have look: "map_of (schema_metadata db') TASK_STORE_SCHEMA_KEY = Some (str_int 2)"
    by (simp add: db' write_schema_version_def update_conv')
  with two show v: "read_schema_version db' = Inr (Some 2)" by (simp only: read_schema_version_def option.case sum.case)
  have "write_schema_version 2 db' = db'"
    by (simp add: db' write_schema_version_def)
  with v db'(2) show "open_postgres_store dsn True db' = Inr db'"
    by (simp add: open_postgres_store_def ensure_schema_def TASK_STORE_SCHEMA_VERSION_def)
qed

theorem only_known_schemas_are_opened_witness:
  "task_rows (write_schema_version 2 empty_db) = task_rows empty_db \<and>
   open_postgres_store ''postgresql://db'' True (write_schema_version 2 empty_db) = Inr (write_schema_version 2 empty_db)"
proof -
  have "open_postgres_store ''postgresql://db'' True empty_db = Inr (write_schema_version 2 empty_db)"
    by (simp add: open_postgres_store_def ensure_schema_def read_schema_version_def TASK_STORE_SCHEMA_VERSION_def
        empty_db_def)
  with only_known_schemas_are_opened show ?thesis by blast
qed

end
