(* ===== verification/Task_Api.thy ===== *)
theory Task_Api
  imports Task_Executor Proxy
begin

text \<open>
  The HTTP handlers for durable tasks of \<open>queue_proxy/main.py\<close>, over any provider of the
  \<open>TaskStore\<close> protocol: submission, listing, explanation, reading and cancelling, with the
  authentication, the tenant of a request, and the delayed reconciliation of an empty queue. A
  handler returns the new state, the reply, and the payloads it posted to the reconcile (or
  explain) endpoint of the lifecycle service. The encoder of JSON bodies is the framework's and an
  argument, as are the parsed request body, the query parameters (as the framework presents them)
  and the answer of the lifecycle service.
\<close>

section \<open>State and replies\<close>

datatype idle_task = Sleeping | Ended

record 's api =
  ap_store :: 's
  ap_idle :: "idle_task option"

datatype api_reply = Answered int dict | Refused response

type_synonym encoder = "dict \<Rightarrow> unit res"

definition json_response :: "encoder \<Rightarrow> int \<Rightarrow> dict \<Rightarrow> api_reply" where
  "json_response enc code content = (case enc content of
       Inr _ \<Rightarrow> Answered code content
     | Inl e \<Rightarrow> Refused (Raised e))"

definition validate_proxy_auth :: "settings \<Rightarrow> headers \<Rightarrow> response option" where
  "validate_proxy_auth st hs =
     (if header hs ''authorization'' \<noteq> ''Bearer '' @ queue_proxy_api_key st then Some unauthorized else None)"

text \<open>The first lines of every handler.\<close>

definition with_auth ::
  "settings \<Rightarrow> headers \<Rightarrow> 's api \<Rightarrow> 's api \<times> api_reply \<times> dict list \<Rightarrow> 's api \<times> api_reply \<times> dict list" where
  "with_auth st hs a result =
     (if queue_proxy_api_key st \<noteq> [] then
        (case validate_proxy_auth st hs of Some r \<Rightarrow> (a, Refused r, []) | None \<Rightarrow> result)
      else result)"

definition tenant_from_request :: "headers \<Rightarrow> headers \<Rightarrow> string option" where
  "tenant_from_request query hs =
     (let given = (case map_of query ''tenant'' of
            Some s \<Rightarrow> if s \<noteq> [] then Some s else map_of hs ''x-tenant-id''
          | None \<Rightarrow> map_of hs ''x-tenant-id'')
      in case given of
           None \<Rightarrow> None
         | Some s \<Rightarrow> if strip s = [] then None else Some (strip s))"

definition missing_tenant_response :: response where
  "missing_tenant_response = ErrorResponse 400 ''missing_tenant''
     ''Task status requests require tenant query parameter or X-Tenant-ID header.''"

definition task_not_found :: response where
  "task_not_found = ErrorResponse 404 ''task_not_found'' ''Task was not found for this tenant.''"

definition invalid_limit :: response where
  "invalid_limit = ErrorResponse 400 ''invalid_task_query'' ''limit must be an integer.''"

definition query_limit :: "headers \<Rightarrow> string \<Rightarrow> int \<Rightarrow> int option" where
  "query_limit query default_text most =
     (case py_int (JStr (case map_of query ''limit'' of None \<Rightarrow> default_text | Some s \<Rightarrow> s)) of
        Inl _ \<Rightarrow> None
      | Inr n \<Rightarrow> Some (max 1 (min n most)))"

definition lengths_json :: "(string \<times> int) list \<Rightarrow> json" where
  "lengths_json lengths = JDict (map (\<lambda>(m, n). (m, JInt n)) lengths)"

definition plans_json :: "(string \<times> dict) list \<Rightarrow> json" where
  "plans_json plans = JDict (map (\<lambda>(m, d). (m, JDict d)) plans)"

definition summaries :: "bool \<Rightarrow> stored_task list \<Rightarrow> json list" where
  "summaries reused ts = map (\<lambda>t. JDict (to_summary reused t)) ts"

section \<open>The delayed reconciliation of an empty queue\<close>

text \<open>A task that sleeps and has not been cancelled, or one that has ended; a cancelled one is gone.\<close>

definition schedule_idle_reconcile_if_empty :: "settings \<Rightarrow> (string \<times> int) list \<Rightarrow> 's api \<Rightarrow> 's api" where
  "schedule_idle_reconcile_if_empty st lengths a =
     (if lengths \<noteq> [] then a\<lparr>ap_idle := None\<rparr>
      else if \<not> registry_client_configured st then a
      else a\<lparr>ap_idle := Some Sleeping\<rparr>)"

definition posted :: "settings \<Rightarrow> (string \<times> int) list \<Rightarrow> (string \<times> dict) list \<Rightarrow> dict list" where
  "posted st lengths plans = (if registry_client_configured st then [reconcile_payload lengths plans] else [])"

text \<open>\<open>delayed_idle_reconcile\<close> after its sleep.\<close>

definition delayed_idle_reconcile :: "'s task_store_ops \<Rightarrow> settings \<Rightarrow> 's api \<Rightarrow> 's api \<times> dict list" where
  "delayed_idle_reconcile ops st a =
     (if ap_idle a \<noteq> Some Sleeping then (a, [])
      else (a\<lparr>ap_idle := Some Ended\<rparr>,
        if op_queue_lengths ops (ap_store a) \<noteq> [] then []
        else (case op_context_plans ops (ap_store a) of
            Inl _ \<Rightarrow> []
          | Inr plans \<Rightarrow> posted st (op_queue_lengths ops (ap_store a)) plans)))"

section \<open>The handlers\<close>

definition submit_task_queue ::
  "'s task_store_ops \<Rightarrow> settings \<Rightarrow> encoder \<Rightarrow> submit_env \<Rightarrow> http_reply \<Rightarrow> headers \<Rightarrow> json res \<Rightarrow> 's api \<Rightarrow>
     's api \<times> api_reply \<times> dict list" where
  "submit_task_queue ops st enc env reply hs body a = with_auth st hs a
     (case bind_res body parse_task_queue_payload of
        Inl (TaskProtocolError msg) \<Rightarrow> (a, Refused (ErrorResponse 400 ''invalid_task_protocol'' msg), [])
      | Inl (JSONDecodeError msg) \<Rightarrow>
          (a, Refused (ErrorResponse 400 ''invalid_json'' (''Invalid JSON request body: '' @ msg)), [])
      | Inl e \<Rightarrow> (a, Refused (policy_error_handler e), [])
      | Inr tasks \<Rightarrow> (case op_submit_many ops env tasks (ap_store a) of
          Inl e \<Rightarrow> (a, Refused (policy_error_handler e), [])
        | Inr (s, accepted, reused) \<Rightarrow>
            (let lengths = op_queue_lengths ops s in
             case op_context_plans ops s of
               Inl e \<Rightarrow> (a\<lparr>ap_store := s\<rparr>, Refused (policy_error_handler e), [])
             | Inr plans \<Rightarrow> (case reconcile_capacity st reply of
                 Inl e \<Rightarrow> (a\<lparr>ap_store := s\<rparr>, Refused (policy_error_handler e), posted st lengths plans)
               | Inr capacity \<Rightarrow>
                   (schedule_idle_reconcile_if_empty st lengths (a\<lparr>ap_store := s\<rparr>),
                    json_response enc 202
                      [(''accepted_tasks'', JInt (int (length accepted))),
                       (''reused_tasks'', JInt (int (length reused))),
                       (''queue_lengths'', lengths_json lengths),
                       (''context_plans'', plans_json plans),
                       (''tasks'', JList (summaries False accepted @ summaries True reused)),
                       (''capacity'', JDict capacity)],
                    posted st lengths plans)))))"

definition list_tasks_handler ::
  "'s task_store_ops \<Rightarrow> settings \<Rightarrow> encoder \<Rightarrow> headers \<Rightarrow> headers \<Rightarrow> 's api \<Rightarrow> 's api \<times> api_reply \<times> dict list" where
  "list_tasks_handler ops st enc query hs a = with_auth st hs a
     (case tenant_from_request query hs of
        None \<Rightarrow> (a, Refused missing_tenant_response, [])
      | Some tenant \<Rightarrow> (case query_limit query ''100'' 500 of
          None \<Rightarrow> (a, Refused invalid_limit, [])
        | Some limit \<Rightarrow>
            (a, json_response enc 200 [(''tasks'', JList (summaries False
               (op_list_tasks ops (ap_store a) tenant (map_of query ''state'') (map_of query ''model'') limit)))], [])))"

definition explain_tasks_handler ::
  "'s task_store_ops \<Rightarrow> settings \<Rightarrow> encoder \<Rightarrow> http_reply \<Rightarrow> headers \<Rightarrow> headers \<Rightarrow> 's api \<Rightarrow>
     's api \<times> api_reply \<times> dict list" where
  "explain_tasks_handler ops st enc reply query hs a = with_auth st hs a
     (case tenant_from_request query hs of
        None \<Rightarrow> (a, Refused missing_tenant_response, [])
      | Some tenant \<Rightarrow> (case query_limit query ''500'' 1000 of
          None \<Rightarrow> (a, Refused invalid_limit, [])
        | Some limit \<Rightarrow>
            (let tasks = op_list_tasks ops (ap_store a) tenant (Some ''queued'') (map_of query ''model'') limit;
                 lengths = queue_lengths_for_tasks tasks in
             case context_plans_for_tasks tasks of
               Inl e \<Rightarrow> (a, Refused (policy_error_handler e), [])
             | Inr plans \<Rightarrow> (case explain_capacity st reply of
                 Inl e \<Rightarrow> (a, Refused (policy_error_handler e), posted st lengths plans)
               | Inr capacity \<Rightarrow>
                   (a, json_response enc 200
                      [(''tenant'', JStr tenant), (''scope'', JStr ''tenant_queued_tasks''),
                       (''queue_lengths'', lengths_json lengths),
                       (''context_plans'', plans_json plans),
                       (''tasks'', JList (summaries False tasks)),
                       (''capacity'', JDict capacity)],
                    posted st lengths plans)))))"

definition get_task_handler ::
  "'s task_store_ops \<Rightarrow> settings \<Rightarrow> encoder \<Rightarrow> string \<Rightarrow> headers \<Rightarrow> headers \<Rightarrow> 's api \<Rightarrow> 's api \<times> api_reply \<times> dict list" where
  "get_task_handler ops st enc i query hs a = with_auth st hs a
     (case tenant_from_request query hs of
        None \<Rightarrow> (a, Refused missing_tenant_response, [])
      | Some tenant \<Rightarrow> (case op_get_task ops (ap_store a) tenant i of
          None \<Rightarrow> (a, Refused task_not_found, [])
        | Some t \<Rightarrow> (a, json_response enc 200 (to_detail t), [])))"

text \<open>The reconciliation after a cancellation: its result is dropped, an exception is not.\<close>

definition reconcile_after ::
  "'s task_store_ops \<Rightarrow> settings \<Rightarrow> http_reply \<Rightarrow> 's api \<Rightarrow> 's api \<times> unit res \<times> dict list" where
  "reconcile_after ops st reply a =
     (let lengths = op_queue_lengths ops (ap_store a) in
      case op_context_plans ops (ap_store a) of
        Inl e \<Rightarrow> (a, Inl e, [])
      | Inr plans \<Rightarrow> (case reconcile_capacity st reply of
          Inl e \<Rightarrow> (a, Inl e, posted st lengths plans)
        | Inr _ \<Rightarrow> (schedule_idle_reconcile_if_empty st lengths a, Inr (), posted st lengths plans)))"

definition cancel_task_handler ::
  "'s task_store_ops \<Rightarrow> settings \<Rightarrow> encoder \<Rightarrow> string \<Rightarrow> http_reply \<Rightarrow> string \<Rightarrow> headers \<Rightarrow> headers \<Rightarrow> 's api \<Rightarrow>
     's api \<times> api_reply \<times> dict list" where
  "cancel_task_handler ops st enc now reply i query hs a = with_auth st hs a
     (case tenant_from_request query hs of
        None \<Rightarrow> (a, Refused missing_tenant_response, [])
      | Some tenant \<Rightarrow> (case op_cancel_task ops now tenant i (ap_store a) of
          (s, None) \<Rightarrow> (a\<lparr>ap_store := s\<rparr>, Refused task_not_found, [])
        | (s, Some t) \<Rightarrow>
            if t_state t = ''cancelled'' then
              (case reconcile_after ops st reply (a\<lparr>ap_store := s\<rparr>) of
                 (a', Inl e, ps) \<Rightarrow> (a', Refused (policy_error_handler e), ps)
               | (a', Inr _, ps) \<Rightarrow> (a', json_response enc 200 (to_detail t), ps))
            else (a\<lparr>ap_store := s\<rparr>, json_response enc 200 (to_detail t), [])))"

definition health :: "string \<Rightarrow> dict" where
  "health service_name = [(''service'', JStr service_name), (''status'', JStr ''healthy'')]"

definition ready :: "string \<Rightarrow> settings \<Rightarrow> string list \<Rightarrow> dict" where
  "ready service_name st models = [(''service'', JStr service_name), (''status'', JStr ''healthy''),
     (''upstream_base_url'', JStr (upstream_base_url st)),
     (''backend_registry_url'', JStr (backend_registry_url st)),
     (''backend_registry_routing'', JBool (enable_backend_registry_routing st)),
     (''models'', JList (map JStr (sort models)))]"

definition proxy_status :: "limiters \<Rightarrow> dict" where
  "proxy_status ls = [(''models'', JList (map (\<lambda>x. JDict
     [(''model'', JStr (snap_model x)), (''active_requests'', JInt (snap_active x)),
      (''queued_requests'', JInt (snap_queued x)), (''max_active_requests'', JInt (snap_max_active x)),
      (''max_queued_requests'', JInt (snap_max_queued x))]) (snapshots ls)))]"

end
