(* ===== verification/Gpu_Inventory.thy ===== *)
theory Gpu_Inventory
  imports Py_Float
begin

text \<open>
  The GPU inventory service: \<open>gpu_inventory/models.py\<close>, \<open>nvidia_smi.py\<close> and the handlers of
  \<open>main.py\<close>. The CSV reader is the one of the standard library in its default dialect, as the state
  machine it is, fed line by line. How the run of \<open>nvidia-smi\<close> ends and what \<open>json.loads\<close>
  makes of the configured text are arguments.
\<close>

section \<open>Models\<close>

record inv_gpu =
  ig_id :: string
  ig_index :: int
  ig_name :: string
  ig_total_mb :: int
  ig_used_mb :: int
  ig_utilization :: "int option"
  ig_temperature :: "int option"
  ig_source :: string

definition memory_free_mb :: "inv_gpu \<Rightarrow> int" where
  "memory_free_mb g = max 0 (ig_total_mb g - ig_used_mb g)"

definition opt_json :: "int option \<Rightarrow> json" where
  "opt_json x = (case x of None \<Rightarrow> JNull | Some n \<Rightarrow> JInt n)"

definition inv_gpu_to_dict :: "inv_gpu \<Rightarrow> dict" where
  "inv_gpu_to_dict g = [(''id'', JStr (ig_id g)), (''index'', JInt (ig_index g)), (''name'', JStr (ig_name g)),
     (''memory_total_mb'', JInt (ig_total_mb g)), (''memory_used_mb'', JInt (ig_used_mb g)),
     (''utilization_gpu_percent'', opt_json (ig_utilization g)),
     (''temperature_gpu_celsius'', opt_json (ig_temperature g)),
     (''source'', JStr (ig_source g)), (''memory_free_mb'', JInt (memory_free_mb g))]"

record inventory_snapshot =
  sn_gpus :: "inv_gpu list"
  sn_source :: string

definition snapshot_to_dict :: "inventory_snapshot \<Rightarrow> dict" where
  "snapshot_to_dict s = [(''source'', JStr (sn_source s)), (''gpu_count'', JInt (int (length (sn_gpus s)))),
     (''gpus'', JList (map (JDict \<circ> inv_gpu_to_dict) (sn_gpus s)))]"

section \<open>The CSV reader\<close>

datatype csv_mode = StartRecord | StartField | InField | InQuoted | QuoteInQuoted | EatNewline

record csv_state =
  cs_mode :: csv_mode
  cs_field :: string
  cs_row :: "string list"

definition csv_start :: csv_state where
  "csv_start = \<lparr>cs_mode = StartRecord, cs_field = [], cs_row = []\<rparr>"

definition save_field :: "csv_mode \<Rightarrow> csv_state \<Rightarrow> csv_state" where
  "save_field m c = \<lparr>cs_mode = m, cs_field = [], cs_row = cs_row c @ [cs_field c]\<rparr>"

definition add_char :: "csv_mode \<Rightarrow> char \<Rightarrow> csv_state \<Rightarrow> csv_state res" where
  "add_char m x c =
     (if 131072 \<le> length (cs_field c) then Inl (CsvError ''field larger than field limit (131072)'')
      else Inr (c\<lparr>cs_mode := m, cs_field := cs_field c @ [x]\<rparr>))"

definition is_newline :: "char \<Rightarrow> bool" where
  "is_newline x \<longleftrightarrow> x = CHR 0x0A \<or> x = CHR 0x0D"

text \<open>A character, or \<open>None\<close> for the end of the line that was fed.\<close>

definition start_field :: "csv_state \<Rightarrow> char option \<Rightarrow> csv_state res" where
  "start_field c x = (case x of
       None \<Rightarrow> Inr (save_field StartRecord c)
     | Some y \<Rightarrow>
         if is_newline y then Inr (save_field EatNewline c)
         else if y = CHR 0x22 then Inr (c\<lparr>cs_mode := InQuoted\<rparr>)
         else if y = CHR '','' then Inr (save_field StartField c)
         else add_char InField y c)"

fun csv_char :: "csv_mode \<Rightarrow> csv_state \<Rightarrow> char option \<Rightarrow> csv_state res" where
  "csv_char StartRecord c x = (case x of
       None \<Rightarrow> Inr c
     | Some y \<Rightarrow> if is_newline y then Inr (c\<lparr>cs_mode := EatNewline\<rparr>) else start_field c x)"
| "csv_char StartField c x = start_field c x"
| "csv_char InField c x = (case x of
       None \<Rightarrow> Inr (save_field StartRecord c)
     | Some y \<Rightarrow>
         if is_newline y then Inr (save_field EatNewline c)
         else if y = CHR '','' then Inr (save_field StartField c)
         else add_char InField y c)"
| "csv_char InQuoted c x = (case x of
       None \<Rightarrow> Inr c
     | Some y \<Rightarrow> if y = CHR 0x22 then Inr (c\<lparr>cs_mode := QuoteInQuoted\<rparr>) else add_char InQuoted y c)"
| "csv_char QuoteInQuoted c x = (case x of
       None \<Rightarrow> Inr (save_field StartRecord c)
     | Some y \<Rightarrow>
         if y = CHR 0x22 then add_char InQuoted y c
         else if y = CHR '','' then Inr (save_field StartField c)
         else if is_newline y then Inr (save_field EatNewline c)
         else add_char InField y c)"
| "csv_char EatNewline c x = (case x of
       None \<Rightarrow> Inr (c\<lparr>cs_mode := StartRecord\<rparr>)
     | Some y \<Rightarrow> if is_newline y then Inr c
         else Inl (CsvError ''new-line character seen in unquoted field''))"

fun feed_line :: "csv_state \<Rightarrow> string \<Rightarrow> csv_state res" where
  "feed_line c [] = csv_char (cs_mode c) c None"
| "feed_line c (x # xs) = bind_res (csv_char (cs_mode c) c (Some x)) (\<lambda>c'. feed_line c' xs)"

text \<open>The lines of a text file: each keeps its line feed.\<close>

fun file_lines :: "string \<Rightarrow> string list" where
  "file_lines [] = []"
| "file_lines (x # xs) =
     (if x = CHR 0x0A then [x] # file_lines xs
      else (case file_lines xs of [] \<Rightarrow> [[x]] | l # ls \<Rightarrow> (x # l) # ls))"

section \<open>nvidia_smi.py\<close>

definition smi_optional_int :: "json \<Rightarrow> int option res" where
  "smi_optional_int v =
     (if v = JNull \<or> v = JStr [] \<or> v = JStr ''N/A'' \<or> v = JStr ''[N/A]'' then Inr None
      else bind_res (py_int v) (\<lambda>n. Inr (Some n)))"

definition parse_optional_int :: "string list \<Rightarrow> nat \<Rightarrow> int option res" where
  "parse_optional_int values i = (if length values \<le> i then Inr None else smi_optional_int (JStr (values ! i)))"

text \<open>One row of the reader: an empty one is skipped.\<close>

definition gpu_row :: "string list \<Rightarrow> inv_gpu option res" where
  "gpu_row row =
     (if row = [] then Inr None
      else (let cleaned = map strip row in
        if length cleaned < 4 then
          Inl (GpuInventoryError (''Unexpected nvidia-smi row: '' @ py_repr (JList (map JStr row))))
        else
          bind_res (py_int (JStr (cleaned ! 0))) (\<lambda>index.
          bind_res (py_int (JStr (cleaned ! 2))) (\<lambda>total.
          bind_res (py_int (JStr (cleaned ! 3))) (\<lambda>used.
          bind_res (parse_optional_int cleaned 4) (\<lambda>util.
          bind_res (parse_optional_int cleaned 5) (\<lambda>temp.
          Inr (Some \<lparr>ig_id = ''gpu'' @ str_int index, ig_index = index, ig_name = cleaned ! 1,
            ig_total_mb = total, ig_used_mb = used, ig_utilization = util, ig_temperature = temp,
            ig_source = ''nvidia-smi''\<rparr>))))))))"

definition gpu_cons :: "inv_gpu option \<Rightarrow> inv_gpu list \<Rightarrow> inv_gpu list" where
  "gpu_cons g gs = (case g of None \<Rightarrow> gs | Some g \<Rightarrow> g # gs)"

text \<open>The loop over the reader: a record is handled as soon as its last line was fed. When the input
  ends inside a record, the fields read so far are the last row.\<close>

fun gpu_rows :: "csv_state \<Rightarrow> string list \<Rightarrow> inv_gpu list res" where
  "gpu_rows c [] =
     (if cs_field c \<noteq> [] \<or> cs_mode c = InQuoted
      then bind_res (gpu_row (cs_row c @ [cs_field c])) (\<lambda>g. Inr (gpu_cons g []))
      else Inr [])"
| "gpu_rows c (l # ls) = bind_res (feed_line c l) (\<lambda>c'.
     if cs_mode c' = StartRecord
     then bind_res (gpu_row (cs_row c')) (\<lambda>g. bind_res (gpu_rows csv_start ls) (\<lambda>gs. Inr (gpu_cons g gs)))
     else gpu_rows c' ls)"

definition parse_nvidia_smi_csv :: "string \<Rightarrow> inv_gpu list res" where
  "parse_nvidia_smi_csv output = gpu_rows csv_start (file_lines (strip output))"

fun fake_gpus :: "nat \<Rightarrow> json list \<Rightarrow> inv_gpu list res" where
  "fake_gpus i [] = Inr []"
| "fake_gpus i (v # vs) = (case v of
       JDict item \<Rightarrow>
         bind_res (py_int (dget_or item ''index'' (JInt (int i)))) (\<lambda>index.
         bind_res (py_int (dget_or item ''memory_total_mb''
            (dget_or item ''memory_total'' (dget_or item ''total_mb'' (JInt 0))))) (\<lambda>total.
         bind_res (py_int (dget_or item ''memory_used_mb''
            (dget_or item ''memory_used'' (dget_or item ''used_mb'' (JInt 0))))) (\<lambda>used.
         bind_res (smi_optional_int (dget item ''utilization_gpu_percent'')) (\<lambda>util.
         bind_res (smi_optional_int (dget item ''temperature_gpu_celsius'')) (\<lambda>temp.
         bind_res (fake_gpus (Suc i) vs) (\<lambda>gs.
         Inr (\<lparr>ig_id = py_str (py_or (dget item ''id'') (JStr (''gpu'' @ str_int index))), ig_index = index,
            ig_name = py_str (py_or (dget item ''name'') (JStr ''fake-gpu'')), ig_total_mb = total,
            ig_used_mb = used, ig_utilization = util, ig_temperature = temp, ig_source = ''fake''\<rparr> # gs)))))))
     | _ \<Rightarrow> Inl (GpuInventoryError ''Fake GPU entries must be objects.''))"

text \<open>\<open>get\<close> is called on the decoded value before anything is known of its type.\<close>

definition parse_fake_inventory :: "json res \<Rightarrow> inventory_snapshot res" where
  "parse_fake_inventory loaded = bind_res loaded (\<lambda>payload. case payload of
       JDict d \<Rightarrow> (case dget_or d ''gpus'' (JList []) of
           JList raw \<Rightarrow> bind_res (fake_gpus 0 raw) (\<lambda>gs. Inr \<lparr>sn_gpus = gs, sn_source = ''fake''\<rparr>)
         | _ \<Rightarrow> Inl (GpuInventoryError ''Fake GPU inventory must be a list or object with 'gpus'.''))
     | _ \<Rightarrow> Inl AttributeError)"

text \<open>How the run of \<open>nvidia-smi\<close> ends: with its output, or with an exception that is caught, with the
  text of it.\<close>

datatype smi_run = Printed string | NotFound string | Exited string | Expired string

definition collect_inventory :: "(string \<Rightarrow> json res) \<Rightarrow> smi_run \<Rightarrow> string \<Rightarrow> inventory_snapshot res" where
  "collect_inventory loads run fake =
     (if fake \<noteq> [] then parse_fake_inventory (loads fake)
      else (case run of
          Printed out \<Rightarrow> bind_res (parse_nvidia_smi_csv out)
            (\<lambda>gs. Inr \<lparr>sn_gpus = gs, sn_source = ''nvidia-smi''\<rparr>)
        | NotFound m \<Rightarrow> Inl (GpuInventoryError m)
        | Exited m \<Rightarrow> Inl (GpuInventoryError m)
        | Expired m \<Rightarrow> Inl (GpuInventoryError m)))"

section \<open>The handlers\<close>

text \<open>The answer of \<open>GET /gpus\<close>; any other exception leaves the handler.\<close>

definition gpus_handler :: "(string \<Rightarrow> json res) \<Rightarrow> smi_run \<Rightarrow> string \<Rightarrow> (int \<times> dict) res" where
  "gpus_handler loads run fake = (case collect_inventory loads run fake of
       Inr s \<Rightarrow> Inr (200, snapshot_to_dict s)
     | Inl (GpuInventoryError m) \<Rightarrow> Inr (503, [(''source'', JStr ''unavailable''), (''gpu_count'', JInt 0),
         (''gpus'', JList []), (''error'', JDict [(''type'', JStr ''gpu_inventory_unavailable''),
           (''message'', JStr m)])])
     | Inl e \<Rightarrow> Inl e)"

definition prom_label_value :: "string \<Rightarrow> string" where
  "prom_label_value s = replace_char (CHR 0x22) [CHR 0x5C, CHR 0x22]
     (replace_char (CHR 0x0A) [CHR 0x5C, CHR ''n''] (replace_char (CHR 0x5C) [CHR 0x5C, CHR 0x5C] s))"

definition prom_labels :: "(string \<times> string) list \<Rightarrow> string" where
  "prom_labels kvs = join '','' (map (\<lambda>(n, v). n @ [CHR ''='', CHR 0x22] @ prom_label_value v @ [CHR 0x22]) kvs)"

definition gpu_labels :: "inv_gpu \<Rightarrow> string" where
  "gpu_labels g = [CHR 0x7B] @ prom_labels [(''gpu'', ig_id g), (''index'', str_int (ig_index g)),
     (''name'', ig_name g)] @ [CHR 0x7D]"

definition gpu_metric_lines :: "inv_gpu \<Rightarrow> string list res" where
  "gpu_metric_lines g =
     (let lines = [''gpu_memory_total_bytes'' @ gpu_labels g @ '' '' @ str_int (ig_total_mb g * 1024 * 1024),
                   ''gpu_memory_used_bytes'' @ gpu_labels g @ '' '' @ str_int (ig_used_mb g * 1024 * 1024)] in
      case ig_utilization g of
        None \<Rightarrow> Inr lines
      | Some n \<Rightarrow> (case fl (of_int n / 100) of
            Fin q \<Rightarrow> Inr (lines @ [''gpu_utilization_ratio'' @ gpu_labels g @ '' '' @ float_repr q])
          | _ \<Rightarrow> Inl OverflowError))"

definition gpu_metrics :: "(string \<Rightarrow> json res) \<Rightarrow> smi_run \<Rightarrow> string \<Rightarrow> string res" where
  "gpu_metrics loads run fake = (case collect_inventory loads run fake of
       Inr s \<Rightarrow> bind_res (map_res gpu_metric_lines (sn_gpus s)) (\<lambda>ls.
         Inr (join [CHR 0x0A] (''gpu_inventory_available 1'' # concat ls) @ [CHR 0x0A]))
     | Inl (GpuInventoryError _) \<Rightarrow> Inr (''gpu_inventory_available 0'' @ [CHR 0x0A])
     | Inl e \<Rightarrow> Inl e)"

end
