(* ===== verification/Gpu_Properties.thy ===== *)
theory Gpu_Properties
  imports Gpu_Inventory Lifecycle_Controller
begin

text \<open>
  What the GPU inventory makes of the output of \<open>nvidia-smi\<close>, up to the GPU states the lifecycle
  service plans with: lines of plain fields are read back field by field, and what happens to
  values that are no numbers.
\<close>

section \<open>Lines of plain fields\<close>

definition plain_field :: "string \<Rightarrow> bool" where
  "plain_field f \<longleftrightarrow> (\<forall>x\<in>set f. x \<noteq> CHR '','' \<and> \<not> is_newline x) \<and> (f = [] \<or> hd f \<noteq> CHR 0x22) \<and> length f \<le> 131072"

abbreviation csv_in :: "csv_mode \<Rightarrow> string \<Rightarrow> string list \<Rightarrow> csv_state" where
  "csv_in m f r \<equiv> \<lparr>cs_mode = m, cs_field = f, cs_row = r\<rparr>"

lemma feed_field:
  "\<forall>x\<in>set s. x \<noteq> CHR '','' \<and> \<not> is_newline x \<Longrightarrow> length f + length s \<le> 131072 \<Longrightarrow>
     feed_line (csv_in InField f r) (s @ rest) = feed_line (csv_in InField (f @ s) r) rest"
  by (induction s arbitrary: f) (simp_all add: add_char_def)

lemma feed_first:
  assumes "plain_field (x # s)"
  shows "feed_line (csv_in StartField [] r) ((x # s) @ rest) = feed_line (csv_in InField (x # s) r) rest"
  using assms feed_field [of s "[x]" r rest]
  by (simp add: plain_field_def start_field_def add_char_def)

lemma feed_separator:
  assumes "plain_field f"
  shows "feed_line (csv_in StartField [] r) (f @ CHR '','' # rest) = feed_line (csv_in StartField [] (r @ [f])) rest"
proof (cases f)
  case Nil
  then show ?thesis by (simp add: start_field_def save_field_def is_newline_def)
next
  case (Cons x s)
  with feed_first [of x s r "CHR '','' # rest"] assms
  show ?thesis by (simp add: save_field_def is_newline_def)
qed

lemma feed_last:
  assumes "plain_field f" "nl \<in> {[], [CHR 0x0A]}"
  shows "feed_line (csv_in StartField [] r) (f @ nl) = Inr (csv_in StartRecord [] (r @ [f]))"
proof (cases f)
  case Nil
  with assms(2) show ?thesis by (auto simp: start_field_def save_field_def is_newline_def)
next
  case (Cons x s)
  with feed_first [of x s r nl] assms
  show ?thesis by (auto simp: save_field_def is_newline_def)
qed

lemma feed_fields:
  "fs \<noteq> [] \<Longrightarrow> \<forall>f\<in>set fs. plain_field f \<Longrightarrow> nl \<in> {[], [CHR 0x0A]} \<Longrightarrow>
     feed_line (csv_in StartField [] r) (join '','' fs @ nl) = Inr (csv_in StartRecord [] (r @ fs))"
proof (induction fs arbitrary: r)
  case (Cons f fs)
  show ?case
  proof (cases fs)
    case Nil
    with Cons.prems feed_last [of f nl r] show ?thesis by simp
  next
    case (Cons f' fs')
    with Cons.prems Cons.IH [of "r @ [f]"] feed_separator [of f r "join '','' fs @ nl"] show ?thesis by simp
  qed
qed simp

text \<open>A line whose first and last characters are no white space.\<close>

definition line_ok :: "string list \<Rightarrow> bool" where
  "line_ok fs \<longleftrightarrow> (\<forall>f\<in>set fs. plain_field f) \<and> join '','' fs \<noteq> [] \<and>
     \<not> py_space (hd (join '','' fs)) \<and> \<not> py_space (last (join '','' fs))"

lemma newline_space: "is_newline x \<Longrightarrow> py_space x"
  by (auto simp: is_newline_def py_space_def)

lemma feed_line_ok:
  assumes "line_ok fs" "nl \<in> {[], [CHR 0x0A]}"
  shows "feed_line csv_start (join '','' fs @ nl) = Inr (csv_in StartRecord [] fs)"
proof -
  obtain x xs where l: "join '','' fs = x # xs" using assms(1) by (cases "join '','' fs") (auto simp: line_ok_def)
  with assms(1) have "\<not> is_newline x" by (auto simp: line_ok_def dest: newline_space)
  then have "csv_char StartRecord csv_start (Some x) = csv_char StartField (csv_in StartField [] []) (Some x)"
    by (simp add: csv_start_def start_field_def save_field_def add_char_def)
  then have "feed_line csv_start (join '','' fs @ nl) = feed_line (csv_in StartField [] []) (join '','' fs @ nl)"
    unfolding l by (simp add: csv_start_def)
  also have "\<dots> = Inr (csv_in StartRecord [] ([] @ fs))"
  proof (rule feed_fields)
    show "fs \<noteq> []" using l by auto
  qed (use assms in \<open>auto simp: line_ok_def\<close>)
  finally show ?thesis by simp
qed

lemma line_ok_no_newline: "line_ok fs \<Longrightarrow> CHR 0x0A \<notin> set (join '','' fs)"
  using join_set [of "CHR 0x0A" "'',''" fs] by (auto simp: line_ok_def plain_field_def is_newline_def)

lemma file_lines_newline: "CHR 0x0A \<notin> set l \<Longrightarrow> file_lines (l @ CHR 0x0A # rest) = (l @ [CHR 0x0A]) # file_lines rest"
  by (induction l) auto

lemma file_lines_single: "CHR 0x0A \<notin> set l \<Longrightarrow> l \<noteq> [] \<Longrightarrow> file_lines l = [l]"
proof (induction l)
  case (Cons x l)
  then show ?case by (cases l) auto
qed simp

text \<open>The whole text: one line for each list of fields.\<close>

definition csv_text :: "string list list \<Rightarrow> string" where
  "csv_text fss = concat (map (\<lambda>fs. join '','' fs @ [CHR 0x0A]) fss)"

lemma csv_text_join: "fss \<noteq> [] \<Longrightarrow> csv_text fss = join [CHR 0x0A] (map (join '','') fss) @ [CHR 0x0A]"
proof (induction fss)
  case (Cons fs fss)
  then show ?case by (cases fss) (simp_all add: csv_text_def)
qed simp

lemma strip_between:
  assumes "s \<noteq> []" "\<not> py_space (hd s)" "\<not> py_space (last s)"
  shows "strip (s @ [CHR 0x0A]) = s"
proof -
  have nl: "py_space (CHR 0x0A)" by (simp add: py_space_def)
  have "dropWhile py_space (s @ [CHR 0x0A]) = s @ [CHR 0x0A]"
    using assms(1,2) by (cases s) auto
  moreover have "dropWhile py_space (rev s) = rev s"
    using assms(1,3) by (cases "rev s") (auto simp: hd_rev [symmetric])
  ultimately show ?thesis using nl by (simp add: strip_def)
qed

lemma join_ends:
  assumes "fss \<noteq> []" "\<forall>fs\<in>set fss. line_ok fs"
  shows "join [CHR 0x0A] (map (join '','') fss) \<noteq> [] \<and> \<not> py_space (hd (join [CHR 0x0A] (map (join '','') fss))) \<and>
    \<not> py_space (last (join [CHR 0x0A] (map (join '','') fss)))"
  using assms
proof (induction fss)
  case (Cons fs fss)
  then show ?case by (cases fss) (auto simp: line_ok_def hd_append)
qed simp

lemma gpu_rows_text:
  "fss \<noteq> [] \<Longrightarrow> \<forall>fs\<in>set fss. line_ok fs \<Longrightarrow>
     gpu_rows csv_start (file_lines (join [CHR 0x0A] (map (join '','') fss))) =
       bind_res (map_res gpu_row fss) (\<lambda>gs. Inr (List.map_filter id gs))"
proof (induction fss)
  case (Cons fs fss)
  show ?case
  proof (cases fss)
    case Nil
    with Cons.prems line_ok_no_newline [of fs] feed_line_ok [of fs "[]"] show ?thesis
      by (cases "gpu_row fs") (auto simp: file_lines_single line_ok_def csv_start_def gpu_cons_def map_filter_simps
          split: option.splits)
  next
    case (Cons fs' fss')
    with Cons.prems Cons.IH line_ok_no_newline [of fs] feed_line_ok [of fs "[CHR 0x0A]"] show ?thesis
      by (cases "gpu_row fs"; cases "map_res gpu_row fss")
        (auto simp: file_lines_newline gpu_cons_def map_filter_simps split: option.splits)
  qed
qed simp

lemma parse_csv_text:
  assumes "\<forall>fs\<in>set fss. line_ok fs"
  shows "parse_nvidia_smi_csv (csv_text fss) = bind_res (map_res gpu_row fss) (\<lambda>gs. Inr (List.map_filter id gs))"
proof (cases "fss = []")
  case True
  then show ?thesis
    by (simp add: parse_nvidia_smi_csv_def csv_text_def strip_def csv_start_def map_filter_simps)
next
  case False
  then show ?thesis
    using join_ends [OF False assms] gpu_rows_text [OF False assms]
    by (simp add: parse_nvidia_smi_csv_def csv_text_join strip_between)
qed

section \<open>What nvidia-smi prints for a GPU\<close>

definition smi_shown :: "int option \<Rightarrow> string" where
  "smi_shown x = (case x of None \<Rightarrow> ''[N/A]'' | Some n \<Rightarrow> str_int n)"

definition smi_fields_with :: "string \<Rightarrow> inv_gpu \<Rightarrow> string list" where
  "smi_fields_with used g = [str_int (ig_index g), '' '' @ ig_name g, '' '' @ str_int (ig_total_mb g), '' '' @ used,
     '' '' @ smi_shown (ig_utilization g), '' '' @ smi_shown (ig_temperature g)]"

definition smi_fields :: "inv_gpu \<Rightarrow> string list" where
  "smi_fields g = smi_fields_with (str_int (ig_used_mb g)) g"

definition printable_gpu :: "inv_gpu \<Rightarrow> bool" where
  "printable_gpu g \<longleftrightarrow> ig_id g = ''gpu'' @ str_int (ig_index g) \<and> ig_source g = ''nvidia-smi'' \<and>
     strip (ig_name g) = ig_name g \<and> (\<forall>x\<in>set (ig_name g). x \<noteq> CHR '','' \<and> \<not> is_newline x) \<and>
     (\<forall>f\<in>set (smi_fields g). length f \<le> 131072)"

lemma str_int_not_Nil [simp]: "str_int n \<noteq> []"
  by (simp add: str_int_def)

lemma str_int_no_space: "x \<in> set (str_int n) \<Longrightarrow> \<not> py_space x"
  by (auto dest!: str_int_chars dest: digit_not_space simp: py_space_def)

lemma smi_shown_no_space: "smi_shown u \<noteq> [] \<and> (\<forall>x\<in>set (smi_shown u). \<not> py_space x \<and> x \<noteq> CHR '','' \<and> x \<noteq> CHR 0x22)"
proof (cases u)
  case None
  then show ?thesis by (simp add: smi_shown_def py_space_def)
next
  case (Some n)
  have "x \<in> set (str_int n) \<Longrightarrow> x \<noteq> CHR '','' \<and> x \<noteq> CHR 0x22" for x
    using str_int_chars [of x n] by (auto simp: is_digit_def)
  with Some show ?thesis by (auto simp: smi_shown_def str_int_no_space)
qed

lemma shown_int: "smi_shown (Some n) = str_int n"
  by (simp add: smi_shown_def)

lemma plain_shown: "length (smi_shown u) < 131072 \<Longrightarrow> plain_field ('' '' @ smi_shown u)"
  using smi_shown_no_space [of u] newline_space by (auto simp: plain_field_def is_newline_def)

lemma strip_shown [simp]: "strip (CHR '' '' # smi_shown u) = smi_shown u" "strip (smi_shown u) = smi_shown u"
  using smi_shown_no_space [of u] strip_no_space [of "smi_shown u"] by (simp_all add: strip_def py_space_def)

lemma strip_str_int [simp]: "strip (CHR '' '' # str_int n) = str_int n" "strip (str_int n) = str_int n"
  using strip_shown [of "Some n"] by (simp_all add: shown_int)

lemma strip_space_Cons: "strip (CHR '' '' # s) = strip s"
  by (simp add: strip_def py_space_def)

lemma line_ok_smi:
  assumes g: "printable_gpu g" and used: "used = str_int (ig_used_mb g) \<or> used = ''[N/A]''"
  shows "line_ok (smi_fields_with used g)"
proof -
  have "\<forall>f\<in>set (smi_fields g). length f \<le> 131072" using g by (simp add: printable_gpu_def)
  then have len: "length (ig_name g) < 131072" "length (str_int (ig_index g)) \<le> 131072"
    "length (str_int (ig_total_mb g)) < 131072" "length (smi_shown (ig_utilization g)) < 131072"
    "length (smi_shown (ig_temperature g)) < 131072" "length (str_int (ig_used_mb g)) < 131072"
    unfolding smi_fields_def smi_fields_with_def by simp_all
  then have len': "length used < 131072" using used by (elim disjE) simp_all
  have name: "plain_field ('' '' @ ig_name g)"
    using g len(1) by (auto simp: printable_gpu_def plain_field_def is_newline_def)
  have "''[N/A]'' = smi_shown None" by (simp add: smi_shown_def)
  with used obtain u where u: "used = smi_shown u" using shown_int by metis
  have first: "plain_field (str_int (ig_index g))"
    using smi_shown_no_space [of "Some (ig_index g)"] len(2) newline_space
    by (auto simp: plain_field_def shown_int)
  have plain: "\<forall>f\<in>set (smi_fields_with used g). plain_field f"
    using name first plain_shown [of "Some (ig_total_mb g)"] plain_shown len len'
    by (auto simp: smi_fields_with_def shown_int u)
  let ?l = "join '','' (smi_fields_with used g)"
  have "?l \<noteq> []" "hd ?l = hd (str_int (ig_index g))" by (simp_all add: smi_fields_with_def hd_append)
  moreover have "last ?l = last (smi_shown (ig_temperature g))"
    using smi_shown_no_space [of "ig_temperature g"] by (simp add: smi_fields_with_def)
  ultimately show ?thesis
    using plain smi_shown_no_space [of "ig_temperature g"] hd_in_set [of "str_int (ig_index g)", THEN str_int_no_space]
    by (simp add: line_ok_def)
qed

lemma py_int_str_int [simp]: "py_int (JStr (str_int n)) = Inr n"
  by (simp add: parse_int_str_int)

lemma optional_int_shown [simp]: "smi_optional_int (JStr (smi_shown u)) = Inr u"
proof (cases u)
  case (Some n)
  have "str_int n \<noteq> ''N/A'' \<and> str_int n \<noteq> ''[N/A]''"
    using str_int_chars [of "CHR ''A''" n] by (auto simp: is_digit_def)
  with Some show ?thesis by (simp add: shown_int smi_optional_int_def del: py_int.simps)
qed (simp add: smi_shown_def smi_optional_int_def)

lemma gpu_row_smi:
  assumes "printable_gpu g"
  shows "gpu_row (smi_fields g) = Inr (Some g)"
  using assms
  by (simp add: gpu_row_def smi_fields_def smi_fields_with_def printable_gpu_def parse_optional_int_def strip_space_Cons
      del: py_int.simps)

lemma gpu_row_unreadable:
  assumes "printable_gpu g"
  shows "gpu_row (smi_fields_with ''[N/A]'' g) = Inl (ValueError ''invalid literal for int() with base 10'')"
proof -
  have "py_int (JStr ''[N/A]'') = Inl (ValueError ''invalid literal for int() with base 10'')" by code_simp
  moreover have "strip ''[N/A]'' = ''[N/A]''" by code_simp
  ultimately show ?thesis
    by (simp add: gpu_row_def smi_fields_with_def strip_space_Cons del: py_int.simps)
qed

section \<open>From nvidia-smi to the planner\<close>

text \<open>What the lifecycle service keeps of a GPU.\<close>

definition planner_gpu :: "inv_gpu \<Rightarrow> gpu_state" where
  "planner_gpu g = \<lparr>g_id = ig_id g, g_index = ig_index g, g_name = ig_name g, g_total_mb = ig_total_mb g,
     g_used_mb = ig_used_mb g, g_free_mb = memory_free_mb g\<rparr>"

lemma gpu_state_of_inventory: "gpu_state_of (JDict (inv_gpu_to_dict g)) = Inr (planner_gpu g)"
  by (simp add: gpu_state_of_def inv_gpu_to_dict_def required_key_def planner_gpu_def)

lemma parse_smi_output:
  assumes "\<forall>g\<in>set gs. printable_gpu g"
  shows "parse_nvidia_smi_csv (csv_text (map smi_fields gs)) = Inr gs"
proof -
  have rows: "map_res gpu_row (map smi_fields gs) = Inr (map Some gs)"
    using assms by (induction gs) (simp_all add: gpu_row_smi)
  have "\<forall>fs\<in>set (map smi_fields gs). line_ok fs"
    using assms by (auto simp: smi_fields_def intro!: line_ok_smi)
  from parse_csv_text [OF this] rows show ?thesis by (simp add: map_filter_def comp_def)
qed

lemma parse_unreadable_output:
  assumes "\<forall>h\<in>set (gs @ g # hs). printable_gpu h"
  shows "parse_nvidia_smi_csv (csv_text (map smi_fields gs @ smi_fields_with ''[N/A]'' g # map smi_fields hs)) =
    Inl (ValueError ''invalid literal for int() with base 10'')"
proof -
  have rows: "map_res gpu_row (map smi_fields gs @ smi_fields_with ''[N/A]'' g # map smi_fields hs) =
      Inl (ValueError ''invalid literal for int() with base 10'')"
    using assms by (induction gs) (simp_all add: gpu_row_smi gpu_row_unreadable)
  have "\<forall>fs\<in>set (map smi_fields gs @ smi_fields_with ''[N/A]'' g # map smi_fields hs). line_ok fs"
    using assms by (auto simp: smi_fields_def intro!: line_ok_smi)
  from parse_csv_text [OF this] rows show ?thesis by simp
qed

text \<open>C9: whatever GPUs \<open>nvidia-smi\<close> prints (names without commas, a value that is not available as
  \<open>[N/A]\<close>), \<open>GET /gpus\<close> answers 200, and the lifecycle service reads from the answer exactly
  these GPUs, in this order, with the printed sizes and the difference, never negative, as free memory.\<close>

theorem printed_gpus_reach_the_planner:
  assumes "\<forall>g\<in>set gs. printable_gpu g"
  shows "\<exists>d. gpus_handler loads (Printed (csv_text (map smi_fields gs))) [] = Inr (200, d) \<and>
    gpu_states (Reply 200 (Inr (JDict d))) = Inr (map planner_gpu gs)"
proof -
  have "map_res gpu_state_of (map (JDict \<circ> inv_gpu_to_dict) gs) = Inr (map planner_gpu gs)"
    by (induction gs) (simp_all add: gpu_state_of_inventory)
  then show ?thesis
    by (simp add: gpus_handler_def collect_inventory_def parse_smi_output [OF assms] snapshot_to_dict_def
        gpu_states_def client_post_json_def raise_for_status_def dget_or_def iterate_json_def)
qed

text \<open>C10: one GPU whose used memory is not available hides all of them: the exception is not the one the
  handlers catch, so neither \<open>GET /gpus\<close> nor the metrics answer. The same holds for a configured
  inventory that is a JSON list, the shape the error message of the parser asks for.\<close>

theorem unreadable_inventories_are_not_answered:
  assumes "\<forall>h\<in>set (gs @ g # hs). printable_gpu h" "loads fake = Inr (JList entries)" "fake \<noteq> []"
  shows "gpus_handler loads (Printed (csv_text (map smi_fields gs @ smi_fields_with ''[N/A]'' g # map smi_fields hs))) [] =
      Inl (ValueError ''invalid literal for int() with base 10'') \<and>
    gpu_metrics loads (Printed (csv_text (map smi_fields gs @ smi_fields_with ''[N/A]'' g # map smi_fields hs))) [] =
      Inl (ValueError ''invalid literal for int() with base 10'') \<and>
    gpus_handler loads run fake = Inl AttributeError \<and> gpu_metrics loads run fake = Inl AttributeError"
  using assms(2,3)
  by (simp add: gpus_handler_def gpu_metrics_def collect_inventory_def parse_unreadable_output [OF assms(1)]
      parse_fake_inventory_def)

section \<open>At concrete output\<close>

definition rtx :: "int \<Rightarrow> int \<Rightarrow> inv_gpu" where
  "rtx i used = \<lparr>ig_id = ''gpu'' @ str_int i, ig_index = i, ig_name = ''NVIDIA RTX 4090'', ig_total_mb = 24564,
     ig_used_mb = used, ig_utilization = Some 12, ig_temperature = None, ig_source = ''nvidia-smi''\<rparr>"

lemma digit_chars: "digit_char 0 = CHR ''0''" "digit_char 1 = CHR ''1''" "digit_char 2 = CHR ''2''"
  "digit_char 3 = CHR ''3''" "digit_char 4 = CHR ''4''" "digit_char 5 = CHR ''5''" "digit_char 6 = CHR ''6''"
  by code_simp+

lemma rtx_numbers: "str_int 0 = ''0''" "str_int 1 = ''1''" "str_int 12 = ''12''" "str_int 24564 = ''24564''"
  "str_int 1024 = ''1024''" "str_int 30000 = ''30000''"
  by (simp_all add: str_int_def nat_digits.simps digit_chars digit_chars(2) [unfolded One_nat_def])

lemma rtx_fields:
  "smi_fields (rtx 0 1024) = [''0'', '' NVIDIA RTX 4090'', '' 24564'', '' 1024'', '' 12'', '' [N/A]'']"
  "smi_fields (rtx 1 30000) = [''1'', '' NVIDIA RTX 4090'', '' 24564'', '' 30000'', '' 12'', '' [N/A]'']"
  "smi_fields_with ''[N/A]'' (rtx 1 30000) = [''1'', '' NVIDIA RTX 4090'', '' 24564'', '' [N/A]'', '' 12'', '' [N/A]'']"
  by (simp_all add: smi_fields_def smi_fields_with_def rtx_def smi_shown_def rtx_numbers)

lemma rtx_printable [simp]: "printable_gpu (rtx 0 1024)" "printable_gpu (rtx 1 30000)"
proof -
  have "strip ''NVIDIA RTX 4090'' = ''NVIDIA RTX 4090''" by code_simp
  then show "printable_gpu (rtx 0 1024)" "printable_gpu (rtx 1 30000)"
    unfolding printable_gpu_def rtx_fields by (simp_all add: rtx_def is_newline_def)
qed

theorem printed_gpus_reach_the_planner_witness:
  "\<exists>d. gpus_handler (\<lambda>_. Inl TypeError)
       (Printed (''0, NVIDIA RTX 4090, 24564, 1024, 12, [N/A]'' @ [CHR 0x0A] @
                 ''1, NVIDIA RTX 4090, 24564, 30000, 12, [N/A]'' @ [CHR 0x0A])) [] = Inr (200, d) \<and>
     (case gpu_states (Reply 200 (Inr (JDict d))) of Inr gs \<Rightarrow> map g_free_mb gs = [23540, 0] | Inl _ \<Rightarrow> False)"
proof -
  have t: "csv_text (map smi_fields [rtx 0 1024, rtx 1 30000]) =
      ''0, NVIDIA RTX 4090, 24564, 1024, 12, [N/A]'' @ [CHR 0x0A] @
      ''1, NVIDIA RTX 4090, 24564, 30000, 12, [N/A]'' @ [CHR 0x0A]"
    by (simp add: rtx_fields csv_text_def)
  have f: "map g_free_mb (map planner_gpu [rtx 0 1024, rtx 1 30000]) = [23540, 0]"
    by (simp add: planner_gpu_def memory_free_mb_def rtx_def)
  show ?thesis
    using printed_gpus_reach_the_planner [of "[rtx 0 1024, rtx 1 30000]" "\<lambda>_. Inl TypeError"] rtx_printable
    unfolding t [symmetric] f [symmetric] by force
qed

theorem unreadable_inventories_are_not_answered_witness:
  "gpus_handler (\<lambda>_. Inr (JList [])) (Printed (''0, NVIDIA RTX 4090, 24564, 1024, 12, [N/A]'' @ [CHR 0x0A] @
       ''1, NVIDIA RTX 4090, 24564, [N/A], 12, [N/A]'' @ [CHR 0x0A])) [] =
     Inl (ValueError ''invalid literal for int() with base 10'') \<and>
   gpus_handler (\<lambda>_. Inr (JList [])) (NotFound []) ''[]'' = Inl AttributeError"
proof -
  have t: "csv_text (map smi_fields [rtx 0 1024] @ smi_fields_with ''[N/A]'' (rtx 1 30000) # map smi_fields []) =
      ''0, NVIDIA RTX 4090, 24564, 1024, 12, [N/A]'' @ [CHR 0x0A] @
      ''1, NVIDIA RTX 4090, 24564, [N/A], 12, [N/A]'' @ [CHR 0x0A]"
    by (simp add: rtx_fields csv_text_def)
  show ?thesis
    using unreadable_inventories_are_not_answered [of "[rtx 0 1024]" "rtx 1 30000" "[]" "\<lambda>_. Inr (JList [])" "''[]''" "[]"
      "NotFound []"] rtx_printable
    unfolding t by simp
qed

end
