(* ===== verification/Client.thy ===== *)
theory Client
  imports Task_Executor Proxy
begin

text \<open>
  The client library \<open>orchestrator_client/client.py\<close> and the commands of \<open>llmoctl.py\<close>: which request
  each call sends, what it returns for each answer, and how a command ends. URL encoding is the one of
  the standard library, for texts of code points below 256 (encoded as UTF-8). The arguments of a command are
  those \<open>argparse\<close> delivers; the transport and \<open>json.loads\<close> are arguments.
\<close>

section \<open>URLs\<close>

definition join_url :: "string \<Rightarrow> string \<Rightarrow> string" where
  "join_url base path = rstrip_slash base @ [CHR 0x2F] @ lstrip_slash path"

definition utf8_bytes :: "char \<Rightarrow> nat list" where
  "utf8_bytes c = (let n = (of_char c :: nat) in if n < 128 then [n] else [192 + n div 64, 128 + n mod 64])"

definition hex_upper :: "nat \<Rightarrow> char" where
  "hex_upper n = (if n < 10 then char_of (48 + n) else char_of (55 + n))"

text \<open>The characters \<open>quote\<close> never encodes: letters, digits and \<open>_.-~\<close>.\<close>

definition url_safe :: "nat \<Rightarrow> bool" where
  "url_safe n \<longleftrightarrow> (48 \<le> n \<and> n \<le> 57) \<or> (65 \<le> n \<and> n \<le> 90) \<or> (97 \<le> n \<and> n \<le> 122) \<or>
     n = 95 \<or> n = 46 \<or> n = 45 \<or> n = 126"

definition quote_byte :: "nat \<Rightarrow> string" where
  "quote_byte n = (if url_safe n then [char_of n] else [CHR ''%'', hex_upper (n div 16), hex_upper (n mod 16)])"

definition quote_plus :: "string \<Rightarrow> string" where
  "quote_plus s = concat (map (\<lambda>c. if c = CHR '' '' then ''+'' else concat (map quote_byte (utf8_bytes c))) s)"

definition urlencode :: "(string \<times> string) list \<Rightarrow> string" where
  "urlencode ps = join ''&'' (map (\<lambda>(k, v). quote_plus k @ ''='' @ quote_plus v) ps)"

section \<open>Requests and answers\<close>

record client_request =
  cr_method :: string
  cr_url :: string
  cr_payload :: "dict option"
  cr_headers :: headers

definition open_url :: "string \<Rightarrow> string \<Rightarrow> dict option \<Rightarrow> string option \<Rightarrow> client_request" where
  "open_url method url payload api_key = \<lparr>cr_method = method, cr_url = url, cr_payload = payload,
     cr_headers = (if payload \<noteq> None then [(''content-type'', ''application/json'')] else []) @
       (case api_key of None \<Rightarrow> [] | Some k \<Rightarrow> if k = [] then [] else [(''authorization'', ''Bearer '' @ k)])\<rparr>"

text \<open>\<open>urlopen\<close> returns a body or raises for a status or for a failed connection.\<close>

datatype url_reply = UrlBody string | UrlStatus int string | UrlFailed string

datatype outcome = Value json | HttpStatus int string | Unreachable string

definition request_json :: "(string \<Rightarrow> json res) \<Rightarrow> url_reply \<Rightarrow> outcome res" where
  "request_json loads reply = (case reply of
       UrlBody b \<Rightarrow> if b = [] then Inr (Value JNull) else bind_res (loads b) (\<lambda>v. Inr (Value v))
     | UrlStatus c b \<Rightarrow> Inr (HttpStatus c b)
     | UrlFailed m \<Rightarrow> Inr (Unreachable m))"

definition request_text :: "url_reply \<Rightarrow> outcome" where
  "request_text reply = (case reply of
       UrlBody b \<Rightarrow> Value (JStr b)
     | UrlStatus c b \<Rightarrow> HttpStatus c b
     | UrlFailed m \<Rightarrow> Unreachable m)"

section \<open>OrchestratorClient\<close>

record client =
  cl_queue_url :: string
  cl_lifecycle_url :: string
  cl_api_key :: "string option"

definition put_if_some :: "string \<Rightarrow> dict option \<Rightarrow> dict \<Rightarrow> dict" where
  "put_if_some k v d = (case v of None \<Rightarrow> d | Some w \<Rightarrow> d @ [(k, JDict w)])"

definition param_if :: "string \<Rightarrow> string option \<Rightarrow> (string \<times> string) list" where
  "param_if k v = (case v of None \<Rightarrow> [] | Some s \<Rightarrow> if s = [] then [] else [(k, s)])"

definition client_models :: "client \<Rightarrow> client_request" where
  "client_models c = open_url ''GET'' (join_url (cl_lifecycle_url c) ''/catalog/models'') None None"

definition client_registry :: "client \<Rightarrow> client_request" where
  "client_registry c = open_url ''GET'' (join_url (cl_lifecycle_url c) ''/registry'') None None"

definition client_cleanup :: "client \<Rightarrow> client_request" where
  "client_cleanup c = open_url ''POST'' (join_url (cl_lifecycle_url c) ''/cleanup'') (Some []) None"

definition client_explain_plan :: "client \<Rightarrow> json \<Rightarrow> json \<Rightarrow> client_request" where
  "client_explain_plan c lengths plans = open_url ''POST'' (join_url (cl_lifecycle_url c) ''/explain-plan'')
     (Some ((''queue_lengths'', py_or lengths (JDict [])) #
        (if plans = JNull then [] else [(''context_plans'', plans)]))) None"

definition client_metrics :: "client \<Rightarrow> client_request" where
  "client_metrics c = open_url ''GET'' (join_url (cl_lifecycle_url c) ''/metrics'') None None"

definition client_allocate :: "client \<Rightarrow> string \<Rightarrow> dict option \<Rightarrow> client_request" where
  "client_allocate c model orch = open_url ''POST'' (join_url (cl_lifecycle_url c) ''/allocations'')
     (Some (put_if_some ''orchestration'' orch [(''model'', JStr model)])) None"

definition client_submit_task_queue ::
  "client \<Rightarrow> string \<Rightarrow> dict \<Rightarrow> json list \<Rightarrow> string \<Rightarrow> dict option \<Rightarrow> dict option \<Rightarrow> client_request" where
  "client_submit_task_queue c model orch tasks endpoint template vars =
     open_url ''POST'' (join_url (cl_queue_url c) ''/tasks/queue'')
       (Some (put_if_some ''template_vars'' vars (put_if_some ''payload_template'' template
          [(''model'', JStr model), (''endpoint'', JStr endpoint), (''orchestration'', JDict orch),
           (''tasks'', JList tasks)]))) (cl_api_key c)"

definition client_list_tasks ::
  "client \<Rightarrow> string \<Rightarrow> string option \<Rightarrow> string option \<Rightarrow> int \<Rightarrow> client_request" where
  "client_list_tasks c tenant state model limit = open_url ''GET'' (join_url (cl_queue_url c)
     (''/tasks?'' @ urlencode ([(''tenant'', tenant), (''limit'', str_int limit)] @
        param_if ''state'' state @ param_if ''model'' model))) None (cl_api_key c)"

definition client_explain_tasks :: "client \<Rightarrow> string \<Rightarrow> string option \<Rightarrow> int \<Rightarrow> client_request" where
  "client_explain_tasks c tenant model limit = open_url ''GET'' (join_url (cl_queue_url c)
     (''/tasks/explain?'' @ urlencode ([(''tenant'', tenant), (''limit'', str_int limit)] @
        param_if ''model'' model))) None (cl_api_key c)"

definition client_get_task :: "client \<Rightarrow> string \<Rightarrow> string \<Rightarrow> client_request" where
  "client_get_task c i tenant = open_url ''GET'' (join_url (cl_queue_url c)
     (''/tasks/'' @ i @ ''?'' @ urlencode [(''tenant'', tenant)])) None (cl_api_key c)"

definition client_cancel_task :: "client \<Rightarrow> string \<Rightarrow> string \<Rightarrow> client_request" where
  "client_cancel_task c i tenant = open_url ''DELETE'' (join_url (cl_queue_url c)
     (''/tasks/'' @ i @ ''?'' @ urlencode [(''tenant'', tenant)])) None (cl_api_key c)"

definition client_chat :: "client \<Rightarrow> string \<Rightarrow> string \<Rightarrow> int \<Rightarrow> bool \<Rightarrow> dict option \<Rightarrow> client_request" where
  "client_chat c model prompt max_tokens stream orch =
     open_url ''POST'' (join_url (cl_queue_url c) ''/v1/chat/completions'')
       (Some (put_if_some ''orchestration'' orch
          [(''model'', JStr model),
           (''messages'', JList [JDict [(''role'', JStr ''user''), (''content'', JStr prompt)]]),
           (''max_tokens'', JInt max_tokens), (''stream'', JBool stream)])) (cl_api_key c)"

definition client_embeddings :: "client \<Rightarrow> string \<Rightarrow> string \<Rightarrow> dict option \<Rightarrow> client_request" where
  "client_embeddings c model input orch =
     open_url ''POST'' (join_url (cl_queue_url c) ''/v1/embeddings'')
       (Some (put_if_some ''orchestration'' orch [(''model'', JStr model), (''input'', JStr input)])) (cl_api_key c)"

section \<open>llmoctl: the arguments of a command\<close>

record orchestration_args =
  oa_gpu :: string
  oa_estimated_vram_gb :: "json option"
  oa_safety_margin_gb :: "json option"
  oa_max_parallel :: "int option"
  oa_max_queued_requests :: "int option"
  oa_idle_ttl_seconds :: "int option"
  oa_load_strategy :: "string option"
  oa_lms_gpu :: "string option"
  oa_lms_context_length :: "int option"
  oa_lms_ttl_seconds :: "int option"
  oa_no_warmup :: bool

datatype command =
    CmdModels
  | CmdRegistry
  | CmdCleanup
  | CmdMetrics
  | CmdExplainPlan "string option" "string option" int
  | CmdTasks "string option" "string option" int
  | CmdTask string
  | CmdCancelTask string
  | CmdAllocate string orchestration_args
  | CmdChat string string int bool orchestration_args
  | CmdEmbeddings string string orchestration_args

record cli_args =
  ca_client :: client
  ca_tenant :: string
  ca_command :: command

definition opt_key :: "string \<Rightarrow> json option \<Rightarrow> dict" where
  "opt_key k v = (case v of None \<Rightarrow> [] | Some w \<Rightarrow> [(k, w)])"

definition orchestration_from_args :: "orchestration_args \<Rightarrow> dict" where
  "orchestration_from_args a =
     [(''gpu'', JStr (oa_gpu a))] @
     opt_key ''estimated_vram_gb'' (oa_estimated_vram_gb a) @
     opt_key ''safety_margin_gb'' (oa_safety_margin_gb a) @
     opt_key ''max_parallel'' (map_option JInt (oa_max_parallel a)) @
     opt_key ''max_queued_requests'' (map_option JInt (oa_max_queued_requests a)) @
     opt_key ''idle_ttl_seconds'' (map_option JInt (oa_idle_ttl_seconds a)) @
     opt_key ''load_strategy'' (map_option JStr (oa_load_strategy a)) @
     opt_key ''lms_gpu'' (map_option JStr (oa_lms_gpu a)) @
     opt_key ''lms_context_length'' (map_option JInt (oa_lms_context_length a)) @
     opt_key ''lms_ttl_seconds'' (map_option JInt (oa_lms_ttl_seconds a)) @
     (if oa_no_warmup a then [(''warmup_enabled'', JBool False)] else [])"

definition require_tenant :: "cli_args \<Rightarrow> string res" where
  "require_tenant a = (if strip (ca_tenant a) = []
     then Inl (CliError ''durable task commands require --tenant or LLMO_TENANT.'') else Inr (strip (ca_tenant a)))"

text \<open>The plan file: unreadable, or a text.\<close>

datatype file_read = Unreadable string | FileText string

definition read_json_file :: "(string \<Rightarrow> json res) \<Rightarrow> string \<Rightarrow> file_read \<Rightarrow> json res" where
  "read_json_file loads path f = (case f of
       Unreadable m \<Rightarrow> Inl (CliError (''cannot read '' @ path @ '': '' @ m))
     | FileText s \<Rightarrow> (case loads s of
         Inl (JSONDecodeError m) \<Rightarrow> Inl (CliError (''invalid JSON in '' @ path @ '': '' @ m))
       | r \<Rightarrow> r))"

section \<open>llmoctl: the commands\<close>

text \<open>The request a command sends, and whether its answer is read as JSON.\<close>

definition command_request ::
  "(string \<Rightarrow> json res) \<Rightarrow> (string \<Rightarrow> file_read) \<Rightarrow> cli_args \<Rightarrow> (client_request \<times> bool) res" where
  "command_request loads files a = (let c = ca_client a in case ca_command a of
       CmdModels \<Rightarrow> Inr (client_models c, True)
     | CmdRegistry \<Rightarrow> Inr (client_registry c, True)
     | CmdCleanup \<Rightarrow> Inr (client_cleanup c, True)
     | CmdMetrics \<Rightarrow> Inr (client_metrics c, False)
     | CmdExplainPlan file model limit \<Rightarrow>
         (case file of
            Some path \<Rightarrow>
              if path = [] then bind_res (require_tenant a) (\<lambda>t. Inr (client_explain_tasks c t model limit, True))
              else bind_res (read_json_file loads path (files path)) (\<lambda>v. case v of
                 JDict d \<Rightarrow> Inr (client_explain_plan c (py_or (dget d ''queue_lengths'') (JDict []))
                   (dget d ''context_plans''), True)
               | _ \<Rightarrow> Inl (CliError ''explain-plan --file must contain a JSON object.''))
          | None \<Rightarrow> bind_res (require_tenant a) (\<lambda>t. Inr (client_explain_tasks c t model limit, True)))
     | CmdTasks state model limit \<Rightarrow>
         bind_res (require_tenant a) (\<lambda>t. Inr (client_list_tasks c t state model limit, True))
     | CmdTask i \<Rightarrow> bind_res (require_tenant a) (\<lambda>t. Inr (client_get_task c i t, True))
     | CmdCancelTask i \<Rightarrow> bind_res (require_tenant a) (\<lambda>t. Inr (client_cancel_task c i t, True))
     | CmdAllocate model orch \<Rightarrow> Inr (client_allocate c model (Some (orchestration_from_args orch)), True)
     | CmdChat model prompt max_tokens stream orch \<Rightarrow>
         Inr (client_chat c model prompt max_tokens stream (Some (orchestration_from_args orch)), \<not> stream)
     | CmdEmbeddings model input orch \<Rightarrow>
         Inr (client_embeddings c model input (Some (orchestration_from_args orch)), True))"

text \<open>\<open>json.dumps(value, indent=2, ensure_ascii=False)\<close>.\<close>

definition new_line :: "nat \<Rightarrow> string" where
  "new_line n = CHR 0x0A # replicate (2 * n) (CHR '' '')"

fun dumps_indent :: "nat \<Rightarrow> json \<Rightarrow> string" where
  "dumps_indent n (JList xs) = (if xs = [] then ''[]'' else
     ''['' @ new_line (Suc n) @ join ('','' @ new_line (Suc n)) (map (dumps_indent (Suc n)) xs) @ new_line n @ '']'')"
| "dumps_indent n (JDict d) = (if d = [] then [CHR 0x7B, CHR 0x7D] else
     CHR 0x7B # new_line (Suc n) @ join ('','' @ new_line (Suc n))
       (map (\<lambda>kv. json_str (fst kv) @ '': '' @ dumps_indent (Suc n) (snd kv)) d) @ new_line n @ [CHR 0x7D])"
| "dumps_indent n v = json_dumps v"

definition rstrip :: "string \<Rightarrow> string" where
  "rstrip s = rev (dropWhile py_space (rev s))"

definition printed :: "json \<Rightarrow> string" where
  "printed v = (case v of JStr s \<Rightarrow> rstrip s | _ \<Rightarrow> dumps_indent 0 v)"

record cli_result =
  xr_code :: int
  xr_out :: "string list"
  xr_err :: "string list"

text \<open>\<open>main\<close>: at most one request is sent. An exception that is none of the three it handles leaves it.\<close>

definition ctl_main ::
  "(string \<Rightarrow> json res) \<Rightarrow> (string \<Rightarrow> file_read) \<Rightarrow> (client_request \<Rightarrow> url_reply) \<Rightarrow> cli_args \<Rightarrow>
     client_request list \<times> cli_result res" where
  "ctl_main loads files send a = (case command_request loads files a of
       Inl (CliError m) \<Rightarrow> ([], Inr \<lparr>xr_code = 2, xr_out = [], xr_err = [''ERROR: '' @ m]\<rparr>)
     | Inl e \<Rightarrow> ([], Inl e)
     | Inr (rq, as_json) \<Rightarrow> ([rq],
         bind_res (if as_json then request_json loads (send rq) else Inr (request_text (send rq))) (\<lambda>answer.
           case answer of
             HttpStatus c b \<Rightarrow> Inr \<lparr>xr_code = 1, xr_out = [], xr_err = [''HTTP '' @ str_int c @ '': '' @ b]\<rparr>
           | Unreachable m \<Rightarrow> Inr \<lparr>xr_code = 1, xr_out = [], xr_err = [''Request failed: '' @ m]\<rparr>
           | Value v \<Rightarrow> Inr \<lparr>xr_code = 0, xr_out = (if v = JNull then [] else [printed v]), xr_err = []\<rparr>)))"

end
