(* ===== verification/Client_Properties.thy ===== *)
theory Client_Properties
  imports Client Task_Api Samples
begin

text \<open>
  What the command line client asks for is what the queue proxy does: the query string a command
  sends is decoded, by the parser the server's framework uses, to the values the command was given,
  and the handler answers with them. And how a command ends.
\<close>

section \<open>Reading a query string\<close>

text \<open>\<open>urllib.parse.parse_qsl\<close> with blank values kept, on ASCII text; \<open>None\<close> when the bytes are no UTF-8
  of code points below 256.\<close>

definition hex_value :: "char \<Rightarrow> nat option" where
  "hex_value c = (let n = (of_char c :: nat) in
     if 48 \<le> n \<and> n \<le> 57 then Some (n - 48)
     else if 65 \<le> n \<and> n \<le> 70 then Some (n - 55)
     else if 97 \<le> n \<and> n \<le> 102 then Some (n - 87) else None)"

fun unquote_bytes :: "string \<Rightarrow> nat list" where
  "unquote_bytes (p # a # b # s) =
     (if p = CHR ''%'' \<and> hex_value a \<noteq> None \<and> hex_value b \<noteq> None
      then (16 * the (hex_value a) + the (hex_value b)) # unquote_bytes s
      else of_char p # unquote_bytes (a # b # s))"
| "unquote_bytes [] = []"
| "unquote_bytes (p # s) = of_char p # unquote_bytes s"

fun utf8_decode :: "nat list \<Rightarrow> string option" where
  "utf8_decode [] = Some []"
| "utf8_decode (n # ns) =
     (if n < 128 then map_option (Cons (char_of n)) (utf8_decode ns)
      else (case ns of
          m # ms \<Rightarrow> if (n = 194 \<or> n = 195) \<and> 128 \<le> m \<and> m < 192
            then map_option (Cons (char_of ((n - 192) * 64 + (m - 128)))) (utf8_decode ms) else None
        | [] \<Rightarrow> None))"

definition unquote_plus :: "string \<Rightarrow> string option" where
  "unquote_plus s = utf8_decode (unquote_bytes (map (\<lambda>c. if c = CHR ''+'' then CHR '' '' else c) s))"

definition query_pair :: "string \<Rightarrow> (string \<times> string) option" where
  "query_pair s =
     (case (unquote_plus (takeWhile (\<lambda>c. c \<noteq> CHR ''='') s), unquote_plus (drop 1 (dropWhile (\<lambda>c. c \<noteq> CHR ''='') s))) of
        (Some k, Some v) \<Rightarrow> Some (k, v) | _ \<Rightarrow> None)"

definition parse_qsl :: "string \<Rightarrow> (string \<times> string) list option" where
  "parse_qsl qs = those (map query_pair (filter (\<lambda>s. s \<noteq> []) (split_on (CHR ''&'') qs)))"

subsection \<open>It inverts the encoding of the client\<close>

lemma hex_value_upper [simp]: "n < 16 \<Longrightarrow> hex_value (hex_upper n) = Some n"
  by (auto simp: hex_value_def hex_upper_def Let_def)

lemma url_safe_not_special: "url_safe n \<Longrightarrow> n < 256 \<and> n \<noteq> 37 \<and> n \<noteq> 43 \<and> n \<noteq> 38 \<and> n \<noteq> 61"
  by (auto simp: url_safe_def)

lemma unquote_plain: "c \<noteq> CHR ''%'' \<Longrightarrow> unquote_bytes (c # s) = of_char c # unquote_bytes s"
  by (cases s rule: unquote_bytes.cases) auto

lemma char_of_neq: "n < 256 \<Longrightarrow> n \<noteq> of_char c \<Longrightarrow> char_of (n :: nat) \<noteq> c"
  by (metis of_char_of mod_less)

lemma unquote_quote_byte: "n < 256 \<Longrightarrow> unquote_bytes (quote_byte n @ s) = n # unquote_bytes s"
  using char_of_neq [of n "CHR ''%''"] url_safe_not_special [of n]
  by (auto simp: quote_byte_def unquote_plain)

lemma of_char_less: "of_char c < (256 :: nat)"
  using nat_of_char_less_256 .

lemma utf8_bytes_bound: "n \<in> set (utf8_bytes c) \<Longrightarrow> n < 256"
proof -
  have "of_char c < (256 :: nat)" by (rule of_char_less)
  then have "(of_char c :: nat) div 64 < 4" by (simp add: less_mult_imp_div_less)
  then show "n \<in> set (utf8_bytes c) \<Longrightarrow> n < 256" by (auto simp: utf8_bytes_def Let_def split: if_splits)
qed

lemma utf8_decode_bytes: "utf8_decode (utf8_bytes c @ ns) = map_option (Cons c) (utf8_decode ns)"
proof (cases "of_char c < (128 :: nat)")
  case False
  have "of_char c < (256 :: nat)" by (rule of_char_less)
  with False have "(of_char c :: nat) div 64 \<in> {2, 3}" by (auto intro: div_nat_eqI)
  moreover have "(of_char c :: nat) div 64 * 64 + of_char c mod 64 = of_char c" by simp
  ultimately show ?thesis using False by (auto simp: utf8_bytes_def Let_def)
qed (simp add: utf8_bytes_def)

lemma quote_byte_no_plus:
  assumes "n < 256"
  shows "CHR ''+'' \<notin> set (quote_byte n)" "CHR ''&'' \<notin> set (quote_byte n)" "CHR ''='' \<notin> set (quote_byte n)"
proof -
  have h: "hex_upper m \<noteq> CHR ''+'' \<and> hex_upper m \<noteq> CHR ''&'' \<and> hex_upper m \<noteq> CHR ''=''" if "m < 16" for m
    using that char_of_neq [of "48 + m"] char_of_neq [of "55 + m"] by (auto simp: hex_upper_def)
  have "n div 16 < 16" "n mod 16 < 16" using assms by auto
  with h have d: "hex_upper (n div 16) \<noteq> CHR ''+'' \<and> hex_upper (n div 16) \<noteq> CHR ''&'' \<and> hex_upper (n div 16) \<noteq> CHR ''=''"
    "hex_upper (n mod 16) \<noteq> CHR ''+'' \<and> hex_upper (n mod 16) \<noteq> CHR ''&'' \<and> hex_upper (n mod 16) \<noteq> CHR ''=''"
    by blast+
  with url_safe_not_special [of n] char_of_neq [OF assms, of "CHR ''+''"] char_of_neq [OF assms, of "CHR ''&''"]
    char_of_neq [OF assms, of "CHR ''=''"]
  show "CHR ''+'' \<notin> set (quote_byte n)" "CHR ''&'' \<notin> set (quote_byte n)" "CHR ''='' \<notin> set (quote_byte n)"
    by (auto simp: quote_byte_def)
qed

lemma unquote_quoted_bytes:
  "\<forall>n\<in>set ns. n < 256 \<Longrightarrow> unquote_bytes (map (\<lambda>c. if c = CHR ''+'' then CHR '' '' else c) (concat (map quote_byte ns)) @ s) =
     ns @ unquote_bytes s"
proof (induction ns)
  case (Cons n ns)
  have "map (\<lambda>c. if c = CHR ''+'' then CHR '' '' else c) (quote_byte n) = quote_byte n"
    using quote_byte_no_plus(1) [of n] Cons.prems by (auto intro!: map_idI)
  with Cons unquote_quote_byte [of n] show ?case by simp
qed simp

lemma unquote_quote: "unquote_plus (quote_plus s) = Some s"
proof (induction s)
  case Nil
  then show ?case by (simp add: unquote_plus_def quote_plus_def)
next
  case (Cons c s)
  show ?case
  proof (cases "c = CHR '' ''")
    case True
    have "char_of (32 :: nat) = CHR '' ''" by code_simp
    with Cons True show ?thesis by (simp add: unquote_plus_def quote_plus_def unquote_plain)
  next
    case False
    with Cons utf8_bytes_bound [of _ c] show ?thesis
      by (simp add: unquote_plus_def quote_plus_def unquote_quoted_bytes utf8_decode_bytes)
  qed
qed

lemma quote_plus_chars: "CHR ''&'' \<notin> set (quote_plus s)" "CHR ''='' \<notin> set (quote_plus s)"
  by (auto simp: quote_plus_def split: if_splits dest: quote_byte_no_plus(2,3) [OF utf8_bytes_bound])

lemma query_pair_encoded: "query_pair (quote_plus k @ ''='' @ quote_plus v) = Some (k, v)"
proof -
  have k: "\<forall>x\<in>set (quote_plus k). x \<noteq> CHR ''=''" using quote_plus_chars(2) [of k] by auto
  then have "takeWhile (\<lambda>c. c \<noteq> CHR ''='') (quote_plus k @ ''='' @ quote_plus v) = quote_plus k"
    "dropWhile (\<lambda>c. c \<noteq> CHR ''='') (quote_plus k @ ''='' @ quote_plus v) = ''='' @ quote_plus v"
    by (simp_all add: takeWhile_append2 dropWhile_append2)
  then show ?thesis unfolding query_pair_def by (simp add: unquote_quote)
qed

text \<open>What \<open>urlencode\<close> writes, \<open>parse_qsl\<close> reads.\<close>

lemma parse_urlencode: "parse_qsl (urlencode ps) = Some ps"
proof (cases "ps = []")
  case True
  then show ?thesis by (simp add: parse_qsl_def urlencode_def)
next
  case False
  let ?enc = "\<lambda>(k, v). quote_plus k @ ''='' @ quote_plus v"
  have "split_on (CHR ''&'') (urlencode ps) = map ?enc ps"
    unfolding urlencode_def by (rule split_on_join) (use False in \<open>auto simp: quote_plus_chars\<close>)
  moreover have "filter (\<lambda>s. s \<noteq> []) (map ?enc ps) = map ?enc ps" by (induction ps) auto
  moreover have "those (map (\<lambda>x. query_pair (?enc x)) ps) = Some ps"
    by (induction ps) (auto simp: query_pair_encoded [simplified])
  ultimately show ?thesis by (simp add: parse_qsl_def comp_def)
qed

section \<open>Task queries\<close>

definition non_blank :: "string option \<Rightarrow> string option" where
  "non_blank v = (if v = Some [] then None else v)"

text \<open>C8: \<open>llmoctl tasks\<close> sends one request, and the queue proxy that runs with the key of the client answers it with
  the tasks of exactly the tenant, state and model that were given, at most as many as the limit says
  within one and 500.\<close>

theorem listed_tasks_are_the_ones_asked_for:
  assumes "ca_command a = CmdTasks state model limit" "strip (ca_tenant a) \<noteq> []"
    and "queue_proxy_api_key st = [] \<or> cl_api_key (ca_client a) = Some (queue_proxy_api_key st)"
  shows "\<exists>rq qs query. fst (ctl_main loads files send a) = [rq] \<and> cr_method rq = ''GET'' \<and>
    cr_url rq = rstrip_slash (cl_queue_url (ca_client a)) @ ''/tasks?'' @ qs \<and> parse_qsl qs = Some query \<and>
    list_tasks_handler ops st enc query (cr_headers rq) srv =
      (srv, json_response enc 200 [(''tasks'', JList (summaries False (op_list_tasks ops (ap_store srv)
         (strip (ca_tenant a)) (non_blank state) (non_blank model) (max 1 (min limit 500)))))], [])"
proof -
  let ?t = "strip (ca_tenant a)" and ?c = "ca_client a"
  let ?query = "[(''tenant'', ?t), (''limit'', str_int limit)] @ param_if ''state'' state @ param_if ''model'' model"
  let ?rq = "client_list_tasks ?c ?t state model limit"
  have "tenant_from_request ?query (cr_headers ?rq) = Some ?t"
    using assms(2) by (simp add: tenant_from_request_def)
  moreover have "query_limit ?query ''100'' 500 = Some (max 1 (min limit 500))"
    by (simp add: query_limit_def parse_int_str_int)
  moreover have "map_of ?query ''state'' = non_blank state" "map_of ?query ''model'' = non_blank model"
    by (auto simp: param_if_def non_blank_def split: option.splits)
  moreover have "with_auth st (cr_headers ?rq) srv x = x" for x
    using assms(3) by (auto simp: with_auth_def validate_proxy_auth_def client_list_tasks_def open_url_def header_def)
  ultimately have "list_tasks_handler ops st enc ?query (cr_headers ?rq) srv =
      (srv, json_response enc 200 [(''tasks'', JList (summaries False (op_list_tasks ops (ap_store srv)
         ?t (non_blank state) (non_blank model) (max 1 (min limit 500)))))], [])"
    by (simp add: list_tasks_handler_def)
  moreover have "fst (ctl_main loads files send a) = [?rq]"
    using assms(1,2) by (simp add: ctl_main_def command_request_def require_tenant_def)
  moreover have "cr_method ?rq = ''GET''"
    "cr_url ?rq = rstrip_slash (cl_queue_url ?c) @ ''/tasks?'' @ urlencode ?query"
    by (simp_all add: client_list_tasks_def open_url_def join_url_def lstrip_slash_def)
  ultimately show ?thesis using parse_urlencode [of ?query] by blast
qed

definition sample_call :: cli_args where
  "sample_call = \<lparr>ca_client = \<lparr>cl_queue_url = ''http://localhost:4100/'', cl_lifecycle_url = ''http://localhost:4300'',
     cl_api_key = Some ''k&y''\<rparr>, ca_tenant = '' a&b '', ca_command = CmdTasks (Some ''queued'') None 900\<rparr>"

theorem listed_tasks_are_the_ones_asked_for_witness:
  "\<exists>rq qs query. fst (ctl_main (\<lambda>_. Inl TypeError) (\<lambda>_. Unreadable []) (\<lambda>_. UrlBody []) sample_call) = [rq] \<and>
     cr_url rq = ''http://localhost:4100/tasks?'' @ qs \<and> parse_qsl qs = Some query \<and>
     list_tasks_handler memory_ops (sample_settings\<lparr>queue_proxy_api_key := ''k&y''\<rparr>) (\<lambda>_. Inr ()) query (cr_headers rq)
         \<lparr>ap_store = sample_store, ap_idle = None\<rparr> =
       (\<lparr>ap_store = sample_store, ap_idle = None\<rparr>, json_response (\<lambda>_. Inr ()) 200
         [(''tasks'', JList (summaries False (list_tasks sample_store ''a&b'' (Some ''queued'') None 500)))], [])"
proof -
  have t: "strip (ca_tenant sample_call) = ''a&b''" "rstrip_slash (cl_queue_url (ca_client sample_call)) = ''http://localhost:4100''"
    by code_simp+
  have c: "ca_command sample_call = CmdTasks (Some ''queued'') None 900" "strip (ca_tenant sample_call) \<noteq> []"
    "queue_proxy_api_key (sample_settings\<lparr>queue_proxy_api_key := ''k&y''\<rparr>) = [] \<or>
       cl_api_key (ca_client sample_call) = Some (queue_proxy_api_key (sample_settings\<lparr>queue_proxy_api_key := ''k&y''\<rparr>))"
    by (simp_all add: t) (simp_all add: sample_call_def)
  show ?thesis
    using listed_tasks_are_the_ones_asked_for [OF c, of "\<lambda>_. Inl TypeError" "\<lambda>_. Unreadable []" "\<lambda>_. UrlBody []" memory_ops
      "\<lambda>_. Inr ()" "\<lparr>ap_store = sample_store, ap_idle = None\<rparr>"]
    by (simp add: t non_blank_def memory_ops_def) blast
qed

section \<open>How a command ends\<close>

text \<open>Commands on tasks need a tenant before anything is sent; a refused argument ends with 2, an HTTP or
  transport error with 1, and an answer with 0.\<close>

lemma blank_tenants_send_nothing:
  assumes "strip (ca_tenant a) = []"
    and "ca_command a \<in> {CmdTasks state model limit, CmdTask i, CmdCancelTask i, CmdExplainPlan None model limit}"
  shows "fst (ctl_main loads files send a) = [] \<and> map_sum id xr_code (snd (ctl_main loads files send a)) = Inr 2"
  using assms by (auto simp: ctl_main_def command_request_def require_tenant_def)

lemma request_json_Inl: "request_json loads r = Inl e \<Longrightarrow> \<exists>b. r = UrlBody b \<and> loads b = Inl e"
  by (auto simp: request_json_def bind_res_Inl_iff split: url_reply.splits if_splits)

lemma commands_end_with_their_code:
  "case ctl_main loads files send a of
     ([], Inr r) \<Rightarrow> xr_code r = 2
   | ([rq], Inr r) \<Rightarrow> xr_code r = (case send rq of UrlBody _ \<Rightarrow> 0 | _ \<Rightarrow> 1)
   | ([rq], Inl e) \<Rightarrow> (\<exists>b. send rq = UrlBody b \<and> loads b = Inl e)
   | ([], Inl e) \<Rightarrow> True
   | _ \<Rightarrow> False"
proof (cases "command_request loads files a")
  case (Inl e)
  then show ?thesis by (cases e) (simp_all add: ctl_main_def)
next
  case (Inr rj)
  obtain rq j where rj: "rj = (rq, j)" by fastforce
  show ?thesis
  proof (cases "if j then request_json loads (send rq) else Inr (request_text (send rq))")
    case (Inl e)
    then show ?thesis using request_json_Inl [of loads "send rq" e] Inr rj
      by (auto simp: ctl_main_def split: if_splits)
  next
    case (Inr ans)
    with rj \<open>command_request loads files a = Inr rj\<close> show ?thesis
      by (auto simp: ctl_main_def request_json_def request_text_def bind_res_Inr_iff
          split: if_splits url_reply.splits outcome.splits)
  qed
qed

end
