(* ===== verification/Metrics.thy ===== *)
theory Metrics
  imports Py_Float Context_Plan Gpu_Inventory Limiter
begin

text \<open>
  \<open>queue_proxy/metrics.py\<close>: the metrics of the queue proxy over the metric classes the module defines
  itself when the Prometheus client is not installed, the gauges of the task counts with the keys they
  were last set for, and the text of \<open>generate_latest\<close>. The metrics are found by their names in the list the
  classes register themselves in.
\<close>

section \<open>The metric classes\<close>

datatype metric_type = MCounter | MGauge | MHistogram

record metric =
  fm_type :: metric_type
  fm_name :: string
  fm_label_names :: "string list"
  fm_values :: "(string list \<times> flt) list"
  fm_counts :: "(string list \<times> int) list"

definition metric_init :: "metric_type \<Rightarrow> string \<Rightarrow> string list \<Rightarrow> metric" where
  "metric_init ty name labels = \<lparr>fm_type = ty, fm_name = name, fm_label_names = labels, fm_values = [], fm_counts = []\<rparr>"

definition metric_value :: "metric \<Rightarrow> string list \<Rightarrow> flt" where
  "metric_value m k = (case map_of (fm_values m) k of None \<Rightarrow> Fin 0 | Some v \<Rightarrow> v)"

definition metric_inc :: "flt \<Rightarrow> string list \<Rightarrow> metric \<Rightarrow> metric" where
  "metric_inc amount k m = m\<lparr>fm_values := AList.update k (fadd (metric_value m k) amount) (fm_values m)\<rparr>"

definition metric_set :: "flt \<Rightarrow> string list \<Rightarrow> metric \<Rightarrow> metric" where
  "metric_set v k m = m\<lparr>fm_values := AList.update k v (fm_values m)\<rparr>"

definition metric_observe :: "flt \<Rightarrow> string list \<Rightarrow> metric \<Rightarrow> metric" where
  "metric_observe v k m = m\<lparr>fm_values := AList.update k (fadd (metric_value m k) v) (fm_values m),
     fm_counts := count_add k 1 (fm_counts m)\<rparr>"

definition escape_label :: "string \<Rightarrow> string" where
  "escape_label s = replace_char (CHR 0x0A) [CHR 0x5C, CHR ''n'']
     (replace_char (CHR 0x22) [CHR 0x5C, CHR 0x22] (replace_char (CHR 0x5C) [CHR 0x5C, CHR 0x5C] s))"

definition fallback_labels :: "string list \<Rightarrow> string list \<Rightarrow> string" where
  "fallback_labels names key = (if names = [] then [] else
     CHR 0x7B # join '','' (map (\<lambda>(n, v). n @ [CHR ''='', CHR 0x22] @ escape_label v @ [CHR 0x22]) (zip names key)) @ [CHR 0x7D])"

text \<open>\<open>f"{value}"\<close> of a float.\<close>

definition flt_text :: "flt \<Rightarrow> string" where
  "flt_text x = py_repr (json_of_flt x)"

definition metric_lines :: "metric \<Rightarrow> string list" where
  "metric_lines m = concat (map (\<lambda>(k, v). let labels = fallback_labels (fm_label_names m) k in
     if fm_type m = MHistogram then
       [fm_name m @ ''_count'' @ labels @ '' '' @ flt_text (fl (of_int (count_get (fm_counts m) k))),
        fm_name m @ ''_sum'' @ labels @ '' '' @ flt_text v]
     else [fm_name m @ labels @ '' '' @ flt_text v]) (sort_key fst (fm_values m)))"

definition generate_latest :: "metric list \<Rightarrow> string" where
  "generate_latest ms = (let lines = concat (map metric_lines ms) in
     if lines = [] then [] else join [CHR 0x0A] lines @ [CHR 0x0A])"

section \<open>The metrics of the queue proxy\<close>

record metrics =
  ms_metrics :: "metric list"
  ms_task_keys :: "string list list"

definition TASKS_BY_STATE :: string where "TASKS_BY_STATE = ''llmo_tasks_by_state''"

definition task_labels :: "string list" where
  "task_labels = [''tenant'', ''project'', ''service'', ''task'', ''model'']"

definition initial_metrics :: metrics where
  "initial_metrics = \<lparr>ms_metrics =
     [metric_init MCounter ''llm_requests_total'' [''model'', ''endpoint'', ''status''],
      metric_init MCounter ''llm_request_errors_total'' [''model'', ''error_type''],
      metric_init MHistogram ''llm_request_latency_seconds'' [''model'', ''endpoint''],
      metric_init MGauge ''llm_queue_length'' [''model''],
      metric_init MGauge ''llm_active_requests'' [''model''],
      metric_init MCounter ''llm_input_tokens_total'' [''model''],
      metric_init MCounter ''llm_output_token_budget_total'' [''model''],
      metric_init MCounter ''llmo_task_events_total'' (task_labels @ [''event'']),
      metric_init MCounter ''llmo_task_errors_total'' (task_labels @ [''error_type'', ''retryable'']),
      metric_init MGauge TASKS_BY_STATE (task_labels @ [''state'']),
      metric_init MHistogram ''llmo_task_queue_wait_seconds'' task_labels,
      metric_init MHistogram ''llmo_task_execution_seconds'' (task_labels @ [''state''])],
     ms_task_keys = []\<rparr>"

definition on_metric :: "string \<Rightarrow> (metric \<Rightarrow> metric) \<Rightarrow> metrics \<Rightarrow> metrics" where
  "on_metric name f ms = ms\<lparr>ms_metrics := map (\<lambda>m. if fm_name m = name then f m else m) (ms_metrics ms)\<rparr>"

definition record_snapshot :: "string \<Rightarrow> int \<Rightarrow> int \<Rightarrow> metrics \<Rightarrow> metrics" where
  "record_snapshot model active queued ms =
     on_metric ''llm_queue_length'' (metric_set (fl (of_int queued)) [model])
       (on_metric ''llm_active_requests'' (metric_set (fl (of_int active)) [model]) ms)"

definition task_key :: "'a queue_task_scheme \<Rightarrow> string list" where
  "task_key t = [t_tenant t, t_project t, t_service t, t_task t, t_model t]"

definition record_task_event :: "'a queue_task_scheme \<Rightarrow> string \<Rightarrow> metrics \<Rightarrow> metrics" where
  "record_task_event t event = on_metric ''llmo_task_events_total'' (metric_inc (Fin 1) (task_key t @ [event]))"

definition record_task_error :: "'a queue_task_scheme \<Rightarrow> dict \<Rightarrow> metrics \<Rightarrow> metrics" where
  "record_task_error t err = on_metric ''llmo_task_errors_total'' (metric_inc (Fin 1)
     (task_key t @ [py_str (py_or (dget err ''type'') (JStr ''unknown'')),
        py_lower (py_repr (JBool (truthy (dget err ''retryable''))))]))"

definition observe_task_queue_wait :: "'a queue_task_scheme \<Rightarrow> flt \<Rightarrow> metrics \<Rightarrow> metrics" where
  "observe_task_queue_wait t seconds =
     on_metric ''llmo_task_queue_wait_seconds'' (metric_observe (fmax (Fin 0) seconds) (task_key t))"

definition observe_task_execution :: "'a queue_task_scheme \<Rightarrow> string \<Rightarrow> flt \<Rightarrow> metrics \<Rightarrow> metrics" where
  "observe_task_execution t state seconds =
     on_metric ''llmo_task_execution_seconds'' (metric_observe (fmax (Fin 0) seconds) (task_key t @ [state]))"

type_synonym task_state_key = "string \<times> string \<times> string \<times> string \<times> string \<times> string"

fun state_key :: "task_state_key \<Rightarrow> string list" where
  "state_key (tenant, project, service, task, model, state) = [tenant, project, service, task, model, state]"

text \<open>First the gauges of keys that are no longer counted are set to zero, then the others to their
  counts.\<close>

definition record_task_counts :: "(task_state_key \<times> int) list \<Rightarrow> metrics \<Rightarrow> metrics" where
  "record_task_counts counts ms =
     (let next_keys = map (state_key \<circ> fst) counts;
          stale = filter (\<lambda>k. k \<notin> set next_keys) (ms_task_keys ms);
          zeroed = fold (\<lambda>k. on_metric TASKS_BY_STATE (metric_set (Fin 0) k)) stale ms;
          counted = fold (\<lambda>(k, n). on_metric TASKS_BY_STATE (metric_set (fl (of_int n)) (state_key k))) counts zeroed
      in counted\<lparr>ms_task_keys := next_keys\<rparr>)"

text \<open>\<open>GET /metrics\<close> and \<open>GET /status\<close> of the queue proxy.\<close>

definition metrics_handler :: "stored_task list \<Rightarrow> metrics \<Rightarrow> metrics \<times> string" where
  "metrics_handler tasks ms =
     (let ms' = record_task_counts (task_counts_by_state tasks) ms in (ms', generate_latest (ms_metrics ms')))"

definition record_snapshots :: "limiters \<Rightarrow> metrics \<Rightarrow> metrics" where
  "record_snapshots ls = fold (\<lambda>x. record_snapshot (snap_model x) (snap_active x) (snap_queued x)) (snapshots ls)"

end
