(* ===== verification/Metrics_Properties.thy ===== *)
theory Metrics_Properties
  imports Metrics
begin

text \<open>
  The gauges of the task states show the store: whatever was recorded before, after a scrape the
  gauge of every combination of labels is the number of tasks the store holds with it, also when
  that number has dropped to zero. And label values survive the text format.
\<close>

section \<open>The gauge of a key\<close>

definition task_gauge :: "metrics \<Rightarrow> string list \<Rightarrow> flt" where
  "task_gauge ms k = (case find (\<lambda>m. fm_name m = TASKS_BY_STATE) (ms_metrics ms) of
     None \<Rightarrow> Fin 0 | Some m \<Rightarrow> metric_value m k)"

definition metrics_ok :: "metrics \<Rightarrow> bool" where
  "metrics_ok ms \<longleftrightarrow> TASKS_BY_STATE \<in> fm_name ` set (ms_metrics ms) \<and> distinct (ms_task_keys ms) \<and>
     (\<forall>k. task_gauge ms k \<noteq> Fin 0 \<longrightarrow> k \<in> set (ms_task_keys ms))"

lemma metric_ops_name [simp]:
  "fm_name (metric_inc a k m) = fm_name m" "fm_name (metric_set a k m) = fm_name m"
  "fm_name (metric_observe a k m) = fm_name m"
  by (simp_all add: metric_inc_def metric_set_def metric_observe_def)

lemma metric_value_set [simp]: "metric_value (metric_set v k m) k' = (if k = k' then v else metric_value m k')"
  by (simp add: metric_value_def metric_set_def update_conv')

lemma on_metric_names:
  "(\<And>m. fm_name (f m) = fm_name m) \<Longrightarrow> map fm_name (ms_metrics (on_metric name f ms)) = map fm_name (ms_metrics ms)"
  by (simp add: on_metric_def)

lemma on_metric_keys [simp]: "ms_task_keys (on_metric name f ms) = ms_task_keys ms"
  by (simp add: on_metric_def)

lemma find_map_same:
  "(\<And>m. P (f m) = P m) \<Longrightarrow> find P (map f ms) = map_option f (find P ms)"
  by (induction ms) auto

lemma task_gauge_on_metric:
  assumes "\<And>m. fm_name (f m) = fm_name m"
  shows "task_gauge (on_metric name f ms) k = (if name = TASKS_BY_STATE
     then (case find (\<lambda>m. fm_name m = TASKS_BY_STATE) (ms_metrics ms) of None \<Rightarrow> Fin 0 | Some m \<Rightarrow> metric_value (f m) k)
     else task_gauge ms k)"
proof -
  have f: "find (\<lambda>m. fm_name m = TASKS_BY_STATE) (ms_metrics (on_metric name f ms)) =
      map_option (\<lambda>m. if fm_name m = name then f m else m) (find (\<lambda>m. fm_name m = TASKS_BY_STATE) (ms_metrics ms))"
    unfolding on_metric_def by (simp add: find_map_same assms)
  then show ?thesis
  proof (cases "find (\<lambda>m. fm_name m = TASKS_BY_STATE) (ms_metrics ms)")
    case (Some m)
    then have "fm_name m = TASKS_BY_STATE" by (auto simp: find_Some_iff)
    with Some f show ?thesis by (auto simp: task_gauge_def)
  qed (simp add: task_gauge_def)
qed

lemma task_gauge_other: "name \<noteq> TASKS_BY_STATE \<Longrightarrow> (\<And>m. fm_name (f m) = fm_name m) \<Longrightarrow>
    task_gauge (on_metric name f ms) k = task_gauge ms k"
  by (simp add: task_gauge_on_metric)

lemma task_gauge_set:
  assumes "TASKS_BY_STATE \<in> fm_name ` set (ms_metrics ms)"
  shows "task_gauge (on_metric TASKS_BY_STATE (metric_set v k) ms) k' = (if k = k' then v else task_gauge ms k')"
proof -
  obtain m where "find (\<lambda>m. fm_name m = TASKS_BY_STATE) (ms_metrics ms) = Some m"
    using assms by (cases "find (\<lambda>m. fm_name m = TASKS_BY_STATE) (ms_metrics ms)") (auto simp: find_None_iff)
  then show ?thesis by (subst task_gauge_on_metric) (simp_all add: task_gauge_def)
qed

lemma present_on_metric:
  "(\<And>m. fm_name (f m) = fm_name m) \<Longrightarrow>
     TASKS_BY_STATE \<in> fm_name ` set (ms_metrics (on_metric name f ms)) \<longleftrightarrow> TASKS_BY_STATE \<in> fm_name ` set (ms_metrics ms)"
  using on_metric_names [of f name ms] by (metis set_map)

lemma metrics_ok_other:
  "metrics_ok ms \<Longrightarrow> name \<noteq> TASKS_BY_STATE \<Longrightarrow> (\<And>m. fm_name (f m) = fm_name m) \<Longrightarrow> metrics_ok (on_metric name f ms)"
  by (simp add: metrics_ok_def present_on_metric task_gauge_other)

section \<open>Setting many gauges\<close>

lemma task_gauge_fold_set:
  "TASKS_BY_STATE \<in> fm_name ` set (ms_metrics ms) \<Longrightarrow> distinct (map fst kvs) \<Longrightarrow>
     TASKS_BY_STATE \<in> fm_name ` set (ms_metrics (fold (\<lambda>(k, v). on_metric TASKS_BY_STATE (metric_set v k)) kvs ms)) \<and>
     ms_task_keys (fold (\<lambda>(k, v). on_metric TASKS_BY_STATE (metric_set v k)) kvs ms) = ms_task_keys ms \<and>
     task_gauge (fold (\<lambda>(k, v). on_metric TASKS_BY_STATE (metric_set v k)) kvs ms) k' =
       (case map_of kvs k' of None \<Rightarrow> task_gauge ms k' | Some v \<Rightarrow> v)"
proof (induction kvs arbitrary: ms)
  case (Cons kv kvs)
  obtain k v where kv: "kv = (k, v)" by fastforce
  let ?ms = "on_metric TASKS_BY_STATE (metric_set v k) ms"
  have "TASKS_BY_STATE \<in> fm_name ` set (ms_metrics ?ms)" using Cons.prems by (simp add: present_on_metric)
  moreover have "map_of kvs k = None" using Cons.prems(2) kv by (simp add: map_of_eq_None_iff)
  ultimately show ?case
    using Cons.IH [of ?ms] Cons.prems by (auto simp: kv task_gauge_set split: option.splits)
qed simp

lemma state_key_inj: "state_key a = state_key b \<longleftrightarrow> a = b"
  by (cases a; cases b) auto

lemma distinct_count_add: "distinct (map fst m) \<Longrightarrow> distinct (map fst (count_add k n m))"
  by (simp add: count_add_def distinct_update)

lemma distinct_task_counts: "distinct (map fst (task_counts_by_state tasks))"
proof -
  have "distinct (map fst m) \<Longrightarrow> distinct (map fst (fold (\<lambda>t. count_add (task_state_count_key t) 1) tasks m))" for m
    by (induction tasks arbitrary: m) (simp_all add: distinct_count_add)
  then show ?thesis by (simp add: task_counts_by_state_def)
qed

lemma record_task_counts_fold:
  "record_task_counts counts ms = (fold (\<lambda>(k, v). on_metric TASKS_BY_STATE (metric_set v k))
     (map (\<lambda>kn. (state_key (fst kn), fl (of_int (snd kn)))) counts)
     (fold (\<lambda>(k, v). on_metric TASKS_BY_STATE (metric_set v k))
        (map (\<lambda>k. (k, Fin 0)) (filter (\<lambda>k. k \<notin> set (map (state_key \<circ> fst) counts)) (ms_task_keys ms))) ms))
     \<lparr>ms_task_keys := map (state_key \<circ> fst) counts\<rparr>"
  unfolding record_task_counts_def Let_def fold_map by (simp add: comp_def case_prod_unfold)

lemma map_of_state_keys:
  "map_of (map (\<lambda>kn. (state_key (fst kn), f (snd kn))) counts) (state_key key) = map_option f (map_of counts key)"
  by (induction counts) (auto simp: state_key_inj)

lemma record_task_counts_gauges:
  assumes ok: "metrics_ok ms" and d: "distinct (map fst counts)"
  shows "metrics_ok (record_task_counts counts ms)"
    and "task_gauge (record_task_counts counts ms) (state_key key) = fl (of_int (count_get counts key))"
proof -
  let ?next = "map (state_key \<circ> fst) counts"
  let ?zero = "map (\<lambda>k. (k, Fin 0)) (filter (\<lambda>k. k \<notin> set ?next) (ms_task_keys ms))"
  let ?new = "map (\<lambda>kn. (state_key (fst kn), fl (of_int (snd kn)))) counts"
  let ?set = "fold (\<lambda>(k, v). on_metric TASKS_BY_STATE (metric_set v k))"
  have dist: "distinct (map fst ?zero)" "distinct ?next" "map fst ?new = ?next"
    using ok d by (auto simp: metrics_ok_def comp_def distinct_map inj_on_def state_key_inj)
  note zeroed = task_gauge_fold_set [OF ok [unfolded metrics_ok_def, THEN conjunct1] dist(1)]
  have n: "distinct (map fst ?new)" unfolding dist(3) by (rule dist(2))
  have "TASKS_BY_STATE \<in> fm_name ` set (ms_metrics (?set ?zero ms))" using zeroed by blast
  note new = task_gauge_fold_set [OF this n]
  have counted: "task_gauge (?set ?new (?set ?zero ms)) k =
      (case map_of ?new k of None \<Rightarrow> (case map_of ?zero k of None \<Rightarrow> task_gauge ms k | Some v \<Rightarrow> v) | Some v \<Rightarrow> v)"
    "TASKS_BY_STATE \<in> fm_name ` set (ms_metrics (?set ?new (?set ?zero ms)))" for k
    using new [of k] zeroed [of k] by (simp_all only:)
  have rec: "task_gauge (record_task_counts counts ms) k = task_gauge (?set ?new (?set ?zero ms)) k" for k
    unfolding record_task_counts_fold by (simp add: task_gauge_def)
  have absent: "task_gauge (?set ?new (?set ?zero ms)) k = Fin 0" if "k \<notin> set ?next" for k
  proof -
    have "map_of ?new k = None" using that dist(3) by (metis (no_types) list.set_map map_of_eq_None_iff)
    moreover have "map_of ?zero k = (if k \<in> set (ms_task_keys ms) then Some (Fin 0) else None)"
      using that by (auto simp: map_of_map_restrict restrict_map_def)
    moreover have "k \<notin> set (ms_task_keys ms) \<Longrightarrow> task_gauge ms k = Fin 0" using ok by (auto simp: metrics_ok_def)
    ultimately show ?thesis unfolding counted(1) by (cases "k \<in> set (ms_task_keys ms)") simp_all
  qed
  show "metrics_ok (record_task_counts counts ms)"
    using counted(2) absent dist(2) rec unfolding metrics_ok_def by (auto simp: record_task_counts_fold)
  show "task_gauge (record_task_counts counts ms) (state_key key) = fl (of_int (count_get counts key))"
  proof (cases "map_of counts key")
    case None
    then have "state_key key \<notin> set ?next" by (force simp: map_of_eq_None_iff state_key_inj simp del: state_key.simps)
    then show ?thesis using None absent rec by (simp add: count_get_def fl_def)
  next
    case (Some n)
    then show ?thesis unfolding rec counted(1) by (simp add: map_of_state_keys [where f = "\<lambda>n. fl (of_int n)"] count_get_def)
  qed
qed

section \<open>Everything that is recorded\<close>

text \<open>What the proxy records between two scrapes, and a scrape.\<close>

datatype metric_event =
    Snapshot string int int
  | TaskEvent stored_task string
  | TaskError stored_task dict
  | QueueWait stored_task flt
  | Execution stored_task string flt
  | Counted string flt "string list"
  | Latency flt "string list"
  | Scrape "stored_task list"

definition proxy_counters :: "string set" where
  "proxy_counters = {''llm_requests_total'', ''llm_request_errors_total'', ''llm_input_tokens_total'',
     ''llm_output_token_budget_total''}"

fun apply_event :: "metric_event \<Rightarrow> metrics \<Rightarrow> metrics" where
  "apply_event (Snapshot model active queued) ms = record_snapshot model active queued ms"
| "apply_event (TaskEvent t e) ms = record_task_event t e ms"
| "apply_event (TaskError t d) ms = record_task_error t d ms"
| "apply_event (QueueWait t x) ms = observe_task_queue_wait t x ms"
| "apply_event (Execution t s x) ms = observe_task_execution t s x ms"
| "apply_event (Counted name x k) ms = (if name \<in> proxy_counters then on_metric name (metric_inc x k) ms else ms)"
| "apply_event (Latency x k) ms = on_metric ''llm_request_latency_seconds'' (metric_observe x k) ms"
| "apply_event (Scrape tasks) ms = fst (metrics_handler tasks ms)"

lemma initial_metrics_ok: "metrics_ok initial_metrics"
  by (simp add: metrics_ok_def initial_metrics_def task_gauge_def metric_init_def metric_value_def TASKS_BY_STATE_def)

lemma metrics_ok_event: "metrics_ok ms \<Longrightarrow> metrics_ok (apply_event e ms)"
proof (cases e)
  case (Scrape tasks)
  assume "metrics_ok ms"
  with Scrape show ?thesis
    by (simp add: metrics_handler_def Let_def record_task_counts_gauges(1) distinct_task_counts)
next
  case (Counted name x k)
  assume "metrics_ok ms"
  with Counted show ?thesis
    by (auto simp: proxy_counters_def TASKS_BY_STATE_def intro!: metrics_ok_other)
qed (simp_all add: record_snapshot_def record_task_event_def record_task_error_def observe_task_queue_wait_def
    observe_task_execution_def metrics_ok_other TASKS_BY_STATE_def)

lemma metrics_ok_events: "metrics_ok (fold apply_event es initial_metrics)"
proof -
  have "metrics_ok ms \<Longrightarrow> metrics_ok (fold apply_event es ms)" for ms
    by (induction es arbitrary: ms) (simp_all add: metrics_ok_event)
  then show ?thesis using initial_metrics_ok by blast
qed

text \<open>C11: whatever was recorded and scraped before, after a scrape the gauge of every combination of tenant,
  project, service, task, model and state is the number of tasks of the store with it: a state its last
  task has left goes back to zero.\<close>

theorem gauges_show_the_store:
  "task_gauge (fst (metrics_handler tasks (fold apply_event es initial_metrics))) (state_key key) =
     fl (of_int (int (length (filter (\<lambda>t. task_state_count_key t = key) tasks))))"
  unfolding metrics_handler_def Let_def fst_conv
  by (subst record_task_counts_gauges(2) [OF metrics_ok_events distinct_task_counts]) (simp add: task_counts_count)

section \<open>Label values\<close>

definition escape_char :: "char \<Rightarrow> string" where
  "escape_char c = (if c = CHR 0x5C then [CHR 0x5C, CHR 0x5C] else if c = CHR 0x22 then [CHR 0x5C, CHR 0x22]
     else if c = CHR 0x0A then [CHR 0x5C, CHR ''n''] else [c])"

lemma escape_label_chars: "escape_label s = concat (map escape_char s)"
  by (induction s) (auto simp: escape_label_def replace_char_def escape_char_def)

lemma prom_label_value_escape: "prom_label_value s = escape_label s"
  by (induction s) (auto simp: escape_label_def prom_label_value_def replace_char_def)

fun unescape :: "string \<Rightarrow> string" where
  "unescape (c # d # s) =
     (if c = CHR 0x5C then (if d = CHR ''n'' then CHR 0x0A else d) # unescape s else c # unescape (d # s))"
| "unescape s = s"

text \<open>A label value never ends its line or its quotes, and can be read back.\<close>

lemma escape_label_line: "CHR 0x0A \<notin> set (escape_label s)"
  by (auto simp: escape_label_chars escape_char_def split: if_splits)

lemma unescape_escape: "unescape (escape_label s) = s"
proof (induction s)
  case (Cons c s)
  have "unescape (escape_char c @ t) = c # unescape t" for t
    by (cases t) (auto simp: escape_char_def)
  with Cons show ?case by (simp add: escape_label_chars)
qed (simp add: escape_label_def replace_char_def)

end
