(* ===== verification/Lms_Bridge.thy ===== *)
theory Lms_Bridge
  imports Lifecycle_Runtime Lifecycle_Lmstudio
begin

text \<open>
  The host-side bridge \<open>lms_bridge.py\<close> to the LM Studio command line and the shim \<open>lms\<close> that the
  lifecycle container runs in its place. The real binary on the host is an argument: how each run of it
  ends. A handler returns its answer together with the commands it has executed. The JSON texts between shim and
  bridge carry dictionaries of strings and integers, which are passed on as they are.
\<close>

section \<open>The bridge\<close>

definition ALLOWED_SUBCOMMANDS :: "string set" where
  "ALLOWED_SUBCOMMANDS = {''load'', ''unload'', ''ps'', ''ls'', ''server'', ''status'', ''version'', ''--version''}"

definition DEFAULT_TIMEOUT_SECONDS :: int where "DEFAULT_TIMEOUT_SECONDS = 1800"

datatype host_result = Completed int string string | TimedOut string | Missing

text \<open>A command and the seconds it is given.\<close>

type_synonym host = "string list \<Rightarrow> int \<Rightarrow> host_result"

definition lms_answer :: "int \<Rightarrow> string \<Rightarrow> string \<Rightarrow> dict" where
  "lms_answer code out err = [(''returncode'', JInt code), (''stdout'', JStr out), (''stderr'', JStr err)]"

definition run_lms :: "host \<Rightarrow> string \<Rightarrow> string list \<Rightarrow> int \<Rightarrow> dict \<times> string list list" where
  "run_lms host binary args timeout = (case args of
       [] \<Rightarrow> (lms_answer 2 [] ''lms bridge: empty args'', [])
     | sub # _ \<Rightarrow>
         if sub \<notin> ALLOWED_SUBCOMMANDS then
           (lms_answer 2 [] (''lms bridge: subcommand '' @ repr_str sub @ '' not allowed''), [])
         else (case host (binary # args) timeout of
             Completed code out err \<Rightarrow> (lms_answer code out err, [binary # args])
           | TimedOut out \<Rightarrow>
               (lms_answer 124 out (''lms bridge: timed out after '' @ str_int timeout @ ''s''), [binary # args])
           | Missing \<Rightarrow> (lms_answer 127 [] (''lms bridge: lms binary not found at '' @ repr_str binary), [])))"

definition is_str :: "json \<Rightarrow> bool" where
  "is_str v = (case v of JStr _ \<Rightarrow> True | _ \<Rightarrow> False)"

text \<open>\<open>do_POST\<close>: the decoded body, or the exception of decoding it. An exception that leaves the handler closes the
  connection without an answer.\<close>

definition bridge_post ::
  "host \<Rightarrow> string \<Rightarrow> string \<Rightarrow> string option \<Rightarrow> (int \<Rightarrow> json res) \<Rightarrow> (int \<times> dict) res \<times> string list list" where
  "bridge_post host binary path content_length read =
     (if path \<noteq> ''/run'' then (Inr (404, [(''error'', JStr ''not found'')]), [])
      else (case py_int (py_or (case content_length of None \<Rightarrow> JNull | Some s \<Rightarrow> JStr s) (JInt 0)) of
          Inl e \<Rightarrow> (Inl e, [])
        | Inr n \<Rightarrow> (case read n of
            Inl (JSONDecodeError _) \<Rightarrow> (Inr (400, lms_answer 2 [] ''invalid json''), [])
          | Inl e \<Rightarrow> (Inl e, [])
          | Inr (JDict payload) \<Rightarrow> (case py_or (dget payload ''args'') (JList []) of
                JList items \<Rightarrow>
                  if \<not> list_all is_str items then (Inr (400, lms_answer 2 [] ''args must be string[]''), [])
                  else (case py_int (py_or (dget payload ''timeout'') (JInt DEFAULT_TIMEOUT_SECONDS)) of
                      Inl e \<Rightarrow> (Inl e, [])
                    | Inr t \<Rightarrow> (case run_lms host binary (map py_str items) t of (d, run) \<Rightarrow> (Inr (200, d), run)))
              | _ \<Rightarrow> (Inr (400, lms_answer 2 [] ''args must be string[]''), []))
          | Inr _ \<Rightarrow> (Inl AttributeError, []))))"

definition bridge_get :: "string \<Rightarrow> string \<Rightarrow> int \<times> dict" where
  "bridge_get binary path =
     (if path = ''/health'' then (200, [(''status'', JStr ''ok''), (''lms_binary'', JStr binary)])
      else (404, [(''error'', JStr ''not found'')]))"

section \<open>The shim\<close>

text \<open>What \<open>str\<close> gives for an HTTP error of \<open>urllib\<close>.\<close>

definition http_error_text :: "int \<Rightarrow> string" where
  "http_error_text status = ''HTTP Error '' @ str_int status @ '': '' @
     (if status = 404 then ''Not Found'' else if status = 400 then ''Bad Request'' else [])"

text \<open>Exit status (the code modulo 256, as the system reports it), standard output and standard error.
  A call of the bridge that fails, with the text of its exception or an HTTP error, is code 127.\<close>

definition shim_main :: "(dict \<Rightarrow> string + int \<times> dict) \<Rightarrow> int \<Rightarrow> string list \<Rightarrow> int \<times> string \<times> string" where
  "shim_main post timeout args =
     (case post [(''args'', JList (map JStr args)), (''timeout'', JInt timeout)] of
        Inl m \<Rightarrow> (127, [], ''lms shim: bridge call failed: '' @ m @ newline)
      | Inr (status, payload) \<Rightarrow>
          if status \<noteq> 200 then (127, [], ''lms shim: bridge call failed: '' @ http_error_text status @ newline)
          else (case py_int (py_or (dget payload ''returncode'') (JInt 0)) of
              Inr code \<Rightarrow> (code mod 256, py_str (py_or (dget payload ''stdout'') (JStr [])),
                py_str (py_or (dget payload ''stderr'') (JStr [])))
            | Inl e \<Rightarrow> (1, py_str (py_or (dget payload ''stdout'') (JStr [])), exn_name e)))"

text \<open>The shim in front of the bridge, as the subprocess calls of the lifecycle service see it. When the
  bridge cannot be reached, or its handler raised, the call fails with the given text.\<close>

definition through_bridge :: "host \<Rightarrow> string \<Rightarrow> string option \<Rightarrow> dict \<Rightarrow> string + int \<times> dict" where
  "through_bridge host binary down body = (case down of
       Some m \<Rightarrow> Inl m
     | None \<Rightarrow> (case fst (bridge_post host binary ''/run'' (Some ''1'') (\<lambda>_. Inr (JDict body))) of
           Inl _ \<Rightarrow> Inl ''Remote end closed connection without response''
         | Inr answer \<Rightarrow> Inr answer))"

definition bridged_shell :: "host \<Rightarrow> string \<Rightarrow> string option \<Rightarrow> int \<Rightarrow> shell" where
  "bridged_shell host binary down timeout command =
     (case shim_main (through_bridge host binary down) timeout (tl command) of
        (code, out, err) \<Rightarrow> if code = 0 then None else Some (CalledProcessError out err))"

end
