(* ===== verification/Bridge_Properties.thy ===== *)
theory Bridge_Properties
  imports Lms_Bridge Lifecycle_Controller
begin

text \<open>
  The lifecycle service behind the bridge: every command it sends is one the bridge executes, nothing
  else is ever executed, and which of the outcomes its adapter distinguishes survive the way through
  shim and bridge.
\<close>

section \<open>What is executed\<close>

lemma run_lms_executes:
  "run \<in> set (snd (run_lms host binary args t)) \<Longrightarrow> run = binary # args \<and> args \<noteq> [] \<and> hd args \<in> ALLOWED_SUBCOMMANDS"
  by (auto simp: run_lms_def split: list.splits if_splits host_result.splits)

lemma list_all_is_str: "list_all is_str items \<Longrightarrow> items = map JStr (map py_str items)"
  by (induction items) (auto simp: is_str_def split: json.splits)

text \<open>The commands of the lifecycle service.\<close>

definition lifecycle_commands :: "model_profile \<Rightarrow> string \<Rightarrow> string list set" where
  "lifecycle_commands p i = {lmstudio_load_command p, lmstudio_estimate_command p,
     lmstudio_unload_command (p_lms_binary p) i, [p_lms_binary p, ''ls'', ''--json''], [p_lms_binary p, ''ps'', ''--json'']}"

lemma lifecycle_commands_allowed:
  "command \<in> lifecycle_commands p i \<Longrightarrow> tl command \<noteq> [] \<and> hd (tl command) \<in> ALLOWED_SUBCOMMANDS"
  by (auto simp: lifecycle_commands_def lmstudio_estimate_command_def lmstudio_load_command_def
      lmstudio_unload_command_def ALLOWED_SUBCOMMANDS_def)

lemma bridge_post_args:
  "timeout \<noteq> 0 \<Longrightarrow> bridge_post host binary ''/run'' (Some ''1'')
      (\<lambda>_. Inr (JDict [(''args'', JList (map JStr args)), (''timeout'', JInt timeout)])) =
    (Inr (200, fst (run_lms host binary args timeout)), snd (run_lms host binary args timeout))"
proof -
  have "py_int (JStr ''1'') = Inr 1" by code_simp
  moreover have "list_all is_str (map JStr args)" "map py_str (map JStr args) = args"
    by (induction args) (simp_all add: is_str_def)
  moreover assume "timeout \<noteq> 0"
  ultimately show ?thesis
    by (auto simp: bridge_post_def py_or_def comp_def split: prod.split)
qed

lemma bridge_post_executes:
  assumes "snd (bridge_post host binary path content_length read) \<noteq> []"
  obtains args t where "snd (bridge_post host binary path content_length read) = snd (run_lms host binary args t)"
  using assms
  by (auto simp: bridge_post_def split: if_splits sum.splits exn.splits json.splits prod.splits) (metis snd_conv)+

lemma run_lms_once: "length (snd (run_lms host binary args t)) \<le> 1"
  by (auto simp: run_lms_def split: list.splits host_result.splits)

text \<open>C12: whatever is posted to it, the bridge executes at most one command, the binary it was started with and
  arguments that begin with a subcommand of the list; and every command the lifecycle service runs is
  executed with the same arguments.\<close>

theorem the_bridge_runs_only_listed_commands:
  "(\<forall>run\<in>set (snd (bridge_post host binary path content_length read)).
      \<exists>args. run = binary # args \<and> args \<noteq> [] \<and> hd args \<in> ALLOWED_SUBCOMMANDS) \<and>
   length (snd (bridge_post host binary path content_length read)) \<le> 1 \<and>
   (timeout \<noteq> 0 \<longrightarrow> command \<in> lifecycle_commands p i \<longrightarrow> (\<forall>c t. host c t \<noteq> Missing) \<longrightarrow>
      snd (bridge_post host binary ''/run'' (Some ''1'')
        (\<lambda>_. Inr (JDict [(''args'', JList (map JStr (tl command))), (''timeout'', JInt timeout)]))) = [binary # tl command])"
proof (intro conjI ballI impI)
  fix run
  assume run: "run \<in> set (snd (bridge_post host binary path content_length read))"
  then have "snd (bridge_post host binary path content_length read) \<noteq> []" by auto
  then obtain args t where "snd (bridge_post host binary path content_length read) = snd (run_lms host binary args t)"
    by (rule bridge_post_executes)
  with run run_lms_executes [of run host binary args t]
  show "\<exists>args. run = binary # args \<and> args \<noteq> [] \<and> hd args \<in> ALLOWED_SUBCOMMANDS" by auto
next
  show "length (snd (bridge_post host binary path content_length read)) \<le> 1"
  proof (cases "snd (bridge_post host binary path content_length read) = []")
    case False
    then obtain args t where "snd (bridge_post host binary path content_length read) = snd (run_lms host binary args t)"
      by (rule bridge_post_executes)
    then show ?thesis by (simp only: run_lms_once)
  qed simp
next
  assume "timeout \<noteq> 0" "command \<in> lifecycle_commands p i" "\<forall>c t. host c t \<noteq> Missing"
  with lifecycle_commands_allowed [of command p i] show "snd (bridge_post host binary ''/run'' (Some ''1'')
        (\<lambda>_. Inr (JDict [(''args'', JList (map JStr (tl command))), (''timeout'', JInt timeout)]))) = [binary # tl command]"
    unfolding bridge_post_args [OF \<open>timeout \<noteq> 0\<close>]
    by (cases "tl command") (auto simp: run_lms_def split: host_result.splits)
qed

section \<open>What the adapter sees\<close>

lemma shim_call:
  "timeout \<noteq> 0 \<Longrightarrow> shim_main (through_bridge host binary None) timeout args =
     (case py_int (py_or (dget (fst (run_lms host binary args timeout)) ''returncode'') (JInt 0)) of
        Inr code \<Rightarrow> (code mod 256, py_str (py_or (dget (fst (run_lms host binary args timeout)) ''stdout'') (JStr [])),
          py_str (py_or (dget (fst (run_lms host binary args timeout)) ''stderr'') (JStr [])))
      | Inl e \<Rightarrow> (1, py_str (py_or (dget (fst (run_lms host binary args timeout)) ''stdout'') (JStr [])), exn_name e))"
  by (simp add: shim_main_def through_bridge_def bridge_post_args)

lemma bridged_shell_call:
  assumes "timeout \<noteq> 0" "tl command = sub # args" "sub \<in> ALLOWED_SUBCOMMANDS"
  shows "bridged_shell host binary None timeout command =
    (case host (binary # sub # args) timeout of
       Completed code out err \<Rightarrow> if code mod 256 = 0 then None else Some (CalledProcessError out err)
     | TimedOut out \<Rightarrow> Some (CalledProcessError out (''lms bridge: timed out after '' @ str_int timeout @ ''s''))
     | Missing \<Rightarrow> Some (CalledProcessError [] (''lms bridge: lms binary not found at '' @ repr_str binary)))"
  unfolding bridged_shell_def shim_call [OF assms(1)] assms(2)
  using assms(3) by (auto simp: run_lms_def lms_answer_def py_or_def split: host_result.splits)

lemma load_command_tl: "\<exists>args. tl (lmstudio_load_command p) = ''load'' # args"
  by (simp add: lmstudio_load_command_def)

text \<open>Behind the shim a missing binary or an unreachable bridge is a failed command: a profile that is to
  be loaded only if the command line is available fails to load, where it was skipped when the
  container had no \<open>lms\<close> at all. Success, and the answer that the identifier exists already, come
  through unchanged.\<close>

theorem an_unavailable_cli_is_not_skipped_behind_the_shim:
  assumes "py_lower (p_load_strategy p) \<in> {''cli-if-available'', ''if-available'', ''auto''}" "timeout \<noteq> 0"
    and "\<not> lmstudio_identifier_already_exists [] (''lms bridge: lms binary not found at '' @ repr_str binary)"
  shows "maybe_load_lmstudio (\<lambda>_. Some FileNotFoundError) p =
      Inr (''lmstudio-cli-unavailable'' # lmstudio_load_command p, False) \<and>
    maybe_load_lmstudio (bridged_shell (\<lambda>_ _. Missing) binary None timeout) p =
      Inl (CalledProcessError [] (''lms bridge: lms binary not found at '' @ repr_str binary)) \<and>
    maybe_load_lmstudio (bridged_shell host binary (Some ''timed out'') timeout) p =
      Inl (CalledProcessError [] (''lms shim: bridge call failed: timed out'' @ newline)) \<and>
    maybe_load_lmstudio (bridged_shell (\<lambda>_ _. Completed 0 out err) binary None timeout) p =
      Inr (lmstudio_load_command p, True) \<and>
    (lmstudio_identifier_already_exists out err \<longrightarrow>
       maybe_load_lmstudio (bridged_shell (\<lambda>_ _. Completed 1 out err) binary None timeout) p =
         Inr (''lmstudio-preexisting'' # lmstudio_load_command p, False))"
proof -
  obtain args where l: "tl (lmstudio_load_command p) = ''load'' # args" using load_command_tl by blast
  have "''load'' \<in> ALLOWED_SUBCOMMANDS" by (simp add: ALLOWED_SUBCOMMANDS_def)
  note call = bridged_shell_call [OF assms(2) l this]
  have "\<not> lmstudio_identifier_already_exists [] (''lms shim: bridge call failed: timed out'' @ newline)" by code_simp
  moreover have "bridged_shell host binary (Some ''timed out'') timeout (lmstudio_load_command p) =
      Some (CalledProcessError [] (''lms shim: bridge call failed: timed out'' @ newline))"
    by (simp add: bridged_shell_def shim_main_def through_bridge_def)
  moreover have "py_lower (p_load_strategy p) \<notin> {''none'', ''api'', ''external''}" using assms(1) by auto
  ultimately show ?thesis using assms(1,3) call by (auto simp: maybe_load_lmstudio_def Let_def)
qed

section \<open>At a concrete profile\<close>

definition zotero_profile :: model_profile where
  "zotero_profile = \<lparr>p_public_name = ''zotero-html-translate'', p_backend_model = ''qwen'', p_runtime = ''lmstudio'',
     p_artifact = None, p_runtime_image = None, p_host_port_start = 1234, p_container_port = 1234,
     p_public_host = ''host'', p_base_url = Some ''http://host:1234/v1'', p_docker_extra_args = [], p_runtime_extra_args = [],
     p_volume_mounts = [], p_environment = [], p_healthcheck_path = ''/v1/models'',
     p_startup_timeout_seconds = Fin 300, p_healthcheck_interval_seconds = Fin 2, p_warmup_enabled = True,
     p_warmup_prompt = ''ping'', p_warmup_max_tokens = 8, p_estimated_vram_mb = 9000, p_safety_margin_mb = 512,
     p_min_replicas = 0, p_max_replicas = 1, p_idle_ttl_seconds = 900, p_load_strategy = ''cli-if-available'',
     p_lms_binary = ''lms'', p_lms_gpu = Some ''max'', p_lms_context_length = Some 8, p_lms_parallel = Some 2,
     p_lms_ttl_seconds = None, p_preferred_gpus = [''auto''], p_reload_min_dwell_seconds = 300,
     p_reload_allow_bucket_only = False\<rparr>"

theorem the_bridge_runs_only_listed_commands_witness:
  "snd (bridge_post (\<lambda>_ _. Completed 0 [] []) ''lms.exe'' ''/run'' (Some ''1'')
      (\<lambda>_. Inr (JDict [(''args'', JList (map JStr (tl (lmstudio_load_command zotero_profile)))), (''timeout'', JInt 2000)]))) =
    [''lms.exe'' # tl (lmstudio_load_command zotero_profile)] \<and>
   snd (bridge_post (\<lambda>_ _. Completed 0 [] []) ''lms.exe'' ''/run'' (Some ''1'')
      (\<lambda>_. Inr (JDict [(''args'', JList [JStr ''rm'', JStr ''-rf'', JStr ''/'']), (''timeout'', JInt 2000)]))) = []"
proof (rule conjI)
  show "snd (bridge_post (\<lambda>_ _. Completed 0 [] []) ''lms.exe'' ''/run'' (Some ''1'')
      (\<lambda>_. Inr (JDict [(''args'', JList (map JStr (tl (lmstudio_load_command zotero_profile)))), (''timeout'', JInt 2000)]))) =
    [''lms.exe'' # tl (lmstudio_load_command zotero_profile)]"
    using the_bridge_runs_only_listed_commands [of "\<lambda>_ _. Completed 0 [] []" "''lms.exe''" "''/run''" "Some ''1''" "\<lambda>_. Inr JNull"
      2000 "lmstudio_load_command zotero_profile" zotero_profile "''qwen''"]
    by (simp add: lifecycle_commands_def)
  show "snd (bridge_post (\<lambda>_ _. Completed 0 [] []) ''lms.exe'' ''/run'' (Some ''1'')
      (\<lambda>_. Inr (JDict [(''args'', JList [JStr ''rm'', JStr ''-rf'', JStr ''/'']), (''timeout'', JInt 2000)]))) = []"
    by code_simp
qed

theorem an_unavailable_cli_is_not_skipped_behind_the_shim_witness:
  "maybe_load_lmstudio (\<lambda>_. Some FileNotFoundError) zotero_profile =
      Inr (''lmstudio-cli-unavailable'' # lmstudio_load_command zotero_profile, False) \<and>
   maybe_load_lmstudio (bridged_shell (\<lambda>_ _. Missing) ''lms.exe'' None 2000) zotero_profile =
      Inl (CalledProcessError [] (''lms bridge: lms binary not found at '' @ repr_str ''lms.exe''))"
proof -
  have h: "py_lower (p_load_strategy zotero_profile) \<in> {''cli-if-available'', ''if-available'', ''auto''}"
    "\<not> lmstudio_identifier_already_exists [] (''lms bridge: lms binary not found at '' @ repr_str ''lms.exe'')"
    by code_simp+
  show ?thesis using an_unavailable_cli_is_not_skipped_behind_the_shim [OF h(1) _ h(2), of 2000] by simp
qed

end
