(* ===== verification/Healthcheck.thy ===== *)
theory Healthcheck
  imports Backend_Client
begin

text \<open>
  The health check service: \<open>app/state.py\<close>, \<open>app/lmstudio_client.py\<close> and the readiness check of
  \<open>app/main.py\<close>. The two HTTP answers are arguments, and so are the rounded latencies.
\<close>

section \<open>state.py\<close>

definition HEALTHY :: string where "HEALTHY = ''healthy''"
definition DEGRADED :: string where "DEGRADED = ''degraded''"
definition UNHEALTHY :: string where "UNHEALTHY = ''unhealthy''"
definition UNKNOWN :: string where "UNKNOWN = ''unknown''"

definition state_value :: "string \<Rightarrow> rat" where
  "state_value s = (if s = HEALTHY then 1 else if s = DEGRADED then 1 / 2 else if s = UNHEALTHY then 0 else - 1)"

definition overall_status :: "dict list \<Rightarrow> string" where
  "overall_status checks =
     (let statuses = map (\<lambda>c. py_str (dget_or c ''status'' (JStr UNKNOWN))) checks in
      if statuses = [] then UNKNOWN
      else if UNHEALTHY \<in> set statuses then UNHEALTHY
      else if UNKNOWN \<in> set statuses then UNKNOWN
      else if DEGRADED \<in> set statuses then DEGRADED
      else HEALTHY)"

section \<open>lmstudio_client.py\<close>

definition health_auth_headers :: "string \<Rightarrow> headers" where
  "health_auth_headers api_key = (if api_key = [] then [] else [(''Authorization'', ''Bearer '' @ api_key)])"

fun model_ids :: "json list \<Rightarrow> string list" where
  "model_ids [] = []"
| "model_ids (JDict item # items) =
     (let i = py_or (py_or (dget item ''id'') (dget item ''model'')) (dget item ''name'') in
      if truthy i then py_str i # model_ids items else model_ids items)"
| "model_ids (_ # items) = model_ids items"

definition list_models :: "http_reply \<Rightarrow> string list res" where
  "list_models reply = bind_res (client_post_json reply) (\<lambda>payload. case payload of
       JDict d \<Rightarrow> (case dget_or d ''data'' (JList []) of JList items \<Rightarrow> Inr (model_ids items) | _ \<Rightarrow> Inr [])
     | _ \<Rightarrow> Inl AttributeError)"

text \<open>\<open>choices[0]\<close> of a value that is true.\<close>

definition first_choice :: "json \<Rightarrow> json res" where
  "first_choice v = (case v of
       JList (x # _) \<Rightarrow> Inr x
     | JStr (c # _) \<Rightarrow> Inr (JStr [c])
     | JDict _ \<Rightarrow> Inl (KeyError ''0'')
     | _ \<Rightarrow> Inl TypeError)"

definition choice_content :: "json \<Rightarrow> string" where
  "choice_content v = (case v of
       JDict choice \<Rightarrow> (case dget choice ''message'' of
           JDict message \<Rightarrow> py_str (py_or (dget message ''content'') (JStr []))
         | _ \<Rightarrow> py_str (py_or (dget choice ''text'') (JStr [])))
     | _ \<Rightarrow> [])"

record completion =
  co_id :: json
  co_model :: json
  co_content :: string

definition chat_completion :: "http_reply \<Rightarrow> completion res" where
  "chat_completion reply = bind_res (client_post_json reply) (\<lambda>data. case data of
       JDict d \<Rightarrow>
         (let choices = dget_or d ''choices'' (JList []) in
          bind_res (if truthy choices then first_choice choices else Inr JNull) (\<lambda>choice.
          Inr \<lparr>co_id = dget d ''id'', co_model = dget d ''model'', co_content = choice_content choice\<rparr>))
     | _ \<Rightarrow> Inl AttributeError)"

section \<open>The readiness check\<close>

record health_settings =
  hs_service_name :: string
  hs_lmstudio_model_id :: string
  hs_enable_litellm_path_check :: bool

text \<open>\<open>except (httpx.HTTPError, ValueError)\<close>; a JSON decoding error is a ValueError.\<close>

definition is_check_error :: "exn \<Rightarrow> bool" where
  "is_check_error e \<longleftrightarrow> is_http_error e \<or> (case e of ValueError _ \<Rightarrow> True | JSONDecodeError _ \<Rightarrow> True | _ \<Rightarrow> False)"

definition check_lmstudio_models :: "health_settings \<Rightarrow> json \<Rightarrow> http_reply \<Rightarrow> dict res" where
  "check_lmstudio_models st latency reply = (case list_models reply of
       Inl e \<Rightarrow> if is_check_error e
         then Inr [(''name'', JStr ''lmstudio_models''), (''status'', JStr UNHEALTHY), (''latency_seconds'', latency),
           (''error_type'', JStr (exn_name e)), (''loaded_model_count'', JInt 0)]
         else Inl e
     | Inr ids \<Rightarrow>
         (let found = hs_lmstudio_model_id st \<in> set ids in
          Inr [(''name'', JStr ''lmstudio_models''), (''status'', JStr (if found then HEALTHY else DEGRADED)),
            (''latency_seconds'', latency), (''expected_model'', JStr (hs_lmstudio_model_id st)),
            (''model_found'', JBool found), (''loaded_model_count'', JInt (int (length ids))),
            (''loaded_models'', JList (map JStr ids))]))"

definition check_litellm_completion :: "json \<Rightarrow> http_reply \<Rightarrow> dict res" where
  "check_litellm_completion latency reply = (case chat_completion reply of
       Inl e \<Rightarrow> if is_check_error e
         then Inr [(''name'', JStr ''litellm_chat_completion''), (''status'', JStr UNHEALTHY),
           (''latency_seconds'', latency), (''error_type'', JStr (exn_name e))]
         else Inl e
     | Inr c \<Rightarrow>
         (let present = strip (co_content c) \<noteq> [] in
          Inr [(''name'', JStr ''litellm_chat_completion''), (''status'', JStr (if present then HEALTHY else DEGRADED)),
            (''latency_seconds'', latency), (''response_id'', co_id c), (''response_model'', co_model c),
            (''content_present'', JBool present)]))"

record check_env =
  en_latency_models :: json
  en_latency_completion :: json
  en_latency :: json
  en_models :: http_reply
  en_completion :: http_reply

definition run_readiness_check :: "health_settings \<Rightarrow> check_env \<Rightarrow> dict res" where
  "run_readiness_check st env =
     bind_res (check_lmstudio_models st (en_latency_models env) (en_models env)) (\<lambda>first.
     bind_res (if hs_enable_litellm_path_check st
         then bind_res (check_litellm_completion (en_latency_completion env) (en_completion env)) (\<lambda>second. Inr [first, second])
         else Inr [first]) (\<lambda>checks.
     Inr [(''service'', JStr (hs_service_name st)), (''status'', JStr (overall_status checks)),
       (''latency_seconds'', en_latency env), (''checks'', JList (map JDict checks))]))"

definition health_ready :: "health_settings \<Rightarrow> check_env \<Rightarrow> (int \<times> dict) res" where
  "health_ready st env = bind_res (run_readiness_check st env) (\<lambda>d.
     Inr (if dget d ''status'' = JStr HEALTHY then 200 else 503, d))"

section \<open>metrics.py\<close>

text \<open>The calls of the recorders, in order; what the Prometheus client keeps of them is its own.\<close>

datatype health_metric =
    BackendHealth string rat
  | LoadedModels int
  | ReadinessLatency json
  | CheckFailed string

definition record_backend_health :: "string \<Rightarrow> string \<Rightarrow> health_metric" where
  "record_backend_health backend status = BackendHealth backend (state_value status)"

definition lmstudio_errors :: "health_settings \<Rightarrow> http_reply \<Rightarrow> health_metric list" where
  "lmstudio_errors st reply = (case list_models reply of
       Inl e \<Rightarrow> if is_check_error e then [CheckFailed ''lmstudio_models''] else []
     | Inr ids \<Rightarrow> if hs_lmstudio_model_id st \<in> set ids then [] else [CheckFailed ''lmstudio_models''])"

definition litellm_errors :: "http_reply \<Rightarrow> health_metric list" where
  "litellm_errors reply = (case chat_completion reply of
       Inl e \<Rightarrow> if is_check_error e then [CheckFailed ''litellm_chat_completion''] else []
     | Inr c \<Rightarrow> if strip (co_content c) \<noteq> [] then [] else [CheckFailed ''litellm_chat_completion''])"

definition check_status :: "dict \<Rightarrow> string" where
  "check_status check = py_str (dget check ''status'')"

definition loaded_count :: "dict \<Rightarrow> int" where
  "loaded_count check = (case dget check ''loaded_model_count'' of JInt n \<Rightarrow> n | _ \<Rightarrow> 0)"

text \<open>What a readiness check records, also when it raises.\<close>

definition readiness_metrics :: "health_settings \<Rightarrow> check_env \<Rightarrow> health_metric list" where
  "readiness_metrics st env = lmstudio_errors st (en_models env) @
     (case check_lmstudio_models st (en_latency_models env) (en_models env) of
        Inl _ \<Rightarrow> []
      | Inr first \<Rightarrow>
          (if hs_enable_litellm_path_check st then
             litellm_errors (en_completion env) @
             (case check_litellm_completion (en_latency_completion env) (en_completion env) of
                Inl _ \<Rightarrow> []
              | Inr second \<Rightarrow> [ReadinessLatency (en_latency env), LoadedModels (loaded_count first),
                  record_backend_health ''lmstudio'' (check_status first),
                  record_backend_health ''litellm'' (check_status second)])
           else [ReadinessLatency (en_latency env), LoadedModels (loaded_count first),
             record_backend_health ''lmstudio'' (check_status first)]))"

section \<open>When the service is ready\<close>

lemmas status_defs = HEALTHY_def DEGRADED_def UNHEALTHY_def UNKNOWN_def

text \<open>Unless an answer has a shape the client cannot read at all, the readiness check answers 200 or 503,
  also when a request fails or its body is no JSON; and 200 exactly when the expected model is among those LM Studio
  lists and, where the path check is enabled, the completion has a text that is not blank.\<close>

theorem ready_means_every_check_passed:
  assumes "\<And>e. list_models (en_models env) = Inl e \<Longrightarrow> is_check_error e"
    and "\<And>e. chat_completion (en_completion env) = Inl e \<Longrightarrow> is_check_error e"
  shows "\<exists>code d. health_ready st env = Inr (code, d) \<and> code \<in> {200, 503} \<and>
    (code = 200 \<longleftrightarrow> (\<exists>ids. list_models (en_models env) = Inr ids \<and> hs_lmstudio_model_id st \<in> set ids) \<and>
      (hs_enable_litellm_path_check st \<longrightarrow>
         (\<exists>c. chat_completion (en_completion env) = Inr c \<and> strip (co_content c) \<noteq> [])))"
  using assms
  by (cases "list_models (en_models env)"; cases "chat_completion (en_completion env)")
    (simp_all add: health_ready_def run_readiness_check_def check_lmstudio_models_def check_litellm_completion_def
      overall_status_def Let_def status_defs dget_or_def)

theorem ready_means_every_check_passed_witness:
  "\<exists>d. health_ready \<lparr>hs_service_name = ''healthcheck'', hs_lmstudio_model_id = ''local-main'', hs_enable_litellm_path_check = True\<rparr>
     \<lparr>en_latency_models = JInt 0, en_latency_completion = JInt 0, en_latency = JInt 0,
      en_models = Reply 200 (Inr (JDict [(''data'', JList [JDict [(''id'', JStr ''local-main'')]])])),
      en_completion = Failed ''ReadTimeout''\<rparr> = Inr (503, d)"
proof -
  let ?env = "\<lparr>en_latency_models = JInt 0, en_latency_completion = JInt 0, en_latency = JInt 0,
      en_models = Reply 200 (Inr (JDict [(''data'', JList [JDict [(''id'', JStr ''local-main'')]])])),
      en_completion = Failed ''ReadTimeout''\<rparr>"
  have "list_models (en_models ?env) = Inr [''local-main'']" by code_simp
  moreover have "chat_completion (en_completion ?env) = Inl (HTTPError ''ReadTimeout'')" by code_simp
  ultimately show ?thesis
    using ready_means_every_check_passed [of ?env "\<lparr>hs_service_name = ''healthcheck'',
      hs_lmstudio_model_id = ''local-main'', hs_enable_litellm_path_check = True\<rparr>"]
    by (simp add: is_check_error_def) blast
qed

lemma lmstudio_checked:
  assumes "check_lmstudio_models st latency reply = Inr c"
  shows "dget c ''status'' = JStr (check_status c)" "check_status c \<in> {HEALTHY, DEGRADED, UNHEALTHY}"
    "lmstudio_errors st reply = (if check_status c = HEALTHY then [] else [CheckFailed ''lmstudio_models''])"
  using assms
  by (cases "list_models reply",
      auto simp: check_lmstudio_models_def lmstudio_errors_def check_status_def Let_def status_defs split: if_splits)+

lemma litellm_checked:
  assumes "check_litellm_completion latency reply = Inr c"
  shows "dget c ''status'' = JStr (check_status c)" "check_status c \<in> {HEALTHY, DEGRADED, UNHEALTHY}"
    "litellm_errors reply = (if check_status c = HEALTHY then [] else [CheckFailed ''litellm_chat_completion''])"
  using assms
  by (cases "chat_completion reply",
      auto simp: check_litellm_completion_def litellm_errors_def check_status_def Let_def status_defs split: if_splits)+

lemma overall_healthy:
  "overall_status (c # cs) = HEALTHY \<longleftrightarrow> (\<forall>x\<in>set (c # cs). check_status x = HEALTHY)"
  if ok: "\<forall>x\<in>set (c # cs). dget x ''status'' = JStr (check_status x) \<and> check_status x \<in> {HEALTHY, DEGRADED, UNHEALTHY}"
proof -
  have "dget_or x ''status'' (JStr UNKNOWN) = dget x ''status''" if "x \<in> set (c # cs)" for x
    using that ok by (auto simp: dget_or_def dget_def split: option.splits)
  then have "map (\<lambda>x. py_str (dget_or x ''status'' (JStr UNKNOWN))) (c # cs) = map check_status (c # cs)"
    by (simp add: check_status_def)
  then have "overall_status (c # cs) = (let statuses = map check_status (c # cs) in
      if UNHEALTHY \<in> set statuses then UNHEALTHY else if UNKNOWN \<in> set statuses then UNKNOWN
      else if DEGRADED \<in> set statuses then DEGRADED else HEALTHY)"
    unfolding overall_status_def by (simp add: Let_def)
  moreover have "check_status x = HEALTHY \<or> check_status x = DEGRADED \<or> check_status x = UNHEALTHY" if "x \<in> set (c # cs)" for x
    using that ok by blast
  moreover have "UNHEALTHY \<noteq> HEALTHY" "UNKNOWN \<noteq> HEALTHY" "DEGRADED \<noteq> HEALTHY" by (simp_all add: status_defs)
  ultimately show ?thesis unfolding Let_def set_map by (metis (no_types, lifting) imageE imageI)
qed

lemma state_value_one: "state_value s = 1 \<longleftrightarrow> s = HEALTHY"
  by (simp add: state_value_def)

text \<open>The service is ready exactly when no check is counted as failed, and its gauges say the same: a backend is at 1
  exactly when its check passed.\<close>

lemma metrics_agree_with_readiness:
  assumes "health_ready st env = Inr (code, d)"
  shows "(code = 200 \<longleftrightarrow> (\<forall>name. CheckFailed name \<notin> set (readiness_metrics st env))) \<and>
    (\<forall>backend v. BackendHealth backend v \<in> set (readiness_metrics st env) \<longrightarrow>
       (v = 1 \<longleftrightarrow> CheckFailed (if backend = ''lmstudio'' then ''lmstudio_models'' else ''litellm_chat_completion'')
          \<notin> set (readiness_metrics st env)))"
proof -
  obtain first where first: "check_lmstudio_models st (en_latency_models env) (en_models env) = Inr first"
    using assms by (auto simp: health_ready_def run_readiness_check_def bind_res_Inr_iff)
  note f = lmstudio_checked [OF first]
  show ?thesis
  proof (cases "hs_enable_litellm_path_check st")
    case False
    then have "code = 200 \<longleftrightarrow> overall_status [first] = HEALTHY"
      using assms first by (auto simp: health_ready_def run_readiness_check_def split: if_splits)
    with f False first show ?thesis
      by (auto simp: overall_healthy readiness_metrics_def record_backend_health_def state_value_one)
  next
    case True
    then obtain second where second: "check_litellm_completion (en_latency_completion env) (en_completion env) = Inr second"
      using assms first by (auto simp: health_ready_def run_readiness_check_def bind_res_Inr_iff)
    note g = litellm_checked [OF second]
    have "code = 200 \<longleftrightarrow> overall_status [first, second] = HEALTHY"
      using assms first second True by (auto simp: health_ready_def run_readiness_check_def split: if_splits)
    with f g True first second show ?thesis
      by (auto simp: overall_healthy readiness_metrics_def record_backend_health_def state_value_one)
  qed
qed

end
