(* ===== verification/Lifecycle_Wait.thy ===== *)
theory Lifecycle_Wait
  imports Lifecycle_Runtime
begin

text \<open>
  The loop of \<open>wait_for_health\<close> in \<open>lifecycle/runtime.py\<close> as it is written: it reads the monotonic clock, polls,
  sleeps, and may run for ever. The clock readings and the answers of the polls are arguments; no value
  means that it does not return. It is tied to the function on the answers before the deadline that the rest of the
  model uses.
\<close>

partial_function (option) health_loop ::
  "(nat \<Rightarrow> rat) \<Rightarrow> (nat \<Rightarrow> http_reply) \<Rightarrow> flt \<Rightarrow> nat \<Rightarrow> exn option \<Rightarrow> unit res option" where
  "health_loop clock answer deadline i last_error =
     (if flt_less (Fin (clock i)) deadline then
        (case answer i of
           Failed e \<Rightarrow> health_loop clock answer deadline (Suc i) (Some (HTTPError e))
         | Reply code body \<Rightarrow>
             if 200 \<le> code \<and> code < 300 then Some (Inr ())
             else health_loop clock answer deadline (Suc i) last_error)
      else Some (Inl (case last_error of Some e \<Rightarrow> e | None \<Rightarrow> TimeoutError)))"

text \<open>The deadline is set from the first reading of the clock.\<close>

definition wait_loop :: "rat \<Rightarrow> model_profile \<Rightarrow> (nat \<Rightarrow> rat) \<Rightarrow> (nat \<Rightarrow> http_reply) \<Rightarrow> unit res option" where
  "wait_loop start p clock answer =
     health_loop clock answer (fadd (Fin start) (p_startup_timeout_seconds p)) 0 None"

section \<open>It returns\<close>

lemma health_loop_polls:
  "i \<le> n \<Longrightarrow> \<forall>j. i \<le> j \<and> j < n \<longrightarrow> clock j < d \<Longrightarrow> d \<le> clock n \<Longrightarrow>
     health_loop clock answer (Fin d) i last_error = Some (wait_for_health (map answer [i..<n]) last_error)"
proof (induction "n - i" arbitrary: i last_error)
  case 0
  then show ?case by (subst health_loop.simps) simp
next
  case (Suc k)
  then have i: "i < n" "clock i < d" by simp_all
  have later: "health_loop clock answer (Fin d) (Suc i) e = Some (wait_for_health (map answer [Suc i..<n]) e)" for e
    using Suc by simp
  show ?case
    using i later by (subst health_loop.simps) (simp add: upt_conv_Cons split: http_reply.split)
qed

lemma clock_grows:
  assumes "\<forall>i. clock i + interval \<le> clock (Suc i)"
  shows "clock 0 + of_nat i * interval \<le> (clock i :: rat)"
proof (induction i)
  case (Suc i)
  then show ?case using assms [rule_format, of i] by (simp add: algebra_simps)
qed simp

lemma deadline_reached:
  assumes "\<forall>i. clock i + interval \<le> clock (Suc i)" "0 < interval"
  shows "d \<le> (clock (nat \<lceil>(d - clock 0) / interval\<rceil>) :: rat)"
proof -
  let ?n = "nat \<lceil>(d - clock 0) / interval\<rceil>"
  have "(d - clock 0) / interval \<le> of_nat ?n" by (rule of_nat_ceiling)
  then have "d - clock 0 \<le> of_nat ?n * interval" using assms(2) by (simp add: divide_le_eq)
  with clock_grows [OF assms(1), of ?n] show ?thesis by simp
qed

text \<open>C13: when two polls are at least some time apart, as the sleep between them makes them, waiting for the
  health of a backend with a finite startup timeout returns, after at most as many polls as fit into it: with
  success at the first good answer, else with the last connection error, or a time-out when there was none.\<close>

theorem waiting_ends_at_the_deadline:
  assumes "\<forall>i. clock i + interval \<le> clock (Suc i)" "0 < interval"
    and "fadd (Fin start) (p_startup_timeout_seconds p) = Fin d"
  shows "\<exists>n \<le> nat \<lceil>(d - clock 0) / interval\<rceil>. (\<forall>i < n. clock i < d) \<and>
    wait_loop start p clock answer = Some (wait_for_health (map answer [0..<n]) None)"
proof -
  let ?n = "LEAST i. d \<le> clock i"
  have reached: "d \<le> clock (nat \<lceil>(d - clock 0) / interval\<rceil>)" by (rule deadline_reached [OF assms(1,2)])
  then have "d \<le> clock ?n" by (rule LeastI)
  moreover have before: "\<forall>i < ?n. clock i < d" using not_less_Least by (meson not_le)
  ultimately have "wait_loop start p clock answer = Some (wait_for_health (map answer [0..<?n]) None)"
    unfolding wait_loop_def assms(3) by (intro health_loop_polls) auto
  then show ?thesis using Least_le [of "\<lambda>i. d \<le> clock i", OF reached] before by blast
qed

section \<open>Or it does not\<close>

text \<open>With an infinite startup timeout a backend that never becomes healthy is waited for without end.\<close>

lemma health_loop_diverges:
  assumes "\<forall>i. case answer i of Failed _ \<Rightarrow> True | Reply code _ \<Rightarrow> \<not> (200 \<le> code \<and> code < 300)"
  shows "health_loop clock answer (FInf False) i last_error = None"
proof -
  let ?P = "\<lambda>c a dl i l y. (\<forall>i. case a i of Failed _ \<Rightarrow> True | Reply code _ \<Rightarrow> \<not> (200 \<le> code \<and> code < 300)) \<longrightarrow>
      dl \<noteq> FInf False"
  have "?P c a dl i l y" if "health_loop c a dl i l = Some y" for c a dl i l y
  proof (rule health_loop.raw_induct [where P = ?P, OF _ that])
    fix f c a dl i l y
    assume IH: "\<And>c a dl i l y. f c a dl i l = Some y \<Longrightarrow> ?P c a dl i l y"
      and step: "(if flt_less (Fin (c i)) dl then (case a i of
           Failed e \<Rightarrow> f c a dl (Suc i) (Some (HTTPError e))
         | Reply code body \<Rightarrow> if 200 \<le> code \<and> code < 300 then Some (Inr ()) else f c a dl (Suc i) l)
       else Some (Inl (case l of None \<Rightarrow> TimeoutError | Some e \<Rightarrow> e))) = Some y"
    show "?P c a dl i l y"
    proof (intro impI notI)
      assume bad: "\<forall>i. case a i of Failed _ \<Rightarrow> True | Reply code _ \<Rightarrow> \<not> (200 \<le> code \<and> code < 300)" and dl: "dl = FInf False"
      obtain l' where "f c a dl (Suc i) l' = Some y"
      proof (cases "a i")
        case (Reply code body)
        with step dl bad [rule_format, of i] have "f c a dl (Suc i) l = Some y" by (simp split: if_splits)
        then show ?thesis by (rule that)
      qed (use step dl that in simp)
      from IH [OF this] bad dl show False by blast
    qed
  qed
  from this [of clock answer "FInf False" i last_error] assms show ?thesis
    by (cases "health_loop clock answer (FInf False) i last_error") auto
qed

section \<open>A concrete wait\<close>

text \<open>A backend that refuses the connection, answers 503 and then 200, polled every two seconds.\<close>

definition slow_backend :: "nat \<Rightarrow> http_reply" where
  "slow_backend i = (if i = 0 then Failed ''ConnectError'' else if i = 1 then Reply 503 (Inr JNull) else Reply 200 (Inr JNull))"

theorem waiting_ends_at_the_deadline_witness:
  "\<forall>p. \<exists>n \<le> 3. wait_loop 0 (p\<lparr>p_startup_timeout_seconds := Fin 5\<rparr>) (\<lambda>i. 2 * of_nat i) slow_backend =
     Some (wait_for_health (map slow_backend [0..<n]) None)"
proof
  fix p :: model_profile
  have t: "fadd (Fin 0) (Fin 5) = Fin 5" by code_simp
  have n: "nat \<lceil>(5 - 2 * of_nat 0) / 2 :: rat\<rceil> = 3" by code_simp
  have c: "\<forall>i. 2 * of_nat i + 2 \<le> (2 * of_nat (Suc i) :: rat)" by simp
  show "\<exists>n \<le> 3. wait_loop 0 (p\<lparr>p_startup_timeout_seconds := Fin 5\<rparr>) (\<lambda>i. 2 * of_nat i) slow_backend =
     Some (wait_for_health (map slow_backend [0..<n]) None)"
    using waiting_ends_at_the_deadline [OF c, of 0 "p\<lparr>p_startup_timeout_seconds := Fin 5\<rparr>" 5 slow_backend] t
    unfolding n by (simp del: of_nat_Suc) blast
qed

end
