(* ===== verification/Lifecycle_Interleaving.thy ===== *)
theory Lifecycle_Interleaving
  imports Lifecycle_Properties
begin

text \<open>
  \<open>AllocationService.allocate\<close> as the event loop runs it: the pieces between its awaits (the verification
  and the GPU inventory, the health of the new backend, its warm-up), which other requests run between. One
  allocation that is not interrupted is the \<open>allocate\<close> of the controller; many of them are a step relation on
  the controller and the allocations in progress.
\<close>

section \<open>The pieces of an allocation\<close>

datatype allocation =
    Placing model_profile dict
  | Waiting model_profile placement backend_instance
  | Warming model_profile placement backend_instance
  | Answered "dict res"

text \<open>Up to the first await.\<close>

definition begin_allocation ::
  "controller_env \<Rightarrow> (string \<Rightarrow> string \<Rightarrow> dict res) \<Rightarrow> dict \<Rightarrow> controller \<Rightarrow> controller \<times> allocation" where
  "begin_allocation env listing payload c =
     (let model = strip (text_default (dget payload ''model'') []) in
      if model = [] then
        (record_allocation ''unknown'' ''invalid_request'' c,
         Answered (Inl (ValueError ''Allocation requires a non-empty model.'')))
      else (case profiles env of
          Inl e \<Rightarrow> (c, Answered (Inl e))
        | Inr configured \<Rightarrow>
            (case resolve_profile env model (allocation_overrides payload) configured c of
               (c, Inl e) \<Rightarrow> (c, Answered (Inl e))
             | (c, Inr (p, dyn)) \<Rightarrow>
                 (let ready = ready_for_model (ct_registry c) (p_public_name p) in
                  if ready \<noteq> [] then
                    (record_allocation (p_public_name p) ''reused'' c,
                     Answered (Inr [(''model'', JStr (p_public_name p)), (''created'', JBool False),
                       (''instance'', JDict (instance_to_dict (arg_min_list bi_active_requests ready)))]))
                  else (case enrich_profile_from_lmstudio_metadata listing p dyn payload of
                      Inl e \<Rightarrow> (c, Answered (Inl e))
                    | Inr (p, meta) \<Rightarrow> (c, Placing p meta))))))"

text \<open>The end of an allocation whose backend was initialised, or could not be.\<close>

definition finish_allocation ::
  "model_profile \<Rightarrow> placement \<Rightarrow> backend_instance res \<Rightarrow> controller \<Rightarrow> controller \<times> allocation" where
  "finish_allocation p decision initialized c = (case initialized of
       Inl e \<Rightarrow> (c, Answered (Inl e))
     | Inr b \<Rightarrow>
         (let ready = (bi_state b = JStr ''ready'') in
          (record_allocation (p_public_name p) (if ready then ''created'' else ''failed'') c,
           Answered (Inr [(''model'', JStr (p_public_name p)), (''created'', JBool ready),
             (''decision'', JDict (decision_to_dict decision)), (''instance'', JDict (instance_to_dict b))]))))"

definition mark_and_finish ::
  "model_profile \<Rightarrow> placement \<Rightarrow> (registry \<Rightarrow> (registry \<times> backend_instance) res) \<Rightarrow> controller \<Rightarrow> controller \<times> allocation" where
  "mark_and_finish p decision mark c = (case mark (ct_registry c) of
       Inl e \<Rightarrow> (c, Answered (Inl e))
     | Inr (r, b) \<Rightarrow> finish_allocation p decision (Inr b) (c\<lparr>ct_registry := r\<rparr>))"

text \<open>From the answer with the GPU inventory to the await for the backend, which a dry run does not have.\<close>

definition started_backend ::
  "controller_env \<Rightarrow> allocate_env \<Rightarrow> model_profile \<Rightarrow> gpu_state list \<Rightarrow> registry \<Rightarrow> backend_instance res" where
  "started_backend env ae p gpus r =
     start_instance (ce_shell env) (ce_sha1 env) (ce_dry_run env) (ce_docker env) (se_seed (ae_step ae))
       (se_created (ae_step ae)) p (decision_to_dict (choose_gpu p gpus r)) (gpus_by_id gpus) r"

definition place_allocation ::
  "controller_env \<Rightarrow> allocate_env \<Rightarrow> model_profile \<Rightarrow> dict \<Rightarrow> controller \<Rightarrow> controller \<times> allocation" where
  "place_allocation env ae p meta c =
     (case (if should_verify_before_start p then verify_model_available (ae_verify ae) p else Inr ()) of
        Inl e \<Rightarrow> (c, Answered (Inl e))
      | Inr _ \<Rightarrow> (case gpu_states (se_gpus (ae_step ae)) of
          Inl e \<Rightarrow> (c, Answered (Inl e))
        | Inr gpus \<Rightarrow>
            (let decision = choose_gpu p gpus (ct_registry c) in
             if pd_action decision \<noteq> ''start'' \<or> pd_gpu_id decision = None \<or> pd_gpu_id decision = Some [] then
               (record_allocation (p_public_name p) ''insufficient_vram'' c,
                Answered (Inr [(''model'', JStr (p_public_name p)), (''created'', JBool False),
                  (''decision'', JDict (decision_to_dict decision)), (''instance'', JNull)]))
             else (case started_backend env ae p gpus (ct_registry c) of
                 Inl e \<Rightarrow> (record_allocation (p_public_name p) ''failed'' c, Answered (Inl e))
               | Inr b \<Rightarrow>
                   (case registry_upsert (se_upsert (ae_step ae)) True (b\<lparr>bi_metadata := dmerge (bi_metadata b) meta\<rparr>)
                       (ct_registry c) of (r, b) \<Rightarrow>
                    (let c = c\<lparr>ct_registry := r\<rparr> in
                     if bi_dry_run b then
                       mark_and_finish p decision (mark_state (ie_now1 (se_init (ae_step ae))) (bi_id b) ''ready'') c
                     else (c, Waiting p decision b)))))))"

definition fail_allocation ::
  "init_env \<Rightarrow> model_profile \<Rightarrow> placement \<Rightarrow> backend_instance \<Rightarrow> exn \<Rightarrow> controller \<Rightarrow> controller \<times> allocation" where
  "fail_allocation ie p decision b e =
     mark_and_finish p decision (mark_failed (ie_now_failed ie) (bi_id b) (exn_name e))"

text \<open>The backend answered, or did not in time; then the warm-up did.\<close>

definition warm_allocation ::
  "init_env \<Rightarrow> model_profile \<Rightarrow> placement \<Rightarrow> backend_instance \<Rightarrow> controller \<Rightarrow> controller \<times> allocation" where
  "warm_allocation ie p decision b c =
     (case bind_res (wait_for_health (ie_health ie) None) (\<lambda>_.
           if \<not> should_verify_before_start p then verify_model_available (ie_verify ie) p else Inr ()) of
        Inl e \<Rightarrow> fail_allocation ie p decision b e c
      | Inr _ \<Rightarrow> (case mark_state (ie_now1 ie) (bi_id b) ''warming'' (ct_registry c) of
          Inl e \<Rightarrow> fail_allocation ie p decision b e c
        | Inr (r, _) \<Rightarrow> (c\<lparr>ct_registry := r\<rparr>, Warming p decision b)))"

definition ready_allocation ::
  "init_env \<Rightarrow> model_profile \<Rightarrow> placement \<Rightarrow> backend_instance \<Rightarrow> controller \<Rightarrow> controller \<times> allocation" where
  "ready_allocation ie p decision b c =
     (case (if p_warmup_enabled p then bind_res (raise_for_status (ie_warmup ie)) (\<lambda>_. Inr ()) else Inr ()) of
        Inl e \<Rightarrow> fail_allocation ie p decision b e c
      | Inr _ \<Rightarrow> (case mark_state (ie_now2 ie) (bi_id b) ''ready'' (ct_registry c) of
          Inl e \<Rightarrow> fail_allocation ie p decision b e c
        | Inr (r, b') \<Rightarrow> finish_allocation p decision (Inr b') (c\<lparr>ct_registry := r\<rparr>)))"

text \<open>One piece after the other.\<close>

definition next_piece :: "controller_env \<Rightarrow> allocate_env \<Rightarrow> allocation \<Rightarrow> controller \<Rightarrow> controller \<times> allocation" where
  "next_piece env ae a c = (case a of
       Placing p meta \<Rightarrow> place_allocation env ae p meta c
     | Waiting p decision b \<Rightarrow> warm_allocation (se_init (ae_step ae)) p decision b c
     | Warming p decision b \<Rightarrow> ready_allocation (se_init (ae_step ae)) p decision b c
     | Answered x \<Rightarrow> (c, Answered x))"

definition run_piece :: "controller_env \<Rightarrow> allocate_env \<Rightarrow> controller \<times> allocation \<Rightarrow> controller \<times> allocation" where
  "run_piece env ae ca = next_piece env ae (snd ca) (fst ca)"

definition uninterrupted :: "controller_env \<Rightarrow> allocate_env \<Rightarrow> dict \<Rightarrow> controller \<Rightarrow> controller \<times> allocation" where
  "uninterrupted env ae payload c =
     run_piece env ae (run_piece env ae (run_piece env ae (begin_allocation env (ae_listing ae) payload c)))"

section \<open>An allocation that is not interrupted\<close>

lemma next_answered [simp]: "next_piece env ae (Answered x) c = (c, Answered x)"
  by (simp add: next_piece_def)

lemma run_answered [simp]: "run_piece env ae (c, Answered x) = (c, Answered x)"
  by (simp add: run_piece_def)

lemma mark_and_finish_answers: "\<exists>x. snd (mark_and_finish p d mark c) = Answered x"
  by (auto simp: mark_and_finish_def finish_allocation_def Let_def split: sum.split)

lemma fail_allocation_answers: "\<exists>x. snd (fail_allocation ie p d b e c) = Answered x"
  unfolding fail_allocation_def by (rule mark_and_finish_answers)

lemma finish_stops: "finish_allocation p d x c = (c', a) \<Longrightarrow> next_piece env ae a c' = (c', a)"
  by (auto simp: finish_allocation_def Let_def split: sum.splits)

text \<open>The pieces after the backend is started are its initialisation.\<close>

lemma initialised_by_pieces:
  assumes "\<not> bi_dry_run b"
  shows "run_piece env ae (run_piece env ae (c, Waiting p d b)) =
     (case with_registry (initialize_instance (se_init (ae_step ae)) p b) c of (c', x) \<Rightarrow> finish_allocation p d x c')"
proof -
  let ?ie = "se_init (ae_step ae)"
  have fail: "fail_allocation ?ie p d b e c' =
     (case (case mark_failed (ie_now_failed ?ie) (bi_id b) (exn_name e) (ct_registry c') of
          Inl e' \<Rightarrow> (ct_registry c', Inl e') | Inr (r, b') \<Rightarrow> (r, Inr b')) of
        (r, x) \<Rightarrow> finish_allocation p d x (c'\<lparr>ct_registry := r\<rparr>))" for e c'
    by (simp add: fail_allocation_def mark_and_finish_def finish_allocation_def split: sum.split prod.split)
  define w where "w = bind_res (wait_for_health (ie_health ?ie) None) (\<lambda>_.
           if \<not> should_verify_before_start p then verify_model_available (ie_verify ?ie) p else Inr ())"
  define v where "v = (if p_warmup_enabled p then bind_res (raise_for_status (ie_warmup ?ie)) (\<lambda>_. Inr ()) else Inr ())"
  have warm: "warm_allocation ?ie p d b c = (case w of Inl e \<Rightarrow> fail_allocation ?ie p d b e c
      | Inr _ \<Rightarrow> (case mark_state (ie_now1 ?ie) (bi_id b) ''warming'' (ct_registry c) of
          Inl e \<Rightarrow> fail_allocation ?ie p d b e c | Inr (r, _) \<Rightarrow> (c\<lparr>ct_registry := r\<rparr>, Warming p d b)))"
    unfolding warm_allocation_def w_def by (rule refl)
  have ready: "ready_allocation ?ie p d b c = (case v of Inl e \<Rightarrow> fail_allocation ?ie p d b e c
      | Inr _ \<Rightarrow> (case mark_state (ie_now2 ?ie) (bi_id b) ''ready'' (ct_registry c) of
          Inl e \<Rightarrow> fail_allocation ?ie p d b e c
        | Inr (r, b') \<Rightarrow> finish_allocation p d (Inr b') (c\<lparr>ct_registry := r\<rparr>)))" for c
    unfolding ready_allocation_def v_def by (rule refl)
  have steps: "initialize_steps ?ie p b r = (case w of Inl e \<Rightarrow> (r, Inl e)
      | Inr _ \<Rightarrow> (case mark_state (ie_now1 ?ie) (bi_id b) ''warming'' r of Inl e \<Rightarrow> (r, Inl e)
        | Inr (r1, _) \<Rightarrow> (case v of Inl e \<Rightarrow> (r1, Inl e)
             | Inr _ \<Rightarrow> (case mark_state (ie_now2 ?ie) (bi_id b) ''ready'' r1 of
                 Inl e \<Rightarrow> (r1, Inl e) | Inr (r2, b2) \<Rightarrow> (r2, Inr b2)))))" for r
    unfolding initialize_steps_def w_def v_def by (rule refl)
  have piece: "next_piece env ae (Waiting p d b) = warm_allocation ?ie p d b"
      "next_piece env ae (Warming p d b) = ready_allocation ?ie p d b"
    by (simp_all add: next_piece_def fun_eq_iff)
  show ?thesis
    unfolding run_piece_def fst_conv snd_conv piece warm with_registry_def initialize_instance_def steps using assms
    by (cases w; cases v) (auto simp: fail piece ready finish_stops split: sum.split prod.split)
qed

lemma placed_by_pieces:
  "run_piece env ae (run_piece env ae (run_piece env ae (c, Placing p meta))) =
    (case allocate_new env ae p meta c of (c', x) \<Rightarrow> (c', Answered x))"
proof -
  let ?piece = "run_piece env ae"
  have go: "?piece (?piece (case registry_upsert now True b0 (ct_registry c) of (r, b) \<Rightarrow>
        (if bi_dry_run b then mark_and_finish p d (mark_state (ie_now1 (se_init (ae_step ae))) (bi_id b) ''ready'') (c\<lparr>ct_registry := r\<rparr>)
         else (c\<lparr>ct_registry := r\<rparr>, Waiting p d b)))) =
     (case bind_act (upsert_act now True b0) (\<lambda>b.
         bind_act (with_registry (initialize_instance (se_init (ae_step ae)) p b)) (\<lambda>b c.
         let ready = (bi_state b = JStr ''ready'') in
         (record_allocation (p_public_name p) (if ready then ''created'' else ''failed'') c,
          Inr [(''model'', JStr (p_public_name p)), (''created'', JBool ready),
               (''decision'', JDict (decision_to_dict d)), (''instance'', JDict (instance_to_dict b))]))) c of
        (c', x) \<Rightarrow> (c', Answered x))" for now b0 d
  proof -
    obtain r b where u: "registry_upsert now True b0 (ct_registry c) = (r, b)" by fastforce
    let ?c = "c\<lparr>ct_registry := r\<rparr>"
    have fin: "finish_allocation p d x c1 = (case x of Inl e \<Rightarrow> (c1, Answered (Inl e))
        | Inr b \<Rightarrow> (record_allocation (p_public_name p) (if bi_state b = JStr ''ready'' then ''created'' else ''failed'') c1,
          Answered (Inr [(''model'', JStr (p_public_name p)), (''created'', JBool (bi_state b = JStr ''ready'')),
               (''decision'', JDict (decision_to_dict d)), (''instance'', JDict (instance_to_dict b))])))" for x c1
      by (simp add: finish_allocation_def Let_def split: sum.split)
    obtain r' x where i: "initialize_instance (se_init (ae_step ae)) p b r = (r', x)" by fastforce
    have init: "with_registry (initialize_instance (se_init (ae_step ae)) p b) ?c = (c\<lparr>ct_registry := r'\<rparr>, x)"
      by (simp add: with_registry_def i)
    show ?thesis
    proof (cases "bi_dry_run b")
      case True
      then have "mark_and_finish p d (mark_state (ie_now1 (se_init (ae_step ae))) (bi_id b) ''ready'') ?c =
          finish_allocation p d x (c\<lparr>ct_registry := r'\<rparr>)"
        using i by (auto simp: mark_and_finish_def initialize_instance_def fin split: sum.splits)
      with True show ?thesis
        by (auto simp: u bind_act_def upsert_act_def registry_op_def with_registry_def i fin Let_def split: sum.split)
    next
      case False
      have "?piece (?piece (?c, Waiting p d b)) = finish_allocation p d x (c\<lparr>ct_registry := r'\<rparr>)"
        using initialised_by_pieces [OF False, where env = env and ae = ae and p = p and d = d and c = ?c] by (simp add: init run_piece_def)
      with False show ?thesis
        by (auto simp: u bind_act_def upsert_act_def registry_op_def with_registry_def i fin Let_def split: sum.split)
    qed
  qed
  show ?thesis
  proof (cases "if should_verify_before_start p then verify_model_available (ae_verify ae) p else Inr ()")
    case (Inl e)
    then show ?thesis
      by (simp add: allocate_new_def bind_act_def lift_res_def run_piece_def next_piece_def place_allocation_def)
  next
    case verified: (Inr u)
    show ?thesis
    proof (cases "gpu_states (se_gpus (ae_step ae))")
      case (Inl e)
      with verified show ?thesis
        by (simp add: allocate_new_def bind_act_def lift_res_def run_piece_def next_piece_def place_allocation_def)
    next
      case gpus: (Inr gpus)
      let ?d = "choose_gpu p gpus (ct_registry c)"
      show ?thesis
      proof (cases "pd_action ?d \<noteq> ''start'' \<or> pd_gpu_id ?d = None \<or> pd_gpu_id ?d = Some []")
        case True
        with verified gpus show ?thesis
          by (simp add: allocate_new_def bind_act_def lift_res_def run_piece_def next_piece_def place_allocation_def Let_def)
      next
        case False
        then obtain gid where choice: "pd_gpu_id ?d = Some gid" "gid \<noteq> []" "pd_action ?d = ''start''" by auto
        have new: "allocate_new env ae p meta c = start_allocated env ae p meta ?d gpus c"
          using verified gpus choice by (simp add: allocate_new_def bind_act_def lift_res_def Let_def)
        show ?thesis
        proof (cases "started_backend env ae p gpus (ct_registry c)")
          case (Inl e)
          with verified gpus choice show ?thesis
            unfolding new
            by (simp add: run_piece_def next_piece_def place_allocation_def start_allocated_def started_backend_def)
        next
          case (Inr b0)
          have "?piece (c, Placing p meta) =
             (case registry_upsert (se_upsert (ae_step ae)) True (b0\<lparr>bi_metadata := dmerge (bi_metadata b0) meta\<rparr>) (ct_registry c) of (r, b) \<Rightarrow>
        (if bi_dry_run b then mark_and_finish p ?d (mark_state (ie_now1 (se_init (ae_step ae))) (bi_id b) ''ready'') (c\<lparr>ct_registry := r\<rparr>)
         else (c\<lparr>ct_registry := r\<rparr>, Waiting p ?d b)))"
            using verified gpus choice Inr by (simp add: run_piece_def next_piece_def place_allocation_def Let_def)
          with Inr show ?thesis
            unfolding new by (simp only: go) (simp add: start_allocated_def started_backend_def)
        qed
      qed
    qed
  qed
qed

text \<open>An allocation whose pieces follow one another is the allocation of the controller.\<close>

lemma uninterrupted_is_allocate:
  "uninterrupted env ae payload c = (case allocate env ae payload c of (c', x) \<Rightarrow> (c', Answered x))"
proof -
  show ?thesis
    unfolding uninterrupted_def begin_allocation_def allocate_def Let_def
    using placed_by_pieces [of env ae]
    by (auto simp: bind_act_def lift_res_def split: sum.split prod.split)
qed

section \<open>What the registry keeps\<close>

definition ports_distinct :: "registry \<Rightarrow> bool" where
  "ports_distinct r \<longleftrightarrow> (\<forall>i j a b. map_of (rg_instances r) i = Some a \<and> map_of (rg_instances r) j = Some b \<and> i \<noteq> j \<and>
     bi_host_port a \<noteq> None \<longrightarrow> bi_host_port a \<noteq> bi_host_port b)"

definition memory_covered :: "(string \<Rightarrow> int) \<Rightarrow> registry \<Rightarrow> bool" where
  "memory_covered cap r \<longleftrightarrow> (\<forall>g. reserved_mb r g \<le> cap g) \<and> (\<forall>i b. map_of (rg_instances r) i = Some b \<longrightarrow> 0 \<le> bi_reserved_vram_mb b)"

definition sound_registry :: "(string \<Rightarrow> int) \<Rightarrow> registry \<Rightarrow> bool" where
  "sound_registry cap r \<longleftrightarrow> registry_inv r \<and> ports_distinct r \<and> memory_covered cap r"

definition reservation :: "string \<Rightarrow> backend_instance \<Rightarrow> int" where
  "reservation g b = (if in_states b RESERVED_STATES then int (count_list (bi_gpu_ids b) g) * bi_reserved_vram_mb b else 0)"

lemma sum_update:
  "sum_list (map f (map snd (AList.update i b xs))) =
     sum_list (map f (map snd xs)) + f b - (case map_of xs i of Some a \<Rightarrow> f a | None \<Rightarrow> (0::int))"
  by (induction xs) auto

lemma reserved_update:
  "reserved_mb (save_registry (r\<lparr>rg_instances := AList.update i b (rg_instances r)\<rparr>)) g =
     reserved_mb r g + reservation g b - (case map_of (rg_instances r) i of Some a \<Rightarrow> reservation g a | None \<Rightarrow> 0)"
  using sum_update [of "reservation g" i b "rg_instances r"]
  by (simp add: reserved_mb_def registry_list_def reservation_def [abs_def])

lemma reservation_nonneg: "0 \<le> bi_reserved_vram_mb b \<Longrightarrow> 0 \<le> reservation g b"
  by (simp add: reservation_def)

lemma update_sound:
  assumes "sound_registry cap r" "bi_id b = i" "fine b" "0 \<le> bi_reserved_vram_mb b"
    and port: "\<And>j a. map_of (rg_instances r) j = Some a \<Longrightarrow> j \<noteq> i \<Longrightarrow> bi_host_port a \<noteq> None \<or> bi_host_port b \<noteq> None \<Longrightarrow>
      bi_host_port a \<noteq> bi_host_port b"
    and memory: "\<And>g. reserved_mb r g + reservation g b \<le>
      cap g + (case map_of (rg_instances r) i of Some a \<Rightarrow> reservation g a | None \<Rightarrow> 0)"
  shows "sound_registry cap (save_registry (r\<lparr>rg_instances := AList.update i b (rg_instances r)\<rparr>))"
  unfolding sound_registry_def
proof (intro conjI)
  let ?r = "save_registry (r\<lparr>rg_instances := AList.update i b (rg_instances r)\<rparr>)"
  show "registry_inv ?r" using assms(1-3) by (intro registry_inv_update) (simp_all add: sound_registry_def fine_def)
  have old: "ports_distinct r" "memory_covered cap r" using assms(1) by (simp_all add: sound_registry_def)
  show "ports_distinct ?r"
    unfolding ports_distinct_def
  proof (intro allI impI, elim conjE)
    fix j k a c
    assume "map_of (rg_instances ?r) j = Some a" "map_of (rg_instances ?r) k = Some c" "j \<noteq> k" "bi_host_port a \<noteq> None"
    then show "bi_host_port a \<noteq> bi_host_port c"
      using old(1) port [of j a] port [of k c]
      by (fastforce simp: update_conv' ports_distinct_def split: if_splits)
  qed
  show "memory_covered cap ?r"
    using old(2) assms(4) memory unfolding memory_covered_def reserved_update
    by (auto simp: update_conv' algebra_simps split: if_splits)
qed

text \<open>A change of the state that reserves nothing new, and a change of the leases.\<close>

lemma modify_sound:
  assumes "sound_registry cap r" "modify_instance f i r = Inr (r', b')"
    and f: "\<And>b. map_of (rg_instances r) i = Some b \<Longrightarrow> bi_id (f b) = bi_id b \<and> fine (f b) \<and>
      bi_host_port (f b) = bi_host_port b \<and> bi_gpu_ids (f b) = bi_gpu_ids b \<and>
      bi_reserved_vram_mb (f b) = bi_reserved_vram_mb b \<and> (in_states (f b) RESERVED_STATES \<longrightarrow> in_states b RESERVED_STATES)"
  shows "sound_registry cap r'"
proof -
  obtain b where b: "map_of (rg_instances r) i = Some b" "r' = save_registry (r\<lparr>rg_instances := AList.update i (f b) (rg_instances r)\<rparr>)"
    using assms(2) by (auto simp: modify_instance_def split: option.splits)
  have r: "registry_inv r" "ports_distinct r" "memory_covered cap r" using assms(1) by (simp_all add: sound_registry_def)
  have pos: "0 \<le> bi_reserved_vram_mb b" using r(3) b(1) by (simp add: memory_covered_def)
  have less: "reservation g (f b) \<le> reservation g b" for g
    using f [OF b(1)] pos by (simp add: reservation_def)
  show ?thesis
    unfolding b(2)
  proof (rule update_sound [OF assms(1)])
    show "bi_id (f b) = i" using f [OF b(1)] registry_invD(1) [OF r(1) b(1)] by simp
    show "fine (f b)" "0 \<le> bi_reserved_vram_mb (f b)" using f [OF b(1)] pos by simp_all
    show "bi_host_port a \<noteq> bi_host_port (f b)"
      if "map_of (rg_instances r) j = Some a" "j \<noteq> i" "bi_host_port a \<noteq> None \<or> bi_host_port (f b) \<noteq> None" for j a
      using r(2) that b(1) f [OF b(1)] unfolding ports_distinct_def by metis
    show "reserved_mb r g + reservation g (f b) \<le>
        cap g + (case map_of (rg_instances r) i of Some a \<Rightarrow> reservation g a | None \<Rightarrow> 0)" for g
      using r(3) less [of g] b(1) by (simp add: memory_covered_def add_mono)
  qed
qed

lemma stored_fine: "registry_inv r \<Longrightarrow> map_of (rg_instances r) i = Some b \<Longrightarrow> fine b"
  using registry_invD [of r i b] by (simp add: fine_def)

lemma mark_state_sound:
  assumes "sound_registry cap r" "mark_state now i st r = Inr (r', b')" "now \<noteq> []"
    and "\<And>b. map_of (rg_instances r) i = Some b \<Longrightarrow> in_states b RESERVED_STATES"
  shows "sound_registry cap r'"
  using assms(1) assms(2) [unfolded mark_state_def]
proof (rule modify_sound)
  fix b assume b: "map_of (rg_instances r) i = Some b"
  have "fine b" using assms(1) b by (auto simp: sound_registry_def intro: stored_fine)
  with assms(3,4) b show "bi_id (b\<lparr>bi_state := JStr st, bi_updated_at := now\<rparr>) = bi_id b \<and>
      fine (b\<lparr>bi_state := JStr st, bi_updated_at := now\<rparr>) \<and>
      bi_host_port (b\<lparr>bi_state := JStr st, bi_updated_at := now\<rparr>) = bi_host_port b \<and>
      bi_gpu_ids (b\<lparr>bi_state := JStr st, bi_updated_at := now\<rparr>) = bi_gpu_ids b \<and>
      bi_reserved_vram_mb (b\<lparr>bi_state := JStr st, bi_updated_at := now\<rparr>) = bi_reserved_vram_mb b \<and>
      (in_states (b\<lparr>bi_state := JStr st, bi_updated_at := now\<rparr>) RESERVED_STATES \<longrightarrow> in_states b RESERVED_STATES)"
    by (simp add: fine_def wf_instance_def)
qed

lemma mark_failed_sound:
  assumes "sound_registry cap r" "mark_failed now i reason r = Inr (r', b')" "now \<noteq> []"
  shows "sound_registry cap r'"
  using assms(1) assms(2) [unfolded mark_failed_def]
proof (rule modify_sound)
  fix b assume b: "map_of (rg_instances r) i = Some b"
  let ?f = "b\<lparr>bi_state := JStr ''failed'', bi_failure_reason := JStr reason, bi_updated_at := now\<rparr>"
  have "fine b" using assms(1) b by (auto simp: sound_registry_def intro: stored_fine)
  moreover have "\<not> in_states ?f RESERVED_STATES" by (simp add: in_states_def RESERVED_STATES_def REGISTRY_ACTIVE_STATES_def)
  ultimately show "bi_id ?f = bi_id b \<and> fine ?f \<and> bi_host_port ?f = bi_host_port b \<and> bi_gpu_ids ?f = bi_gpu_ids b \<and>
      bi_reserved_vram_mb ?f = bi_reserved_vram_mb b \<and> (in_states ?f RESERVED_STATES \<longrightarrow> in_states b RESERVED_STATES)"
    using assms(3) by (simp add: fine_def wf_instance_def)
qed

lemma lease_sound:
  assumes "sound_registry cap r" "adjust_active_requests now i d r = Inr (r', b')" "now \<noteq> []"
  shows "sound_registry cap r'"
  using assms(1) assms(2) [unfolded adjust_active_requests_def]
proof (rule modify_sound)
  fix b assume b: "map_of (rg_instances r) i = Some b"
  have "fine b" using assms(1) b by (auto simp: sound_registry_def intro: stored_fine)
  then show "bi_id (adjusted now d b) = bi_id b \<and> fine (adjusted now d b) \<and>
      bi_host_port (adjusted now d b) = bi_host_port b \<and> bi_gpu_ids (adjusted now d b) = bi_gpu_ids b \<and>
      bi_reserved_vram_mb (adjusted now d b) = bi_reserved_vram_mb b \<and>
      (in_states (adjusted now d b) RESERVED_STATES \<longrightarrow> in_states b RESERVED_STATES)"
    using assms(3) by (simp add: adjusted_def Let_def fine_def wf_instance_def in_states_def)
qed

section \<open>Allocations in progress\<close>

record event_loop =
  el_controller :: controller
  el_running :: "nat \<Rightarrow> allocation option"

text \<open>A profile whose reservation is not negative; the answers an allocation is given: the inventory never
  reports more free memory than \<open>cap\<close>, and the identifier of a new backend is not in use.\<close>

definition sound_profile :: "model_profile \<Rightarrow> bool" where
  "sound_profile p \<longleftrightarrow> wf_profile p \<and> 0 \<le> required_vram p"

definition answers_ok :: "controller_env \<Rightarrow> (string \<Rightarrow> int) \<Rightarrow> allocate_env \<Rightarrow> allocation \<Rightarrow> registry \<Rightarrow> bool" where
  "answers_ok env cap ae a r \<longleftrightarrow> step_ok (ae_step ae) \<and>
     (case a of
        Placing p meta \<Rightarrow> (case gpu_states (se_gpus (ae_step ae)) of
            Inl _ \<Rightarrow> True
          | Inr gpus \<Rightarrow> (\<forall>g\<in>set gpus. g_free_mb g \<le> cap (g_id g)) \<and>
              (case started_backend env ae p gpus r of
                 Inl _ \<Rightarrow> True | Inr b \<Rightarrow> map_of (rg_instances r) (bi_id b) = None))
      | _ \<Rightarrow> True)"

inductive alloc_step :: "controller_env \<Rightarrow> (string \<Rightarrow> int) \<Rightarrow> event_loop \<Rightarrow> event_loop \<Rightarrow> bool" for env cap where
  begins: "el_running s n = None \<Longrightarrow> begin_allocation env listing payload (el_controller s) = (c, a) \<Longrightarrow>
     (\<And>p meta. a = Placing p meta \<Longrightarrow> sound_profile p) \<Longrightarrow>
     alloc_step env cap s \<lparr>el_controller = c, el_running = (el_running s)(n \<mapsto> a)\<rparr>"
| goes_on: "el_running s n = Some a \<Longrightarrow> answers_ok env cap ae a (ct_registry (el_controller s)) \<Longrightarrow>
     next_piece env ae a (el_controller s) = (c, a') \<Longrightarrow>
     alloc_step env cap s \<lparr>el_controller = c, el_running = (el_running s)(n \<mapsto> a')\<rparr>"
| leases: "now \<noteq> [] \<Longrightarrow> handle_lease now i (el_controller s) = (c, x) \<Longrightarrow> alloc_step env cap s (s\<lparr>el_controller := c\<rparr>)"
| releases: "now \<noteq> [] \<Longrightarrow> handle_release now i (el_controller s) = (c, x) \<Longrightarrow> alloc_step env cap s (s\<lparr>el_controller := c\<rparr>)"

text \<open>The backend an allocation in progress is waiting for, and the state the registry has it in.\<close>

definition owned :: "allocation \<Rightarrow> (string \<times> string) option" where
  "owned a = (case a of
       Waiting _ _ b \<Rightarrow> Some (bi_id b, ''starting'')
     | Warming _ _ b \<Rightarrow> Some (bi_id b, ''warming'')
     | _ \<Rightarrow> None)"

definition holds :: "registry \<Rightarrow> allocation \<Rightarrow> bool" where
  "holds r a \<longleftrightarrow> (case owned a of
       Some (i, st) \<Rightarrow> (\<exists>b. map_of (rg_instances r) i = Some b \<and> bi_state b = JStr st)
     | None \<Rightarrow> (case a of Placing p _ \<Rightarrow> sound_profile p | _ \<Rightarrow> True))"

definition loop_inv :: "(string \<Rightarrow> int) \<Rightarrow> event_loop \<Rightarrow> bool" where
  "loop_inv cap s \<longleftrightarrow> sound_registry cap (ct_registry (el_controller s)) \<and>
     (\<forall>n a. el_running s n = Some a \<longrightarrow> holds (ct_registry (el_controller s)) a) \<and>
     (\<forall>n m a b i st st'. el_running s n = Some a \<and> el_running s m = Some b \<and> n \<noteq> m \<and> owned a = Some (i, st) \<longrightarrow>
        owned b \<noteq> Some (i, st'))"

text \<open>What one piece may change: its own backend, or one under an unused identifier.\<close>

definition piece_ok :: "(string \<Rightarrow> int) \<Rightarrow> allocation \<Rightarrow> registry \<Rightarrow> allocation \<Rightarrow> registry \<Rightarrow> bool" where
  "piece_ok cap a r a' r' \<longleftrightarrow> sound_registry cap r' \<and> holds r' a' \<and>
     (\<forall>j. map_of (rg_instances r) j \<noteq> None \<and> map_option fst (owned a) \<noteq> Some j \<longrightarrow>
        map_of (rg_instances r') j = map_of (rg_instances r) j) \<and>
     (\<forall>i st. owned a' = Some (i, st) \<longrightarrow> map_option fst (owned a) = Some i \<or> map_of (rg_instances r) i = None)"

lemma owned_simps [simp]:
  "owned (Placing p m) = None" "owned (Waiting p d b) = Some (bi_id b, ''starting'')"
  "owned (Warming p d b) = Some (bi_id b, ''warming'')" "owned (Answered x) = None"
  by (simp_all add: owned_def)

lemma holds_simps [simp]:
  "holds r (Placing p m) = sound_profile p" "holds r (Answered x)"
  by (simp_all add: holds_def)

lemma answered_piece:
  "sound_registry cap r' \<Longrightarrow>
     (\<And>j. map_option fst (owned a) \<noteq> Some j \<Longrightarrow> map_of (rg_instances r) j \<noteq> None \<Longrightarrow>
        map_of (rg_instances r') j = map_of (rg_instances r) j) \<Longrightarrow>
     piece_ok cap a r (Answered x) r'"
  by (simp add: piece_ok_def)

lemma unchanged_piece: "sound_registry cap r \<Longrightarrow> piece_ok cap a r (Answered x) r"
  by (rule answered_piece) simp_all

lemma finish_outcome:
  "finish_allocation p d x c = (c', a) \<Longrightarrow> ct_registry c' = ct_registry c \<and> (\<exists>y. a = Answered y)"
  by (auto simp: finish_allocation_def Let_def split: sum.splits)

lemma marks_others:
  "mark_state now i st r = Inr (r', b) \<Longrightarrow> j \<noteq> i \<Longrightarrow> map_of (rg_instances r') j = map_of (rg_instances r) j"
  "mark_failed now i st r = Inr (r', b) \<Longrightarrow> j \<noteq> i \<Longrightarrow> map_of (rg_instances r') j = map_of (rg_instances r) j"
  unfolding mark_state_def mark_failed_def by (erule (1) modify_instance_others)+

lemma finish_piece:
  assumes "finish_allocation p d x (c\<lparr>ct_registry := r\<rparr>) = (c', a')" "sound_registry cap r"
    and "\<And>j. map_option fst (owned a) \<noteq> Some j \<Longrightarrow> map_of (rg_instances r0) j \<noteq> None \<Longrightarrow>
      map_of (rg_instances r) j = map_of (rg_instances r0) j"
  shows "piece_ok cap a r0 a' (ct_registry c')"
proof -
  from finish_outcome [OF assms(1)] obtain y where y: "a' = Answered y" "ct_registry c' = r" by auto
  show ?thesis unfolding y using assms(2,3) by (rule answered_piece)
qed

lemma fail_piece:
  assumes "sound_registry cap (ct_registry c)" "owned a = Some (bi_id b, st)" "ie_now_failed ie \<noteq> []"
    "fail_allocation ie p d b e c = (c', a')"
  shows "piece_ok cap a (ct_registry c) a' (ct_registry c')"
proof (cases "mark_failed (ie_now_failed ie) (bi_id b) (exn_name e) (ct_registry c)")
  case (Inl x)
  with assms have "a' = Answered (Inl x)" "c' = c" by (simp_all add: fail_allocation_def mark_and_finish_def)
  with assms(1) show ?thesis by (simp add: unchanged_piece)
next
  case (Inr rb)
  obtain r b' where rb: "rb = (r, b')" by fastforce
  with Inr assms(4) have "finish_allocation p d (Inr b') (c\<lparr>ct_registry := r\<rparr>) = (c', a')"
    by (simp add: fail_allocation_def mark_and_finish_def)
  then show ?thesis
    using mark_failed_sound [OF assms(1) Inr [unfolded rb] assms(3)]
    by (rule finish_piece) (use marks_others(2) [OF Inr [unfolded rb]] assms(2) in auto)
qed

lemma owned_reserved:
  assumes "map_of (rg_instances r) i = Some b" "bi_state b = JStr st" "st \<in> {''starting'', ''warming''}"
    "map_of (rg_instances r) i = Some b'"
  shows "in_states b' RESERVED_STATES"
  using assms by (auto simp: in_states_def RESERVED_STATES_def REGISTRY_ACTIVE_STATES_def)

lemma mark_owned:
  assumes "sound_registry cap r" "holds r a" "owned a = Some (i, st)" "st \<in> {''starting'', ''warming''}"
    "mark_state now i st' r = Inr (r', b')" "now \<noteq> []"
  shows "sound_registry cap r' \<and> map_of (rg_instances r') i = Some b' \<and> bi_state b' = JStr st'"
proof
  obtain b where b: "map_of (rg_instances r) i = Some b" "bi_state b = JStr st"
    using assms(2,3) by (auto simp: holds_def)
  show "sound_registry cap r'"
    using assms(1,5,6) owned_reserved [OF b assms(4)] by (rule mark_state_sound)
  show "map_of (rg_instances r') i = Some b' \<and> bi_state b' = JStr st'"
    using assms(5) by (auto simp: mark_state_def dest!: modify_instance_own)
qed

lemma warm_piece:
  assumes "sound_registry cap (ct_registry c)" "init_ok ie" "holds (ct_registry c) (Waiting p d b)"
    "warm_allocation ie p d b c = (c', a')"
  shows "piece_ok cap (Waiting p d b) (ct_registry c) a' (ct_registry c')"
proof -
  have now: "ie_now1 ie \<noteq> []" "ie_now_failed ie \<noteq> []" using assms(2) by (simp_all add: init_ok_def)
  have failed: ?thesis if "fail_allocation ie p d b e c = (c', a')" for e
    using assms(1) _ now(2) that by (rule fail_piece [where st = "''starting''"]) simp
  show ?thesis
  proof (cases "mark_state (ie_now1 ie) (bi_id b) ''warming'' (ct_registry c)")
    case (Inl e)
    with assms(4) failed show ?thesis by (auto simp: warm_allocation_def split: sum.splits)
  next
    case (Inr rb)
    obtain r b' where rb: "rb = (r, b')" by fastforce
    from mark_owned [OF assms(1,3) owned_simps(2) _ Inr [unfolded rb] now(1)]
    have m: "sound_registry cap r" "map_of (rg_instances r) (bi_id b) = Some b'" "bi_state b' = JStr ''warming''" by simp_all
    then have "piece_ok cap (Waiting p d b) (ct_registry c) (Warming p d b) r"
      using marks_others(1) [OF Inr [unfolded rb]] by (auto simp: piece_ok_def holds_def)
    with assms(4) failed Inr show ?thesis by (auto simp: warm_allocation_def rb split: sum.splits)
  qed
qed

lemma ready_piece:
  assumes "sound_registry cap (ct_registry c)" "init_ok ie" "holds (ct_registry c) (Warming p d b)"
    "ready_allocation ie p d b c = (c', a')"
  shows "piece_ok cap (Warming p d b) (ct_registry c) a' (ct_registry c')"
proof -
  have now: "ie_now2 ie \<noteq> []" "ie_now_failed ie \<noteq> []" using assms(2) by (simp_all add: init_ok_def)
  have failed: ?thesis if "fail_allocation ie p d b e c = (c', a')" for e
    using assms(1) _ now(2) that by (rule fail_piece [where st = "''warming''"]) simp
  show ?thesis
  proof (cases "mark_state (ie_now2 ie) (bi_id b) ''ready'' (ct_registry c)")
    case (Inl e)
    with assms(4) failed show ?thesis by (auto simp: ready_allocation_def split: sum.splits)
  next
    case (Inr rb)
    obtain r b' where rb: "rb = (r, b')" by fastforce
    from mark_owned [OF assms(1,3) owned_simps(3) _ Inr [unfolded rb] now(1)]
    have m: "sound_registry cap r" by simp
    have finished: ?thesis if "finish_allocation p d (Inr b') (c\<lparr>ct_registry := r\<rparr>) = (c', a')"
      using that m by (rule finish_piece) (use marks_others(1) [OF Inr [unfolded rb]] in auto)
    show ?thesis
      using assms(4) failed Inr finished by (auto simp: ready_allocation_def rb split: sum.splits)
  qed
qed

section \<open>A new backend\<close>

lemma adapter_start_state:
  "adapter_start run now a p g gi hp i reserved = Inr b \<Longrightarrow>
     bi_state b = JStr (if bi_dry_run b then ''ready'' else ''starting'')"
  by (cases a) (auto simp: adapter_start_def new_instance_def bind_res_Inr_iff Let_def split: option.splits if_splits)

lemma start_instance_state:
  assumes "start_instance run sha1 dry docker seed now p decision gpus r = Inr b"
  shows "bi_state b = JStr (if bi_dry_run b then ''ready'' else ''starting'')"
proof -
  obtain a g gi hp i reserved b0 where s: "adapter_start run now a p g gi hp i reserved = Inr b0"
    and b: "bi_state b = bi_state b0" "bi_dry_run b = bi_dry_run b0"
    using assms by (auto simp: start_instance_def Let_def bind_res_Inr_iff split: option.splits)
  from adapter_start_state [OF s] b show ?thesis by simp
qed

lemma started_backend_spec:
  assumes "started_backend env ae p gpus r = Inr b" "pd_action (choose_gpu p gpus r) = ''start''"
  shows "\<exists>g\<in>set gpus. bi_gpu_ids b = [g_id g] \<and> bi_reserved_vram_mb b = required_vram p \<and>
     reserved_mb r (g_id g) + required_vram p \<le> g_free_mb g \<and> bi_model b = p_public_name p \<and>
     bi_host_port b = Some (next_host_port r (p_host_port_start p)) \<and>
     bi_state b = JStr (if bi_dry_run b then ''ready'' else ''starting'')"
proof -
  from choose_gpu_start [OF assms(2)] obtain g where g: "g \<in> set gpus" "pd_gpu_id (choose_gpu p gpus r) = Some (g_id g)"
      "reserved_mb r (g_id g) + required_vram p \<le> g_free_mb g" by blast
  have mb: "pd_required_mb (choose_gpu p gpus r) = required_vram p"
    by (simp add: choose_gpu_def placement_on_def split: prod.split)
  have "bi_gpu_ids b = [g_id g] \<and> bi_reserved_vram_mb b = required_vram p"
    using start_instance_gpu [OF assms(1) [unfolded started_backend_def], of "JStr (g_id g)" "required_vram p"] g(2) mb
    by (simp add: decision_to_dict_def opt_str_def)
  with g start_instance_spec [OF assms(1) [unfolded started_backend_def]]
    start_instance_state [OF assms(1) [unfolded started_backend_def]] show ?thesis by (intro bexI [of _ g]) auto
qed

lemma next_port_unused:
  "map_of (rg_instances r) j = Some a \<Longrightarrow> bi_host_port a \<noteq> Some (next_host_port r start)"
  using free_port_spec [of start "List.map_filter bi_host_port (registry_list r)"]
  by (auto simp: next_host_port_def in_used_ports registry_list_def dest!: map_of_SomeD)

lemma new_backend_sound:
  assumes "sound_registry cap r" "step_ok (ae_step ae)" "sound_profile p" "pd_action (choose_gpu p gpus r) = ''start''"
    and "\<forall>g\<in>set gpus. g_free_mb g \<le> cap (g_id g)" "started_backend env ae p gpus r = Inr b"
    and "map_of (rg_instances r) (bi_id b) = None" "registry_upsert now True (b\<lparr>bi_metadata := m\<rparr>) r = (r', b')" "now \<noteq> []"
  shows "sound_registry cap r' \<and> map_of (rg_instances r') (bi_id b) = Some b' \<and> bi_id b' = bi_id b \<and>
     bi_state b' = JStr (if bi_dry_run b' then ''ready'' else ''starting'') \<and> bi_model b' = p_public_name p \<and>
     bi_host_port b' = Some (next_host_port r (p_host_port_start p)) \<and>
     (\<forall>j. j \<noteq> bi_id b \<longrightarrow> map_of (rg_instances r') j = map_of (rg_instances r) j)"
proof -
  obtain g where g: "g \<in> set gpus" "bi_gpu_ids b = [g_id g]" "bi_reserved_vram_mb b = required_vram p"
      "reserved_mb r (g_id g) + required_vram p \<le> g_free_mb g" "bi_model b = p_public_name p"
      "bi_host_port b = Some (next_host_port r (p_host_port_start p))"
      "bi_state b = JStr (if bi_dry_run b then ''ready'' else ''starting'')"
    using started_backend_spec [OF assms(6,4)] by blast
  have b': "b' = b\<lparr>bi_metadata := m, bi_updated_at := now\<rparr>"
    and r': "r' = save_registry (r\<lparr>rg_instances := AList.update (bi_id b) b' (rg_instances r)\<rparr>)"
    using assms(8) by (auto simp: registry_upsert_def Let_def)
  have "fine b"
    using start_instance_fine [OF assms(6) [unfolded started_backend_def]] assms(2,3)
    by (simp add: step_ok_def sound_profile_def)
  then have fine: "fine b'" using assms(9) by (simp add: b' fine_def wf_instance_def)
  have nonneg: "0 \<le> required_vram p" using assms(3) by (simp add: sound_profile_def)
  have covered: "reserved_mb r h \<le> cap h" for h using assms(1) by (simp add: sound_registry_def memory_covered_def)
  have memory: "reserved_mb r h + reservation h b' \<le> cap h" for h
  proof (cases "h = g_id g")
    case True
    then show ?thesis
      using g assms(5) by (auto simp: reservation_def in_states_def b' RESERVED_STATES_def REGISTRY_ACTIVE_STATES_def)
  next
    case False
    with covered [of h] show ?thesis using g(2) by (simp add: reservation_def b')
  qed
  have "sound_registry cap r'"
    unfolding r'
  proof (rule update_sound [OF assms(1)])
    show "bi_host_port a \<noteq> bi_host_port b'"
      if "map_of (rg_instances r) j = Some a" "j \<noteq> bi_id b" "bi_host_port a \<noteq> None \<or> bi_host_port b' \<noteq> None" for j a
      using next_port_unused [OF that(1)] g(6) by (simp add: b')
    show "reserved_mb r h + reservation h b' \<le>
        cap h + (case map_of (rg_instances r) (bi_id b) of Some a \<Rightarrow> reservation h a | None \<Rightarrow> 0)" for h
      using memory [of h] assms(7) by simp
  qed (use fine g(3) nonneg in \<open>simp_all add: b'\<close>)
  then show ?thesis using g by (simp add: r' update_conv' b')
qed

lemma place_piece:
  assumes "sound_registry cap (ct_registry c)" "holds (ct_registry c) (Placing p meta)"
    and "answers_ok env cap ae (Placing p meta) (ct_registry c)" "place_allocation env ae p meta c = (c', a')"
  shows "piece_ok cap (Placing p meta) (ct_registry c) a' (ct_registry c')"
proof -
  let ?d = "\<lambda>gpus. choose_gpu p gpus (ct_registry c)"
  have same: ?thesis if "ct_registry c' = ct_registry c" "\<exists>x. a' = Answered x"
    using that assms(1) by (auto intro: unchanged_piece)
  show ?thesis
  proof (cases "\<exists>gpus b. gpu_states (se_gpus (ae_step ae)) = Inr gpus \<and> pd_action (?d gpus) = ''start'' \<and>
      started_backend env ae p gpus (ct_registry c) = Inr b \<and>
      (if should_verify_before_start p then verify_model_available (ae_verify ae) p else Inr ()) = Inr () \<and>
      pd_gpu_id (?d gpus) \<notin> {None, Some []}")
    case False
    then have "ct_registry c' = ct_registry c \<and> (\<exists>x. a' = Answered x)"
      using assms(4) unfolding place_allocation_def Let_def
      by (auto split: sum.splits if_splits)
    with same show ?thesis by blast
  next
    case True
    then obtain gpus b where gpus: "gpu_states (se_gpus (ae_step ae)) = Inr gpus" "pd_action (?d gpus) = ''start''"
        "started_backend env ae p gpus (ct_registry c) = Inr b"
        "(if should_verify_before_start p then verify_model_available (ae_verify ae) p else Inr ()) = Inr ()"
        "pd_gpu_id (?d gpus) \<notin> {None, Some []}" by blast
    let ?now = "se_upsert (ae_step ae)"
    obtain r b' where u: "registry_upsert ?now True (b\<lparr>bi_metadata := dmerge (bi_metadata b) meta\<rparr>) (ct_registry c) = (r, b')"
      by fastforce
    have ok: "step_ok (ae_step ae)" "\<forall>g\<in>set gpus. g_free_mb g \<le> cap (g_id g)"
        "map_of (rg_instances (ct_registry c)) (bi_id b) = None"
      using assms(3) gpus(1,3) by (simp_all add: answers_ok_def)
    then have now: "?now \<noteq> []" "ie_now1 (se_init (ae_step ae)) \<noteq> []" by (simp_all add: step_ok_def init_ok_def)
    have new: "sound_registry cap r" "map_of (rg_instances r) (bi_id b) = Some b'" "bi_id b' = bi_id b"
        "bi_state b' = JStr (if bi_dry_run b' then ''ready'' else ''starting'')"
        "\<And>j. j \<noteq> bi_id b \<Longrightarrow> map_of (rg_instances r) j = map_of (rg_instances (ct_registry c)) j"
      using new_backend_sound [OF assms(1) ok(1) _ gpus(2) ok(2) gpus(3) ok(3) u now(1)] assms(2) by simp_all
    have keep: "map_of (rg_instances r) j = map_of (rg_instances (ct_registry c)) j"
      if "map_of (rg_instances (ct_registry c)) j \<noteq> None" for j
      using new(5) [of j] ok(3) that by (cases "j = bi_id b") auto
    have out: "place_allocation env ae p meta c =
       (if bi_dry_run b' then mark_and_finish p (?d gpus) (mark_state (ie_now1 (se_init (ae_step ae))) (bi_id b') ''ready'')
           (c\<lparr>ct_registry := r\<rparr>)
        else (c\<lparr>ct_registry := r\<rparr>, Waiting p (?d gpus) b'))"
      using gpus u by (auto simp: place_allocation_def Let_def split: prod.split)
    show ?thesis
    proof (cases "bi_dry_run b'")
      case False
      then have "c' = c\<lparr>ct_registry := r\<rparr>" "a' = Waiting p (?d gpus) b'" using out assms(4) by simp_all
      then show ?thesis using new(1-4) False ok(3) keep by (simp add: piece_ok_def holds_def)
    next
      case True
      then have stored: "in_states b' RESERVED_STATES"
        using new(4) by (simp add: in_states_def RESERVED_STATES_def REGISTRY_ACTIVE_STATES_def)
      obtain rb where m: "mark_state (ie_now1 (se_init (ae_step ae))) (bi_id b') ''ready'' r = Inr rb"
        using new(2,3) by (auto simp: mark_state_def modify_instance_def)
      obtain r1 b1 where rb: "rb = (r1, b1)" by fastforce
      have s: "sound_registry cap r1"
        using new(1) m [unfolded rb] now(2) by (rule mark_state_sound) (use new(2,3) stored in simp)
      have fin: "finish_allocation p (?d gpus) (Inr b1) (c\<lparr>ct_registry := r1\<rparr>) = (c', a')"
        using out True assms(4) m by (simp add: mark_and_finish_def rb)
      have old: "map_of (rg_instances r1) j = map_of (rg_instances (ct_registry c)) j"
        if "map_of (rg_instances (ct_registry c)) j \<noteq> None" for j
        using marks_others(1) [OF m [unfolded rb], of j] keep [OF that] new(3) ok(3) that by (cases "j = bi_id b'") auto
      show ?thesis by (rule finish_piece [OF fin s]) (rule old)
    qed
  qed
qed

section \<open>Every interleaving\<close>

lemma piece_preserves:
  assumes "loop_inv cap s" "el_running s n = Some a \<or> owned a = None \<and> el_running s n = None"
    and "piece_ok cap a (ct_registry (el_controller s)) a' (ct_registry c)"
  shows "loop_inv cap \<lparr>el_controller = c, el_running = (el_running s)(n \<mapsto> a')\<rparr>"
proof -
  let ?r = "ct_registry (el_controller s)" and ?r' = "ct_registry c"
  have inv: "\<And>m b. el_running s m = Some b \<Longrightarrow> holds ?r b"
      "\<And>m k b d i st st'. el_running s m = Some b \<Longrightarrow> el_running s k = Some d \<Longrightarrow> m \<noteq> k \<Longrightarrow> owned b = Some (i, st) \<Longrightarrow>
         owned d \<noteq> Some (i, st')"
    using assms(1) unfolding loop_inv_def by blast+
  have piece: "sound_registry cap ?r'" "holds ?r' a'"
      "\<And>j. map_of (rg_instances ?r) j \<noteq> None \<Longrightarrow> map_option fst (owned a) \<noteq> Some j \<Longrightarrow>
        map_of (rg_instances ?r') j = map_of (rg_instances ?r) j"
    using assms(3) unfolding piece_ok_def by blast+
  have new: "map_option fst (owned a) = Some i \<or> map_of (rg_instances ?r) i = None" if "owned a' = Some (i, st)" for i st
    using assms(3) that by (auto simp: piece_ok_def)
  have stored: "\<exists>x. map_of (rg_instances ?r) i = Some x \<and> bi_state x = JStr st"
    if "el_running s m = Some b" "owned b = Some (i, st)" for m b i st
    using inv(1) [OF that(1)] that(2) by (simp add: holds_def)
  have apart: "map_option fst (owned a) \<noteq> Some i"
    if "el_running s m = Some b" "owned b = Some (i, st)" "m \<noteq> n" for m b i st
    using assms(2) inv(2) [OF that(1) _ that(3) that(2)] by (cases "owned a") auto
  have others: "holds ?r' b" if "el_running s m = Some b" "m \<noteq> n" for m b
  proof (cases "owned b")
    case None
    then show ?thesis using inv(1) [OF that(1)] by (simp add: holds_def)
  next
    case (Some x)
    then obtain i st where x: "owned b = Some (i, st)" by (cases x) simp
    from stored [OF that(1) x] piece(3) [of i] apart [OF that(1) x that(2)] x show ?thesis
      by (auto simp: holds_def)
  qed
  have alone: "owned b \<noteq> Some (i, st')" if "el_running s m = Some b" "m \<noteq> n" "owned a' = Some (i, st)" for m b i st st'
    using new [OF that(3)] stored [OF that(1)] apart [OF that(1) _ that(2)] by auto
  let ?running = "(el_running s)(n \<mapsto> a')"
  have all: "holds ?r' b" if "?running m = Some b" for m b
    using that others [of m b] piece(2) by (cases "m = n") auto
  have "owned d \<noteq> Some (i, st')"
    if "?running m = Some b" "?running k = Some d" "m \<noteq> k" "owned b = Some (i, st)" for m k b d i st st'
  proof -
    consider "m = n" | "k = n" | "m \<noteq> n" "k \<noteq> n" by blast
    then show ?thesis
    proof cases
      case 1
      then show ?thesis using that alone [of k d i st st'] by auto
    next
      case 2
      then show ?thesis using that alone [of m b i st' st] by auto
    next
      case 3
      then show ?thesis using that inv(2) [of m b k d i st st'] by simp
    qed
  qed
  with piece(1) all show ?thesis unfolding loop_inv_def event_loop.simps by blast
qed

lemma lease_preserves:
  assumes "loop_inv cap s" "now \<noteq> []"
    and "bind_act (registry_op (adjust_active_requests now i d)) f (el_controller s) = (c, x)" "\<And>b c. fst (f b c) = c"
  shows "loop_inv cap (s\<lparr>el_controller := c\<rparr>)"
proof (cases "adjust_active_requests now i d (ct_registry (el_controller s))")
  case (Inl e)
  then have "c = el_controller s" using assms(3) by (simp add: bind_act_def registry_op_def with_registry_def)
  with assms(1) show ?thesis by simp
next
  case (Inr rb)
  obtain r b where rb: "rb = (r, b)" by fastforce
  have c: "ct_registry c = r"
    using assms(3) assms(4) [of b "(el_controller s)\<lparr>ct_registry := r\<rparr>"] Inr
    by (simp add: bind_act_def registry_op_def with_registry_def rb)
  have sound: "sound_registry cap (ct_registry (el_controller s))" using assms(1) by (simp add: loop_inv_def)
  have same: "\<exists>b. map_of (rg_instances r) j = Some b \<and> bi_state b = st"
    if "\<exists>b. map_of (rg_instances (ct_registry (el_controller s))) j = Some b \<and> bi_state b = st" for j st
    using that Inr modify_instance_others [of "adjusted now d" i "ct_registry (el_controller s)" r b j]
    by (cases "j = i") (auto simp: rb adjust_active_requests_def adjusted_def Let_def dest: modify_instance_own)
  have "holds r a" if "holds (ct_registry (el_controller s)) a" for a
    using that same by (auto simp: holds_def split: option.splits)
  with assms(1) c lease_sound [OF sound Inr [unfolded rb] assms(2)] show ?thesis
    by (auto simp: loop_inv_def)
qed

lemma begin_registry:
  "begin_allocation env listing payload c = (c', a) \<Longrightarrow> ct_registry c' = ct_registry c \<and> owned a = None"
  by (auto simp: begin_allocation_def Let_def resolve_profile_def bind_act_def lift_res_def
      split: sum.splits option.splits if_splits prod.splits)

lemma step_preserves:
  assumes "alloc_step env cap s t" "loop_inv cap s"
  shows "loop_inv cap t"
  using assms
proof (cases rule: alloc_step.cases)
  case (begins n listing payload c a)
  have r: "ct_registry c = ct_registry (el_controller s)" "owned a = None" using begin_registry [OF begins(3)] by simp_all
  have "piece_ok cap a (ct_registry (el_controller s)) a (ct_registry c)"
    using assms(2) begins(4) r by (cases a) (auto simp: piece_ok_def loop_inv_def)
  with assms(2) r(2) begins(2) show ?thesis unfolding begins(1) by (intro piece_preserves) simp_all
next
  case (goes_on n a ae c a')
  have h: "holds (ct_registry (el_controller s)) a" and s: "sound_registry cap (ct_registry (el_controller s))"
    using assms(2) goes_on(2) unfolding loop_inv_def by blast+
  have i: "init_ok (se_init (ae_step ae))" using goes_on(3) by (simp add: answers_ok_def step_ok_def)
  have "piece_ok cap a (ct_registry (el_controller s)) a' (ct_registry c)"
  proof (cases a)
    case (Placing p meta)
    with place_piece [OF s] h goes_on(3,4) show ?thesis by (simp add: next_piece_def)
  next
    case (Waiting p d b)
    with warm_piece [OF s i] h goes_on(4) show ?thesis by (simp add: next_piece_def)
  next
    case (Warming p d b)
    with ready_piece [OF s i] h goes_on(4) show ?thesis by (simp add: next_piece_def)
  next
    case (Answered x)
    with unchanged_piece [OF s] goes_on(4) show ?thesis by (auto simp: next_piece_def)
  qed
  with assms(2) goes_on(2) show ?thesis unfolding goes_on(1) by (intro piece_preserves) simp_all
next
  case (leases now i c x)
  then show ?thesis using lease_preserves [OF assms(2) leases(2) leases(3) [unfolded handle_lease_def]] by (simp add: lift_res_def)
next
  case (releases now i c x)
  then show ?thesis using lease_preserves [OF assms(2) releases(2) releases(3) [unfolded handle_release_def]] by (simp add: lift_res_def)
qed

lemma reachable_inv: "(alloc_step env cap)\<^sup>*\<^sup>* s t \<Longrightarrow> loop_inv cap s \<Longrightarrow> loop_inv cap t"
  by (induction rule: rtranclp_induct) (auto intro: step_preserves)

text \<open>C36: however the pieces of concurrent allocations and leases follow one another, the registry stays well formed,
  no two instances get one port, what is reserved on a GPU never exceeds the most it reported free, and the
  backend an allocation waits for is in the registry as starting.\<close>

theorem concurrent_allocations_share_neither_port_nor_memory:
  assumes "(alloc_step env cap)\<^sup>*\<^sup>* s t" "el_running s = (\<lambda>_. None)" "sound_registry cap (ct_registry (el_controller s))"
  shows "registry_inv (ct_registry (el_controller t)) \<and>
    (\<forall>g. reserved_mb (ct_registry (el_controller t)) g \<le> cap g) \<and>
    (\<forall>i j a b. map_of (rg_instances (ct_registry (el_controller t))) i = Some a \<and>
       map_of (rg_instances (ct_registry (el_controller t))) j = Some b \<and> i \<noteq> j \<and> bi_host_port a \<noteq> None \<longrightarrow>
       bi_host_port a \<noteq> bi_host_port b) \<and>
    (\<forall>n p d b. el_running t n = Some (Waiting p d b) \<longrightarrow>
       (\<exists>b'. map_of (rg_instances (ct_registry (el_controller t))) (bi_id b) = Some b' \<and> bi_state b' = JStr ''starting''))"
proof -
  have "loop_inv cap s" using assms(2,3) by (simp add: loop_inv_def)
  with assms(1) have t: "loop_inv cap t" by (rule reachable_inv)
  then have "sound_registry cap (ct_registry (el_controller t))" by (simp add: loop_inv_def)
  moreover have "\<exists>b'. map_of (rg_instances (ct_registry (el_controller t))) (bi_id b) = Some b' \<and> bi_state b' = JStr ''starting''"
    if "el_running t n = Some (Waiting p d b)" for n p d b
  proof -
    have "holds (ct_registry (el_controller t)) (Waiting p d b)" using t that unfolding loop_inv_def by blast
    then show ?thesis by (simp add: holds_def)
  qed
  ultimately show ?thesis
    unfolding sound_registry_def ports_distinct_def memory_covered_def by blast
qed

section \<open>Cold models\<close>

lemma place_waiting:
  assumes "place_allocation env ae p meta c = (c', Waiting q d b)"
  shows "q = p \<and> \<not> in_states b READY_STATES \<and> in_states b REGISTRY_ACTIVE_STATES \<and> bi_model b = p_public_name p \<and>
     bi_host_port b = Some (next_host_port (ct_registry c) (p_host_port_start p)) \<and>
     ct_registry c' = save_registry ((ct_registry c)\<lparr>rg_instances := AList.update (bi_id b) b (rg_instances (ct_registry c))\<rparr>)"
proof -
  let ?d = "\<lambda>gpus. choose_gpu p gpus (ct_registry c)"
  obtain gpus b0 where g: "gpu_states (se_gpus (ae_step ae)) = Inr gpus" "pd_action (?d gpus) = ''start''"
      "started_backend env ae p gpus (ct_registry c) = Inr b0" "pd_gpu_id (?d gpus) \<notin> {None, Some []}"
      "(if should_verify_before_start p then verify_model_available (ae_verify ae) p else Inr ()) = Inr ()"
    using assms unfolding place_allocation_def Let_def by (auto split: sum.splits if_splits)
  let ?b = "b0\<lparr>bi_metadata := dmerge (bi_metadata b0) meta, bi_updated_at := se_upsert (ae_step ae)\<rparr>"
  have out: "q = p \<and> b = ?b \<and> \<not> bi_dry_run b0 \<and>
      ct_registry c' = save_registry ((ct_registry c)\<lparr>rg_instances := AList.update (bi_id b) b (rg_instances (ct_registry c))\<rparr>)"
    using assms g mark_and_finish_answers
    by (auto simp: place_allocation_def Let_def registry_upsert_def mark_and_finish_def finish_allocation_def
        split: if_splits sum.splits prod.splits)
  from started_backend_spec [OF g(3,2)] out show ?thesis
    by (auto simp: in_states_def READY_STATES_def REGISTRY_ACTIVE_STATES_def)
qed





section \<open>Two requests for one model\<close>

definition co_env :: controller_env where
  "co_env = lc_env\<lparr>ce_sha1 := \<lambda>s. s, ce_config := Inr (lc_config\<lparr>cfg_models := [(''m'', Some [(''runtime'', JStr ''vllm'')])]\<rparr>)\<rparr>"

definition co_answers :: "string \<Rightarrow> allocate_env" where
  "co_answers seed = lc_allocate\<lparr>ae_step := lc_step\<lparr>se_gpus := lc_gpus, se_seed := seed\<rparr>\<rparr>"

definition co_request :: dict where "co_request = [(''model'', JStr ''m'')]"

lemma co_profiles: "profiles co_env = Inr [(''m'', lc_vllm)]"
  using lc_vllm_loaded by (simp add: co_env_def profiles_def)

lemma co_vllm: "p_public_name lc_vllm = ''m''" "p_runtime lc_vllm = ''vllm''" "p_max_replicas lc_vllm = 1"
    "required_vram lc_vllm = 1024" "sound_profile lc_vllm"
  by (simp_all add: lc_vllm_def lc_profile_def required_vram_def sound_profile_def wf_profile_def)

lemma co_fields [simp]:
  "ce_shell co_env = (\<lambda>_. None)" "ce_sha1 co_env = (\<lambda>s. s)" "\<not> ce_dry_run co_env" "ce_docker co_env = ''docker''"
  "se_gpus (ae_step (co_answers seed)) = lc_gpus" "se_seed (ae_step (co_answers seed)) = seed"
  "se_created (ae_step (co_answers seed)) = ''t''" "se_upsert (ae_step (co_answers seed)) = ''t''"
  "step_ok (ae_step (co_answers seed))"
  using lc_envs_ok(1) by (simp_all add: co_env_def lc_env_def co_answers_def lc_allocate_def lc_step_def step_ok_def)

lemma co_begins:
  "ready_for_model (ct_registry c) ''m'' = [] \<Longrightarrow>
     begin_allocation co_env listing co_request c = (c, Placing lc_vllm [])"
proof -
  assume "ready_for_model (ct_registry c) ''m'' = []"
  moreover have "strip ''m'' = ''m''" by code_simp
  ultimately show ?thesis
    by (simp add: begin_allocation_def co_request_def co_profiles co_vllm resolve_profile_def lift_res_def Let_def
        enrich_profile_from_lmstudio_metadata_def text_default_def py_or_def)
qed

lemma co_places:
  assumes "reserved_mb (ct_registry c) ''gpu0'' \<le> 10000"
  shows "\<exists>c' d b. place_allocation co_env (co_answers seed) lc_vllm [] c = (c', Waiting lc_vllm d b) \<and>
    bi_id b = ''m-gpu0-'' @ take 8 (''m:gpu0:'' @ seed) \<and> bi_reserved_vram_mb b = 1024 \<and> bi_gpu_ids b = [''gpu0''] \<and>
    (\<exists>b0. started_backend co_env (co_answers seed) lc_vllm [lc_gpu] (ct_registry c) = Inr b0 \<and> bi_id b0 = bi_id b)"
proof -
  have gpus: "gpu_states lc_gpus = Inr [lc_gpu]" by code_simp
  have gid: "g_id lc_gpu = ''gpu0''" "g_free_mb lc_gpu = 20000" by (simp_all add: lc_gpu_def)
  let ?d = "choose_gpu lc_vllm [lc_gpu] (ct_registry c)"
  have pref: "gpu_preferred lc_vllm lc_gpu" by code_simp
  have "pd_action ?d = ''start''"
    using choose_gpu_noop [of lc_vllm "[lc_gpu]" "ct_registry c"] assms pref by (auto simp: gid co_vllm)
  moreover from choose_gpu_start [OF this] have "pd_gpu_id ?d = Some ''gpu0''" by (simp add: gid)
  moreover have "pd_required_mb ?d = 1024" by (simp add: choose_gpu_def placement_on_def co_vllm split: prod.split)
  ultimately show ?thesis
    using co_vllm
    by (simp add: place_allocation_def should_verify_before_start_def verify_model_available_def gpus Let_def
        started_backend_def start_instance_def required_key_def decision_to_dict_def opt_str_def gpus_by_id_def gid
        adapter_start_def adapter_for_def new_instance_def registry_upsert_def instance_id_for_def replace_char_def)
qed

lemma co_two:
  "\<exists>c1 d1 b1 c2 d2 b2. place_allocation co_env (co_answers ''a'') lc_vllm [] (lc_controller []) = (c1, Waiting lc_vllm d1 b1) \<and>
     place_allocation co_env (co_answers ''b'') lc_vllm [] c1 = (c2, Waiting lc_vllm d2 b2) \<and> bi_id b1 \<noteq> bi_id b2 \<and>
     answers_ok co_env (\<lambda>_. 20000) (co_answers ''a'') (Placing lc_vllm []) (lc_registry []) \<and>
     answers_ok co_env (\<lambda>_. 20000) (co_answers ''b'') (Placing lc_vllm []) (ct_registry c1)"
proof -
  have gpus: "gpu_states lc_gpus = Inr [lc_gpu]" by code_simp
  have free: "g_free_mb lc_gpu = 20000" by (simp add: lc_gpu_def)
  have zero: "reserved_mb (ct_registry (lc_controller [])) ''gpu0'' = 0" by (simp add: reserved_mb_def)
  have "reserved_mb (ct_registry (lc_controller [])) ''gpu0'' \<le> 10000" using zero by simp
  from co_places [OF this, of "''a''"] obtain c1 d1 b1 a where
    one: "place_allocation co_env (co_answers ''a'') lc_vllm [] (lc_controller []) = (c1, Waiting lc_vllm d1 b1)"
      "bi_id b1 = ''m-gpu0-m:gpu0:a''" "bi_reserved_vram_mb b1 = 1024" "bi_gpu_ids b1 = [''gpu0'']"
      "started_backend co_env (co_answers ''a'') lc_vllm [lc_gpu] (ct_registry (lc_controller [])) = Inr a"
    by auto
  have r1: "ct_registry c1 = save_registry ((lc_registry [])\<lparr>rg_instances := AList.update (bi_id b1) b1 (rg_instances (lc_registry []))\<rparr>)"
    using place_waiting [OF one(1)] by simp
  then have "reserved_mb (ct_registry c1) ''gpu0'' \<le> 10000"
    using zero one(3,4) unfolding r1 reserved_update by (simp add: reservation_def)
  from co_places [OF this, of "''b''"] obtain c2 d2 b2 b where
    two: "place_allocation co_env (co_answers ''b'') lc_vllm [] c1 = (c2, Waiting lc_vllm d2 b2)"
      "bi_id b2 = ''m-gpu0-m:gpu0:b''"
      "started_backend co_env (co_answers ''b'') lc_vllm [lc_gpu] (ct_registry c1) = Inr b" "bi_id b = bi_id b2"
    by auto
  have "answers_ok co_env (\<lambda>_. 20000) (co_answers ''a'') (Placing lc_vllm []) (lc_registry [])"
    using one(5) gpus free by (simp add: answers_ok_def)
  moreover have "answers_ok co_env (\<lambda>_. 20000) (co_answers ''b'') (Placing lc_vllm []) (ct_registry c1)"
    using two(2-4) one(2) r1 gpus free by (simp add: answers_ok_def)
  moreover have "bi_id b1 \<noteq> bi_id b2" using one(2) two(2) by simp
  ultimately show ?thesis using one(1) two(1) by blast
qed

lemma co_waits: "ready_for_model (lc_registry []) ''m'' = []"
  by (simp add: ready_for_model_def)

theorem concurrent_allocations_share_neither_port_nor_memory_witness:
  "\<exists>t b1 b2 d1 d2. (alloc_step co_env (\<lambda>_. 20000))\<^sup>*\<^sup>* \<lparr>el_controller = lc_controller [], el_running = \<lambda>_. None\<rparr> t \<and>
     el_running t 0 = Some (Waiting lc_vllm d1 b1) \<and> el_running t 1 = Some (Waiting lc_vllm d2 b2) \<and> bi_id b1 \<noteq> bi_id b2 \<and>
     reserved_mb (ct_registry (el_controller t)) ''gpu0'' \<le> 20000"
proof -
  let ?step = "alloc_step co_env (\<lambda>_. 20000)" and ?c0 = "lc_controller []" and ?p = "Placing lc_vllm []"
  obtain c1 d1 b1 c2 d2 b2 where
    one: "place_allocation co_env (co_answers ''a'') lc_vllm [] ?c0 = (c1, Waiting lc_vllm d1 b1)"
      "answers_ok co_env (\<lambda>_. 20000) (co_answers ''a'') ?p (lc_registry [])"
    and two: "place_allocation co_env (co_answers ''b'') lc_vllm [] c1 = (c2, Waiting lc_vllm d2 b2)"
      "answers_ok co_env (\<lambda>_. 20000) (co_answers ''b'') ?p (ct_registry c1)" and ids: "bi_id b1 \<noteq> bi_id b2"
    using co_two by blast
  have begins: "begin_allocation co_env (\<lambda>_ _. Inr []) co_request ?c0 = (?c0, ?p)"
    by (rule co_begins) (simp add: co_waits)
  let ?s0 = "\<lparr>el_controller = ?c0, el_running = \<lambda>_. None\<rparr>"
    and ?s1 = "\<lparr>el_controller = ?c0, el_running = [0 \<mapsto> ?p]\<rparr>"
    and ?s2 = "\<lparr>el_controller = ?c0, el_running = [0 \<mapsto> ?p, 1 \<mapsto> ?p]\<rparr>"
    and ?s3 = "\<lparr>el_controller = c1, el_running = [0 \<mapsto> ?p, 1 \<mapsto> ?p, 0 \<mapsto> Waiting lc_vllm d1 b1]\<rparr>"
    and ?t = "\<lparr>el_controller = c2, el_running = [0 \<mapsto> ?p, 1 \<mapsto> ?p, 0 \<mapsto> Waiting lc_vllm d1 b1, 1 \<mapsto> Waiting lc_vllm d2 b2]\<rparr>"
  have "?step ?s0 ?s1"
    using alloc_step.begins [of ?s0 0 co_env "\<lambda>_ _. Inr []" co_request ?c0 ?p] begins co_vllm by simp
  moreover have "?step ?s1 ?s2"
    using alloc_step.begins [of ?s1 1 co_env "\<lambda>_ _. Inr []" co_request ?c0 ?p] begins co_vllm by simp
  moreover have "?step ?s2 ?s3"
    using alloc_step.goes_on [of ?s2 0 ?p co_env "\<lambda>_. 20000" "co_answers ''a''" c1 "Waiting lc_vllm d1 b1"] one
    by (simp add: next_piece_def)
  moreover have "?step ?s3 ?t"
    using alloc_step.goes_on [of ?s3 1 ?p co_env "\<lambda>_. 20000" "co_answers ''b''" c2 "Waiting lc_vllm d2 b2"] two
    by (simp add: next_piece_def)
  ultimately have run: "?step\<^sup>*\<^sup>* ?s0 ?t" by (meson converse_rtranclp_into_rtranclp rtranclp.rtrancl_refl)
  have "sound_registry (\<lambda>_. 20000) (ct_registry (el_controller ?s0))"
    using lc_registry_inv [of "[]"] by (simp add: sound_registry_def ports_distinct_def memory_covered_def reserved_mb_def)
  with concurrent_allocations_share_neither_port_nor_memory [OF run] have
    "reserved_mb (ct_registry (el_controller ?t)) ''gpu0'' \<le> 20000" by simp
  with run ids show ?thesis by (intro exI [of _ ?t] exI [of _ b1] exI [of _ b2]) auto
qed


end
