(* ===== verification/Lifecycle_Http.thy ===== *)
theory Lifecycle_Http
  imports Lifecycle_Controller Gpu_Inventory
begin

text \<open>
  The rest of \<open>lifecycle/main.py\<close>: the endpoints that show a plan or the state, the text of the metrics, and the
  periodic reconciliation. The handlers that change the state are in \<open>Lifecycle_Controller\<close>.
\<close>

section \<open>Endpoints\<close>

record http_settings =
  ht_service_name :: string
  ht_dry_run :: bool
  ht_enable_reconcile_loop :: bool

definition lifecycle_health :: "http_settings \<Rightarrow> dict" where
  "lifecycle_health st = [(''service'', JStr (ht_service_name st)), (''status'', JStr ''healthy'')]"

definition lifecycle_ready :: "http_settings \<Rightarrow> dict" where
  "lifecycle_ready st = [(''service'', JStr (ht_service_name st)), (''status'', JStr ''healthy''),
     (''dry_run'', JBool (ht_dry_run st)), (''reconcile_loop_enabled'', JBool (ht_enable_reconcile_loop st))]"

definition backend_registry :: "controller \<Rightarrow> dict" where
  "backend_registry c = [(''instances'', JList (map (JDict \<circ> instance_to_dict) (registry_list (ct_registry c))))]"

definition controller_plan ::
  "controller_env \<Rightarrow> reconcile_env \<Rightarrow> (string \<times> int) list \<Rightarrow> (string \<times> context_plan) list \<Rightarrow> controller \<Rightarrow>
     (nat \<times> model_plan list) res" where
  "controller_plan env re lengths plans c =
     bind_res (profiles env) (\<lambda>ps.
     plan_models (re_planner re) (gpu_states (re_gpus re)) (ct_registry c) ps lengths plans)"

definition handle_plan :: "controller_env \<Rightarrow> reconcile_env \<Rightarrow> dict \<Rightarrow> dict act" where
  "handle_plan env re payload =
     bind_act (lift_res (queue_lengths_from_payload payload)) (\<lambda>lengths.
     bind_act (lift_res (context_plans_from_payload payload)) (\<lambda>plans c.
     (c, bind_res (controller_plan env re lengths plans c) (\<lambda>plan. Inr (plan_payload (ce_dry_run env) plan)))))"

definition handle_explain_plan :: "controller_env \<Rightarrow> reconcile_env \<Rightarrow> dict \<Rightarrow> dict act" where
  "handle_explain_plan env re payload =
     bind_act (lift_res (queue_lengths_from_payload payload)) (\<lambda>lengths.
     bind_act (lift_res (context_plans_from_payload payload)) (\<lambda>plans c.
     (c, bind_res (controller_plan env re lengths plans c) (\<lambda>plan.
        explain_plan (ce_dry_run env) plan lengths plans))))"

section \<open>The reconcile loop\<close>

text \<open>Its iterations so far: \<open>except Exception\<close> keeps what an iteration had done before it raised.\<close>

fun periodic_reconcile_loop :: "controller_env \<Rightarrow> reconcile_env list \<Rightarrow> controller \<Rightarrow> controller" where
  "periodic_reconcile_loop env [] c = c"
| "periodic_reconcile_loop env (re # res) c = periodic_reconcile_loop env res (fst (reconcile env re [] [] c))"

section \<open>Metrics\<close>

text \<open>A line is the name of a series with its labels, and a number.\<close>

definition braced :: "string \<Rightarrow> string \<Rightarrow> string" where
  "braced name labels = name @ [CHR 0x7B] @ labels @ [CHR 0x7D]"

definition METRIC_STATES :: "string list" where
  "METRIC_STATES = [''starting'', ''warming'', ''ready'', ''draining'', ''failed'', ''stopped'', ''external'']"

definition metric_runtimes :: "backend_instance list \<Rightarrow> string list" where
  "metric_runtimes bs = (if bs = [] then [''none''] else sort (remdups (map bi_runtime bs)))"

definition count_where :: "backend_instance list \<Rightarrow> string \<Rightarrow> string \<Rightarrow> int" where
  "count_where bs state runtime = int (length (filter (\<lambda>b. bi_state b = JStr state \<and> bi_runtime b = runtime) bs))"

definition instance_series :: "backend_instance list \<Rightarrow> (string \<times> int) list" where
  "instance_series bs = concat (map (\<lambda>state. map (\<lambda>runtime.
     (braced ''llm_backend_instances''
        (''state='' @ [CHR 0x22] @ state @ [CHR 0x22] @ '',runtime='' @ [CHR 0x22] @ runtime @ [CHR 0x22]),
      count_where bs state runtime)) (metric_runtimes bs)) METRIC_STATES)"

definition backend_labels :: "backend_instance \<Rightarrow> string" where
  "backend_labels b = prom_labels [(''model'', bi_model b), (''runtime'', bi_runtime b), (''state'', py_str (bi_state b))]"

definition backend_series :: "backend_instance list \<Rightarrow> (string \<times> int) list" where
  "backend_series bs = concat (map (\<lambda>b.
     [(braced ''llm_backend_active_requests'' (backend_labels b), bi_active_requests b),
      (braced ''llm_backend_reserved_vram_mb'' (backend_labels b), bi_reserved_vram_mb b)]) bs)"

definition counter_series :: "controller \<Rightarrow> (string \<times> int) list" where
  "counter_series c =
     map (\<lambda>((model, result), n). (braced ''llm_allocations_total'' (prom_labels [(''model'', model), (''result'', result)]), n))
       (sort_key fst (ct_allocations c)) @
     map (\<lambda>((model, result, reason), n). (braced ''llm_reloads_total''
         (prom_labels [(''model'', model), (''result'', result), (''reason'', reason)]), n))
       (sort_key fst (ct_reloads c)) @
     map (\<lambda>((model, state), n). (braced ''llm_lmstudio_reconciliations_total''
         (prom_labels [(''model'', model), (''state'', state)]), n))
       (sort_key fst (ct_live c))"

definition gpu_series :: "gpu_state list res \<Rightarrow> (string \<times> int) list" where
  "gpu_series gpus = (case gpus of
       Inl _ \<Rightarrow> [(''llm_gpu_inventory_up'', 0)]
     | Inr gs \<Rightarrow> concat (map (\<lambda>g.
         (let labels = prom_labels [(''gpu_id'', g_id g), (''gpu_index'', str_int (g_index g)), (''name'', g_name g)] in
          [(braced ''llm_gpu_memory_total_mb'' labels, g_total_mb g),
           (braced ''llm_gpu_memory_used_mb'' labels, g_used_mb g),
           (braced ''llm_gpu_memory_free_mb'' labels, g_free_mb g)])) gs) @ [(''llm_gpu_inventory_up'', 1)])"

definition lifecycle_series :: "http_reply \<Rightarrow> controller \<Rightarrow> (string \<times> int) list" where
  "lifecycle_series reply c =
     (let bs = registry_list (ct_registry c) in
      instance_series bs @ backend_series bs @ counter_series c @ gpu_series (gpu_states reply))"

definition lifecycle_metrics :: "http_reply \<Rightarrow> controller \<Rightarrow> string" where
  "lifecycle_metrics reply c =
     join [CHR 0x0A] (map (\<lambda>(series, n). series @ '' '' @ str_int n) (lifecycle_series reply c)) @ [CHR 0x0A]"

section \<open>Labels can be read back\<close>

definition esc_char :: "char \<Rightarrow> string" where
  "esc_char c = (if c = CHR 0x5C then [CHR 0x5C, CHR 0x5C] else if c = CHR 0x0A then [CHR 0x5C, CHR ''n'']
     else if c = CHR 0x22 then [CHR 0x5C, CHR 0x22] else [c])"

lemma prom_label_value_chars: "prom_label_value s = concat (map esc_char s)"
  by (induction s) (auto simp: prom_label_value_def replace_char_def esc_char_def)

lemma esc_step: "esc_char c @ x = esc_char d @ y \<longleftrightarrow> c = d \<and> x = y"
  by (auto simp: esc_char_def)

lemma label_value_ends:
  "concat (map esc_char x) @ CHR 0x22 # r = concat (map esc_char y) @ CHR 0x22 # r' \<Longrightarrow> x = y \<and> r = r'"
proof (induction x arbitrary: y)
  case Nil
  then show ?case by (cases y) (auto simp: esc_char_def split: if_splits)
next
  case (Cons c x)
  show ?case
  proof (cases y)
    case Nil
    with Cons.prems show ?thesis by (auto simp: esc_char_def split: if_splits)
  next
    case y: (Cons d z)
    have "c = d \<and> concat (map esc_char x) @ CHR 0x22 # r = concat (map esc_char z) @ CHR 0x22 # r'"
      using Cons.prems by (simp add: y esc_step)
    with Cons.IH [of z] y show ?thesis by simp
  qed
qed

lemma backend_labels_eq:
  "backend_labels a = backend_labels b \<longleftrightarrow>
     bi_model a = bi_model b \<and> bi_runtime a = bi_runtime b \<and> py_str (bi_state a) = py_str (bi_state b)"
proof
  assume "backend_labels a = backend_labels b"
  then have "concat (map esc_char (bi_model a)) @ CHR 0x22 # '',runtime='' @ CHR 0x22 # concat (map esc_char (bi_runtime a)) @
        CHR 0x22 # '',state='' @ CHR 0x22 # concat (map esc_char (py_str (bi_state a))) @ CHR 0x22 # [] =
      concat (map esc_char (bi_model b)) @ CHR 0x22 # '',runtime='' @ CHR 0x22 # concat (map esc_char (bi_runtime b)) @
        CHR 0x22 # '',state='' @ CHR 0x22 # concat (map esc_char (py_str (bi_state b))) @ CHR 0x22 # []"
    by (simp add: backend_labels_def prom_labels_def prom_label_value_chars)
  from label_value_ends [OF this] have model: "bi_model a = bi_model b"
    and "concat (map esc_char (bi_runtime a)) @ CHR 0x22 # '',state='' @ CHR 0x22 # concat (map esc_char (py_str (bi_state a))) @ CHR 0x22 # [] =
      concat (map esc_char (bi_runtime b)) @ CHR 0x22 # '',state='' @ CHR 0x22 # concat (map esc_char (py_str (bi_state b))) @ CHR 0x22 # []"
    by simp_all
  from label_value_ends [OF this(2)] have "bi_runtime a = bi_runtime b"
    and "concat (map esc_char (py_str (bi_state a))) @ CHR 0x22 # [] = concat (map esc_char (py_str (bi_state b))) @ CHR 0x22 # []"
    by simp_all
  with label_value_ends [OF this(2)] model
  show "bi_model a = bi_model b \<and> bi_runtime a = bi_runtime b \<and> py_str (bi_state a) = py_str (bi_state b)" by blast
qed (simp add: backend_labels_def)

lemma braced_eq [simp]: "braced n x = braced n y \<longleftrightarrow> x = y"
  by (simp add: braced_def)

lemma braced_other:
  "braced ''llm_backend_active_requests'' x \<noteq> braced ''llm_backend_reserved_vram_mb'' y"
  "braced ''llm_backend_reserved_vram_mb'' x \<noteq> braced ''llm_backend_active_requests'' y"
  by (simp_all add: braced_def)

lemma backend_series_names: "set (map fst (backend_series bs)) =
    (\<Union>b\<in>set bs. {braced ''llm_backend_active_requests'' (backend_labels b), braced ''llm_backend_reserved_vram_mb'' (backend_labels b)})"
  by (induction bs) (auto simp: backend_series_def)

lemma backend_series_distinct:
  "distinct (map fst (backend_series bs)) \<longleftrightarrow> distinct (map (\<lambda>b. (bi_model b, bi_runtime b, py_str (bi_state b))) bs)"
proof (induction bs)
  case (Cons b bs)
  have "map fst (backend_series (b # bs)) = braced ''llm_backend_active_requests'' (backend_labels b) #
      braced ''llm_backend_reserved_vram_mb'' (backend_labels b) # map fst (backend_series bs)"
    by (simp add: backend_series_def)
  moreover have "braced n (backend_labels b) \<in> set (map fst (backend_series bs)) \<longleftrightarrow>
      (\<exists>a\<in>set bs. backend_labels b = backend_labels a)"
    if "n \<in> {''llm_backend_active_requests'', ''llm_backend_reserved_vram_mb''}" for n
    using that unfolding backend_series_names by (auto simp: braced_other)
  ultimately show ?case using Cons.IH by (auto simp: braced_other backend_labels_eq)
qed (simp add: backend_series_def)

section \<open>The counts add up\<close>

lemma sum_indicator: "distinct rs \<Longrightarrow> (\<Sum>r\<leftarrow>rs. if x = r then 1 else 0) = (if x \<in> set rs then 1 else 0 :: int)"
  by (induction rs) auto

lemma count_runtimes:
  "distinct rs \<Longrightarrow> set (map bi_runtime bs) \<subseteq> set rs \<Longrightarrow>
     (\<Sum>r\<leftarrow>rs. count_where bs st r) = int (length (filter (\<lambda>b. bi_state b = JStr st) bs))"
proof (induction bs)
  case Nil
  then show ?case by (simp add: count_where_def)
next
  case (Cons b bs)
  have step: "count_where (b # bs) st r = (if bi_state b = JStr st \<and> bi_runtime b = r then 1 else 0) + count_where bs st r" for r
    by (simp add: count_where_def)
  have "(\<Sum>r\<leftarrow>rs. if bi_runtime b = r then 1 else 0 :: int) = 1"
    using Cons.prems by (simp add: sum_indicator)
  then have "(\<Sum>r\<leftarrow>rs. if bi_state b = JStr st \<and> bi_runtime b = r then 1 else 0 :: int) = (if bi_state b = JStr st then 1 else 0)"
    by simp
  with Cons show ?case by (simp add: step sum_list_addf)
qed

lemma metric_runtimes_cover: "distinct (metric_runtimes bs)" "set (map bi_runtime bs) \<subseteq> set (metric_runtimes bs)"
  by (auto simp: metric_runtimes_def)

lemma instance_series_total:
  "sum_list (map snd (instance_series bs)) = int (length (filter (\<lambda>b. bi_state b \<in> JStr ` set METRIC_STATES) bs))"
proof -
  have "sum_list (map snd (instance_series bs)) =
      (\<Sum>st\<leftarrow>METRIC_STATES. int (length (filter (\<lambda>b. bi_state b = JStr st) bs)))"
    using count_runtimes [OF metric_runtimes_cover]
    by (simp add: instance_series_def METRIC_STATES_def o_def)
  also have "\<dots> = int (length (filter (\<lambda>b. bi_state b \<in> JStr ` set METRIC_STATES) bs))"
    by (induction bs) (auto simp: METRIC_STATES_def)
  finally show ?thesis .
qed

text \<open>C39: whatever the state of the service, a scrape counts every instance in a listed state once, reports whether the GPU
  inventory answers, and gives each backend series of its own exactly when no two instances have the same
  model, runtime and state: two replicas of a model that are both ready share their two series.\<close>

theorem scraped_backends_are_told_apart_unless_replicated:
  "sum_list (map snd (instance_series (registry_list (ct_registry c)))) =
     int (length (filter (\<lambda>b. bi_state b \<in> JStr ` set METRIC_STATES) (registry_list (ct_registry c)))) \<and>
   (distinct (map fst (backend_series (registry_list (ct_registry c)))) \<longleftrightarrow>
     distinct (map (\<lambda>b. (bi_model b, bi_runtime b, py_str (bi_state b))) (registry_list (ct_registry c)))) \<and>
   last (lifecycle_series reply c) = (''llm_gpu_inventory_up'', case gpu_states reply of Inl _ \<Rightarrow> 0 | Inr _ \<Rightarrow> 1)"
  using instance_series_total backend_series_distinct
  by (simp add: lifecycle_series_def Let_def gpu_series_def split: sum.split)

section \<open>The loop keeps the registry\<close>

lemma loop_keeps_registry:
  "registry_inv (ct_registry c) \<Longrightarrow> profiles_ok env \<Longrightarrow> \<forall>re\<in>set res. reconcile_ok re \<Longrightarrow>
     registry_inv (ct_registry (periodic_reconcile_loop env res c))"
proof (induction res arbitrary: c)
  case (Cons re res)
  have "keeps (reconcile env re [] []) (\<lambda>_. True)"
    using Cons.prems by (intro keeps_reconcile) simp_all
  with Cons.prems(1) have "registry_inv (ct_registry (fst (reconcile env re [] [] c)))" by (simp add: keeps_def)
  with Cons show ?case by simp
qed simp

lemma showing_changes_nothing:
  "fst (handle_plan env re payload c) = c" "fst (handle_explain_plan env re payload c) = c"
  by (simp_all add: handle_plan_def handle_explain_plan_def bind_act_def lift_res_def split: sum.split)

end
