(* ===== verification/Forwarder.thy ===== *)
theory Forwarder
  imports Proxy
begin

text \<open>
  The asyncio tasks of \<open>queue_proxy/forwarder.py\<close>: the task that sends the request upstream, the one that
  watches for the client to disconnect, the HTTP client and the streamed response. What ends the wait for the
  first of them is an argument; the outcome is the \<open>upstream_result\<close> the proxy path goes on with, together with what is
  still running or open when control leaves the forwarder.
\<close>

section \<open>Tasks\<close>

datatype send_end = SentResponse int | SendFailed exn

text \<open>\<open>asyncio.wait\<close> returns with the finished tasks (the end of the sending task, if it is one of them, and
  whether the watcher is), or the waiting task itself is cancelled.\<close>

datatype wake = Woken "send_end option" bool | CancelledWaiting

record resources =
  fw_send_running :: bool
  fw_watch_running :: bool
  fw_client_open :: bool
  fw_response_open :: bool

definition tasks_started :: resources where
  "tasks_started = \<lparr>fw_send_running = True, fw_watch_running = True, fw_client_open = True, fw_response_open = False\<rparr>"

text \<open>The tasks that are done when the wait returns; a streamed response is open from then on.\<close>

definition after_wake :: "bool \<Rightarrow> wake \<Rightarrow> resources" where
  "after_wake streamed w = (case w of
       CancelledWaiting \<Rightarrow> tasks_started
     | Woken s left \<Rightarrow> tasks_started\<lparr>fw_send_running := (s = None), fw_watch_running := (\<not> left),
         fw_response_open := (streamed \<and> (case s of Some (SentResponse _) \<Rightarrow> True | _ \<Rightarrow> False))\<rparr>)"

text \<open>Cancelling a task and waiting for its end; closing the client, which closes its responses.\<close>

definition cancel_send :: "resources \<Rightarrow> resources" where "cancel_send r = r\<lparr>fw_send_running := False\<rparr>"

definition cancel_watch :: "resources \<Rightarrow> resources" where "cancel_watch r = r\<lparr>fw_watch_running := False\<rparr>"

definition close_client :: "resources \<Rightarrow> resources" where
  "close_client r = r\<lparr>fw_client_open := False, fw_response_open := False\<rparr>"

definition nothing_left :: "resources \<Rightarrow> bool" where
  "nothing_left r \<longleftrightarrow> \<not> fw_send_running r \<and> \<not> fw_watch_running r \<and> \<not> fw_client_open r \<and> \<not> fw_response_open r"

section \<open>The forwarder\<close>

fun failed_result :: "exn \<Rightarrow> upstream_result" where
  "failed_result (HTTPError kind) = UpHttpError kind"
| "failed_result ClientDisconnectedError = UpClientGone"
| "failed_result e = UpRaise e"

lemma failed_result_no_response [simp]: "failed_result e \<noteq> UpResponse c"
  by (cases e) simp_all

definition watched_outcome :: "wake \<Rightarrow> send_end" where
  "watched_outcome w = (case w of
       CancelledWaiting \<Rightarrow> SendFailed CancelledError
     | Woken s left \<Rightarrow> if left then SendFailed ClientDisconnectedError
         else (case s of Some e \<Rightarrow> e | None \<Rightarrow> SendFailed ClientDisconnectedError))"

definition send_buffered_with_disconnect_watch :: "wake \<Rightarrow> send_end \<times> resources" where
  "send_buffered_with_disconnect_watch w =
     (let r = after_wake False w;
          r = (case w of Woken _ True \<Rightarrow> cancel_send r | _ \<Rightarrow> r);
          r = cancel_watch r;
          r = (if fw_send_running r then cancel_send r else r)
      in (watched_outcome w, r))"

text \<open>With or without \<open>watch_disconnect\<close>; unwatched, the request is awaited where it stands. Leaving
  \<open>async with\<close> closes the client on every path, and an HTTP error becomes the 502 response.\<close>

definition forward_buffered_response :: "wake + send_end \<Rightarrow> upstream_result \<times> resources" where
  "forward_buffered_response how =
     (case (case how of
              Inl w \<Rightarrow> send_buffered_with_disconnect_watch w
            | Inr e \<Rightarrow> (e, cancel_send (cancel_watch tasks_started))) of (e, r) \<Rightarrow>
       (case e of
          SentResponse c \<Rightarrow> UpResponse c
        | SendFailed x \<Rightarrow> failed_result x,
        close_client r))"

text \<open>\<open>except Exception\<close> does not catch a cancellation.\<close>

definition is_exception :: "exn \<Rightarrow> bool" where
  "is_exception e \<longleftrightarrow> e \<noteq> CancelledError"

definition stream_response :: "wake \<Rightarrow> upstream_result \<times> resources" where
  "stream_response w =
     (let r = after_wake True w;
          r = (case w of
                 Woken _ True \<Rightarrow> close_client (cancel_send r)
               | Woken _ False \<Rightarrow> cancel_watch r
               | CancelledWaiting \<Rightarrow> r)
      in case watched_outcome w of
           SentResponse c \<Rightarrow> (UpResponse c, r)
         | SendFailed e \<Rightarrow>
             (failed_result e,
              if is_exception e then close_client (cancel_send (cancel_watch r)) else r))"

text \<open>\<open>response_body\<close>, which is started: its \<open>finally\<close>, whether the stream ends, fails or is closed, runs to the
  callback with the status of the upstream response.\<close>

definition response_body_end :: "int \<Rightarrow> resources \<Rightarrow> resources \<times> int" where
  "response_body_end status r = (close_client (r\<lparr>fw_response_open := False\<rparr>), status)"

section \<open>What outlives a request\<close>

lemmas forwarder_defs = send_buffered_with_disconnect_watch_def forward_buffered_response_def stream_response_def
  watched_outcome_def after_wake_def tasks_started_def cancel_send_def cancel_watch_def close_client_def
  nothing_left_def is_exception_def response_body_end_def Let_def

lemma buffered_leaves_nothing: "nothing_left (snd (forward_buffered_response how))"
  by (auto simp: forwarder_defs split: sum.split wake.split bool.split)

lemma stream_cancelled: "stream_response CancelledWaiting = (UpRaise CancelledError, tasks_started)"
  by (simp add: stream_response_def watched_outcome_def is_exception_def after_wake_def)

text \<open>C27: however the wait for the upstream answer or the client's disconnect ends, a buffered request leaves no
  task running and no connection open, also when it is cancelled itself. A streamed one leaves the client and
  the response to the body, whose end closes both and reports the status, and nothing when it fails; but
  when it is cancelled while it waits, both tasks and the client are left as they are.\<close>

theorem only_a_cancelled_stream_leaves_tasks_behind:
  assumes "s \<noteq> None \<or> left" "s \<noteq> Some (SendFailed CancelledError)"
  shows "nothing_left (snd (forward_buffered_response how)) \<and>
    (case stream_response (Woken s left) of
       (UpResponse c, r) \<Rightarrow> s = Some (SentResponse c) \<and> \<not> left \<and> \<not> fw_send_running r \<and> \<not> fw_watch_running r \<and>
         fw_client_open r \<and> nothing_left (fst (response_body_end c r)) \<and> snd (response_body_end c r) = c
     | (_, r) \<Rightarrow> nothing_left r) \<and>
    (left \<longrightarrow> fst (stream_response (Woken s left)) = UpClientGone \<and>
       fst (forward_buffered_response (Inl (Woken s left))) = UpClientGone) \<and>
    stream_response CancelledWaiting = (UpRaise CancelledError, tasks_started)"
proof (intro conjI)
  show "case stream_response (Woken s left) of
       (UpResponse c, r) \<Rightarrow> s = Some (SentResponse c) \<and> \<not> left \<and> \<not> fw_send_running r \<and> \<not> fw_watch_running r \<and>
         fw_client_open r \<and> nothing_left (fst (response_body_end c r)) \<and> snd (response_body_end c r) = c
     | (_, r) \<Rightarrow> nothing_left r"
  proof (cases "watched_outcome (Woken s left)")
    case (SentResponse c)
    then have "\<not> left" "s = Some (SentResponse c)"
      by (auto simp: watched_outcome_def split: if_splits option.splits)
    then show ?thesis by (simp add: forwarder_defs Let_def)
  next
    case (SendFailed e)
    then have "is_exception e" using assms
      by (auto simp: watched_outcome_def is_exception_def split: if_splits option.splits)
    with SendFailed show ?thesis
      by (auto simp: stream_response_def Let_def nothing_left_def close_client_def cancel_send_def cancel_watch_def
          split: upstream_result.split)
  qed
  show "left \<longrightarrow> fst (stream_response (Woken s left)) = UpClientGone \<and>
       fst (forward_buffered_response (Inl (Woken s left))) = UpClientGone"
    by (simp add: stream_response_def forward_buffered_response_def send_buffered_with_disconnect_watch_def
        watched_outcome_def Let_def)
qed (rule buffered_leaves_nothing stream_cancelled)+

theorem only_a_cancelled_stream_leaves_tasks_behind_witness:
  "nothing_left (snd (forward_buffered_response (Inl CancelledWaiting))) \<and>
   fst (stream_response (Woken (Some (SentResponse 200)) True)) = UpClientGone"
  using only_a_cancelled_stream_leaves_tasks_behind [of "Some (SentResponse 200)" True "Inl CancelledWaiting"] by simp

end
