(* ===== verification/Fake_Backend.thy ===== *)
theory Fake_Backend
  imports Healthcheck
begin

text \<open>
  The fake OpenAI-compatible backend the other services are tested against (\<open>fake_openai_backend/main.py\<close>,
  \<open>settings.py\<close>): its endpoints with the headers that force a failure, a delay or a text, the usage it
  reports, and the stream of a chat completion as server-sent events. The clock, the headers and the
  outcome of \<open>request.json()\<close> are arguments.
\<close>

section \<open>Settings\<close>

record fake_settings =
  fk_model_ids :: string
  fk_response_text :: string

definition fake_models :: "fake_settings \<Rightarrow> string list" where
  "fake_models st = map strip (filter (\<lambda>m. strip m \<noteq> []) (split_on (CHR '','') (fk_model_ids st)))"

section \<open>Tokens and texts\<close>

definition TEXT_KEYS :: "string list" where
  "TEXT_KEYS = [''messages'', ''input'', ''prompt'', ''content'', ''text'']"

fun collect_text :: "json \<Rightarrow> string" where
  "collect_text JNull = []"
| "collect_text (JStr s) = s"
| "collect_text (JList xs) = join [CHR 0x0A] (map collect_text xs)"
| "collect_text (JDict d) =
     (let texts = map (\<lambda>kv. (fst kv, collect_text (snd kv))) d
      in join [CHR 0x0A] (List.map_filter (map_of texts) TEXT_KEYS))"
| "collect_text v = py_str v"

definition estimated_tokens :: "json \<Rightarrow> int" where
  "estimated_tokens v = (let text = collect_text v in
     if text = [] then 0 else max 1 (round_div (int (length text)) 4))"

definition usage :: "dict \<Rightarrow> string \<Rightarrow> dict" where
  "usage payload output_text =
     (let prompt_tokens = estimated_tokens (JDict payload);
          completion_tokens = max 1 (round_div (int (length output_text)) 4)
      in [(''prompt_tokens'', JInt prompt_tokens), (''completion_tokens'', JInt completion_tokens),
          (''total_tokens'', JInt (prompt_tokens + completion_tokens))])"

definition response_text :: "fake_settings \<Rightarrow> headers \<Rightarrow> dict \<Rightarrow> string" where
  "response_text st hs payload = (case map_of hs ''x-fake-response-text'' of
       Some (c # cs) \<Rightarrow> c # cs
     | _ \<Rightarrow> if truthy (dget payload ''fake_response_text'') then py_str (dget payload ''fake_response_text'')
         else fk_response_text st)"

fun pairs :: "string \<Rightarrow> string list" where
  "pairs (a # b # cs) = [a, b] # pairs cs"
| "pairs [a] = [[a]]"
| "pairs [] = []"

definition split_text :: "string \<Rightarrow> string list" where
  "split_text text = (if text = [] then [[]] else pairs text)"

section \<open>Server-sent events\<close>

text \<open>\<open>json.dumps(v, separators=(",", ":"))\<close>: everything outside the printable ASCII range is escaped.\<close>

definition ascii_char :: "char \<Rightarrow> string" where
  "ascii_char c = (let n = (of_char c :: nat) in
     if n < 127 then json_char c
     else [CHR 0x5C, CHR ''u'', CHR ''0'', CHR ''0'', hex_digit (n div 16), hex_digit (n mod 16)])"

definition ascii_str :: "string \<Rightarrow> string" where
  "ascii_str s = [CHR 0x22] @ concat (map ascii_char s) @ [CHR 0x22]"

fun json_compact :: "json \<Rightarrow> string" where
  "json_compact (JStr s) = ascii_str s"
| "json_compact (JList xs) = ''['' @ join '','' (map json_compact xs) @ '']''"
| "json_compact (JDict d) = [CHR 0x7B] @ join '','' (map (\<lambda>kv. ascii_str (fst kv) @ '':'' @ json_compact (snd kv)) d) @ [CHR 0x7D]"
| "json_compact v = json_dumps v"

definition stream_chunk :: "int \<Rightarrow> string \<Rightarrow> dict \<Rightarrow> json \<Rightarrow> dict" where
  "stream_chunk created model delta finish_reason =
     [(''id'', JStr ''chatcmpl_fake''), (''object'', JStr ''chat.completion.chunk''), (''created'', JInt created),
      (''model'', JStr model),
      (''choices'', JList [JDict [(''index'', JInt 0), (''delta'', JDict delta), (''finish_reason'', finish_reason)]])]"

definition text_delta :: "nat \<Rightarrow> string \<Rightarrow> dict" where
  "text_delta index chunk = (let delta = [(''content'', JStr chunk)] in
     if index = 0 then dset ''role'' (JStr ''assistant'') delta else delta)"

definition stream_payloads :: "int \<Rightarrow> string \<Rightarrow> string \<Rightarrow> dict list" where
  "stream_payloads created model text =
     map (\<lambda>(index, chunk). stream_chunk created model (text_delta index chunk) JNull) (enumerate 0 (split_text text)) @
     [stream_chunk created model [] (JStr ''stop'')]"

definition sse :: "string \<Rightarrow> string" where
  "sse data = ''data: '' @ data @ [CHR 0x0A, CHR 0x0A]"

definition chat_completion_stream :: "int \<Rightarrow> string \<Rightarrow> string \<Rightarrow> string list" where
  "chat_completion_stream created model text =
     map (sse \<circ> json_compact \<circ> JDict) (stream_payloads created model text) @ [sse ''[DONE]'']"

section \<open>Endpoints\<close>

datatype fake_reply = FakeJson int dict | FakeStream "string list"

definition models_payload :: "fake_settings \<Rightarrow> dict" where
  "models_payload st = [(''object'', JStr ''list''),
     (''data'', JList (map (\<lambda>m. JDict [(''id'', JStr m), (''object'', JStr ''model''), (''created'', JInt 0),
        (''owned_by'', JStr ''fake'')]) (fake_models st)))]"

definition chat_completion_response :: "int \<Rightarrow> string \<Rightarrow> string \<Rightarrow> dict \<Rightarrow> dict" where
  "chat_completion_response now model text payload =
     [(''id'', JStr ''chatcmpl_fake''), (''object'', JStr ''chat.completion''), (''created'', JInt now), (''model'', JStr model),
      (''choices'', JList [JDict [(''index'', JInt 0),
         (''message'', JDict [(''role'', JStr ''assistant''), (''content'', JStr text)]), (''finish_reason'', JStr ''stop'')]]),
      (''usage'', JDict (usage payload text))]"

definition fake_failure :: "headers \<Rightarrow> (int \<times> dict) option res" where
  "fake_failure hs = (case map_of hs ''x-fake-status-code'' of
       None \<Rightarrow> Inr None
     | Some raw \<Rightarrow> (case parse_int raw of
         None \<Rightarrow> Inl (ValueError ''invalid literal for int()'')
       | Some n \<Rightarrow> Inr (Some (n, [(''error'', JDict [(''type'', JStr ''fake_backend_error''),
           (''message'', JStr (''Forced fake backend status '' @ str_int n @ ''.''))])]))))"

text \<open>The milliseconds slept.\<close>

definition fake_delay :: "headers \<Rightarrow> int res" where
  "fake_delay hs = (case map_of hs ''x-fake-delay-ms'' of
       None \<Rightarrow> Inr 0
     | Some raw \<Rightarrow> (case parse_int raw of
         None \<Rightarrow> Inl (ValueError ''invalid literal for int()'') | Some n \<Rightarrow> Inr (max 0 n)))"

text \<open>\<open>settings.models[0]\<close> of an empty list is an IndexError, which is a LookupError.\<close>

definition fake_model :: "fake_settings \<Rightarrow> dict \<Rightarrow> string res" where
  "fake_model st payload =
     (if truthy (dget payload ''model'') then Inr (py_str (dget payload ''model''))
      else (case fake_models st of [] \<Rightarrow> Inl (LookupError ''list index out of range'') | m # _ \<Rightarrow> Inr m))"

text \<open>What the four POST endpoints do before their answer.\<close>

definition fake_endpoint ::
  "fake_settings \<Rightarrow> headers \<Rightarrow> json res \<Rightarrow> (dict \<Rightarrow> string \<Rightarrow> fake_reply) \<Rightarrow> fake_reply res" where
  "fake_endpoint st hs body answer = bind_res (fake_failure hs) (\<lambda>failure. case failure of
       Some (code, error) \<Rightarrow> Inr (FakeJson code error)
     | None \<Rightarrow> bind_res (fake_delay hs) (\<lambda>_. bind_res body (\<lambda>payload. case payload of
         JDict d \<Rightarrow> bind_res (fake_model st d) (\<lambda>model. Inr (answer d model))
       | _ \<Rightarrow> Inl AttributeError)))"

definition chat_completions :: "fake_settings \<Rightarrow> int \<Rightarrow> headers \<Rightarrow> json res \<Rightarrow> fake_reply res" where
  "chat_completions st now hs body = fake_endpoint st hs body (\<lambda>payload model.
     let text = response_text st hs payload in
     if truthy (dget payload ''stream'') then FakeStream (chat_completion_stream now model text)
     else FakeJson 200 (chat_completion_response now model text payload))"

definition responses :: "fake_settings \<Rightarrow> int \<Rightarrow> headers \<Rightarrow> json res \<Rightarrow> fake_reply res" where
  "responses st now hs body = fake_endpoint st hs body (\<lambda>payload model.
     let text = response_text st hs payload in
     FakeJson 200 [(''id'', JStr ''resp_fake''), (''object'', JStr ''response''), (''created_at'', JInt now), (''model'', JStr model),
       (''output'', JList [JDict [(''type'', JStr ''message''), (''role'', JStr ''assistant''),
          (''content'', JList [JDict [(''type'', JStr ''output_text''), (''text'', JStr text)]])]]),
       (''usage'', JDict (usage payload text))])"

definition completions :: "fake_settings \<Rightarrow> int \<Rightarrow> headers \<Rightarrow> json res \<Rightarrow> fake_reply res" where
  "completions st now hs body = fake_endpoint st hs body (\<lambda>payload model.
     let text = response_text st hs payload in
     FakeJson 200 [(''id'', JStr ''cmpl_fake''), (''object'', JStr ''text_completion''), (''created'', JInt now), (''model'', JStr model),
       (''choices'', JList [JDict [(''index'', JInt 0), (''text'', JStr text), (''finish_reason'', JStr ''stop'')]]),
       (''usage'', JDict (usage payload text))])"

definition embeddings :: "fake_settings \<Rightarrow> headers \<Rightarrow> json res \<Rightarrow> fake_reply res" where
  "embeddings st hs body = fake_endpoint st hs body (\<lambda>payload model.
     FakeJson 200 [(''object'', JStr ''list''), (''model'', JStr model),
       (''data'', JList [JDict [(''object'', JStr ''embedding''), (''index'', JInt 0),
          (''embedding'', JList (map json_of_flt [fl (1 / 10), fl (2 / 10), fl (3 / 10)]))]]),
       (''usage'', JDict [(''prompt_tokens'', JInt (estimated_tokens (JDict payload))), (''total_tokens'', JInt 3)])])"

section \<open>The stream\<close>

lemma pairs_concat: "concat (pairs s) = s"
  by (induction s rule: pairs.induct) simp_all

lemma split_text_concat: "concat (split_text s) = s"
  by (simp add: split_text_def pairs_concat)

text \<open>What a client reads from a chunk.\<close>

definition delta_content :: "dict \<Rightarrow> string" where
  "delta_content payload = (case dget payload ''choices'' of
       JList (JDict choice # _) \<Rightarrow> (case dget choice ''delta'' of
           JDict delta \<Rightarrow> (case dget delta ''content'' of JStr s \<Rightarrow> s | _ \<Rightarrow> [])
         | _ \<Rightarrow> [])
     | _ \<Rightarrow> [])"

lemma delta_content_chunk: "delta_content (stream_chunk c m (text_delta i s) f) = s"
  by (simp add: delta_content_def stream_chunk_def text_delta_def Let_def)

lemma delta_content_stop: "delta_content (stream_chunk c m [] f) = []"
  by (simp add: delta_content_def stream_chunk_def)

lemma stream_contents: "concat (map delta_content (stream_payloads created model text)) = text"
proof -
  have "map delta_content (map (\<lambda>(i, s). stream_chunk created model (text_delta i s) JNull) (enumerate n xs)) = xs" for n xs
    by (induction xs arbitrary: n) (simp_all add: delta_content_chunk)
  then show ?thesis by (simp add: stream_payloads_def delta_content_stop split_text_concat del: map_map)
qed

text \<open>No event contains a line break, so the lines of the stream are the events with a blank line after each.\<close>

lemma hex_digit_line: "n < 16 \<Longrightarrow> CHR 0x0A \<noteq> hex_digit n"
proof
  assume "n < 16" "CHR 0x0A = hex_digit n"
  then have "(of_char (CHR 0x0A) :: nat) = of_char (hex_digit n)" by simp
  with \<open>n < 16\<close> show False by (simp add: hex_digit_def split: if_splits)
qed

lemma json_char_line: "CHR 0x0A \<notin> set (json_char c)" "CHR 0x0A \<notin> set (ascii_char c)"
proof -
  have hex: "CHR 0x0A \<noteq> hex_digit (of_char c div 16)" "CHR 0x0A \<noteq> hex_digit (of_char c mod 16)"
    by (rule hex_digit_line, simp add: less_mult_imp_div_less)+
  have bslash: "CHR 0x0A \<noteq> char_of (92 :: nat)" by code_simp
  show "CHR 0x0A \<notin> set (json_char c)"
    using hex bslash by (auto simp: json_char_def Let_def split: if_splits)
  then show "CHR 0x0A \<notin> set (ascii_char c)"
    using hex by (auto simp: ascii_char_def Let_def)
qed

lemma ascii_str_line: "CHR 0x0A \<notin> set (ascii_str s)"
  using json_char_line(2) by (auto simp: ascii_str_def)

lemma str_int_line: "CHR 0x0A \<notin> set (str_int n)"
  by (auto dest!: str_int_chars simp: is_digit_def)

lemma chunk_line:
  assumes "\<forall>kv\<in>set delta. \<exists>s. snd kv = JStr s" "f = JNull \<or> (\<exists>s. f = JStr s)"
  shows "CHR 0x0A \<notin> set (json_compact (JDict (stream_chunk created model delta f)))"
proof -
  have "CHR 0x0A \<notin> set (join '','' (map (\<lambda>kv. ascii_str (fst kv) @ '':'' @ json_compact (snd kv)) delta))"
    using assms(1) ascii_str_line by (fastforce dest!: join_set)
  then show ?thesis
    using assms(2) ascii_str_line str_int_line by (auto simp: stream_chunk_def)
qed

lemma stream_payload_lines:
  assumes "p \<in> set (stream_payloads created model text)"
  shows "CHR 0x0A \<notin> set (json_compact (JDict p))"
proof -
  from assms obtain delta f where "p = stream_chunk created model delta f"
      "\<forall>kv\<in>set delta. \<exists>s. snd kv = JStr s" "f = JNull \<or> (\<exists>s. f = JStr s)"
    by (fastforce simp: stream_payloads_def text_delta_def Let_def split: if_splits)
  then show ?thesis using chunk_line by simp
qed

lemma sse_lines:
  "\<forall>d\<in>set ds. CHR 0x0A \<notin> set d \<Longrightarrow>
     split_on (CHR 0x0A) (concat (map sse ds)) = concat (map (\<lambda>d. [''data: '' @ d, []]) ds) @ [[]]"
proof (induction ds)
  case (Cons d ds)
  have "split_on (CHR 0x0A) (concat (map sse (d # ds))) =
      split_on (CHR 0x0A) ((''data: '' @ d) @ CHR 0x0A # ([] @ CHR 0x0A # concat (map sse ds)))"
    by (simp add: sse_def)
  also have "\<dots> = (''data: '' @ d) # [] # split_on (CHR 0x0A) (concat (map sse ds))"
    using Cons.prems by (subst split_on_append) simp_all
  finally show ?case using Cons by simp
qed simp

text \<open>A streamed completion, whatever its text and model are, is a sequence of events of one line each that ends with
  the event that says it is done; the contents of its chunks are the text, put together.\<close>

theorem streamed_chunks_make_the_text:
  "split_on (CHR 0x0A) (concat (chat_completion_stream created model text)) =
     concat (map (\<lambda>p. [''data: '' @ json_compact (JDict p), []]) (stream_payloads created model text)) @
     [''data: [DONE]'', [], []] \<and>
   concat (map delta_content (stream_payloads created model text)) = text"
proof -
  let ?ds = "map (json_compact \<circ> JDict) (stream_payloads created model text) @ [''[DONE]'']"
  have "concat (chat_completion_stream created model text) = concat (map sse ?ds)"
    by (simp add: chat_completion_stream_def o_assoc)
  moreover have "\<forall>d\<in>set ?ds. CHR 0x0A \<notin> set d" using stream_payload_lines by auto
  ultimately have "split_on (CHR 0x0A) (concat (chat_completion_stream created model text)) =
      concat (map (\<lambda>d. [''data: '' @ d, []]) ?ds) @ [[]]" using sse_lines by metis
  then show ?thesis by (simp add: stream_contents o_def)
qed

end
