(* ===== verification/Fake_Properties.thy ===== *)
theory Fake_Properties
  imports Fake_Backend Lifecycle_Runtime Executor_Properties
begin

text \<open>
  The fake backend seen by the services that use it: the health check reads its models and completions, the lifecycle
  service verifies it as a backend, and the executor completes a task with its answer. The two requests the
  services send are \<open>completion_request\<close> (\<open>lmstudio_client.py\<close>) and \<open>task_request\<close> (\<open>execute_stored_task\<close>).
\<close>

section \<open>Requests\<close>

definition completion_request :: "string \<Rightarrow> string \<Rightarrow> int \<Rightarrow> dict" where
  "completion_request model prompt max_tokens =
     [(''model'', JStr model), (''messages'', JList [JDict [(''role'', JStr ''user''), (''content'', JStr prompt)]]),
      (''temperature'', JInt 0), (''max_tokens'', JInt max_tokens)]"


section \<open>Answers\<close>

text \<open>How an answer of the fake backend arrives at a client that reads JSON, and at the executor. What
  \<open>json.loads\<close> makes of a body that is no JSON is an error.\<close>

definition not_json :: "json res" where "not_json = Inl (JSONDecodeError ''Expecting value'')"

definition fake_answer :: "fake_reply res \<Rightarrow> http_reply" where
  "fake_answer r = (case r of
       Inr (FakeJson code d) \<Rightarrow> Reply code (Inr (JDict d))
     | Inr (FakeStream _) \<Rightarrow> Reply 200 not_json
     | Inl _ \<Rightarrow> Reply 500 not_json)"


section \<open>The health check and the lifecycle service\<close>

lemma fake_models_named: "m \<in> set (fake_models st) \<Longrightarrow> m \<noteq> []"
  by (auto simp: fake_models_def)

lemma model_ids_fake:
  "(\<forall>m\<in>set ms. m \<noteq> []) \<Longrightarrow>
     model_ids (map (\<lambda>m. JDict [(''id'', JStr m), (''object'', JStr ''model''), (''created'', JInt 0), (''owned_by'', JStr ''fake'')]) ms) = ms"
  by (induction ms) (auto simp: Let_def py_or_def)

definition models_answer :: "fake_settings \<Rightarrow> http_reply" where
  "models_answer st = Reply 200 (Inr (JDict (models_payload st)))"

lemma listed_by_the_health_check: "list_models (models_answer st) = Inr (fake_models st)"
  using model_ids_fake [of "fake_models st"] fake_models_named [of _ st]
  by (simp add: list_models_def models_answer_def client_post_json_def raise_for_status_def models_payload_def dget_or_def)

lemma openai_ids_fake:
  "concat (map (\<lambda>x. case x of JDict i \<Rightarrow> if dget i ''id'' \<noteq> JNull then [py_str (dget i ''id'')] else [] | _ \<Rightarrow> [])
     (map (\<lambda>m. JDict [(''id'', JStr m), (''object'', JStr ''model''), (''created'', JInt 0), (''owned_by'', JStr ''fake'')]) ms)) = ms"
  by (induction ms) simp_all

lemma listed_by_the_lifecycle_service:
  "model_ids_from_openai_payload (JDict (models_payload st)) = Inr (fake_models st)"
  using openai_ids_fake by (simp add: model_ids_from_openai_payload_def models_payload_def dget_or_def)

lemma completion_read:
  "chat_completion (Reply 200 (Inr (JDict (chat_completion_response now model text payload)))) =
     Inr \<lparr>co_id = JStr ''chatcmpl_fake'', co_model = JStr model, co_content = text\<rparr>"
  by (cases "text") (simp_all add: chat_completion_def client_post_json_def raise_for_status_def chat_completion_response_def
      dget_or_def first_choice_def choice_content_def py_or_def)

text \<open>A chat request without the headers that steer the fake backend.\<close>

definition plain_headers :: "headers \<Rightarrow> bool" where
  "plain_headers hs \<longleftrightarrow> map_of hs ''x-fake-status-code'' = None \<and> map_of hs ''x-fake-delay-ms'' = None \<and>
     map_of hs ''x-fake-response-text'' = None"

lemma plain_chat:
  assumes "plain_headers hs" "dget payload ''model'' = JStr model" "model \<noteq> []"
  shows "chat_completions st now hs (Inr (JDict payload)) =
    (let text = response_text st hs payload in
     Inr (if truthy (dget payload ''stream'') then FakeStream (chat_completion_stream now model text)
       else FakeJson 200 (chat_completion_response now model text payload)))"
  using assms
  by (simp add: chat_completions_def fake_endpoint_def fake_failure_def fake_delay_def fake_model_def plain_headers_def Let_def)

text \<open>Pointed at the fake backend, the health check is ready exactly when the fake backend lists the expected
  model and its text is not blank, and the lifecycle service accepts exactly the models it lists.\<close>

theorem the_fake_backend_is_a_healthy_backend:
  assumes "plain_headers hs" "public \<noteq> []" "hs_enable_litellm_path_check st"
    and "en_models env = models_answer fk"
    and "en_completion env = fake_answer (chat_completions fk now hs (Inr (JDict (completion_request public prompt n))))"
    and "p_runtime p \<in> {''lmstudio'', ''openai-compatible'', ''external''}" "p_base_url p = Some url" "url \<noteq> []"
  shows "(\<exists>code d. health_ready st env = Inr (code, d) \<and>
      code = (if hs_lmstudio_model_id st \<in> set (fake_models fk) \<and> strip (fk_response_text fk) \<noteq> [] then 200 else 503)) \<and>
    (verify_model_available (models_answer fk) p = Inr () \<longleftrightarrow> p_backend_model p \<in> set (fake_models fk))"
proof -
  have model: "dget (completion_request public prompt n) ''model'' = JStr public"
    by (simp add: completion_request_def)
  have said: "response_text fk hs (completion_request public prompt n) = fk_response_text fk"
    using assms(1) by (simp add: response_text_def plain_headers_def completion_request_def)
  have completion: "chat_completion (en_completion env) =
      Inr \<lparr>co_id = JStr ''chatcmpl_fake'', co_model = JStr public, co_content = fk_response_text fk\<rparr>"
    unfolding assms(5) plain_chat [OF assms(1) model assms(2)] said
    using completion_read by (simp add: completion_request_def fake_answer_def Let_def)
  have listed: "list_models (en_models env) = Inr (fake_models fk)"
    unfolding assms(4) by (rule listed_by_the_health_check)
  have "\<exists>code d. health_ready st env = Inr (code, d) \<and> code \<in> {200, 503} \<and>
    (code = 200 \<longleftrightarrow> (\<exists>ids. list_models (en_models env) = Inr ids \<and> hs_lmstudio_model_id st \<in> set ids) \<and>
      (hs_enable_litellm_path_check st \<longrightarrow>
         (\<exists>c. chat_completion (en_completion env) = Inr c \<and> strip (co_content c) \<noteq> [])))"
    by (rule ready_means_every_check_passed) (simp_all add: completion listed)
  then have "\<exists>code d. health_ready st env = Inr (code, d) \<and>
      code = (if hs_lmstudio_model_id st \<in> set (fake_models fk) \<and> strip (fk_response_text fk) \<noteq> [] then 200 else 503)"
    using assms(3) by (auto simp: completion listed)
  moreover have "verify_model_available (models_answer fk) p = Inr () \<longleftrightarrow> p_backend_model p \<in> set (fake_models fk)"
    using assms(6-8) listed_by_the_lifecycle_service [of fk]
    by (auto simp: verify_model_available_def models_answer_def client_post_json_def raise_for_status_def)
  ultimately show ?thesis by blast
qed

section \<open>The executor\<close>





section \<open>Samples\<close>

definition sample_fake :: fake_settings where
  "sample_fake = \<lparr>fk_model_ids = ''m, other'', fk_response_text = ''fine''\<rparr>"

lemma sample_fake_models: "fake_models sample_fake = [''m'', ''other'']"
  by code_simp

theorem the_fake_backend_is_a_healthy_backend_witness:
  "\<exists>d. health_ready \<lparr>hs_service_name = ''healthcheck'', hs_lmstudio_model_id = ''other'', hs_enable_litellm_path_check = True\<rparr>
     \<lparr>en_latency_models = JInt 0, en_latency_completion = JInt 0, en_latency = JInt 0, en_models = models_answer sample_fake,
      en_completion = fake_answer (chat_completions sample_fake 7 [] (Inr (JDict (completion_request ''m'' ''hi'' 8))))\<rparr> = Inr (200, d)"
proof -
  let ?env = "\<lparr>en_latency_models = JInt 0, en_latency_completion = JInt 0, en_latency = JInt 0, en_models = models_answer sample_fake,
      en_completion = fake_answer (chat_completions sample_fake 7 [] (Inr (JDict (completion_request ''m'' ''hi'' 8))))\<rparr>"
  let ?p = "undefined\<lparr>p_runtime := ''external'', p_base_url := Some ''u''\<rparr> :: model_profile"
  have "strip ''fine'' = ''fine''" by code_simp
  then show ?thesis
    using the_fake_backend_is_a_healthy_backend [of "[]" "''m''" "\<lparr>hs_service_name = ''healthcheck'',
        hs_lmstudio_model_id = ''other'', hs_enable_litellm_path_check = True\<rparr>" ?env sample_fake 7 "''hi''" 8 ?p "''u''"]
    by (simp add: plain_headers_def sample_fake_models) (simp add: sample_fake_def)
qed





end
