(* ===== verification/Spec2Isabelle.thy ===== *)
theory Spec2Isabelle
  imports Task_Properties Executor_Properties Proxy_Properties Lifecycle_Properties Postgres_Properties
    Api_Properties Gpu_Properties Client_Properties Metrics_Properties Bridge_Properties Healthcheck
    Lifecycle_Wait Lifecycle_Interleaving Lifecycle_Http Forwarder Fake_Properties
begin

text \<open>
  The orchestrator keeps a group of locally served language models busy. Clients send OpenAI-style
  requests or batches of durable tasks to the queue proxy (\<open>services/queue_proxy\<close>); the lifecycle service
  (\<open>services/lifecycle\<close>) decides which backends run on which GPU; the proxy asks it for backends,
  leases them, and tells it what is queued. Around them stand the GPU inventory, a health check, a bridge to the LM Studio
  command line on the host, a fake backend for tests, and a client library with the command line tool \<open>llmoctl\<close>. This development models
  these programs, with the part of Python they are written in, and proves what makes them correct; the places where
  they are not are theorems too.

  \<^bold>\<open>Python.\<close> \<open>Py_Prelude\<close>: exceptions and the sum type \<open>'a res\<close> (Inl an exception, Inr a value), JSON values,
  dictionaries as association lists in insertion order, strings (code points below 256), integers and
  their text, \<open>str\<close>, \<open>repr\<close>, \<open>json.dumps\<close>, grouping and counting. \<open>Py_Float\<close>: binary64 floats as rationals
  rounded once per operation. \<open>Py_Time\<close>: ISO time stamps; an instant is a number of microseconds. \<open>Py_Calendar\<close>: the
  calendar is a bijection, and time stamps order as the instants they show.

  \<^bold>\<open>The task queue\<close> (\<open>queue_proxy/task_queue.py\<close>). \<open>Task_Model\<close>: QueueTask, StoredTask, their dictionaries.
  \<open>Task_Parse\<close>: templates, token estimates, \<open>parse_task_queue_payload\<close>. \<open>Context_Plan\<close>: context buckets and the plan
  of a model's queue. \<open>Task_Store\<close>: InMemoryTaskStore and its invariant \<open>store_inv\<close>. \<open>Task_Fairness\<close>: which task
  \<open>claim_next\<close> takes. \<open>Task_Contract\<close>: the protocol TaskStore as the locale \<open>task_store\<close>, interpreted on the
  memory store and on JsonFileTaskStore, whose file is part of its state.

  \<^bold>\<open>The PostgreSQL store\<close> (\<open>queue_proxy/postgres_task_store.py\<close>). \<open>Postgres_Store\<close>: the schema version, the table as a
  list of rows in the order of insertion, and each method as a function on it, the rows other workers have
  locked included. \<open>Postgres_Refinement\<close>: the fairness query chooses the task \<open>claim_next\<close> chooses.
  \<open>Postgres_Simulation\<close>: \<open>represents\<close> ties a table to a memory store, and every method keeps it and answers alike.
  \<open>Postgres_Properties\<close>: the locale \<open>call_refinement\<close> lifts this to sequences of calls, interpreted on the two stores.

  \<^bold>\<open>The task API\<close> (\<open>queue_proxy/main.py\<close>). \<open>Task_Api\<close>: the handlers that submit, list, explain, show and cancel tasks over any
  store of the protocol, with authentication, tenants, and the delayed reconciliation of an empty queue.
  \<open>Metrics\<close> (\<open>metrics.py\<close>): the recorders, the gauges of the task counts and the text format.

  \<^bold>\<open>The executor\<close> (\<open>queue_proxy/main.py\<close>). \<open>Task_Executor\<close>: a turn of \<open>task_executor_loop\<close> with every branch.
  \<open>Task_System\<close>: the loop interleaved with submissions and cancellations as the step relation \<open>exec_step\<close> over any
  store that satisfies the contract, and the abstract life cycle \<open>abs_step\<close> it refines.

  \<^bold>\<open>The proxy path.\<close> \<open>Policy\<close> (\<open>policy.py\<close>, \<open>orchestrator_core/config.py\<close>): configuration, admission policies, token
  budgets, the orchestration contract. \<open>Limiter\<close> (\<open>limiter.py\<close>): the per-model limiter, requests interleaved as
  \<open>lim_step\<close>. \<open>Backend_Client\<close> (\<open>backend_registry.py\<close>, \<open>routing.py\<close>, \<open>http_proxy.py\<close>): choice and leases of backends.
  \<open>Proxy\<close> (\<open>main.py\<close>, \<open>request_preparation.py\<close>, \<open>forwarder.py\<close>): \<open>forward_openai_path\<close> as the list of what it does.
  \<open>Forwarder\<close> (\<open>forwarder.py\<close>): the tasks and connections of a forwarded request on every way its wait can end.

  \<^bold>\<open>The lifecycle service.\<close> \<open>Lifecycle_Models\<close> (\<open>models.py\<close>), \<open>Lifecycle_Registry\<close> (\<open>registry.py\<close>, \<open>registry_store.py\<close>): the
  registry and its file, invariant \<open>registry_inv\<close>. \<open>Lifecycle_Scheduler\<close> (\<open>scheduler.py\<close>, \<open>dynamic_policy.py\<close>,
  \<open>allocation.py\<close>). \<open>Lifecycle_Cleanup\<close> (\<open>cleanup.py\<close>): the callback that stops an instance is the locale
  \<open>instance_stopper\<close>, interpreted in \<open>Lifecycle_Runtime\<close> (\<open>adapters.py\<close>, \<open>runtime.py\<close>) on \<open>stop_instance\<close>.
  \<open>Lifecycle_Config\<close> (\<open>config.py\<close>), \<open>Lifecycle_Lmstudio\<close> (\<open>lmstudio.py\<close>), \<open>Lifecycle_Planner\<close> and
  \<open>Lifecycle_Controller\<close> (\<open>controller.py\<close>, \<open>allocation_service.py\<close>, the handlers of \<open>main.py\<close>), where the judgement \<open>keeps\<close>
  carries the registry invariant through every action.

  \<open>Lifecycle_Wait\<close>: the loop that waits for a backend, which may not return. \<open>Lifecycle_Interleaving\<close>: the pieces of an
  allocation between its awaits, shown to compose to \<open>allocate\<close>, and allocations and leases interleaved as \<open>alloc_step\<close>, with the
  invariant \<open>loop_inv\<close>. \<open>Lifecycle_Http\<close> (\<open>main.py\<close>): the endpoints that show something, the metrics, the reconcile loop.

  \<^bold>\<open>Around them.\<close> \<open>Gpu_Inventory\<close> (\<open>services/gpu_inventory\<close>, \<open>orchestrator_core/prometheus.py\<close>): the reader of what
  \<open>nvidia-smi\<close> prints, with the CSV reader of the standard library as a state machine, and the handlers. \<open>Healthcheck\<close>
  (\<open>services/healthcheck\<close>): the readiness check and what it records. \<open>Lms_Bridge\<close> (\<open>services/lms_bridge\<close>): the bridge and the shim in front of it.
  \<open>Client\<close> (\<open>orchestrator_client/client.py\<close>, \<open>llmoctl.py\<close>): the request of every call and command, and how a command ends.
  \<open>Fake_Backend\<close> (\<open>services/fake_openai_backend\<close>): the endpoints, the forcing headers, the stream.

  \<^bold>\<open>What the theorems show.\<close> \<open>Task_Properties\<close>: submission, idempotence, fair claims, tenants, restart, parsing.
  \<open>Executor_Properties\<close>: retries and their bounds, refinement of the life cycle, and executions that lose or
  overwrite what was recorded. \<open>Proxy_Properties\<close>: budgets, limits, leases, routing. \<open>Lifecycle_Properties\<close>: plans,
  reloads, allocation, cleanup, leases, the registry. \<open>Postgres_Properties\<close>: the two stores answer alike; claims of
  concurrent workers. \<open>Api_Properties\<close>: what a tenant can observe, and that an accepted batch can be read back.
  \<open>Metrics_Properties\<close>: the gauges show the store. The components together: \<open>Client_Properties\<close>, from a command to the
  tasks the queue proxy lists; \<open>Gpu_Properties\<close>, from the printed GPUs to those the planner sees; \<open>Bridge_Properties\<close>, the
  lifecycle service's commands behind the shim; \<open>Fake_Properties\<close>, from a durable task through the executor to the
  completion of the backend and back; this theory, from the queued tasks to the backend's shape.

  \<^bold>\<open>What is assumed and bounded.\<close> No definition uses fuel; loops are structural or have a measure, and the one
  that may not return is a partial function whose return is a theorem. What is outside the
  source is an argument: clock readings, identifiers, hashes, the answers of HTTP calls and commands, the outcome of
  \<open>json.loads\<close> and \<open>yaml.safe_load\<close>, the order of iteration over a set. Strings are limited to Latin-1. A
  naive time stamp is read as UTC, the zone of the containers. Apart from allocations, an operation of the lifecycle
  controller is one step. The interleaved allocations get unused identifiers for new backends, profiles whose memory is
  not negative, and a bound on the free memory the inventory reports. A PostgreSQL session shows times in UTC and compares texts by code points
  where a theorem says so; a method's statements are one transaction, concurrent ones seen through the rows they have
  locked; that the server accepts the types of the statements' parameters is taken for granted.

  \<^bold>\<open>Not modelled.\<close> Environment settings (read and validated by pydantic), log formatting and the start and stop hooks of
  the services, which decide nothing; the chunks and headers a forwarded response passes through; \<open>GET /models\<close> of the lifecycle
  service, which shows the profiles as they are; the Prometheus client where it is installed; the parsing of the command line
  by \<open>argparse\<close>; index creation in PostgreSQL; \<open>finish_upstream_response\<close> and the limiter's \<open>slot\<close>, which nothing calls.
\<close>

section \<open>From the queued tasks to the shape of the backend\<close>

lemma planned_entries:
  assumes "context_plan_for_model tasks = Inr plan"
  defines "longest \<equiv> max_default 0 (map t_required_context_tokens tasks)"
  shows "\<exists>requested cap. dget plan ''queued_tasks'' = JInt (int (length tasks)) \<and>
     dget plan ''max_required_context_tokens'' = JInt longest \<and>
     dget plan ''recommended_lms_context_length'' = JInt (capped cap (context_bucket longest)) \<and>
     dget plan ''recommended_lms_parallel'' = JInt (max 1 (min (int (length tasks)) requested)) \<and>
     dget plan ''context_cap_tokens'' = opt_int cap \<and> 1 \<le> requested \<and> (\<forall>c. cap = Some c \<longrightarrow> 1 \<le> c)"
  apply (rule context_plan_entries [OF assms(1)])
  subgoal for requested cap
    unfolding longest_def
    by (rule exI [of _ requested], rule exI [of _ cap], intro conjI allI impI, assumption+) (blast dest: context_cap_pos)
  done

text \<open>The plan as the lifecycle service reads it.\<close>

lemma plan_read_back:
  assumes "context_plan_for_model tasks = Inr plan"
  defines "longest \<equiv> max_default 0 (map t_required_context_tokens tasks)"
  shows "\<exists>cp requested. context_plan_from_dict plan = Inr cp \<and> cp_queued_tasks cp = int (length tasks) \<and>
     cp_max_required cp = longest \<and> cp_recommended_length cp = Some (capped (cp_cap cp) (context_bucket longest)) \<and>
     cp_recommended_parallel cp = Some (max 1 (min (int (length tasks)) requested)) \<and>
     (\<forall>c. cp_cap cp = Some c \<longrightarrow> 1 \<le> c) \<and>
     set (cp_oversized cp) = t_job_id ` {t\<in>set tasks. oversized_task (cp_cap cp) t}"
proof -
  obtain requested cap where w: "dget plan ''max_required_context_tokens'' = JInt longest"
     "dget plan ''recommended_lms_context_length'' = JInt (capped cap (context_bucket longest))"
     "dget plan ''recommended_lms_parallel'' = JInt (max 1 (min (int (length tasks)) requested))"
     "dget plan ''context_cap_tokens'' = opt_int cap" "\<forall>c. cap = Some c \<longrightarrow> 1 \<le> c"
    using planned_entries [OF assms(1)] unfolding longest_def by (elim exE conjE) blast
  obtain cp where r: "context_plan_from_dict plan = Inr cp" "cp_queued_tasks cp = int (length tasks)"
     "set (cp_oversized cp) = t_job_id ` {t\<in>set tasks. oversized_task (cp_cap cp) t}"
     "dget plan ''max_required_context_tokens'' = JInt (cp_max_required cp)"
     "dget plan ''recommended_lms_context_length'' = opt_int (cp_recommended_length cp)"
     "dget plan ''recommended_lms_parallel'' = opt_int (cp_recommended_parallel cp)"
     "dget plan ''context_cap_tokens'' = opt_int (cp_cap cp)"
    using plan_received [OF assms(1)] by (elim exE conjE) blast
  note both = trans [OF w(1) [symmetric] r(4)] trans [OF w(2) [symmetric] r(5)] trans [OF w(3) [symmetric] r(6)]
    trans [OF w(4) [symmetric] r(7)]
  have "cp_max_required cp = longest" "cp_cap cp = cap"
    "cp_recommended_length cp = Some (capped cap (context_bucket longest))"
    "cp_recommended_parallel cp = Some (max 1 (min (int (length tasks)) requested))"
    using both by (auto simp: opt_int_def split: option.splits)
  with r(1-3) w(5) show ?thesis by (intro exI [of _ cp] exI [of _ requested]) simp
qed

text \<open>The recommended length holds every task that is not above the cap.\<close>

lemma capped_bucket_fits:
  assumes "t \<in> set tasks"
  shows "t_required_context_tokens t \<le> capped cap (context_bucket (max_default 0 (map t_required_context_tokens tasks))) \<or>
    oversized_task cap t"
proof -
  have "t_required_context_tokens t \<le> max_default 0 (map t_required_context_tokens tasks)"
    using assms by (intro max_default_ge) simp
  also have "\<dots> \<le> context_bucket (max_default 0 (map t_required_context_tokens tasks))" by (rule context_bucket_fits)
  finally show ?thesis by (auto simp: capped_def oversized_task_def split: option.split)
qed

lemma capped_bucket_pos: "\<forall>c. cap = Some c \<longrightarrow> 1 \<le> c \<Longrightarrow> 1 \<le> capped cap (context_bucket n)"
  using context_bucket_fits(2) [of n] by (auto simp: capped_def split: option.split)

text \<open>C31: the context plan the queue proxy computes for the queued tasks of a model reaches the lifecycle
  service: it is read without error, the profile a backend is then started with holds the context of
  every task that is not reported as oversized, and runs at most as many slots as there are tasks.
  When no task is oversized, a backend of that shape is never too small for them.\<close>

theorem planned_context_fits_the_tasks:
  assumes "context_plan_for_model tasks = Inr plan" "tasks \<noteq> []"
  shows "\<exists>cp len par. context_plan_from_dict plan = Inr cp \<and>
     p_lms_context_length (profile_with_context_plan p (Some cp)) = Some len \<and>
     p_lms_parallel (profile_with_context_plan p (Some cp)) = Some par \<and>
     1 \<le> par \<and> par \<le> int (length tasks) \<and>
     (\<forall>t\<in>set tasks. t_required_context_tokens t \<le> len \<or> t_job_id t \<in> set (cp_oversized cp)) \<and>
     (cp_oversized cp = [] \<longrightarrow> \<not> too_small (Some len) (profile_with_context_plan p (Some cp)) cp)"
proof -
  let ?max = "max_default 0 (map t_required_context_tokens tasks)"
  obtain cp requested where cp: "context_plan_from_dict plan = Inr cp" "cp_queued_tasks cp = int (length tasks)"
    "cp_max_required cp = ?max" "cp_recommended_length cp = Some (capped (cp_cap cp) (context_bucket ?max))"
    "cp_recommended_parallel cp = Some (max 1 (min (int (length tasks)) requested))"
    "\<forall>c. cp_cap cp = Some c \<longrightarrow> 1 \<le> c" "set (cp_oversized cp) = t_job_id ` {t\<in>set tasks. oversized_task (cp_cap cp) t}"
    using plan_read_back [OF assms(1)] by (elim exE conjE)
  define len where "len = capped (cp_cap cp) (context_bucket ?max)"
  have fits: "t_required_context_tokens t \<le> len \<or> oversized_task (cp_cap cp) t" if "t \<in> set tasks" for t
    using capped_bucket_fits [OF that] by (simp add: len_def)
  have "?max \<le> len" if "cp_oversized cp = []"
  proof -
    obtain t where t: "t \<in> set tasks" "t_required_context_tokens t = ?max"
      using max_default_in [of "map t_required_context_tokens tasks" 0] assms(2) by auto
    with that cp(7) fits [of t] show ?thesis by auto
  qed
  moreover have "p_lms_context_length (profile_with_context_plan p (Some cp)) = Some len"
    "p_lms_parallel (profile_with_context_plan p (Some cp)) = Some (max 1 (min (int (length tasks)) requested))"
    using assms(2) cp(2,4,5) capped_bucket_pos [OF cp(6), of ?max]
    by (auto simp: profile_with_context_plan_def nonzero_def len_def)
  moreover have "1 \<le> int (length tasks)" using assms(2) by (cases tasks) auto
  ultimately show ?thesis
    using cp(1,3,7) fits
    by (intro exI [of _ cp] exI [of _ len] exI [of _ "max 1 (min (int (length tasks)) requested)"])
      (auto simp: too_small_def below_def)
qed

theorem planned_context_fits_the_tasks_witness:
  "\<exists>plan cp. context_plan_for_model [task1, task2] = Inr plan \<and> context_plan_from_dict plan = Inr cp \<and>
     p_lms_context_length (profile_with_context_plan (lc_profile ''m'' 8000) (Some cp)) \<noteq> None"
proof -
  have "case context_plan_for_model [task1, task2] of Inl _ \<Rightarrow> False | Inr _ \<Rightarrow> True" by code_simp
  then obtain plan where plan: "context_plan_for_model [task1, task2] = Inr plan" by (auto split: sum.splits)
  from planned_context_fits_the_tasks [OF plan, of "lc_profile ''m'' 8000"] plan show ?thesis by auto
qed

end
